(* ===== verification/Prelude.thy ===== *)
theory Prelude
  imports Main "HOL-Library.Word" "HOL-Library.Char_ord" "HOL-Library.List_Lexorder"
begin

text \<open>
  Shared vocabulary of the development: Rust strings as byte lists, fallible stateful calls as
  state-passing functions into a sum, ordered maps as sorted association lists, the mutable
  \<open>iter_mut().find\<close> idiom, and the word and float operations the sources use. The collections
  \<open>act_simps\<close> and \<open>act_rules\<close> carry the proofs about stateful code.
\<close>

named_theorems act_simps
named_theorems act_rules

section \<open>Machine integers\<close>

type_synonym u32 = "32 word"
type_synonym u64 = "64 word"
type_synonym uuid = "128 word"

text \<open>Rust's \<open>u64::saturating_add\<close> and \<open>u64::saturating_mul\<close>.\<close>

definition saturating_add64 :: "u64 \<Rightarrow> u64 \<Rightarrow> u64" where
  "saturating_add64 a b = (if unat a + unat b < 2 ^ 64 then a + b else - 1)"

definition saturating_mul64 :: "u64 \<Rightarrow> u64 \<Rightarrow> u64" where
  "saturating_mul64 a b = (if unat a * unat b < 2 ^ 64 then a * b else - 1)"

lemma unat_minus_one_64: "unat (- 1 :: u64) = 2 ^ 64 - 1"
  by (simp add: unsigned_minus_1_eq_mask mask_eq_exp_minus_1)

lemma unat_saturating_add64: "unat (saturating_add64 a b) = min (unat a + unat b) (2 ^ 64 - 1)"
proof (cases "unat a + unat b < 2 ^ 64")
  case True
  then show ?thesis by (simp add: saturating_add64_def unat_word_ariths)
next
  case False
  then show ?thesis by (simp add: saturating_add64_def unat_minus_one_64)
qed

lemma unat_saturating_mul64: "unat (saturating_mul64 a b) = min (unat a * unat b) (2 ^ 64 - 1)"
proof (cases "unat a * unat b < 2 ^ 64")
  case True
  then show ?thesis by (simp add: saturating_mul64_def unat_word_ariths)
next
  case False
  then show ?thesis by (simp add: saturating_mul64_def unat_minus_one_64)
qed

section \<open>64-bit floats as bit patterns\<close>

text \<open>
  The models carry an \<open>f64\<close> as its IEEE-754 bit pattern. Only comparison is computed here (it is
  determined by the bits): a NaN compares with nothing, the two zeros are equal, and otherwise
  the order is that of the signed magnitudes. Float arithmetic is left to parameters.
\<close>

type_synonym f64 = "64 word"

definition f64_magnitude :: "f64 \<Rightarrow> nat" where
  "f64_magnitude x = unat x mod 2 ^ 63"

definition f64_is_sign_negative :: "f64 \<Rightarrow> bool" where
  "f64_is_sign_negative x \<longleftrightarrow> 2 ^ 63 \<le> unat x"

definition f64_is_nan :: "f64 \<Rightarrow> bool" where
  "f64_is_nan x \<longleftrightarrow> 0x7FF0000000000000 < f64_magnitude x"

definition f64_key :: "f64 \<Rightarrow> int" where
  "f64_key x = (if f64_is_sign_negative x then - int (f64_magnitude x) else int (f64_magnitude x))"

definition f64_le :: "f64 \<Rightarrow> f64 \<Rightarrow> bool" where
  "f64_le x y \<longleftrightarrow> \<not> f64_is_nan x \<and> \<not> f64_is_nan y \<and> f64_key x \<le> f64_key y"

definition f64_less :: "f64 \<Rightarrow> f64 \<Rightarrow> bool" where
  "f64_less x y \<longleftrightarrow> \<not> f64_is_nan x \<and> \<not> f64_is_nan y \<and> f64_key x < f64_key y"

lemma f64_le_trans: "f64_le x y \<Longrightarrow> f64_le y z \<Longrightarrow> f64_le x z"
  by (simp add: f64_le_def)

lemma f64_not_le: "\<not> f64_is_nan x \<Longrightarrow> \<not> f64_is_nan y \<Longrightarrow> \<not> f64_le x y \<longleftrightarrow> f64_less y x"
  by (auto simp: f64_le_def f64_less_def)

lemma f64_nan_le [simp]: "f64_is_nan y \<Longrightarrow> \<not> f64_le x y"
  by (simp add: f64_le_def)

lemma f64_nan_less [simp]: "f64_is_nan x \<Longrightarrow> \<not> f64_less x y"
  by (simp add: f64_less_def)

section \<open>Rust strings\<close>

text \<open>
  A \<open>String\<close> or \<open>&str\<close> is the list of its UTF-8 bytes; Rust orders strings by these bytes, which
  is the lexicographic order the library installs on \<open>string\<close>.
\<close>

definition starts_with :: "string \<Rightarrow> string \<Rightarrow> bool" where
  "starts_with p s \<longleftrightarrow> take (length p) s = p"

lemma starts_with_iff: "starts_with p s \<longleftrightarrow> (\<exists>r. s = p @ r)"
  by (metis append_eq_conv_conj starts_with_def)

lemma starts_with_append [simp]: "starts_with p (p @ r)"
  by (simp add: starts_with_iff)

fun str_find :: "string \<Rightarrow> string \<Rightarrow> nat option" where
  "str_find p [] = (if p = [] then Some 0 else None)"
| "str_find p (c # cs) =
     (if starts_with p (c # cs) then Some 0 else map_option Suc (str_find p cs))"

fun str_join :: "string \<Rightarrow> string list \<Rightarrow> string" where
  "str_join sep [] = []"
| "str_join sep [x] = x"
| "str_join sep (x # y # xs) = x @ sep @ str_join sep (y # xs)"

text \<open>\<open>str::split\<close> and \<open>str::split_once\<close> at a character.\<close>

fun split_on :: "char \<Rightarrow> string \<Rightarrow> string list" where
  "split_on c [] = [[]]"
| "split_on c (x # xs) =
     (if x = c then [] # split_on c xs
      else case split_on c xs of [] \<Rightarrow> [[x]] | p # ps \<Rightarrow> (x # p) # ps)"

fun split_once :: "char \<Rightarrow> string \<Rightarrow> (string \<times> string) option" where
  "split_once c [] = None"
| "split_once c (x # xs) =
     (if x = c then Some ([], xs) else map_option (\<lambda>(a, b). (x # a, b)) (split_once c xs))"

lemma split_once_Some: "split_once c s = Some (a, b) \<longleftrightarrow> s = a @ c # b \<and> c \<notin> set a"
proof (induction s arbitrary: a)
  case (Cons x xs)
  show ?case
  proof (cases a)
    case (Cons y ys)
    have "split_once c (x # xs) = Some (y # ys, b) \<longleftrightarrow> x \<noteq> c \<and> y = x \<and> split_once c xs = Some (ys, b)" by auto
    with Cons Cons.IH [of ys] show ?thesis by auto
  qed auto
qed simp

definition strip_prefix :: "string \<Rightarrow> string \<Rightarrow> string option" where
  "strip_prefix p s = (if starts_with p s then Some (drop (length p) s) else None)"

definition strip_suffix :: "string \<Rightarrow> string \<Rightarrow> string option" where
  "strip_suffix p s = map_option rev (strip_prefix (rev p) (rev s))"

lemma split_on_append: "split_on c (a @ c # b) = split_on c a @ split_on c b"
proof (induction a)
  case (Cons x a)
  have "split_on c s \<noteq> []" for s by (induction s) (auto split: list.split)
  with Cons show ?case by (auto split: list.split)
qed simp

lemma split_on_plain: "c \<notin> set s \<Longrightarrow> split_on c s = [s]"
  by (induction s) auto

definition is_ascii_alphanumeric :: "char \<Rightarrow> bool" where
  "is_ascii_alphanumeric c \<longleftrightarrow>
     (CHR ''0'' \<le> c \<and> c \<le> CHR ''9'') \<or> (CHR ''A'' \<le> c \<and> c \<le> CHR ''Z'')
     \<or> (CHR ''a'' \<le> c \<and> c \<le> CHR ''z'')"

definition is_ascii_digit :: "char \<Rightarrow> bool" where
  "is_ascii_digit c \<longleftrightarrow> CHR ''0'' \<le> c \<and> c \<le> CHR ''9''"

definition is_ascii_uppercase :: "char \<Rightarrow> bool" where
  "is_ascii_uppercase c \<longleftrightarrow> CHR ''A'' \<le> c \<and> c \<le> CHR ''Z''"

definition to_ascii_lower :: "char \<Rightarrow> char" where
  "to_ascii_lower c = (if is_ascii_uppercase c then char_of (of_char c + 32 :: nat) else c)"

definition eq_ignore_ascii_case :: "string \<Rightarrow> string \<Rightarrow> bool" where
  "eq_ignore_ascii_case a b \<longleftrightarrow> map to_ascii_lower a = map to_ascii_lower b"

text \<open>\<open>str::is_char_boundary\<close>: not inside a multi-byte character.\<close>

definition is_continuation_byte :: "char \<Rightarrow> bool" where
  "is_continuation_byte c \<longleftrightarrow> 128 \<le> (of_char c :: nat) \<and> (of_char c :: nat) < 192"

definition is_char_boundary :: "string \<Rightarrow> nat \<Rightarrow> bool" where
  "is_char_boundary s i \<longleftrightarrow>
     i = 0 \<or> i = length s \<or> (i < length s \<and> \<not> is_continuation_byte (s ! i))"

text \<open>The characters of Unicode's \<open>White_Space\<close>, which \<open>str::trim\<close> removes, in UTF-8.\<close>

definition white_space :: "string list" where
  "white_space = map (map char_of)
     [[0x09::nat], [0x0A], [0x0B], [0x0C], [0x0D], [0x20], [0xC2, 0x85], [0xC2, 0xA0],
      [0xE1, 0x9A, 0x80], [0xE2, 0x80, 0x80], [0xE2, 0x80, 0x81], [0xE2, 0x80, 0x82],
      [0xE2, 0x80, 0x83], [0xE2, 0x80, 0x84], [0xE2, 0x80, 0x85], [0xE2, 0x80, 0x86],
      [0xE2, 0x80, 0x87], [0xE2, 0x80, 0x88], [0xE2, 0x80, 0x89], [0xE2, 0x80, 0x8A],
      [0xE2, 0x80, 0xA8], [0xE2, 0x80, 0xA9], [0xE2, 0x80, 0xAF], [0xE2, 0x81, 0x9F],
      [0xE3, 0x80, 0x80]]"

function trim_start :: "string list \<Rightarrow> string \<Rightarrow> string" where
  "trim_start ws s =
     (case find (\<lambda>w. w \<noteq> [] \<and> starts_with w s) ws of
        None \<Rightarrow> s
      | Some w \<Rightarrow> trim_start ws (drop (length w) s))"
  by pat_completeness auto
termination
  by (relation "measure (\<lambda>(ws, s). length s)") (auto simp: find_Some_iff starts_with_iff)

declare trim_start.simps [simp del]

definition str_trim :: "string \<Rightarrow> string" where
  "str_trim s = rev (trim_start (map rev white_space) (rev (trim_start white_space s)))"

text \<open>Decimal rendering of an unsigned integer, as Rust's \<open>Display\<close> writes it.\<close>

fun nat_str :: "nat \<Rightarrow> string" where
  "nat_str n = (if n < 10 then [char_of (48 + n)] else nat_str (n div 10) @ [char_of (48 + n mod 10)])"

declare nat_str.simps [simp del]

section \<open>Lists\<close>

text \<open>\<open>iter_mut().find(p)\<close> followed by a write through the reference.\<close>

fun update_first :: "('a \<Rightarrow> bool) \<Rightarrow> ('a \<Rightarrow> 'a) \<Rightarrow> 'a list \<Rightarrow> 'a list" where
  "update_first p f [] = []"
| "update_first p f (x # xs) = (if p x then f x # xs else x # update_first p f xs)"

lemma length_update_first [simp]: "length (update_first p f xs) = length xs"
  by (induction xs) auto

lemma update_first_map_same:
  "(\<And>x. p x \<Longrightarrow> g (f x) = g x) \<Longrightarrow> map g (update_first p f xs) = map g xs"
  by (induction xs) auto

lemma update_first_none: "find p xs = None \<Longrightarrow> update_first p f xs = xs"
  by (induction xs) (auto split: if_splits)

lemma update_first_nth:
  "find p xs = Some x \<Longrightarrow> \<exists>i < length xs. xs ! i = x \<and> p x \<and> (\<forall>j < i. \<not> p (xs ! j))
     \<and> update_first p f xs = xs[i := f x]"
proof (induction xs)
  case (Cons y ys)
  show ?case
  proof (cases "p y")
    case True
    with Cons.prems show ?thesis by (intro exI [of _ 0]) auto
  next
    case False
    with Cons obtain i where "i < length ys" "ys ! i = x" "p x" "\<forall>j < i. \<not> p (ys ! j)"
      "update_first p f ys = ys[i := f x]" by auto
    with False show ?thesis
      by (intro exI [of _ "Suc i"]) (auto simp: less_Suc_eq_0_disj)
  qed
qed simp

lemma update_first_unique:
  "distinct (map g xs) \<Longrightarrow>
     update_first (\<lambda>x. g x = i) f xs = map (\<lambda>x. if g x = i then f x else x) xs"
  by (induction xs) (auto intro!: map_idI [symmetric] simp: image_iff)

lemma map_list_update_same:
  "i < length xs \<Longrightarrow> g y = g (xs ! i) \<Longrightarrow> map g (xs[i := y]) = map g xs"
  by (metis list_update_id map_update nth_map)

lemma find_unique:
  assumes "distinct (map g xs)" "x \<in> set xs"
  shows "find (\<lambda>y. g y = g x) xs = Some x"
  using assms by (induction xs) (auto simp: image_iff)

section \<open>Keyed tables\<close>

text \<open>
  A vector whose rows carry a key, written by \<open>iter_mut().find\<close> followed by an overwrite or a push.
  Such a table is a map from keys to rows.
\<close>

definition table_of :: "('a \<Rightarrow> 'k) \<Rightarrow> 'a list \<Rightarrow> 'k \<rightharpoonup> 'a" where
  "table_of key rows = map_of (map (\<lambda>r. (key r, r)) rows)"

lemma table_of_Nil [simp]: "table_of key [] = Map.empty"
  by (simp add: table_of_def)

lemma table_of_Cons [simp]: "table_of key (r # rows) = (table_of key rows)(key r \<mapsto> r)"
  by (simp add: table_of_def)

lemma table_of_None: "table_of key rows k = None \<longleftrightarrow> k \<notin> key ` set rows"
  by (induction rows) auto

lemma table_of_snoc: "key r \<notin> key ` set rows \<Longrightarrow> table_of key (rows @ [r]) = (table_of key rows)(key r \<mapsto> r)"
  by (induction rows) (auto simp: fun_eq_iff)

lemma table_of_find: "distinct (map key rows) \<Longrightarrow> table_of key rows k = find (\<lambda>r. key r = k) rows"
  by (induction rows) (auto simp: find_None_iff image_iff table_of_None)

locale keyed_table =
  fixes key :: "'a \<Rightarrow> 'k" and put :: "'a \<Rightarrow> 'a list \<Rightarrow> 'a list"
  assumes put_new: "key x \<notin> key ` set xs \<Longrightarrow> put x xs = xs @ [x]"
    and put_old: "key x \<in> key ` set xs \<Longrightarrow> put x xs = update_first (\<lambda>y. key y = key x) (\<lambda>_. x) xs"
begin

lemma set_put: "set (put x xs) \<subseteq> insert x (set xs)"
proof -
  have "set (update_first p (\<lambda>_. x) xs) \<subseteq> insert x (set xs)" for p
    by (induction xs) auto
  then show ?thesis by (cases "key x \<in> key ` set xs") (simp_all add: put_new put_old)
qed

lemma keys_put: "map key (put x xs) = (if key x \<in> key ` set xs then map key xs else map key xs @ [key x])"
  using update_first_map_same [of "\<lambda>y. key y = key x" key "\<lambda>_. x" xs] by (simp add: put_new put_old)

lemma distinct_put: "distinct (map key xs) \<Longrightarrow> distinct (map key (put x xs))"
  by (auto simp: keys_put)

lemma table_put: "table_of key (put x xs) = (table_of key xs)(key x \<mapsto> x)"
proof (cases "key x \<in> key ` set xs")
  case True
  then have "table_of key (update_first (\<lambda>y. key y = key x) (\<lambda>_. x) xs) = (table_of key xs)(key x \<mapsto> x)"
    by (induction xs) (auto simp: fun_eq_iff)
  with True show ?thesis by (simp add: put_old)
qed (simp add: put_new table_of_snoc)

lemma table_fold: "table_of key (fold put new xs) = fold (\<lambda>x m. m(key x \<mapsto> x)) new (table_of key xs)"
  by (induction new arbitrary: xs) (simp_all add: table_put)

lemma distinct_fold: "distinct (map key xs) \<Longrightarrow> distinct (map key (fold put new xs))"
  by (induction new arbitrary: xs) (auto intro: distinct_put)

lemma set_fold: "set (fold put new xs) \<subseteq> set new \<union> set xs"
proof (induction new arbitrary: xs)
  case (Cons x new)
  with set_put [of x xs] show ?case by fastforce
qed simp

end

section \<open>Fallible stateful calls\<close>

text \<open>
  An \<open>async fn\<close> that may touch the outside world and may fail is a function from the world to a
  result and the next world: \<open>Inl\<close> is Rust's \<open>Err\<close>, \<open>Inr\<close> its \<open>Ok\<close>. \<open>bindA\<close> is the \<open>?\<close> operator:
  an error ends the caller with the world as the failed call left it.
\<close>

type_synonym ('w, 'e, 'a) act = "'w \<Rightarrow> ('e + 'a) \<times> 'w"

definition retA :: "'a \<Rightarrow> ('w, 'e, 'a) act" where
  "retA x w = (Inr x, w)"

definition throwA :: "'e \<Rightarrow> ('w, 'e, 'a) act" where
  "throwA e w = (Inl e, w)"

definition bindA :: "('w, 'e, 'a) act \<Rightarrow> ('a \<Rightarrow> ('w, 'e, 'b) act) \<Rightarrow> ('w, 'e, 'b) act" where
  "bindA m k w = (case m w of (Inl e, w') \<Rightarrow> (Inl e, w') | (Inr x, w') \<Rightarrow> k x w')"

fun forA :: "('b \<Rightarrow> ('w, 'e, unit) act) \<Rightarrow> 'b list \<Rightarrow> ('w, 'e, unit) act" where
  "forA f [] w = (Inr (), w)"
| "forA f (x # xs) w = bindA (f x) (\<lambda>_. forA f xs) w"

definition map_errA :: "('e \<Rightarrow> 'f) \<Rightarrow> ('w, 'e, 'a) act \<Rightarrow> ('w, 'f, 'a) act" where
  "map_errA f m w = (case m w of (Inl e, w') \<Rightarrow> (Inl (f e), w') | (Inr x, w') \<Rightarrow> (Inr x, w'))"

lemma forA_map: "forA f (map g xs) = forA (\<lambda>x. f (g x)) xs"
proof (induction xs)
  case (Cons x xs)
  then show ?case by (intro ext) simp
qed (simp add: fun_eq_iff)

lemma retA_apply [simp, act_simps]: "retA x w = (Inr x, w)"
  by (simp add: retA_def)

lemma throwA_apply [simp, act_simps]: "throwA e w = (Inl e, w)"
  by (simp add: throwA_def)

lemma bindA_Inl [simp, act_simps]: "m w = (Inl e, w') \<Longrightarrow> bindA m k w = (Inl e, w')"
  by (simp add: bindA_def)

lemma bindA_Inr [simp, act_simps]: "m w = (Inr x, w') \<Longrightarrow> bindA m k w = k x w'"
  by (simp add: bindA_def)

lemma bindA_eq_Inr:
  "bindA m k w = (Inr y, w'') \<longleftrightarrow> (\<exists>x w'. m w = (Inr x, w') \<and> k x w' = (Inr y, w''))"
  by (auto simp: bindA_def split: prod.splits sum.splits)

lemma bindA_eq_Inl:
  "bindA m k w = (Inl e, w'') \<longleftrightarrow>
     m w = (Inl e, w'') \<or> (\<exists>x w'. m w = (Inr x, w') \<and> k x w' = (Inl e, w''))"
  by (auto simp: bindA_def split: prod.splits sum.splits)

lemma bindA_cong:
  assumes "m w = m' w" "\<And>x w'. m' w = (Inr x, w') \<Longrightarrow> k x w' = k' x w'"
  shows "bindA m k w = bindA m' k' w"
  using assms by (auto simp: bindA_def split: prod.splits sum.splits)

text \<open>
  \<open>growsA c n m\<close>: running \<open>m\<close> raises the counter \<open>c\<close> of the world by at most \<open>n\<close>. With \<open>n = 0\<close> the call
  leaves the counter's bound alone. \<open>keepsA I m\<close>: \<open>m\<close> keeps the world invariant \<open>I\<close>.
\<close>

definition growsA :: "('w \<Rightarrow> nat) \<Rightarrow> nat \<Rightarrow> ('w, 'e, 'a) act \<Rightarrow> bool" where
  "growsA c n m \<longleftrightarrow> (\<forall>w. c (snd (m w)) \<le> c w + n)"

definition keepsA :: "('w \<Rightarrow> bool) \<Rightarrow> ('w, 'e, 'a) act \<Rightarrow> bool" where
  "keepsA I m \<longleftrightarrow> (\<forall>w. I w \<longrightarrow> I (snd (m w)))"

lemma growsA_ret [act_rules]: "growsA c n (retA x)"
  by (simp add: growsA_def)

lemma growsA_Pair [act_rules]: "growsA c n (Pair r)"
  by (simp add: growsA_def)

lemma growsA_throw [act_rules]: "growsA c n (throwA e)"
  by (simp add: growsA_def)

lemma growsA_bind [act_rules]:
  assumes "growsA c a m" "\<And>x. growsA c b (k x)"
  shows "growsA c (a + b) (bindA m k)"
  unfolding growsA_def
proof
  fix w
  obtain r w' where m: "m w = (r, w')" by force
  have le: "c w' \<le> c w + a" using assms(1) m unfolding growsA_def by (metis snd_conv)
  show "c (snd (bindA m k w)) \<le> c w + (a + b)"
  proof (cases r)
    case (Inl e)
    with m le show ?thesis by simp
  next
    case (Inr x)
    have "c (snd (k x w')) \<le> c w' + b" using assms(2) by (simp add: growsA_def)
    with m le Inr show ?thesis by simp
  qed
qed

lemma growsA_mono: "growsA c a m \<Longrightarrow> a \<le> b \<Longrightarrow> growsA c b m"
  unfolding growsA_def by (meson add_left_mono le_trans)

lemma growsA_for [act_rules]:
  assumes "\<And>x. x \<in> set xs \<Longrightarrow> growsA c 0 (f x)"
  shows "growsA c 0 (forA f xs)"
  using assms
proof (induction xs)
  case Nil
  then show ?case by (simp add: growsA_def)
next
  case (Cons x xs)
  have "growsA c (0 + 0) (bindA (f x) (\<lambda>_. forA f xs))"
    by (rule growsA_bind) (use Cons in auto)
  then show ?case by (simp add: growsA_def)
qed

lemma growsA_map_err [act_rules]: "growsA c n m \<Longrightarrow> growsA c n (map_errA f m)"
  by (auto simp: growsA_def map_errA_def split: prod.splits sum.splits) (metis snd_conv)+

lemma keepsA_D: "keepsA I m \<Longrightarrow> I w \<Longrightarrow> I (snd (m w))"
  by (simp add: keepsA_def)

lemma keepsA_ret [act_rules]: "keepsA I (retA x)"
  by (simp add: keepsA_def)

lemma keepsA_Pair [act_rules]: "keepsA I (Pair r)"
  by (simp add: keepsA_def)

lemma keepsA_throw [act_rules]: "keepsA I (throwA e)"
  by (simp add: keepsA_def)

lemma keepsA_bind [act_rules]:
  assumes "keepsA I m" "\<And>x. keepsA I (k x)"
  shows "keepsA I (bindA m k)"
  unfolding keepsA_def
proof (intro allI impI)
  fix w
  assume w: "I w"
  obtain r w' where m: "m w = (r, w')" by force
  with assms(1) w have "I w'" by (auto simp: keepsA_def dest!: spec [of _ w])
  with m assms(2) show "I (snd (bindA m k w))" by (cases r) (auto simp: keepsA_def)
qed

lemma keepsA_for [act_rules]:
  assumes "\<And>x. x \<in> set xs \<Longrightarrow> keepsA I (f x)"
  shows "keepsA I (forA f xs)"
  using assms
proof (induction xs)
  case Nil
  then show ?case by (simp add: keepsA_def)
next
  case (Cons x xs)
  have "keepsA I (bindA (f x) (\<lambda>_. forA f xs))"
    by (rule keepsA_bind) (use Cons in auto)
  then show ?case by (simp add: keepsA_def)
qed

lemma keepsA_map_err [act_rules]: "keepsA I m \<Longrightarrow> keepsA I (map_errA f m)"
  by (force simp: keepsA_def map_errA_def split: prod.split sum.split)

lemma keepsA_guard: "keepsA I m \<Longrightarrow> keepsA I (\<lambda>w. if b w then (Inl e, w) else m w)"
  by (simp add: keepsA_def)

section \<open>Results and text\<close>

text \<open>The \<open>?\<close> operator on a result that touches no state.\<close>

definition bindE :: "'e + 'a \<Rightarrow> ('a \<Rightarrow> 'e + 'b) \<Rightarrow> 'e + 'b" where
  "bindE m k = (case m of Inl e \<Rightarrow> Inl e | Inr x \<Rightarrow> k x)"

lemma bindE_simps [simp]: "bindE (Inl e) k = Inl e" "bindE (Inr x) k = k x"
  by (simp_all add: bindE_def)

lemma bindE_eq_Inr: "bindE m k = Inr y \<longleftrightarrow> (\<exists>x. m = Inr x \<and> k x = Inr y)"
  by (cases m) auto

definition quoted :: "string \<Rightarrow> string" where
  "quoted s = [CHR 0x27] @ s @ [CHR 0x27]"

definition em_dash :: string where
  "em_dash = map char_of [0xE2, 0x80, 0x94 :: nat]"

definition right_arrow :: string where
  "right_arrow = map char_of [0xE2, 0x86, 0x92 :: nat]"

text \<open>\<open>writeln!\<close> into a string.\<close>

definition writeln :: "string \<Rightarrow> string" where
  "writeln s = s @ [CHR 0x0A]"

section \<open>Ordered maps\<close>

text \<open>
  A \<open>BTreeMap\<open>K, V\<close>\<close> is its entries in ascending key order: an association list whose keys are
  strictly sorted. Lookup is \<open>map_of\<close>; \<open>bt_insert\<close> keeps the order and replaces the value of an
  existing key; iterating the map is walking the list.
\<close>

type_synonym ('k, 'v) btree = "('k \<times> 'v) list"

definition bt_wf :: "('k::linorder, 'v) btree \<Rightarrow> bool" where
  "bt_wf m \<longleftrightarrow> sorted_wrt (<) (map fst m)"

fun bt_insert :: "'k::linorder \<Rightarrow> 'v \<Rightarrow> ('k, 'v) btree \<Rightarrow> ('k, 'v) btree" where
  "bt_insert k v [] = [(k, v)]"
| "bt_insert k v ((k', v') # m) =
     (if k < k' then (k, v) # (k', v') # m
      else if k = k' then (k, v) # m
      else (k', v') # bt_insert k v m)"

definition bt_has :: "('k, 'v) btree \<Rightarrow> 'k \<Rightarrow> bool" where
  "bt_has m k \<longleftrightarrow> map_of m k \<noteq> None"

lemma bt_wf_Nil [simp]: "bt_wf []"
  by (simp add: bt_wf_def)

lemma bt_wf_Cons [simp]: "bt_wf ((k, v) # m) \<longleftrightarrow> (\<forall>x\<in>set m. k < fst x) \<and> bt_wf m"
  by (auto simp: bt_wf_def)

lemma bt_wf_distinct: "bt_wf m \<Longrightarrow> distinct (map fst m)"
  by (induction m) force+

lemma set_bt_insert: "set (bt_insert k v m) \<subseteq> insert (k, v) (set m)"
  by (induction k v m rule: bt_insert.induct) auto

lemma fst_set_bt_insert [simp]: "fst ` set (bt_insert k v m) = insert k (fst ` set m)"
  by (induction k v m rule: bt_insert.induct) auto

lemma bt_wf_insert [simp]: "bt_wf m \<Longrightarrow> bt_wf (bt_insert k v m)"
proof (induction k v m rule: bt_insert.induct)
  case (2 k v k' v' m)
  then show ?case using set_bt_insert [of k v m] by fastforce
qed simp

lemma map_of_bt_insert [simp]: "bt_wf m \<Longrightarrow> map_of (bt_insert k v m) = (map_of m)(k \<mapsto> v)"
proof (induction k v m rule: bt_insert.induct)
  case (2 k v k' v' m)
  then show ?case by (auto simp: fun_eq_iff)
qed auto

lemma bt_has_insert [simp]: "bt_has (bt_insert k v m) k' \<longleftrightarrow> k' = k \<or> bt_has m k'"
  by (auto simp: bt_has_def map_of_eq_None_iff)

lemma bt_has_iff: "bt_has m k \<longleftrightarrow> k \<in> fst ` set m"
  by (simp add: bt_has_def map_of_eq_None_iff)

end
