(* ===== verification/Agent_Types.thy ===== *)
theory Agent_Types
  imports Prelude
begin

text \<open>
  The data of the agent kernel: \<open>libs/agent-core/src/types.rs\<close>, \<open>context.rs\<close>, \<open>tools.rs\<close>,
  \<open>error.rs\<close>, the message and outcome types of \<open>agent.rs\<close>, and the JSON values that tool calls
  carry. JSON objects are association lists in the order \<open>serde_json\<close> keeps (the workspace builds
  it with insertion-ordered maps, whose keys are distinct).
\<close>

section \<open>JSON values\<close>

datatype json_number = PosInt u64 | NegInt u64 | Float f64

datatype json =
    JNull
  | JBool bool
  | JNumber json_number
  | JString string
  | JArray "json list"
  | JObject "(string \<times> json) list"

text \<open>\<open>Value::get(key)\<close> and \<open>Value::as_str\<close>.\<close>

fun json_get :: "json \<Rightarrow> string \<Rightarrow> json option" where
  "json_get (JObject kvs) k = map_of kvs k"
| "json_get _ k = None"

fun json_as_str :: "json \<Rightarrow> string option" where
  "json_as_str (JString s) = Some s"
| "json_as_str _ = None"

section \<open>Run context, tool calls, decisions and policy\<close>

record agent_run_context =
  ctx_run_id :: uuid
  ctx_session_id :: uuid

record proposed_tool_call =
  tc_id :: string
  tc_name :: string
  tc_arguments :: json
  tc_metadata :: "json option"

datatype tool_decision = Accept | Reject | CustomResult string

datatype tool_approval_action = Approve | Deny | Ask

datatype tool_approval_policy =
    Policy_None
  | AcceptAll
  | DenyAll
  | Custom "string \<rightharpoonup> tool_approval_action" tool_approval_action

fun action_for :: "tool_approval_policy \<Rightarrow> string \<Rightarrow> json option \<Rightarrow> tool_approval_action" where
  "action_for Policy_None tool_name arguments = Ask"
| "action_for AcceptAll tool_name arguments = Approve"
| "action_for DenyAll tool_name arguments = Deny"
| "action_for (Custom rules dflt) tool_name arguments =
     (case rules tool_name of Some a \<Rightarrow> a | None \<Rightarrow> dflt)"

definition call_action :: "tool_approval_policy \<Rightarrow> proposed_tool_call \<Rightarrow> tool_approval_action" where
  "call_action policy tc = action_for policy (tc_name tc) (Some (tc_arguments tc))"

text \<open>The multiplier of the backoff is an \<open>f64\<close>; counts are \<open>usize\<close>.\<close>

record retry_config =
  max_attempts :: nat
  initial_backoff_ms :: u64
  max_backoff_ms :: u64
  multiplier :: f64

definition retry_config_default :: retry_config where
  "retry_config_default = \<lparr>max_attempts = 4, initial_backoff_ms = 2000, max_backoff_ms = 30000,
     multiplier = 0x4000000000000000\<rparr>"

datatype agent_command =
    ResolveTool string tool_decision
  | ResolveTools "(string \<times> tool_decision) list"

record agent_loop_config =
  max_turns :: nat
  retry :: retry_config
  approval_policy :: tool_approval_policy
  compaction_threshold_tokens :: nat

definition agent_loop_config_default :: agent_loop_config where
  "agent_loop_config_default = \<lparr>max_turns = 8, retry = retry_config_default,
     approval_policy = Policy_None, compaction_threshold_tokens = 70000\<rparr>"

datatype agent_loop_reason =
  FinalAnswerReached | MaxTurnsReached | WaitingForApproval | LlmRetryExhausted_reason

record agent_loop_result =
  reason :: agent_loop_reason
  final_text :: string
  turns_executed :: nat
  pending_tool_calls :: "string list"

section \<open>Messages\<close>

datatype role = System | User | Assistant | Tool

record message =
  m_role :: role
  m_content :: string

record agent_message =
  role :: role
  content :: string
  tool_call_id :: "string option"
  tool_calls :: "proposed_tool_call list"

definition msg_system :: "string \<Rightarrow> agent_message" where
  "msg_system c = \<lparr>role = System, content = c, tool_call_id = None, tool_calls = []\<rparr>"

definition msg_user :: "string \<Rightarrow> agent_message" where
  "msg_user c = \<lparr>role = User, content = c, tool_call_id = None, tool_calls = []\<rparr>"

definition msg_assistant :: "string \<Rightarrow> proposed_tool_call list \<Rightarrow> agent_message" where
  "msg_assistant c tcs = \<lparr>role = Assistant, content = c, tool_call_id = None, tool_calls = tcs\<rparr>"

definition msg_tool_result :: "string \<Rightarrow> string \<Rightarrow> agent_message" where
  "msg_tool_result i c = \<lparr>role = Tool, content = c, tool_call_id = Some i, tool_calls = []\<rparr>"

lemmas msg_defs = msg_system_def msg_user_def msg_assistant_def msg_tool_result_def

record agent_tool_def =
  td_name :: string
  td_description :: string
  td_schema :: json

record llm_turn_outcome =
  out_final_text :: "string option"
  out_proposed_tool_calls :: "proposed_tool_call list"
  usage_input_tokens :: u64
  usage_output_tokens :: u64

text \<open>Response headers are a \<open>HashMap\<close> that the retry code iterates: a list in iteration order.\<close>

record llm_turn_error =
  err_message :: string
  err_retryable :: bool
  err_headers :: "(string \<times> string) list"

datatype tool_execution_result = Completed string bool | Cancelled_result

record compaction_result =
  cr_messages :: "message list"
  cr_tokens_before :: nat
  cr_tokens_after :: nat
  cr_truncated :: bool

section \<open>Errors\<close>

datatype approval_error =
    UnknownToolCallId string
  | AlreadyResolved string
  | InvalidCommand_approval

datatype agent_error =
    Inference string
  | Hook string
  | ToolExecution string
  | InvalidCommand string
  | Cancelled
  | Approval approval_error
  | DuplicateToolCallId string
  | InvalidConfig string
  | LlmRetryExhausted nat string
  | Compaction string

end
