(* ===== verification/Approval.thy ===== *)
theory Approval
  imports Agent_Types
begin

text \<open>
  \<open>libs/agent-core/src/approval.rs\<close>: the per-turn approval state machine. The state is the list
  of entries in proposed order and the index of the next entry to dispatch; the operations are
  \<open>new\<close>, \<open>resolve_tool\<close>, \<open>apply_command\<close> and \<open>next_ready\<close>. The abstract view \<open>todo\<close> is the queue
  of calls still to dispatch, each with its decision once it has one; \<open>next_ready\<close> is the head of
  that queue, and the decisions of entries the policy settled never change.
\<close>

section \<open>The state machine\<close>

datatype approval_entry_state = PendingUserDecision | Ready tool_decision | Dispatched

record approval_entry =
  tool_call :: proposed_tool_call
  state :: approval_entry_state

record resolved_tool_call =
  r_tool_call :: proposed_tool_call
  r_decision :: tool_decision

record approval_state_machine =
  entries :: "approval_entry list"
  next_index :: nat

definition initial_state :: "tool_approval_action \<Rightarrow> approval_entry_state" where
  "initial_state a = (case a of
       Approve \<Rightarrow> Ready Accept
     | Deny \<Rightarrow> Ready Reject
     | Ask \<Rightarrow> PendingUserDecision)"

definition asm_new :: "proposed_tool_call list \<Rightarrow> tool_approval_policy \<Rightarrow> approval_state_machine" where
  "asm_new calls policy =
     \<lparr>entries = map (\<lambda>tc. \<lparr>tool_call = tc, state = initial_state (call_action policy tc)\<rparr>) calls,
      next_index = 0\<rparr>"

definition pending_tool_call_ids :: "approval_state_machine \<Rightarrow> string list" where
  "pending_tool_call_ids m =
     map (tc_id \<circ> tool_call) (filter (\<lambda>e. state e = PendingUserDecision) (entries m))"

definition is_waiting_for_user :: "approval_state_machine \<Rightarrow> bool" where
  "is_waiting_for_user m = list_ex (\<lambda>e. state e = PendingUserDecision) (entries m)"

definition is_complete :: "approval_state_machine \<Rightarrow> bool" where
  "is_complete m = (length (entries m) \<le> next_index m)"

definition has_id :: "string \<Rightarrow> approval_entry \<Rightarrow> bool" where
  "has_id i e \<longleftrightarrow> tc_id (tool_call e) = i"

definition resolve_tool ::
  "approval_state_machine \<Rightarrow> string \<Rightarrow> tool_decision \<Rightarrow> (approval_error + unit) \<times> approval_state_machine"
where
  "resolve_tool m i d =
     (case find (has_id i) (entries m) of
        None \<Rightarrow> (Inl (UnknownToolCallId i), m)
      | Some e \<Rightarrow>
          (case state e of
             PendingUserDecision \<Rightarrow>
               (Inr (), m\<lparr>entries := update_first (has_id i) (\<lambda>e. e\<lparr>state := Ready d\<rparr>) (entries m)\<rparr>)
           | Ready existing \<Rightarrow>
               (if existing = d then (Inr (), m) else (Inl (AlreadyResolved i), m))
           | Dispatched \<Rightarrow> (Inl (AlreadyResolved i), m)))"

fun resolve_tools ::
  "approval_state_machine \<Rightarrow> (string \<times> tool_decision) list
     \<Rightarrow> (approval_error + unit) \<times> approval_state_machine"
where
  "resolve_tools m [] = (Inr (), m)"
| "resolve_tools m ((i, d) # ds) =
     (case resolve_tool m i d of
        (Inl e, m') \<Rightarrow> (Inl e, m')
      | (Inr _, m') \<Rightarrow> resolve_tools m' ds)"

fun apply_command ::
  "approval_state_machine \<Rightarrow> agent_command \<Rightarrow> (approval_error + unit) \<times> approval_state_machine"
where
  "apply_command m (ResolveTool i d) = resolve_tool m i d"
| "apply_command m (ResolveTools ds) = resolve_tools m ds"

function next_ready ::
  "approval_state_machine \<Rightarrow> resolved_tool_call option \<times> approval_state_machine"
where
  "next_ready m =
     (if next_index m < length (entries m) then
        (let e = entries m ! next_index m in
         case state e of
           PendingUserDecision \<Rightarrow> (None, m)
         | Ready d \<Rightarrow>
             (Some \<lparr>r_tool_call = tool_call e, r_decision = d\<rparr>,
              m\<lparr>entries := (entries m)[next_index m := e\<lparr>state := Dispatched\<rparr>],
                next_index := next_index m + 1\<rparr>)
         | Dispatched \<Rightarrow> next_ready (m\<lparr>next_index := next_index m + 1\<rparr>))
      else (None, m))"
  by pat_completeness auto
termination
  by (relation "measure (\<lambda>m. length (entries m) - next_index m)") auto

declare next_ready.simps [simp del]

section \<open>Well-formed states and the abstract queue\<close>

definition asm_wf :: "approval_state_machine \<Rightarrow> bool" where
  "asm_wf m \<longleftrightarrow> next_index m \<le> length (entries m)
     \<and> (\<forall>i < length (entries m). state (entries m ! i) = Dispatched \<longleftrightarrow> i < next_index m)"

text \<open>The decision an entry holds: none while the user has not answered.\<close>

fun decision_of :: "approval_entry_state \<Rightarrow> tool_decision option" where
  "decision_of PendingUserDecision = None"
| "decision_of (Ready d) = Some d"
| "decision_of Dispatched = None"

definition todo :: "approval_state_machine \<Rightarrow> (proposed_tool_call \<times> tool_decision option) list" where
  "todo m = map (\<lambda>e. (tool_call e, decision_of (state e))) (drop (next_index m) (entries m))"

text \<open>The specification: a queue whose head leaves once it is decided.\<close>

fun pop_decided ::
  "(proposed_tool_call \<times> tool_decision option) list
     \<Rightarrow> resolved_tool_call option \<times> (proposed_tool_call \<times> tool_decision option) list"
where
  "pop_decided ((tc, Some d) # q) = (Some \<lparr>r_tool_call = tc, r_decision = d\<rparr>, q)"
| "pop_decided q = (None, q)"

lemma asm_wf_new [simp]: "asm_wf (asm_new calls policy)"
  by (auto simp: asm_wf_def asm_new_def initial_state_def split: tool_approval_action.splits)

lemma todo_new:
  "todo (asm_new calls policy) =
     map (\<lambda>tc. (tc, decision_of (initial_state (call_action policy tc)))) calls"
  by (simp add: todo_def asm_new_def)

lemma next_ready_cases:
  assumes "asm_wf m"
  obtains (finished) "next_index m = length (entries m)" "next_ready m = (None, m)"
  | (wait) "next_index m < length (entries m)"
      "state (entries m ! next_index m) = PendingUserDecision" "next_ready m = (None, m)"
  | (go) d where "next_index m < length (entries m)"
      "state (entries m ! next_index m) = Ready d"
      "next_ready m = (Some \<lparr>r_tool_call = tool_call (entries m ! next_index m), r_decision = d\<rparr>,
         m\<lparr>entries := (entries m)[next_index m := (entries m ! next_index m)\<lparr>state := Dispatched\<rparr>],
           next_index := next_index m + 1\<rparr>)"
proof (cases "next_index m < length (entries m)")
  case False
  with assms have "next_index m = length (entries m)" by (simp add: asm_wf_def)
  moreover from False have "next_ready m = (None, m)" by (simp add: next_ready.simps [of m])
  ultimately show ?thesis by (rule finished)
next
  case True
  with assms have "state (entries m ! next_index m) \<noteq> Dispatched" by (simp add: asm_wf_def)
  with True show ?thesis
    by (cases "state (entries m ! next_index m)")
       (auto intro: wait go simp: next_ready.simps [of m] Let_def)
qed

lemma next_ready_wf: "asm_wf m \<Longrightarrow> asm_wf (snd (next_ready m))"
proof -
  assume wf: "asm_wf m"
  then show ?thesis
  proof (cases rule: next_ready_cases)
    case (go d)
    with wf show ?thesis by (auto simp: asm_wf_def nth_list_update less_Suc_eq)
  qed (use wf in auto)
qed

lemma next_ready_todo:
  assumes "asm_wf m"
  shows "(fst (next_ready m), todo (snd (next_ready m))) = pop_decided (todo m)"
  using assms
proof (cases rule: next_ready_cases)
  case finished
  then show ?thesis by (simp add: todo_def)
next
  case wait
  then show ?thesis by (simp add: todo_def Cons_nth_drop_Suc [symmetric])
next
  case (go d)
  then show ?thesis by (simp add: todo_def Cons_nth_drop_Suc [symmetric])
qed

text \<open>Each dispatch moves the index, so a drain of the machine ends.\<close>

lemma next_ready_progress:
  "next_ready m = (Some r, m') \<Longrightarrow>
     length (entries m') - next_index m' < length (entries m) - next_index m"
proof (induction m rule: next_ready.induct)
  case (1 m)
  show ?case
  proof (cases "next_index m < length (entries m)")
    case False
    with "1.prems" show ?thesis by (simp add: next_ready.simps [of m])
  next
    case True
    note simps = next_ready.simps [of m] Let_def
    show ?thesis
    proof (cases "state (entries m ! next_index m)")
      case Dispatched
      with True "1.prems"
      have "next_ready (m\<lparr>next_index := next_index m + 1\<rparr>) = (Some r, m')" by (simp add: simps)
      from "1.IH" [OF True refl Dispatched this] show ?thesis using True by simp
    qed (use True "1.prems" in \<open>auto simp: simps\<close>)
  qed
qed

lemma length_entries_resolve_tool [simp]:
  "length (entries (snd (resolve_tool m i d))) = length (entries m)"
  by (auto simp: resolve_tool_def split: option.splits approval_entry_state.splits)

lemma next_index_resolve_tool [simp]: "next_index (snd (resolve_tool m i d)) = next_index m"
  by (auto simp: resolve_tool_def split: option.splits approval_entry_state.splits)

text \<open>
  What \<open>resolve_tool\<close> does to the entries: nothing, or the first entry with that id goes from
  waiting to decided.
\<close>

lemma resolve_tool_cases:
  obtains (same) "snd (resolve_tool m i d) = m"
  | (decide) j where "fst (resolve_tool m i d) = Inr ()" "j < length (entries m)"
      "tc_id (tool_call (entries m ! j)) = i" "state (entries m ! j) = PendingUserDecision"
      "\<forall>k < j. tc_id (tool_call (entries m ! k)) \<noteq> i"
      "snd (resolve_tool m i d) =
         m\<lparr>entries := (entries m)[j := (entries m ! j)\<lparr>state := Ready d\<rparr>]\<rparr>"
proof (cases "find (has_id i) (entries m)")
  case None
  then show ?thesis by (intro same) (simp add: resolve_tool_def)
next
  case (Some e)
  from update_first_nth [OF Some, of "\<lambda>e. e\<lparr>state := Ready d\<rparr>"] obtain j where
    j: "j < length (entries m)" "entries m ! j = e" "has_id i e"
       "\<forall>k < j. \<not> has_id i (entries m ! k)"
       "update_first (has_id i) (\<lambda>e. e\<lparr>state := Ready d\<rparr>) (entries m)
          = (entries m)[j := e\<lparr>state := Ready d\<rparr>]" by blast
  show ?thesis
  proof (cases "state e")
    case PendingUserDecision
    with Some j show ?thesis by (intro decide [of j]) (auto simp: resolve_tool_def has_id_def)
  qed (use Some in \<open>auto intro!: same simp: resolve_tool_def\<close>)
qed

lemma resolve_tool_wf: "asm_wf m \<Longrightarrow> asm_wf (snd (resolve_tool m i d))"
  by (cases rule: resolve_tool_cases [of m i d]) (auto simp: asm_wf_def nth_list_update)

lemma calls_resolve_tool [simp]:
  "map tool_call (entries (snd (resolve_tool m i d))) = map tool_call (entries m)"
  by (cases rule: resolve_tool_cases [of m i d]) (auto simp: list_eq_iff_nth_eq nth_list_update)

lemma resolve_tools_inv:
  assumes "\<And>m i d. (i, d) \<in> set ds \<Longrightarrow> P m \<Longrightarrow> P (snd (resolve_tool m i d))" "P m"
  shows "P (snd (resolve_tools m ds))"
  using assms
proof (induction ds arbitrary: m)
  case (Cons x ds)
  obtain i d where x: "x = (i, d)" by force
  obtain r m' where r: "resolve_tool m i d = (r, m')" by force
  have P': "P m'" using Cons.prems(1) [of i d m] Cons.prems(2) x r by simp
  show ?case
  proof (cases r)
    case (Inl e)
    with x r P' show ?thesis by simp
  next
    case (Inr u)
    have "P (snd (resolve_tools m' ds))" using Cons.IH [OF Cons.prems(1) P'] by simp
    with x r Inr show ?thesis by simp
  qed
qed simp

fun command_decisions :: "agent_command \<Rightarrow> (string \<times> tool_decision) list" where
  "command_decisions (ResolveTool i d) = [(i, d)]"
| "command_decisions (ResolveTools ds) = ds"

lemma apply_command_inv:
  assumes "\<And>m i d. (i, d) \<in> set (command_decisions c) \<Longrightarrow> P m \<Longrightarrow> P (snd (resolve_tool m i d))" "P m"
  shows "P (snd (apply_command m c))"
  using assms by (cases c) (auto intro: resolve_tools_inv)

section \<open>Runs of the machine\<close>

text \<open>
  \<open>reach calls policy cmds out m\<close>: from the fresh machine, the host issued the commands \<open>cmds\<close> and
  the loop received the resolved calls \<open>out\<close>, in any interleaving, ending in \<open>m\<close>.
\<close>

inductive reach ::
  "proposed_tool_call list \<Rightarrow> tool_approval_policy \<Rightarrow> agent_command list
     \<Rightarrow> resolved_tool_call list \<Rightarrow> approval_state_machine \<Rightarrow> bool"
  for calls policy
where
  start: "reach calls policy [] [] (asm_new calls policy)"
| command: "reach calls policy cmds out m \<Longrightarrow>
     reach calls policy (cmds @ [c]) out (snd (apply_command m c))"
| dispatch: "reach calls policy cmds out m \<Longrightarrow> next_ready m = (Some r, m') \<Longrightarrow>
     reach calls policy cmds (out @ [r]) m'"
| idle: "reach calls policy cmds out m \<Longrightarrow> next_ready m = (None, m') \<Longrightarrow>
     reach calls policy cmds out m'"

text \<open>Who settled a decision: the policy, or a command the host sent for that id.\<close>

definition granted ::
  "tool_approval_policy \<Rightarrow> agent_command list \<Rightarrow> proposed_tool_call \<Rightarrow> tool_decision \<Rightarrow> bool"
where
  "granted policy cmds tc d =
     (case call_action policy tc of
        Approve \<Rightarrow> d = Accept
      | Deny \<Rightarrow> d = Reject
      | Ask \<Rightarrow> list_ex (\<lambda>c. (tc_id tc, d) \<in> set (command_decisions c)) cmds)"

definition run_inv ::
  "proposed_tool_call list \<Rightarrow> tool_approval_policy \<Rightarrow> agent_command list
     \<Rightarrow> resolved_tool_call list \<Rightarrow> approval_state_machine \<Rightarrow> bool"
where
  "run_inv calls policy cmds out m \<longleftrightarrow>
     asm_wf m \<and> map tool_call (entries m) = calls
     \<and> map r_tool_call out = take (next_index m) calls
     \<and> (\<forall>r\<in>set out. granted policy cmds (r_tool_call r) (r_decision r))
     \<and> (\<forall>e\<in>set (entries m). case state e of
           PendingUserDecision \<Rightarrow> call_action policy (tool_call e) = Ask
         | Ready d \<Rightarrow> granted policy cmds (tool_call e) d
         | Dispatched \<Rightarrow> True)"

lemma granted_more: "granted policy cmds tc d \<Longrightarrow> granted policy (cmds @ cs) tc d"
  by (auto simp: granted_def split: tool_approval_action.splits)

lemma run_inv_new: "run_inv calls policy [] [] (asm_new calls policy)"
  by (auto simp: run_inv_def asm_new_def initial_state_def granted_def
      asm_wf_new [unfolded asm_new_def initial_state_def] o_def
      split: tool_approval_action.splits)

lemma run_inv_more: "run_inv calls policy cmds out m \<Longrightarrow> run_inv calls policy (cmds @ cs) out m"
  by (auto simp: run_inv_def granted_more split: approval_entry_state.splits)

lemma run_inv_resolve:
  assumes "run_inv calls policy cmds out m" "list_ex (\<lambda>c. (i, d) \<in> set (command_decisions c)) cmds"
  shows "run_inv calls policy cmds out (snd (resolve_tool m i d))"
proof (cases rule: resolve_tool_cases [of m i d])
  case same
  with assms show ?thesis by simp
next
  case (decide j)
  have e: "entries m ! j \<in> set (entries m)" using decide by simp
  with assms(1) decide have "call_action policy (tool_call (entries m ! j)) = Ask"
    unfolding run_inv_def by (metis approval_entry_state.simps(8))
  with assms(2) decide have g: "granted policy cmds (tool_call (entries m ! j)) d"
    by (simp add: granted_def)
  have "set ((entries m)[j := (entries m ! j)\<lparr>state := Ready d\<rparr>])
      \<subseteq> insert ((entries m ! j)\<lparr>state := Ready d\<rparr>) (set (entries m))"
    by (rule set_update_subset_insert)
  with assms(1) decide g resolve_tool_wf [of m i d] calls_resolve_tool [of m i d]
  show ?thesis unfolding run_inv_def by (force split: approval_entry_state.splits)
qed

lemma run_inv_next:
  assumes "run_inv calls policy cmds out m" "next_ready m = (Some r, m')"
  shows "run_inv calls policy cmds (out @ [r]) m'"
proof -
  have wf: "asm_wf m" using assms(1) by (simp add: run_inv_def)
  then show ?thesis
  proof (cases rule: next_ready_cases)
    case (go d)
    let ?e = "entries m ! next_index m"
    have e: "?e \<in> set (entries m)" using go by simp
    have r: "r = \<lparr>r_tool_call = tool_call ?e, r_decision = d\<rparr>"
      and m': "m' = m\<lparr>entries := (entries m)[next_index m := ?e\<lparr>state := Dispatched\<rparr>],
         next_index := next_index m + 1\<rparr>" using go assms(2) by simp_all
    have g: "granted policy cmds (tool_call ?e) d"
      using assms(1) e go unfolding run_inv_def by (metis approval_entry_state.simps(9))
    have calls: "calls ! next_index m = tool_call ?e" "next_index m < length calls"
      using assms(1) go unfolding run_inv_def by auto
    have upd: "set ((entries m)[next_index m := ?e\<lparr>state := Dispatched\<rparr>])
        \<subseteq> insert (?e\<lparr>state := Dispatched\<rparr>) (set (entries m))"
      by (rule set_update_subset_insert)
    have "map tool_call (entries m') = calls"
      using assms(1) m' go by (simp add: run_inv_def map_list_update_same)
    moreover have "asm_wf m'" using next_ready_wf [OF wf] assms(2) by simp
    moreover have "map r_tool_call (out @ [r]) = take (next_index m') calls"
      using assms(1) r m' calls by (simp add: run_inv_def take_Suc_conv_app_nth)
    ultimately show ?thesis using assms(1) g r m' upd
      unfolding run_inv_def by (force split: approval_entry_state.splits)
  qed (use assms(2) in auto)
qed

lemma reach_run_inv: "reach calls policy cmds out m \<Longrightarrow> run_inv calls policy cmds out m"
proof (induction rule: reach.induct)
  case start
  show ?case by (rule run_inv_new)
next
  case (command cmds out m c)
  show ?case
    by (rule apply_command_inv [where P = "run_inv calls policy (cmds @ [c]) out"])
       (use command.IH in \<open>auto intro: run_inv_resolve run_inv_more\<close>)
next
  case (dispatch cmds out m r m')
  then show ?case by (blast intro: run_inv_next)
next
  case (idle cmds out m m')
  from idle.IH have "asm_wf m" by (simp add: run_inv_def)
  then show ?case by (cases rule: next_ready_cases) (use idle in auto)
qed

section \<open>The dispatch contract\<close>

text \<open>
  What the kernel relies on: under an invariant, \<open>nxt\<close> pops the head of a queue exactly when it
  is decided. \<open>collect\<close> is the kernel's \<open>while let Some(r) = next_ready()\<close> with a bound on the
  number of rounds.
\<close>

fun collect :: "('s \<Rightarrow> 'r option \<times> 's) \<Rightarrow> nat \<Rightarrow> 's \<Rightarrow> 'r list \<times> 's" where
  "collect nxt 0 s = ([], s)"
| "collect nxt (Suc n) s =
     (case nxt s of
        (None, s') \<Rightarrow> ([], s')
      | (Some r, s') \<Rightarrow> (let (rs, s'') = collect nxt n s' in (r # rs, s'')))"

locale dispatch_queue =
  fixes inv :: "'s \<Rightarrow> bool"
    and nxt :: "'s \<Rightarrow> resolved_tool_call option \<times> 's"
    and queue :: "'s \<Rightarrow> (proposed_tool_call \<times> tool_decision option) list"
  assumes nxt_inv: "inv s \<Longrightarrow> inv (snd (nxt s))"
    and nxt_pop: "inv s \<Longrightarrow> (fst (nxt s), queue (snd (nxt s))) = pop_decided (queue s)"
begin

lemma pop_undecided:
  "inv s \<Longrightarrow> queue s = [] \<or> snd (hd (queue s)) = None \<Longrightarrow> fst (nxt s) = None \<and> queue (snd (nxt s)) = queue s"
  using nxt_pop [of s] by (cases "queue s" rule: pop_decided.cases) auto

lemma pop_head:
  "inv s \<Longrightarrow> queue s = (tc, Some d) # q \<Longrightarrow>
     fst (nxt s) = Some \<lparr>r_tool_call = tc, r_decision = d\<rparr> \<and> queue (snd (nxt s)) = q"
  using nxt_pop [of s] by simp

lemma collect_decided:
  assumes "inv s" "queue s = map (\<lambda>r. (r_tool_call r, Some (r_decision r))) rs"
  shows "fst (collect nxt (length rs) s) = rs \<and> queue (snd (collect nxt (length rs) s)) = []"
  using assms
proof (induction rs arbitrary: s)
  case (Cons r rs)
  obtain s' where n: "nxt s = (Some r, s')"
    using pop_head [OF Cons.prems(1)] Cons.prems(2) by (cases "nxt s") auto
  have "queue s' = map (\<lambda>r. (r_tool_call r, Some (r_decision r))) rs"
    using pop_head [OF Cons.prems(1)] Cons.prems(2) n by simp
  moreover have "inv s'" using nxt_inv [OF Cons.prems(1)] n by simp
  ultimately show ?case using Cons.IH [of s'] n by (simp add: split_def Let_def)
qed simp

lemma collect_in_order:
  assumes "inv s"
  shows "map r_tool_call (fst (collect nxt n s))
           = take (length (fst (collect nxt n s))) (map fst (queue s))"
  using assms
proof (induction n arbitrary: s)
  case (Suc n)
  show ?case
  proof (cases "nxt s")
    case (Pair r s')
    show ?thesis
    proof (cases r)
      case None
      with Pair show ?thesis by simp
    next
      case (Some r')
      with nxt_pop [OF Suc.prems] Pair have "queue s = (r_tool_call r', Some (r_decision r')) # queue s'"
        by (cases "queue s" rule: pop_decided.cases) auto
      moreover have "inv s'" using nxt_inv [OF Suc.prems] Pair by simp
      ultimately show ?thesis using Pair Some Suc.IH [of s'] by (simp add: split_def Let_def)
    qed
  qed
qed simp

end

interpretation approvals: dispatch_queue asm_wf next_ready todo
  by unfold_locales (auto simp: next_ready_wf next_ready_todo)

section \<open>Answering every question\<close>

text \<open>
  When ids are distinct, a \<open>ResolveTools\<close> command decides exactly the waiting calls it names.
\<close>

definition answer :: "(string \<times> tool_decision) list \<Rightarrow> approval_entry \<Rightarrow> approval_entry" where
  "answer ds e = (case map_of ds (tc_id (tool_call e)) of
       Some d \<Rightarrow> e\<lparr>state := Ready d\<rparr>
     | None \<Rightarrow> e)"

lemma tool_call_answer [simp]: "tool_call (answer ds e) = tool_call e"
  by (simp add: answer_def split: option.split)

lemma resolve_tool_distinct:
  assumes "distinct (map (\<lambda>e. tc_id (tool_call e)) (entries m))"
    and "e \<in> set (entries m)" "tc_id (tool_call e) = i" "state e = PendingUserDecision"
  shows "resolve_tool m i d = (Inr (), m\<lparr>entries := map (answer [(i, d)]) (entries m)\<rparr>)"
proof -
  have "find (\<lambda>x. tc_id (tool_call x) = tc_id (tool_call e)) (entries m) = Some e"
    by (rule find_unique) (use assms in auto)
  then have f: "find (has_id i) (entries m) = Some e"
    using assms(3) by (simp add: has_id_def [abs_def])
  have "update_first (has_id i) (\<lambda>e. e\<lparr>state := Ready d\<rparr>) (entries m)
      = map (answer [(i, d)]) (entries m)"
    using update_first_unique [OF assms(1), of i "\<lambda>e. e\<lparr>state := Ready d\<rparr>"]
    by (auto simp: has_id_def [abs_def] answer_def)
  with f assms(4) show ?thesis by (simp add: resolve_tool_def)
qed

lemma resolve_tools_distinct:
  assumes "distinct (map (\<lambda>e. tc_id (tool_call e)) (entries m))" "distinct (map fst ds)"
    and "\<And>i. i \<in> fst ` set ds \<Longrightarrow>
      \<exists>e\<in>set (entries m). tc_id (tool_call e) = i \<and> state e = PendingUserDecision"
  shows "resolve_tools m ds = (Inr (), m\<lparr>entries := map (answer ds) (entries m)\<rparr>)"
  using assms
proof (induction ds arbitrary: m)
  case Nil
  have "answer [] = (\<lambda>e. e)" by (simp add: answer_def fun_eq_iff)
  then show ?case by simp
next
  case (Cons x ds)
  obtain i d where x: "x = (i, d)" by force
  let ?m = "m\<lparr>entries := map (answer [(i, d)]) (entries m)\<rparr>"
  obtain e where "e \<in> set (entries m)" "tc_id (tool_call e) = i" "state e = PendingUserDecision"
    using Cons.prems(3) [of i] x by auto
  then have r: "resolve_tool m i d = (Inr (), ?m)"
    using Cons.prems(1) by (intro resolve_tool_distinct) auto
  have "resolve_tools ?m ds = (Inr (), ?m\<lparr>entries := map (answer ds) (entries ?m)\<rparr>)"
  proof (rule Cons.IH)
    show "distinct (map (\<lambda>e. tc_id (tool_call e)) (entries ?m))"
      using Cons.prems(1) by (simp add: o_def)
    show "distinct (map fst ds)" using Cons.prems(2) by simp
    fix k assume k: "k \<in> fst ` set ds"
    then obtain e where e: "e \<in> set (entries m)" "tc_id (tool_call e) = k"
        "state e = PendingUserDecision" using Cons.prems(3) [of k] by auto
    have "k \<noteq> i" using Cons.prems(2) x k by auto
    with e have "answer [(i, d)] e = e" by (simp add: answer_def)
    with e show "\<exists>e\<in>set (entries ?m). tc_id (tool_call e) = k \<and> state e = PendingUserDecision"
      by (metis approval_state_machine.select_convs(1) approval_state_machine.surjective
          approval_state_machine.update_convs(1) image_eqI list.set_map)
  qed
  moreover have "map_of ds i = None"
    using Cons.prems(2) x by (simp add: map_of_eq_None_iff)
  then have "answer ds (answer [(i, d)] e) = answer ((i, d) # ds) e" for e
    by (simp add: answer_def split: option.split)
  ultimately show ?case using r x by (simp add: o_def)
qed

definition decided_by ::
  "tool_approval_policy \<Rightarrow> (string \<times> tool_decision) list \<Rightarrow> proposed_tool_call \<Rightarrow> tool_decision option"
where
  "decided_by policy ds tc =
     (case call_action policy tc of
        Approve \<Rightarrow> Some Accept
      | Deny \<Rightarrow> Some Reject
      | Ask \<Rightarrow> map_of ds (tc_id tc))"

lemma todo_after_answers:
  assumes "distinct (map tc_id calls)" "distinct (map fst ds)"
    and "fst ` set ds = set (map tc_id (filter (\<lambda>tc. call_action policy tc = Ask) calls))"
  shows "\<exists>m. apply_command (asm_new calls policy) (ResolveTools ds) = (Inr (), m) \<and> asm_wf m
           \<and> todo m = map (\<lambda>tc. (tc, decided_by policy ds tc)) calls"
proof -
  let ?s = "asm_new calls policy"
  let ?m = "?s\<lparr>entries := map (answer ds) (entries ?s)\<rparr>"
  have "resolve_tools ?s ds = (Inr (), ?m)"
  proof (rule resolve_tools_distinct)
    show "distinct (map (\<lambda>e. tc_id (tool_call e)) (entries ?s))"
      using assms(1) by (simp add: asm_new_def o_def)
    show "distinct (map fst ds)" by (rule assms(2))
    fix i assume "i \<in> fst ` set ds"
    then show "\<exists>e\<in>set (entries ?s). tc_id (tool_call e) = i \<and> state e = PendingUserDecision"
      using assms(3) by (auto simp: asm_new_def initial_state_def)
  qed
  moreover from this have "asm_wf ?m"
    using resolve_tools_inv [where P = asm_wf and m = ?s and ds = ds] by (auto simp: resolve_tool_wf)
  moreover have "decision_of (state (answer ds \<lparr>tool_call = tc, state = initial_state (call_action policy tc)\<rparr>))
      = decided_by policy ds tc" if "tc \<in> set calls" for tc
  proof (cases "call_action policy tc = Ask")
    case True
    then show ?thesis
      by (auto simp: answer_def initial_state_def decided_by_def split: option.splits)
  next
    case False
    have "tc_id tc \<notin> fst ` set ds"
    proof
      assume "tc_id tc \<in> fst ` set ds"
      with assms(3) obtain tc' where "tc' \<in> set calls" "tc_id tc' = tc_id tc" "call_action policy tc' = Ask"
        by auto
      with assms(1) that False show False by (metis distinct_map inj_onD)
    qed
    then have "map_of ds (tc_id tc) = None" by (simp add: map_of_eq_None_iff)
    with False show ?thesis
      by (cases "call_action policy tc") (auto simp: answer_def initial_state_def decided_by_def)
  qed
  then have "todo ?m = map (\<lambda>tc. (tc, decided_by policy ds tc)) calls"
    by (auto simp: todo_def asm_new_def)
  ultimately show ?thesis by auto
qed

section \<open>Properties\<close>

text \<open>
  C35. Calls leave the machine in the order the model proposed them: after any interleaving of host
  commands and polls, the calls handed out are a prefix of the proposed list, whatever order the
  answers came in.
\<close>

theorem approval_ordered_dispatch:
  assumes "reach calls policy cmds out m"
  shows "map r_tool_call out = take (length out) calls"
proof -
  have "map r_tool_call out = take (next_index m) calls"
    using reach_run_inv [OF assms] by (simp add: run_inv_def)
  then show ?thesis
    by (metis length_map length_take min_def nle_le take_all take_take)
qed

text \<open>
  C2. No call is dispatched with a decision nobody made: a call the policy approves runs, a call the
  policy denies is rejected even when the host later sends an approval for its id, and a call the
  policy asks about carries a decision that some host command gave for its id.
\<close>

theorem approval_decisions_authorised:
  assumes "reach calls policy cmds out m" "r \<in> set out"
  shows "granted policy cmds (r_tool_call r) (r_decision r)"
  using reach_run_inv [OF assms(1)] assms(2) by (simp add: run_inv_def)


text \<open>
  C40. The index walk of \<open>next_ready\<close> is a queue: on every reachable machine one poll pops the head
  of \<open>todo\<close> if it is decided and changes nothing otherwise.
\<close>

theorem next_ready_refines_queue:
  assumes "reach calls policy cmds out m"
  shows "(fst (next_ready m), todo (snd (next_ready m))) = pop_decided (todo m)
     \<and> map fst (todo m) = drop (length out) calls"
proof -
  have inv: "run_inv calls policy cmds out m" by (rule reach_run_inv [OF assms])
  then have wf: "asm_wf m" and calls: "map tool_call (entries m) = calls"
    by (simp_all add: run_inv_def)
  have "length out = next_index m"
    using inv wf by (auto simp: run_inv_def asm_wf_def dest: arg_cong [where f = length])
  then have "map fst (todo m) = drop (length out) calls"
    by (simp add: todo_def o_def drop_map calls [symmetric])
  with next_ready_todo [OF wf] show ?thesis by simp
qed

section \<open>Witnesses\<close>

definition wit_call :: "string \<Rightarrow> string \<Rightarrow> proposed_tool_call" where
  "wit_call i n = \<lparr>tc_id = i, tc_name = n, tc_arguments = JNull, tc_metadata = None\<rparr>"

text \<open>Two calls, answered in reverse order, then both dispatched.\<close>

definition wit_calls :: "proposed_tool_call list" where
  "wit_calls = [wit_call ''a'' ''set_attribute'', wit_call ''b'' ''remove_resource'']"

lemma wit_reach:
  "\<exists>m. reach wit_calls Policy_None [ResolveTool ''b'' Accept, ResolveTool ''a'' Reject]
     [\<lparr>r_tool_call = wit_call ''a'' ''set_attribute'', r_decision = Reject\<rparr>] m"
proof -
  have "reach wit_calls Policy_None ([] @ [ResolveTool ''b'' Accept]) []
          (snd (apply_command (asm_new wit_calls Policy_None) (ResolveTool ''b'' Accept)))"
    by (intro reach.intros)
  then have "reach wit_calls Policy_None (([] @ [ResolveTool ''b'' Accept]) @ [ResolveTool ''a'' Reject]) []
          (snd (apply_command (snd (apply_command (asm_new wit_calls Policy_None)
             (ResolveTool ''b'' Accept))) (ResolveTool ''a'' Reject)))"
    by (rule reach.command)
  note dispatch = reach.dispatch [OF this]
  show ?thesis
    by (rule exI, rule dispatch [simplified],
        simp add: asm_new_def wit_calls_def wit_call_def call_action_def initial_state_def
          resolve_tool_def has_id_def next_ready.simps)
qed

theorem approval_ordered_dispatch_witness:
  "\<exists>m out. reach wit_calls Policy_None [ResolveTool ''b'' Accept, ResolveTool ''a'' Reject] out m
     \<and> out \<noteq> [] \<and> map r_tool_call out = take (length out) wit_calls"
  using wit_reach approval_ordered_dispatch by blast

theorem approval_decisions_authorised_witness:
  "granted Policy_None [ResolveTool ''b'' Accept, ResolveTool ''a'' Reject]
     (wit_call ''a'' ''set_attribute'') Reject"
proof -
  obtain m where "reach wit_calls Policy_None [ResolveTool ''b'' Accept, ResolveTool ''a'' Reject]
     [\<lparr>r_tool_call = wit_call ''a'' ''set_attribute'', r_decision = Reject\<rparr>] m"
    using wit_reach by blast
  from approval_decisions_authorised [OF this, of "\<lparr>r_tool_call = wit_call ''a'' ''set_attribute'', r_decision = Reject\<rparr>"]
  show ?thesis by simp
qed


theorem next_ready_refines_queue_witness:
  "\<exists>m. map fst (todo m) = drop 1 wit_calls
     \<and> (fst (next_ready m), todo (snd (next_ready m))) = pop_decided (todo m)"
proof -
  obtain m where "reach wit_calls Policy_None [ResolveTool ''b'' Accept, ResolveTool ''a'' Reject]
     [\<lparr>r_tool_call = wit_call ''a'' ''set_attribute'', r_decision = Reject\<rparr>] m"
    using wit_reach by blast
  from next_ready_refines_queue [OF this] show ?thesis by auto
qed

end
