(* ===== verification/Float64.thy ===== *)
theory Float64
  imports Prelude
begin

text \<open>
  The \<open>f64\<close> operations of Rust that the sources use, computed on IEEE-754 bit patterns: the casts
  between \<open>u64\<close> and \<open>f64\<close>, the four operations with rounding to nearest even, and \<open>f64::min\<close>. The
  lemmas give what the retry code needs: the cast back to \<open>u64\<close> is monotone, and it inverts the
  cast to \<open>f64\<close> below \<open>2 ^ 53\<close>.
\<close>

section \<open>Decoding and rounding\<close>

text \<open>A finite pattern has the value \<open>f64_mant x * 2 ^ (f64_exp x - 1075)\<close>, up to sign.\<close>

definition f64_exp :: "f64 \<Rightarrow> nat" where
  "f64_exp x = max 1 (f64_magnitude x div 2 ^ 52)"

definition f64_mant :: "f64 \<Rightarrow> nat" where
  "f64_mant x = (if f64_magnitude x div 2 ^ 52 = 0 then f64_magnitude x
                 else 2 ^ 52 + f64_magnitude x mod 2 ^ 52)"

definition f64_infinity_bits :: nat where
  "f64_infinity_bits = 0x7FF0000000000000"

fun bit_length :: "nat \<Rightarrow> nat" where
  "bit_length n = (if n = 0 then 0 else Suc (bit_length (n div 2)))"

declare bit_length.simps [simp del]

definition div_nearest_even :: "nat \<Rightarrow> nat \<Rightarrow> nat" where
  "div_nearest_even m k =
     (let q = m div 2 ^ k; r = m mod 2 ^ k in
      if k = 0 then m
      else if 2 * r < 2 ^ k then q
      else if 2 ^ k < 2 * r then q + 1
      else if even q then q else q + 1)"

text \<open>
  The pattern nearest to \<open>m * 2 ^ (e - 1075)\<close>, for a magnitude \<open>m\<close> and a biased exponent \<open>e\<close>: the
  mantissa is brought to 53 bits (fewer for a subnormal result), ties go to the even pattern, a
  carry out of the mantissa moves into the exponent field, and overflow is infinity.
\<close>

definition f64_round :: "bool \<Rightarrow> nat \<Rightarrow> int \<Rightarrow> f64" where
  "f64_round neg m e =
     (let up = int (bit_length m) - 53;
          e' = max 1 (e + up);
          m' = (if e \<le> e' then div_nearest_even m (nat (e' - e)) else m * 2 ^ nat (e - e'));
          bits = (if m' < 2 ^ 52 then m' else (nat e' - 1) * 2 ^ 52 + m')
      in of_nat (min bits f64_infinity_bits + (if neg then 2 ^ 63 else 0)))"

definition f64_of_u64 :: "u64 \<Rightarrow> f64" where
  "f64_of_u64 n = f64_round False (unat n) 1075"

definition f64_is_infinite :: "f64 \<Rightarrow> bool" where
  "f64_is_infinite x \<longleftrightarrow> f64_magnitude x = f64_infinity_bits"

definition f64_nan :: f64 where
  "f64_nan = 0x7FF8000000000000"

definition f64_mul :: "f64 \<Rightarrow> f64 \<Rightarrow> f64" where
  "f64_mul x y =
     (let neg = (f64_is_sign_negative x \<noteq> f64_is_sign_negative y) in
      if f64_is_nan x \<or> f64_is_nan y then f64_nan
      else if f64_is_infinite x \<or> f64_is_infinite y then
        (if f64_magnitude x = 0 \<or> f64_magnitude y = 0 then f64_nan
         else of_nat (f64_infinity_bits + (if neg then 2 ^ 63 else 0)))
      else f64_round neg (f64_mant x * f64_mant y) (int (f64_exp x) + int (f64_exp y) - 1075))"

text \<open>Addition of floats, correctly rounded.\<close>

definition f64_signed_mant :: "f64 \<Rightarrow> int" where
  "f64_signed_mant x = (if f64_is_sign_negative x then - int (f64_mant x) else int (f64_mant x))"

definition f64_add :: "f64 \<Rightarrow> f64 \<Rightarrow> f64" where
  "f64_add x y =
     (if f64_is_nan x \<or> f64_is_nan y then f64_nan
      else if f64_is_infinite x \<and> f64_is_infinite y then (if x = y then x else f64_nan)
      else if f64_is_infinite x then x
      else if f64_is_infinite y then y
      else if f64_magnitude x = 0 \<and> f64_magnitude y \<noteq> 0 then y
      else if f64_magnitude y = 0 \<and> f64_magnitude x \<noteq> 0 then x
      else
        let e = min (f64_exp x) (f64_exp y);
            s = f64_signed_mant x * 2 ^ (f64_exp x - e) + f64_signed_mant y * 2 ^ (f64_exp y - e) in
        if s = 0 then (if f64_is_sign_negative x \<and> f64_is_sign_negative y then 2 ^ 63 else 0)
        else f64_round (s < 0) (nat \<bar>s\<bar>) (int e))"

definition f64_neg :: "f64 \<Rightarrow> f64" where
  "f64_neg x = x + 2 ^ 63"

definition f64_sub :: "f64 \<Rightarrow> f64 \<Rightarrow> f64" where
  "f64_sub x y = f64_add x (f64_neg y)"

text \<open>
  Division: the quotient of the mantissas to at least 66 bits, with a last bit that says whether
  anything was left over, then rounded.
\<close>

definition f64_div :: "f64 \<Rightarrow> f64 \<Rightarrow> f64" where
  "f64_div x y =
     (let neg = (f64_is_sign_negative x \<noteq> f64_is_sign_negative y); sign = (if neg then 2 ^ 63 else 0);
          n = f64_mant x * 2 ^ 120; d = f64_mant y in
      if f64_is_nan x \<or> f64_is_nan y then f64_nan
      else if f64_is_infinite x then (if f64_is_infinite y then f64_nan else of_nat f64_infinity_bits + sign)
      else if f64_is_infinite y then sign
      else if f64_magnitude y = 0 then (if f64_magnitude x = 0 then f64_nan else of_nat f64_infinity_bits + sign)
      else f64_round neg (2 * (n div d) + (if n mod d = 0 then 0 else 1))
             (int (f64_exp x) - int (f64_exp y) + 1075 - 121))"

text \<open>\<open>f64::min\<close>: a NaN operand is ignored.\<close>

definition f64_min :: "f64 \<Rightarrow> f64 \<Rightarrow> f64" where
  "f64_min x y = (if f64_is_nan x then y else if f64_is_nan y then x else if f64_le x y then x else y)"

text \<open>\<open>x as u64\<close>: truncation towards zero, saturating at both ends, NaN to zero.\<close>

definition f64_trunc :: "nat \<Rightarrow> nat" where
  "f64_trunc b =
     (let e = b div 2 ^ 52; f = b mod 2 ^ 52 in
      if e = 0 then 0
      else if 1075 \<le> e then (2 ^ 52 + f) * 2 ^ (e - 1075)
      else (2 ^ 52 + f) div 2 ^ (1075 - e))"

definition f64_to_u64 :: "f64 \<Rightarrow> u64" where
  "f64_to_u64 x =
     (if f64_is_nan x \<or> f64_is_sign_negative x then 0
      else of_nat (min (f64_trunc (f64_magnitude x)) (2 ^ 64 - 1)))"

section \<open>The cast to \<open>u64\<close> is monotone\<close>

lemma div_pow2_mono_step: "m div 2 ^ Suc k = (m div 2) div (2 ^ k :: nat)"
  by (simp add: div_mult2_eq)

definition scaled :: "nat \<Rightarrow> nat \<Rightarrow> nat" where
  "scaled m e = (if 1075 \<le> e then m * 2 ^ (e - 1075) else m div 2 ^ (1075 - e))"

lemma scaled_mono: "m \<le> m' \<Longrightarrow> scaled m e \<le> scaled m' e"
  by (simp add: scaled_def div_le_mono)

lemma scaled_double: "scaled (2 * m) e = scaled m (Suc e)"
proof (cases "1075 \<le> e")
  case True
  then have "Suc e - 1075 = Suc (e - 1075)" by simp
  with True show ?thesis by (simp add: scaled_def)
next
  case False
  then have "1075 - e = Suc (1075 - Suc e)" by simp
  with False show ?thesis by (simp add: scaled_def div_pow2_mono_step del: power_Suc)
qed

lemma scaled_exp_mono: "e \<le> e' \<Longrightarrow> scaled m e \<le> scaled m e'"
proof (induction rule: dec_induct)
  case (step k)
  have "scaled m k \<le> scaled (2 * m) k" by (rule scaled_mono) simp
  with step show ?case by (simp add: scaled_double)
qed simp

lemma f64_trunc_mono:
  assumes "b \<le> b'"
  shows "f64_trunc b \<le> f64_trunc b'"
proof -
  have s: "f64_trunc x = (if x div 2 ^ 52 = 0 then 0 else scaled (2 ^ 52 + x mod 2 ^ 52) (x div 2 ^ 52))" for x
    by (simp add: f64_trunc_def scaled_def Let_def)
  let ?e = "b div 2 ^ 52" and ?e' = "b' div 2 ^ 52"
  have le: "?e \<le> ?e'" using assms by (rule div_le_mono)
  show ?thesis
  proof (cases "?e = 0")
    case True
    then show ?thesis by (simp add: s)
  next
    case nz: False
    show ?thesis
    proof (cases "?e = ?e'")
      case True
      then have "b mod 2 ^ 52 \<le> b' mod 2 ^ 52"
        using assms by (metis add_le_cancel_left mult_div_mod_eq)
      with True nz show ?thesis by (simp add: s scaled_mono)
    next
      case False
      have "scaled (2 ^ 52 + b mod 2 ^ 52) ?e \<le> scaled (2 * 2 ^ 52) ?e"
        by (rule scaled_mono) (simp add: less_imp_le)
      also have "\<dots> = scaled (2 ^ 52) (Suc ?e)" by (rule scaled_double)
      also have "\<dots> \<le> scaled (2 ^ 52) ?e'" using False le by (intro scaled_exp_mono) simp
      also have "\<dots> \<le> scaled (2 ^ 52 + b' mod 2 ^ 52) ?e'" by (rule scaled_mono) simp
      finally show ?thesis using nz le by (simp add: s)
    qed
  qed
qed

lemma unat_of_nat_min64: "unat (of_nat (min k (2 ^ 64 - 1)) :: u64) = min k (2 ^ 64 - 1)"
  by (subst unat_of_nat, rule mod_less) (simp add: min_def)

lemma unat_f64_to_u64:
  "unat (f64_to_u64 x) = (if f64_is_nan x \<or> f64_is_sign_negative x then 0
     else min (f64_trunc (f64_magnitude x)) (2 ^ 64 - 1))"
  unfolding f64_to_u64_def by (simp only: unat_of_nat_min64 unsigned_0 split: if_split) simp

lemma f64_to_u64_mono:
  assumes "f64_le x y"
  shows "unat (f64_to_u64 x) \<le> unat (f64_to_u64 y)"
proof (cases "f64_is_sign_negative x")
  case True
  then show ?thesis by (simp add: unat_f64_to_u64)
next
  case False
  show ?thesis
  proof (cases "f64_is_sign_negative y")
    case True
    with False assms have "f64_magnitude x = 0"
      by (simp add: f64_le_def f64_key_def)
    then show ?thesis by (simp add: unat_f64_to_u64 f64_trunc_def)
  next
    case False
    with \<open>\<not> f64_is_sign_negative x\<close> assms have "f64_magnitude x \<le> f64_magnitude y"
      by (simp add: f64_le_def f64_key_def)
    from f64_trunc_mono [OF this] assms False \<open>\<not> f64_is_sign_negative x\<close>
    show ?thesis by (simp add: unat_f64_to_u64 f64_le_def)
  qed
qed

section \<open>Small integers are exact\<close>

lemma bit_length_pos: "0 < n \<Longrightarrow> bit_length n = Suc (bit_length (n div 2))"
  by (simp add: bit_length.simps [of n])

lemma bit_length_0 [simp]: "bit_length 0 = 0"
  by (simp add: bit_length.simps)

lemma bit_length_bounds: "0 < n \<Longrightarrow> 2 ^ bit_length n \<le> 2 * n \<and> n < 2 ^ bit_length n"
proof (induction n rule: bit_length.induct)
  case (1 n)
  show ?case
  proof (cases "n div 2 = 0")
    case True
    with 1 have "n = 1" by auto
    then show ?thesis by (simp add: bit_length_pos)
  next
    case False
    with 1 have IH: "2 ^ bit_length (n div 2) \<le> 2 * (n div 2)" "n div 2 < 2 ^ bit_length (n div 2)"
      by auto
    have "2 ^ bit_length n = 2 * (2::nat) ^ bit_length (n div 2)"
      using 1(2) by (simp add: bit_length_pos)
    with IH show ?thesis by linarith
  qed
qed

lemma bit_length_le:
  assumes "n < 2 ^ k"
  shows "bit_length n \<le> k"
proof (cases "n = 0")
  case False
  have "(2::nat) ^ bit_length n < 2 ^ Suc k"
    using bit_length_bounds [of n] False assms by simp
  then have "bit_length n < Suc k" by (rule power_less_imp_less_exp [rotated]) simp
  then show ?thesis by simp
qed simp

text \<open>
  Below \<open>2 ^ 53\<close> the cast to \<open>f64\<close> normalises the integer to 53 bits; nothing is rounded away.
\<close>

lemma f64_of_u64_small:
  fixes n :: u64
  defines "m \<equiv> unat n" and "l \<equiv> bit_length (unat n)"
  assumes "0 < unat n" "unat n < 2 ^ 53"
  shows "f64_magnitude (f64_of_u64 n) = (1021 + l) * 2 ^ 52 + m * 2 ^ (53 - l)"
    and "\<not> f64_is_sign_negative (f64_of_u64 n)" "2 ^ 52 \<le> m * 2 ^ (53 - l)"
    and "m * 2 ^ (53 - l) < 2 ^ 53" "0 < l" "l \<le> 53"
proof -
  have b: "2 ^ l \<le> 2 * m" "m < 2 ^ l" using bit_length_bounds [OF assms(3)] by (auto simp: m_def l_def)
  show l: "l \<le> 53" using bit_length_le [OF assms(4)] by (simp add: l_def)
  show l0: "0 < l" using assms(3) by (simp add: l_def bit_length_pos)
  have split: "(2::nat) ^ 53 = 2 ^ l * 2 ^ (53 - l)" using l by (simp flip: power_add)
  have "2 ^ l * 2 ^ (53 - l) \<le> 2 * m * 2 ^ (53 - l)" using b(1) by (rule mult_le_mono1)
  then have "2 ^ 53 \<le> 2 * (m * 2 ^ (53 - l))" by (simp only: split mult.assoc)
  then show lo: "2 ^ 52 \<le> m * 2 ^ (53 - l)" by simp
  have "m * 2 ^ (53 - l) < 2 ^ l * 2 ^ (53 - l)" using b(2) by simp
  then show hi: "m * 2 ^ (53 - l) < 2 ^ 53" by (simp only: split)
  let ?bits = "(1021 + l) * 2 ^ 52 + m * 2 ^ (53 - l)"
  have e: "max 1 ((1075::int) + (int l - 53)) = 1022 + int l" by simp
  have mant: "(if (1075::int) \<le> 1022 + int l then div_nearest_even m (nat (1022 + int l - 1075))
     else m * 2 ^ nat (1075 - (1022 + int l))) = m * 2 ^ (53 - l)"
  proof (cases "l = 53")
    case True
    then show ?thesis by (simp add: div_nearest_even_def)
  next
    case False
    with l have "nat (1075 - (1022 + int l)) = 53 - l" by simp
    with False l show ?thesis by simp
  qed
  have e1: "nat (1022 + int l) - 1 = 1021 + l" by simp
  have bits: "?bits < f64_infinity_bits"
    using l hi unfolding f64_infinity_bits_def by (simp add: algebra_simps)
  have ml: "bit_length m = l" by (simp add: l_def m_def)
  have "f64_of_u64 n = of_nat (min ?bits f64_infinity_bits + (if False then 2 ^ 63 else 0))"
    unfolding f64_of_u64_def f64_round_def Let_def m_def [symmetric] ml e mant e1
    using lo by (simp only: if_False leD if_cancel simp_thms)
  then have eq: "f64_of_u64 n = of_nat ?bits" using bits by simp
  have lt: "?bits < 2 ^ 63" using bits by (simp add: f64_infinity_bits_def)
  have "unat (of_nat ?bits :: u64) = ?bits"
    by (subst unat_of_nat, rule mod_less) (use lt in simp)
  with lt show "f64_magnitude (f64_of_u64 n) = ?bits" "\<not> f64_is_sign_negative (f64_of_u64 n)"
    unfolding eq f64_magnitude_def f64_is_sign_negative_def by simp_all
qed

lemma f64_of_u64_exact:
  assumes "unat n < 2 ^ 53"
  shows "f64_to_u64 (f64_of_u64 n) = n" "\<not> f64_is_nan (f64_of_u64 n)"
    "\<not> f64_is_sign_negative (f64_of_u64 n)"
proof -
  let ?x = "f64_of_u64 n"
  have "unat (f64_to_u64 ?x) = unat n \<and> \<not> f64_is_nan ?x \<and> \<not> f64_is_sign_negative ?x"
  proof (cases "0 < unat n")
    case False
    then have "n = 0" by (simp add: unat_eq_0)
    then show ?thesis
      by (simp add: f64_of_u64_def f64_round_def div_nearest_even_def Let_def unat_f64_to_u64
          f64_trunc_def f64_is_nan_def f64_magnitude_def f64_is_sign_negative_def)
  next
    case True
    define l where "l = bit_length (unat n)"
    define r where "r = unat n * 2 ^ (53 - l) - 2 ^ 52"
    note s = f64_of_u64_small [OF True assms, folded l_def]
    have mag: "f64_magnitude ?x = (1022 + l) * 2 ^ 52 + r" "r < 2 ^ 52"
      "2 ^ 52 + r = unat n * 2 ^ (53 - l)"
      using s by (simp_all add: r_def algebra_simps)
    have "(k * 2 ^ 52 + r) div 2 ^ 52 = k" "(k * 2 ^ 52 + r) mod 2 ^ 52 = r" for k :: nat
      using mag(2) by simp_all
    then have dm: "f64_magnitude ?x div 2 ^ 52 = 1022 + l" "f64_magnitude ?x mod 2 ^ 52 = r"
      by (simp_all only: mag(1))
    have "f64_trunc (f64_magnitude ?x) = unat n"
    proof (cases "l = 53")
      case True
      with dm mag(3) show ?thesis by (simp add: f64_trunc_def Let_def)
    next
      case False
      with s(6) have "1075 - (1022 + l) = 53 - l" "\<not> 1075 \<le> 1022 + l" by simp_all
      then show ?thesis unfolding f64_trunc_def Let_def dm mag(3) by simp
    qed
    moreover have "\<not> f64_is_nan ?x"
      using mag s(6) by (simp add: f64_is_nan_def algebra_simps)
    ultimately show ?thesis using s(2) assms by (simp add: unat_f64_to_u64)
  qed
  then show "f64_to_u64 ?x = n" "\<not> f64_is_nan ?x" "\<not> f64_is_sign_negative ?x"
    by (simp_all add: word_unat_eq_iff)
qed


lemma bit_length_numeral:
  "bit_length 0 = 0" "bit_length 1 = 1" "bit_length (Suc 0) = 1"
  "bit_length (numeral (Num.Bit0 w)) = Suc (bit_length (numeral w))"
  "bit_length (numeral (Num.Bit1 w)) = Suc (bit_length (numeral w))"
  by (simp_all add: bit_length_pos)

text \<open>What evaluates a float expression on concrete patterns, one operation at a time.\<close>

lemmas f64_tests = f64_is_sign_negative_def f64_is_nan_def f64_is_infinite_def f64_magnitude_def
lemmas f64_of_u64_eval = f64_of_u64_def f64_round_def bit_length_numeral div_nearest_even_def
  f64_infinity_bits_def
lemmas f64_to_u64_eval = f64_to_u64_def f64_trunc_def f64_tests
lemmas f64_mul_eval = f64_mul_def f64_tests f64_infinity_bits_def f64_mant_def f64_exp_def
lemmas f64_min_eval = f64_min_def f64_le_def f64_key_def f64_tests

end
