(* ===== verification/Retry.thy ===== *)
theory Retry
  imports Agent_Types Float64
begin

text \<open>
  \<open>libs/agent-core/src/retry.rs\<close>: the delay before an LLM call is retried. A provider's header
  wins over the local exponential backoff. Instants are nanoseconds since the epoch; the RFC 2822
  date parser of the \<open>chrono\<close> crate and \<open>f64::powi\<close>, whose rounding Rust leaves to the platform,
  are parameters.
\<close>

section \<open>Header values\<close>

text \<open>\<open>str::parse::<u64>\<close>: an optional plus sign, then at least one digit, without overflow.\<close>

definition digit_value :: "char \<Rightarrow> nat" where
  "digit_value c = of_char c - 48"

fun parse_digits :: "nat \<Rightarrow> string \<Rightarrow> nat option" where
  "parse_digits n [] = Some n"
| "parse_digits n (c # cs) =
     (if is_ascii_digit c \<and> n * 10 + digit_value c < 2 ^ 64
      then parse_digits (n * 10 + digit_value c) cs else None)"

definition parse_u64 :: "string \<Rightarrow> u64 option" where
  "parse_u64 s =
     (let ds = (case s of c # cs \<Rightarrow> if c = CHR ''+'' then cs else s | [] \<Rightarrow> []) in
      if ds = [] then None else map_option of_nat (parse_digits 0 ds))"

type_synonym headers = "(string \<times> string) list"

definition find_header :: "headers \<Rightarrow> string \<Rightarrow> string option" where
  "find_header headers key =
     map_option snd (find (\<lambda>kv. eq_ignore_ascii_case (fst kv) key) headers)"

section \<open>The delay\<close>

datatype retry_delay_source = RetryAfterMsHeader | RetryAfterHeader | ExponentialBackoff

record retry_delay =
  delay_ms :: u64
  source :: retry_delay_source

text \<open>\<open>TimeDelta::num_milliseconds\<close> truncates towards zero.\<close>

definition num_milliseconds :: "int \<Rightarrow> int" where
  "num_milliseconds ns = sgn ns * (\<bar>ns\<bar> div 1000000)"

definition parse_retry_delay_from_headers ::
  "(string \<Rightarrow> int option) \<Rightarrow> headers \<Rightarrow> int \<Rightarrow> retry_delay option"
where
  "parse_retry_delay_from_headers parse_from_rfc2822 headers now =
     (let from_retry_after =
        (case find_header headers ''retry-after'' of
           None \<Rightarrow> None
         | Some raw \<Rightarrow>
             (case parse_u64 (str_trim raw) of
                Some seconds \<Rightarrow>
                  Some \<lparr>delay_ms = saturating_mul64 seconds 1000, source = RetryAfterHeader\<rparr>
              | None \<Rightarrow>
                  (case parse_from_rfc2822 (str_trim raw) of
                     None \<Rightarrow> None
                   | Some date \<Rightarrow>
                       (let diff_ms = num_milliseconds (date - now) in
                        if diff_ms \<le> 0 then Some \<lparr>delay_ms = 0, source = RetryAfterHeader\<rparr>
                        else Some \<lparr>delay_ms = of_int diff_ms, source = RetryAfterHeader\<rparr>))))
      in case find_header headers ''retry-after-ms'' of
           None \<Rightarrow> from_retry_after
         | Some raw_ms \<Rightarrow>
             (case parse_u64 (str_trim raw_ms) of
                Some ms \<Rightarrow> Some \<lparr>delay_ms = ms, source = RetryAfterMsHeader\<rparr>
              | None \<Rightarrow> from_retry_after))"

text \<open>The exponent is converted to an \<open>i32\<close>, saturating.\<close>

definition exponential_backoff_ms :: "(f64 \<Rightarrow> nat \<Rightarrow> f64) \<Rightarrow> retry_config \<Rightarrow> nat \<Rightarrow> u64" where
  "exponential_backoff_ms f64_powi config attempt =
     (if attempt \<le> 1 then min (initial_backoff_ms config) (max_backoff_ms config)
      else
        let exponent = min (attempt - 1) (2 ^ 31 - 1);
            factor = f64_powi (multiplier config) exponent;
            delay = f64_mul (f64_of_u64 (initial_backoff_ms config)) factor
        in if f64_is_nan delay \<or> f64_is_sign_negative delay
           then min (initial_backoff_ms config) (max_backoff_ms config)
           else f64_to_u64 (f64_min delay (f64_of_u64 (max_backoff_ms config))))"

definition resolve_retry_delay_ms ::
  "(string \<Rightarrow> int option) \<Rightarrow> (f64 \<Rightarrow> nat \<Rightarrow> f64) \<Rightarrow> headers \<Rightarrow> retry_config \<Rightarrow> nat \<Rightarrow> int \<Rightarrow> retry_delay"
where
  "resolve_retry_delay_ms parse_from_rfc2822 f64_powi headers config attempt now =
     (case parse_retry_delay_from_headers parse_from_rfc2822 headers now of
        Some parsed \<Rightarrow> parsed
      | None \<Rightarrow> \<lparr>delay_ms = exponential_backoff_ms f64_powi config attempt,
                 source = ExponentialBackoff\<rparr>)"

section \<open>Decimal headers are read back\<close>

lemma digit_char:
  assumes "d < 10"
  shows "is_ascii_digit (char_of (48 + d))" "digit_value (char_of (48 + d)) = d"
proof -
  have "d \<in> {0, 1, 2, 3, 4, 5, 6, 7, 8, 9}" using assms by auto
  then show "is_ascii_digit (char_of (48 + d))" "digit_value (char_of (48 + d)) = d"
    by (auto simp: is_ascii_digit_def digit_value_def less_eq_char_def)
qed

lemma parse_digits_append:
  "parse_digits n (xs @ ys) = Option.bind (parse_digits n xs) (\<lambda>n'. parse_digits n' ys)"
  by (induction n xs rule: parse_digits.induct) auto

lemma parse_digits_nat_str: "n < 2 ^ 64 \<Longrightarrow> parse_digits 0 (nat_str n) = Some n"
proof (induction n rule: nat_str.induct)
  case (1 n)
  show ?case
  proof (cases "n < 10")
    case True
    with 1 show ?thesis using digit_char [OF True] by (subst nat_str.simps) simp
  next
    case False
    with 1 have IH: "parse_digits 0 (nat_str (n div 10)) = Some (n div 10)" by simp
    have "n mod 10 < 10" by simp
    note d = digit_char [OF this]
    have n: "n div 10 * 10 + n mod 10 = n" by simp
    show ?thesis
      by (subst nat_str.simps)
        (simp only: False if_False parse_digits_append IH bind.simps parse_digits.simps d n "1.prems"
          simp_thms if_True)
  qed
qed

lemma nat_str_digits: "c \<in> set (nat_str n) \<Longrightarrow> is_ascii_digit c"
proof (induction n rule: nat_str.induct)
  case (1 n)
  have "n mod 10 < 10" by simp
  from 1 digit_char(1) [OF this] show ?case
    by (subst (asm) (2) nat_str.simps) (auto split: if_splits intro: digit_char)
qed

lemma nat_str_nonempty [simp]: "nat_str n \<noteq> []"
  by (subst nat_str.simps) simp


lemma digits_not_white_space:
  assumes "c \<in> set white_space \<union> set (map rev white_space)" "c \<noteq> []"
  shows "\<not> is_ascii_digit (hd c)"
  using assms by (auto simp: white_space_def is_ascii_digit_def less_eq_char_def)

lemma trim_start_digits:
  assumes "\<And>c. c \<in> set s \<Longrightarrow> is_ascii_digit c" "set ws \<subseteq> set white_space \<union> set (map rev white_space)"
  shows "trim_start ws s = s"
proof -
  have "\<not> (w \<noteq> [] \<and> starts_with w s)" if w: "w \<in> set ws" for w
  proof
    assume pre: "w \<noteq> [] \<and> starts_with w s"
    then have "hd w \<in> set s" by (cases w) (auto simp: starts_with_iff)
    moreover have "\<not> is_ascii_digit (hd w)"
      using w assms(2) pre by (intro digits_not_white_space) auto
    ultimately show False using assms(1) by blast
  qed
  then have "find (\<lambda>w. w \<noteq> [] \<and> starts_with w s) ws = None" by (simp add: find_None_iff)
  then show ?thesis by (subst trim_start.simps) simp
qed

lemma str_trim_digits:
  assumes "\<And>c. c \<in> set s \<Longrightarrow> is_ascii_digit c"
  shows "str_trim s = s"
proof -
  have "trim_start white_space s = s" by (rule trim_start_digits) (use assms in auto)
  moreover have "trim_start (map rev white_space) (rev s) = rev s"
    by (rule trim_start_digits) (use assms in auto)
  ultimately show ?thesis by (simp add: str_trim_def)
qed

lemma parse_u64_nat_str: "parse_u64 (str_trim (nat_str (unat (n::u64)))) = Some n"
proof -
  have "str_trim (nat_str (unat n)) = nat_str (unat n)"
    by (rule str_trim_digits) (rule nat_str_digits)
  moreover have "parse_digits 0 (nat_str (unat n)) = Some (unat n)"
    by (rule parse_digits_nat_str) (use unsigned_less [of n] in simp)
  moreover obtain c cs where s: "nat_str (unat n) = c # cs" by (cases "nat_str (unat n)") auto
  moreover have "c \<noteq> CHR ''+''"
    using nat_str_digits [of c "unat n"] s by (auto simp: is_ascii_digit_def less_eq_char_def)
  ultimately show ?thesis by (simp add: parse_u64_def Let_def)
qed

section \<open>Properties\<close>

lemma f64_min_le_right:
  assumes "\<not> f64_is_nan y"
  shows "f64_le (f64_min x y) y"
  using assms by (auto simp: f64_min_def f64_le_def)

lemma word_min_le: "min a b \<le> (b :: u64)"
  by simp

text \<open>A provider that sends \<open>retry-after-ms\<close> as a plain decimal gets exactly that delay: the
  value is read back whatever its size, whatever the other headers, the configuration, the attempt
  and the clock say, and the delay is marked as coming from that header.\<close>

theorem retry_after_ms_honoured:
  assumes "find_header hs ''retry-after-ms'' = Some (nat_str (unat (n :: u64)))"
  shows "resolve_retry_delay_ms parse_date f64_powi hs config attempt now =
    \<lparr>delay_ms = n, source = RetryAfterMsHeader\<rparr>"
  by (simp add: resolve_retry_delay_ms_def parse_retry_delay_from_headers_def assms
      parse_u64_nat_str Let_def)

theorem retry_after_ms_honoured_witness:
  "resolve_retry_delay_ms (\<lambda>_. None) (\<lambda>x _. x)
     [(''Retry-After'', ''20''), (''RETRY-After-MS'', ''7'')] retry_config_default 3 0 =
   \<lparr>delay_ms = 7, source = RetryAfterMsHeader\<rparr>"
  by (rule retry_after_ms_honoured) code_simp

text \<open>Without a usable header the delay never exceeds the configured maximum, whatever the
  multiplier (infinite, negative or NaN included), the attempt and the platform's \<open>powi\<close>, as long
  as the maximum is exactly representable as a float.\<close>

theorem backoff_bounded:
  assumes "unat (max_backoff_ms config) < 2 ^ 53"
    and "parse_retry_delay_from_headers parse_date hs now = None"
  shows "source (resolve_retry_delay_ms parse_date f64_powi hs config attempt now) = ExponentialBackoff
    \<and> delay_ms (resolve_retry_delay_ms parse_date f64_powi hs config attempt now) \<le> max_backoff_ms config"
proof -
  let ?cap = "f64_of_u64 (max_backoff_ms config)"
  have "f64_to_u64 (f64_min x ?cap) \<le> max_backoff_ms config" for x
    unfolding word_le_nat_alt using f64_to_u64_mono [OF f64_min_le_right, of ?cap x] f64_of_u64_exact [OF assms(1)] by simp
  then show ?thesis
    using assms(2)
    by (simp add: resolve_retry_delay_ms_def exponential_backoff_ms_def Let_def word_le_nat_alt [symmetric]
        word_min_le)
qed

theorem backoff_bounded_witness:
  "delay_ms (resolve_retry_delay_ms (\<lambda>_. None) (\<lambda>x n. 0x7FF0000000000000) [] retry_config_default 3 0)
     \<le> 30000"
  using backoff_bounded [of retry_config_default "\<lambda>_. None" "[]" 0 "\<lambda>x n. 0x7FF0000000000000" 3]
  by (simp add: retry_config_default_def parse_retry_delay_from_headers_def find_header_def)

lemma f64_2000_times_half: "f64_mul 0x409F400000000000 0x3FE0000000000000 = 0x408F400000000000"
proof -
  have "f64_round False (8796093022208000 * 4503599627370496) (int 1033 + int 1022 - 1075) =
      0x408F400000000000"
    by (simp add: f64_of_u64_eval)
  then show ?thesis by (simp add: f64_mul_eval)
qed

lemma f64_1000_2000_30000:
  "f64_of_u64 2000 = 0x409F400000000000" "f64_of_u64 30000 = 0x40DD4C0000000000"
  "f64_min 0x408F400000000000 0x40DD4C0000000000 = 0x408F400000000000"
  "f64_to_u64 0x408F400000000000 = 1000"
  "\<not> f64_is_nan 0x408F400000000000" "\<not> f64_is_sign_negative 0x408F400000000000"
  by (simp_all add: f64_of_u64_eval, simp_all add: f64_min_eval f64_to_u64_eval)

text \<open>The delay is not clamped from below: with a multiplier of one half the second retry waits
  1000 ms although the initial backoff is 2000 ms and the maximum 30000 ms.\<close>

theorem backoff_below_initial:
  "exponential_backoff_ms (\<lambda>x n. if n = 1 then x else 0)
     (retry_config_default\<lparr>multiplier := 0x3FE0000000000000\<rparr>) 2 = 1000
   \<and> initial_backoff_ms retry_config_default = 2000 \<and> max_backoff_ms retry_config_default = 30000"
  by (simp add: exponential_backoff_ms_def retry_config_default_def f64_2000_times_half
      f64_1000_2000_30000)

end
