(* ===== verification/Agent_Loop.thy ===== *)
theory Agent_Loop
  imports Approval Retry "HOL-Library.Sublist"
begin

text \<open>
  \<open>libs/agent-core/src/agent.rs\<close> with its seams (\<open>hooks.rs\<close>, \<open>context.rs\<close>, \<open>compaction.rs\<close>,
  \<open>tools.rs\<close>, \<open>registry.rs\<close>): the bounded agent loop. The traits the loop is handed (LLM client,
  tool executor, hooks, reducer, compactor, clock, cancellation token) are the fields of \<open>env\<close>,
  functions over an arbitrary world; the lemmas count LLM calls, show which tool calls can reach
  the executor, and describe the thread a turn leaves behind.
\<close>

section \<open>The seams\<close>

record 'w agent_hook =
  before_inference :: "agent_run_context \<Rightarrow> message list \<Rightarrow> ('w, agent_error, unit) act"
  after_inference :: "agent_run_context \<Rightarrow> message list \<Rightarrow> ('w, agent_error, unit) act"
  before_tool_execution ::
    "agent_run_context \<Rightarrow> proposed_tool_call \<Rightarrow> message list \<Rightarrow> ('w, agent_error, unit) act"
  after_tool_execution ::
    "agent_run_context \<Rightarrow> proposed_tool_call \<Rightarrow> message list \<Rightarrow> ('w, agent_error, unit) act"
  on_error :: "agent_run_context \<Rightarrow> agent_error \<Rightarrow> message list \<Rightarrow> ('w, agent_error, unit) act"

type_synonym 'w tool_executor =
  "agent_run_context \<Rightarrow> proposed_tool_call \<Rightarrow> ('w, agent_error, tool_execution_result) act"

record 'w env =
  is_cancelled :: "'w \<Rightarrow> bool"
  reduce :: "message list \<Rightarrow> message list"
  compact :: "message list \<Rightarrow> ('w, agent_error, compaction_result) act"
  hooks :: "'w agent_hook list"
  generate_turn ::
    "agent_run_context \<Rightarrow> agent_message list \<Rightarrow> agent_tool_def list
       \<Rightarrow> ('w, llm_turn_error, llm_turn_outcome) act"
  execute_tool_call :: "'w tool_executor"
  sleep :: "u64 \<Rightarrow> 'w \<Rightarrow> 'w"
  utc_now :: "'w \<Rightarrow> int"
  parse_from_rfc2822 :: "string \<Rightarrow> int option"
  powi_f64 :: "f64 \<Rightarrow> nat \<Rightarrow> f64"

text \<open>The reducer and compactor the workspace ships return the thread unchanged.\<close>

definition passthrough_reduce :: "message list \<Rightarrow> message list" where
  "passthrough_reduce messages = messages"

text \<open>\<open>split_whitespace().count()\<close>: the number of maximal runs without white space.\<close>

function count_words :: "bool \<Rightarrow> string \<Rightarrow> nat" where
  "count_words in_word s =
     (case s of
        [] \<Rightarrow> if in_word then 1 else 0
      | c # cs \<Rightarrow>
          (case find (\<lambda>w. w \<noteq> [] \<and> starts_with w s) white_space of
             Some w \<Rightarrow> (if in_word then 1 else 0) + count_words False (drop (length w) s)
           | None \<Rightarrow> count_words True cs))"
  by pat_completeness auto
termination
  by (relation "measure (\<lambda>(b, s). length s)") (auto simp: find_Some_iff starts_with_iff)

declare count_words.simps [simp del]

definition passthrough_compact :: "message list \<Rightarrow> ('w, agent_error, compaction_result) act" where
  "passthrough_compact messages =
     (let n = sum_list (map (\<lambda>m. count_words False (m_content m)) messages) in
      retA \<lparr>cr_messages = messages, cr_tokens_before = n, cr_tokens_after = n, cr_truncated = False\<rparr>)"

section \<open>The tool registry\<close>

type_synonym 'w tool_registry = "(string, 'w tool_executor) btree"

definition register :: "'w tool_registry \<Rightarrow> string \<Rightarrow> 'w tool_executor \<Rightarrow> 'w tool_registry" where
  "register tools name executor = bt_insert name executor tools"

definition registered_names :: "'w tool_registry \<Rightarrow> string list" where
  "registered_names tools = map fst tools"

text \<open>\<open>debug\<close> renders a list of names as \<open>{:?}\<close> does.\<close>

definition registry_execute :: "(string list \<Rightarrow> string) \<Rightarrow> 'w tool_registry \<Rightarrow> 'w tool_executor" where
  "registry_execute debug tools ctx tc =
     (case map_of tools (tc_name tc) of
        Some executor \<Rightarrow> executor ctx tc
      | None \<Rightarrow> throwA (ToolExecution (''no tool registered with name '' @ [CHR 0x27] @ tc_name tc
          @ [CHR 0x27] @ '' (registered: '' @ debug (registered_names tools) @ '')'')))"

section \<open>Projecting the thread\<close>

definition project :: "agent_message \<Rightarrow> message" where
  "project m = \<lparr>m_role = role m, m_content = content m\<rparr>"

text \<open>The walk of \<open>rebuild_thread_after_drop\<close>: one iterator over the original, advanced per entry.\<close>

fun next_match :: "message \<Rightarrow> agent_message list \<Rightarrow> agent_message option \<times> agent_message list" where
  "next_match r [] = (None, [])"
| "next_match r (m # ms) =
     (if role m = m_role r \<and> content m = m_content r then (Some m, ms) else next_match r ms)"

fun rebuild_thread_after_drop :: "agent_message list \<Rightarrow> message list \<Rightarrow> agent_message list" where
  "rebuild_thread_after_drop original [] = []"
| "rebuild_thread_after_drop original (r # reduced) =
     (case next_match r original of
        (Some m, rest) \<Rightarrow> m # rebuild_thread_after_drop rest reduced
      | (None, rest) \<Rightarrow> rebuild_thread_after_drop rest reduced)"

definition run_reducer :: "(message list \<Rightarrow> message list) \<Rightarrow> agent_message list \<Rightarrow> agent_message list" where
  "run_reducer reducer messages =
     (let reduced = reducer (map project messages) in
      if length reduced = length messages then messages
      else rebuild_thread_after_drop messages reduced)"

definition run_compactor ::
  "(message list \<Rightarrow> ('w, agent_error, compaction_result) act) \<Rightarrow> agent_message list
     \<Rightarrow> ('w, agent_error, agent_message list) act"
where
  "run_compactor compactor messages =
     bindA (compactor (map project messages)) (\<lambda>result.
       retA (if length (cr_messages result) = length messages then messages
             else rebuild_thread_after_drop messages (cr_messages result)))"

section \<open>The LLM call\<close>

text \<open>\<open>k\<close> attempts are left; the attempt number is \<open>max_attempts - k + 1\<close> before it is made.\<close>

fun llm_attempts ::
  "'w env \<Rightarrow> agent_run_context \<Rightarrow> agent_message list \<Rightarrow> agent_tool_def list \<Rightarrow> retry_config
     \<Rightarrow> nat \<Rightarrow> string \<Rightarrow> ('w, agent_error, llm_turn_outcome) act"
where
  "llm_attempts env ctx messages tools cfg 0 last_error w =
     (Inl (LlmRetryExhausted (max_attempts cfg) last_error), w)"
| "llm_attempts env ctx messages tools cfg (Suc k) last_error w =
     (let attempt = max_attempts cfg - k in
      case generate_turn env ctx messages tools w of
        (Inr outcome, w') \<Rightarrow> (Inr outcome, w')
      | (Inl err, w') \<Rightarrow>
          (if \<not> err_retryable err \<or> attempt = max_attempts cfg
           then (Inl (LlmRetryExhausted (max_attempts cfg) (err_message err)), w')
           else
             let delay = resolve_retry_delay_ms (parse_from_rfc2822 env) (powi_f64 env)
                           (err_headers err) cfg attempt (utc_now env w')
             in llm_attempts env ctx messages tools cfg k (err_message err)
                  (sleep env (delay_ms delay) w')))"

definition call_llm_with_retry ::
  "'w env \<Rightarrow> agent_run_context \<Rightarrow> agent_message list \<Rightarrow> agent_tool_def list \<Rightarrow> retry_config
     \<Rightarrow> ('w, agent_error, llm_turn_outcome) act"
where
  "call_llm_with_retry env ctx messages tools cfg =
     llm_attempts env ctx messages tools cfg (max_attempts cfg) []"

section \<open>The loop\<close>

text \<open>One resolved call: hooks around the executor, or the text that stands for its result.\<close>

definition tool_result_content ::
  "'w env \<Rightarrow> agent_run_context \<Rightarrow> proposed_tool_call \<Rightarrow> tool_decision \<Rightarrow> ('w, agent_error, string) act"
where
  "tool_result_content env ctx tc decision =
     (case decision of
        Accept \<Rightarrow>
          bindA (execute_tool_call env ctx tc) (\<lambda>exec_result.
            case exec_result of
              Completed result is_error \<Rightarrow>
                retA (if is_error then ''[tool_error] '' @ result else result)
            | Cancelled_result \<Rightarrow> throwA Cancelled)
      | Reject \<Rightarrow> retA (''Tool call rejected by approval policy: '' @ tc_name tc)
      | CustomResult c \<Rightarrow> retA c)"

definition dispatch_call ::
  "'w env \<Rightarrow> agent_run_context \<Rightarrow> message list \<Rightarrow> resolved_tool_call \<Rightarrow> agent_message list
     \<Rightarrow> ('w, agent_error, agent_message list) act"
where
  "dispatch_call env ctx snapshot r messages w =
     (if is_cancelled env w then (Inl Cancelled, w)
      else
        let tc = r_tool_call r in
        bindA (forA (\<lambda>h. before_tool_execution h ctx tc snapshot) (hooks env)) (\<lambda>_.
        bindA (tool_result_content env ctx tc (r_decision r)) (\<lambda>result_content.
        bindA (forA (\<lambda>h. after_tool_execution h ctx tc snapshot) (hooks env)) (\<lambda>_.
        retA (messages @ [msg_tool_result (tc_id tc) result_content])))) w)"

function drain_ready ::
  "'w env \<Rightarrow> agent_run_context \<Rightarrow> message list \<Rightarrow> approval_state_machine \<Rightarrow> agent_message list
     \<Rightarrow> ('w, agent_error, agent_message list) act"
where
  "drain_ready env ctx snapshot approvals messages =
     (case next_ready approvals of
        (None, _) \<Rightarrow> retA messages
      | (Some r, approvals') \<Rightarrow>
          bindA (dispatch_call env ctx snapshot r messages)
            (\<lambda>messages'. drain_ready env ctx snapshot approvals' messages'))"
  by pat_completeness auto
termination
  by (relation "measure (\<lambda>(env, ctx, snapshot, m, messages). length (entries m) - next_index m)")
    (auto dest: next_ready_progress [OF sym])

declare drain_ready.simps [simp del]

text \<open>The first id that occurs a second time.\<close>

fun find_duplicate_id :: "string list \<Rightarrow> proposed_tool_call list \<Rightarrow> string option" where
  "find_duplicate_id seen [] = None"
| "find_duplicate_id seen (tc # tcs) =
     (if tc_id tc \<in> set seen then Some (tc_id tc) else find_duplicate_id (tc_id tc # seen) tcs)"

datatype turn_end = Finish agent_loop_result | Next_turn "agent_message list" u64

definition after_outcome ::
  "'w env \<Rightarrow> agent_loop_config \<Rightarrow> agent_run_context \<Rightarrow> nat \<Rightarrow> agent_message list \<Rightarrow> message list
     \<Rightarrow> u64 \<Rightarrow> llm_turn_outcome \<Rightarrow> ('w, agent_error, turn_end) act"
where
  "after_outcome env config ctx turn messages snapshot input_tokens outcome =
     (let calls = out_proposed_tool_calls outcome;
          text = (case out_final_text outcome of None \<Rightarrow> [] | Some s \<Rightarrow> s) in
      if calls = [] then
        retA (Finish \<lparr>reason = FinalAnswerReached, final_text = text, turns_executed = turn,
                      pending_tool_calls = []\<rparr>)
      else case find_duplicate_id [] calls of
        Some i \<Rightarrow> throwA (DuplicateToolCallId i)
      | None \<Rightarrow>
          (let messages' = messages @ [msg_assistant text calls];
               approvals = asm_new calls (approval_policy config) in
           if is_waiting_for_user approvals then
             retA (Finish \<lparr>reason = WaitingForApproval, final_text = [], turns_executed = turn,
                           pending_tool_calls = pending_tool_call_ids approvals\<rparr>)
           else bindA (drain_ready env ctx snapshot approvals messages')
                  (\<lambda>messages''. retA (Next_turn messages'' input_tokens))))"

definition compact_if_over ::
  "'w env \<Rightarrow> agent_loop_config \<Rightarrow> u64 \<Rightarrow> agent_message list \<Rightarrow> ('w, agent_error, agent_message list) act"
where
  "compact_if_over env config input_tokens messages =
     (if compaction_threshold_tokens config < 2 ^ 64
         \<and> compaction_threshold_tokens config < unat input_tokens
      then run_compactor (compact env) messages else retA messages)"

definition run_turn ::
  "'w env \<Rightarrow> agent_loop_config \<Rightarrow> agent_run_context \<Rightarrow> agent_tool_def list \<Rightarrow> nat
     \<Rightarrow> agent_message list \<Rightarrow> u64 \<Rightarrow> ('w, agent_error, turn_end) act"
where
  "run_turn env config ctx tools turn messages0 input_tokens w =
     (if is_cancelled env w then (Inl Cancelled, w)
      else
        bindA (compact_if_over env config input_tokens (run_reducer (reduce env) messages0)) (\<lambda>messages.
        let snapshot = map project messages in
        bindA (forA (\<lambda>h. before_inference h ctx snapshot) (hooks env)) (\<lambda>_.
        bindA (call_llm_with_retry env ctx messages tools (retry config)) (\<lambda>outcome.
        bindA (forA (\<lambda>h. after_inference h ctx snapshot) (hooks env)) (\<lambda>_.
        after_outcome env config ctx turn messages snapshot
          (saturating_add64 input_tokens (usage_input_tokens outcome)) outcome)))) w)"

definition max_turns_result :: "agent_loop_config \<Rightarrow> agent_message list \<Rightarrow> agent_loop_result" where
  "max_turns_result config messages =
     \<lparr>reason = MaxTurnsReached,
      final_text = (case find (\<lambda>m. role m = Assistant) (rev messages) of
                      None \<Rightarrow> [] | Some m \<Rightarrow> content m),
      turns_executed = max_turns config,
      pending_tool_calls = []\<rparr>"

fun run_turns ::
  "'w env \<Rightarrow> agent_loop_config \<Rightarrow> agent_run_context \<Rightarrow> agent_tool_def list \<Rightarrow> nat list
     \<Rightarrow> agent_message list \<Rightarrow> u64 \<Rightarrow> ('w, agent_error, agent_loop_result) act"
where
  "run_turns env config ctx tools [] messages input_tokens = retA (max_turns_result config messages)"
| "run_turns env config ctx tools (turn # turns) messages input_tokens =
     bindA (run_turn env config ctx tools turn messages input_tokens) (\<lambda>end.
       case end of
         Finish result \<Rightarrow> retA result
       | Next_turn messages' input_tokens' \<Rightarrow> run_turns env config ctx tools turns messages' input_tokens')"

definition run_agent ::
  "'w env \<Rightarrow> agent_loop_config \<Rightarrow> agent_run_context \<Rightarrow> agent_message list \<Rightarrow> agent_tool_def list
     \<Rightarrow> ('w, agent_error, agent_loop_result) act"
where
  "run_agent env config ctx initial_messages tools =
     (if max_turns config = 0 then throwA (InvalidConfig ''max_turns must be > 0'')
      else run_turns env config ctx tools [1 ..< Suc (max_turns config)] initial_messages 0)"

section \<open>The drain is a walk over the queue of decided calls\<close>

fun drain_queue ::
  "'w env \<Rightarrow> agent_run_context \<Rightarrow> message list \<Rightarrow> (proposed_tool_call \<times> tool_decision option) list
     \<Rightarrow> agent_message list \<Rightarrow> ('w, agent_error, agent_message list) act"
where
  "drain_queue env ctx snapshot ((tc, Some d) # q) messages =
     bindA (dispatch_call env ctx snapshot \<lparr>r_tool_call = tc, r_decision = d\<rparr> messages)
       (drain_queue env ctx snapshot q)"
| "drain_queue env ctx snapshot q messages = retA messages"

lemma drain_ready_todo:
  "asm_wf m \<Longrightarrow> drain_ready env ctx snapshot m messages = drain_queue env ctx snapshot (todo m) messages"
proof (induction env ctx snapshot m messages rule: drain_ready.induct)
  case (1 env ctx snapshot m messages)
  obtain r m' where n: "next_ready m = (r, m')" by force
  have wf': "asm_wf m'" using next_ready_wf [OF "1.prems"] n by simp
  from next_ready_todo [OF "1.prems"] n have pop: "(r, todo m') = pop_decided (todo m)" by simp
  show ?case
  proof (cases r)
    case None
    with pop have "todo m = [] \<or> snd (hd (todo m)) = None"
      by (cases "todo m" rule: pop_decided.cases) auto
    then have "drain_queue env ctx snapshot (todo m) messages = retA messages"
      by (cases "todo m" rule: pop_decided.cases) auto
    with n None show ?thesis by (simp add: drain_ready.simps [of env ctx snapshot m])
  next
    case (Some r')
    with pop have todo: "todo m = (r_tool_call r', Some (r_decision r')) # todo m'"
      by (cases "todo m" rule: pop_decided.cases) auto
    have "drain_ready env ctx snapshot m' = drain_queue env ctx snapshot (todo m')"
      using "1.IH" [OF n [symmetric] Some wf'] by (auto simp: fun_eq_iff)
    with n Some todo show ?thesis
      by (cases r') (simp add: drain_ready.simps [of env ctx snapshot m])
  qed
qed

text \<open>A queue whose entries are all decided: what the loop drains, since it stops when one is not.\<close>

definition policy_decision :: "tool_approval_policy \<Rightarrow> proposed_tool_call \<Rightarrow> tool_decision option" where
  "policy_decision policy tc = decision_of (initial_state (call_action policy tc))"

lemma policy_decision_iff:
  "policy_decision policy tc = Some d \<longleftrightarrow>
     (call_action policy tc = Approve \<and> d = Accept) \<or> (call_action policy tc = Deny \<and> d = Reject)"
  by (auto simp: policy_decision_def initial_state_def split: tool_approval_action.splits)

lemma policy_decision_None [simp]: "policy_decision policy tc = None \<longleftrightarrow> call_action policy tc = Ask"
  by (auto simp: policy_decision_def initial_state_def split: tool_approval_action.splits)

lemma initial_state_pending [simp]: "initial_state a = PendingUserDecision \<longleftrightarrow> a = Ask"
  by (cases a) (auto simp: initial_state_def)

lemma is_waiting_new [simp]:
  "is_waiting_for_user (asm_new calls policy) \<longleftrightarrow> (\<exists>tc\<in>set calls. call_action policy tc = Ask)"
  by (auto simp: is_waiting_for_user_def asm_new_def list_ex_iff)

lemma drain_new:
  "drain_ready env ctx snapshot (asm_new calls policy) messages =
     drain_queue env ctx snapshot (map (\<lambda>tc. (tc, policy_decision policy tc)) calls) messages"
  by (simp add: drain_ready_todo todo_new policy_decision_def)

lemma dispatch_call_Inr:
  "dispatch_call env ctx snapshot r messages w = (Inr messages', w') \<Longrightarrow>
     \<exists>c. messages' = messages @ [msg_tool_result (tc_id (r_tool_call r)) c]
       \<and> (r_decision r = Reject \<longrightarrow>
            c = ''Tool call rejected by approval policy: '' @ tc_name (r_tool_call r))"
  by (auto simp: dispatch_call_def Let_def bindA_eq_Inr tool_result_content_def split: if_splits)

text \<open>What a drained turn appends: one result per call, in order, carrying the call's id.\<close>

definition answers_call ::
  "tool_approval_policy \<Rightarrow> proposed_tool_call \<Rightarrow> agent_message \<Rightarrow> bool"
where
  "answers_call policy tc m \<longleftrightarrow> role m = Tool \<and> tool_call_id m = Some (tc_id tc) \<and> tool_calls m = []
     \<and> (call_action policy tc = Deny \<longrightarrow>
          content m = ''Tool call rejected by approval policy: '' @ tc_name tc)"

lemma drain_queue_thread:
  assumes "\<And>tc. tc \<in> set calls \<Longrightarrow> call_action policy tc \<noteq> Ask"
    and "drain_queue env ctx snapshot (map (\<lambda>tc. (tc, policy_decision policy tc)) calls) messages w
           = (Inr messages', w')"
  shows "\<exists>results. messages' = messages @ results \<and> list_all2 (answers_call policy) calls results"
  using assms
proof (induction calls arbitrary: messages w)
  case (Cons tc calls)
  obtain d where d: "policy_decision policy tc = Some d"
    using Cons.prems(1) [of tc] policy_decision_None [of policy tc] by (metis list.set_intros(1) not_None_eq)
  with Cons.prems(2) obtain ms w1 where
    c: "dispatch_call env ctx snapshot \<lparr>r_tool_call = tc, r_decision = d\<rparr> messages w = (Inr ms, w1)"
    and q: "drain_queue env ctx snapshot (map (\<lambda>tc. (tc, policy_decision policy tc)) calls) ms w1
      = (Inr messages', w')"
    by (auto simp: bindA_eq_Inr)
  from dispatch_call_Inr [OF c] obtain x where x: "ms = messages @ [msg_tool_result (tc_id tc) x]"
    "d = Reject \<longrightarrow> x = ''Tool call rejected by approval policy: '' @ tc_name tc" by auto
  then have a: "answers_call policy tc (msg_tool_result (tc_id tc) x)"
    using d by (auto simp: answers_call_def msg_defs policy_decision_iff)
  from Cons.IH [OF _ q] Cons.prems(1) obtain results where
    "messages' = ms @ results" "list_all2 (answers_call policy) calls results" by auto
  with x a show ?case by (intro exI [of _ "msg_tool_result (tc_id tc) x # results"]) simp
qed simp

section \<open>Which calls reach the executor\<close>

text \<open>Two executors that agree on the approved calls cannot be told apart.\<close>

definition agree_on_approved ::
  "tool_approval_policy \<Rightarrow> agent_run_context \<Rightarrow> 'w tool_executor \<Rightarrow> 'w tool_executor \<Rightarrow> bool"
where
  "agree_on_approved policy ctx ex ex' \<longleftrightarrow>
     (\<forall>tc. call_action policy tc = Approve \<longrightarrow> ex ctx tc = ex' ctx tc)"

lemma llm_attempts_executor [simp]:
  "llm_attempts (env\<lparr>execute_tool_call := ex\<rparr>) ctx messages tools cfg k e =
     llm_attempts env ctx messages tools cfg k e"
proof (rule ext)
  fix w
  show "llm_attempts (env\<lparr>execute_tool_call := ex\<rparr>) ctx messages tools cfg k e w =
     llm_attempts env ctx messages tools cfg k e w"
    by (induction k arbitrary: e w) (auto split: prod.splits sum.splits simp: Let_def)
qed

lemma dispatch_call_executor:
  assumes "d = Accept \<Longrightarrow> ex ctx tc = execute_tool_call env ctx tc"
  shows "dispatch_call (env\<lparr>execute_tool_call := ex\<rparr>) ctx snapshot \<lparr>r_tool_call = tc, r_decision = d\<rparr>
     = dispatch_call env ctx snapshot \<lparr>r_tool_call = tc, r_decision = d\<rparr>"
proof -
  have "tool_result_content (env\<lparr>execute_tool_call := ex\<rparr>) ctx tc d = tool_result_content env ctx tc d"
    using assms by (cases d) (simp_all add: tool_result_content_def)
  then show ?thesis by (intro ext) (simp add: dispatch_call_def Let_def)
qed

lemma drain_queue_executor:
  assumes "agree_on_approved policy ctx ex (execute_tool_call env)"
  shows "drain_queue (env\<lparr>execute_tool_call := ex\<rparr>) ctx snapshot
       (map (\<lambda>tc. (tc, policy_decision policy tc)) calls)
     = drain_queue env ctx snapshot (map (\<lambda>tc. (tc, policy_decision policy tc)) calls)"
proof (induction calls)
  case Nil
  show ?case by (simp add: fun_eq_iff)
next
  case (Cons tc calls)
  show ?case
  proof (cases "policy_decision policy tc")
    case None
    show ?thesis by (intro ext) (simp only: list.map None drain_queue.simps)
  next
    case (Some d)
    then have "d = Accept \<Longrightarrow> ex ctx tc = execute_tool_call env ctx tc"
      using assms by (auto simp: policy_decision_iff agree_on_approved_def)
    note eq = dispatch_call_executor [of d ex ctx tc env, OF this]
    show ?thesis by (intro ext) (simp add: Some eq Cons.IH)
  qed
qed

lemma after_outcome_executor:
  assumes "agree_on_approved (approval_policy config) ctx ex (execute_tool_call env)"
  shows "after_outcome (env\<lparr>execute_tool_call := ex\<rparr>) config ctx turn messages snapshot n outcome
    = after_outcome env config ctx turn messages snapshot n outcome"
  by (simp add: after_outcome_def Let_def drain_new drain_queue_executor [OF assms] split: option.split)

lemma run_turns_executor:
  assumes "agree_on_approved (approval_policy config) ctx ex (execute_tool_call env)"
  shows "run_turns (env\<lparr>execute_tool_call := ex\<rparr>) config ctx tools turns messages n
    = run_turns env config ctx tools turns messages n"
proof (induction turns arbitrary: messages n)
  case (Cons turn turns)
  have "run_turn (env\<lparr>execute_tool_call := ex\<rparr>) config ctx tools turn messages n
      = run_turn env config ctx tools turn messages n"
    by (simp add: fun_eq_iff run_turn_def compact_if_over_def Let_def call_llm_with_retry_def
        after_outcome_executor [OF assms])
  moreover have "run_turns (env\<lparr>execute_tool_call := ex\<rparr>) config ctx tools turns
      = run_turns env config ctx tools turns"
    by (simp add: fun_eq_iff Cons.IH)
  ultimately show ?case by simp
qed simp

section \<open>The error hook\<close>

definition with_on_error ::
  "(agent_run_context \<Rightarrow> agent_error \<Rightarrow> message list \<Rightarrow> ('w, agent_error, unit) act) \<Rightarrow> 'w env \<Rightarrow> 'w env"
where
  "with_on_error f env = env\<lparr>hooks := map (on_error_update (\<lambda>_. f)) (hooks env)\<rparr>"

lemma with_on_error_sel [simp]:
  "is_cancelled (with_on_error f env) = is_cancelled env" "reduce (with_on_error f env) = reduce env"
  "compact (with_on_error f env) = compact env"
  "generate_turn (with_on_error f env) = generate_turn env"
  "execute_tool_call (with_on_error f env) = execute_tool_call env"
  "sleep (with_on_error f env) = sleep env" "utc_now (with_on_error f env) = utc_now env"
  "parse_from_rfc2822 (with_on_error f env) = parse_from_rfc2822 env"
  "powi_f64 (with_on_error f env) = powi_f64 env"
  "hooks (with_on_error f env) = map (on_error_update (\<lambda>_. f)) (hooks env)"
  by (simp_all add: with_on_error_def)

lemma llm_attempts_on_error [simp]:
  "llm_attempts (with_on_error f env) ctx messages tools cfg k e = llm_attempts env ctx messages tools cfg k e"
proof (rule ext)
  fix w
  show "llm_attempts (with_on_error f env) ctx messages tools cfg k e w =
     llm_attempts env ctx messages tools cfg k e w"
    by (induction k arbitrary: e w) (auto split: prod.splits sum.splits simp: Let_def)
qed

lemma drain_queue_on_error [simp]:
  "drain_queue (with_on_error f env) ctx snapshot q messages = drain_queue env ctx snapshot q messages"
proof (induction q arbitrary: messages)
  case (Cons x q)
  have "dispatch_call (with_on_error f env) ctx snapshot r messages
      = dispatch_call env ctx snapshot r messages" for r
    by (intro ext) (simp add: dispatch_call_def tool_result_content_def [abs_def] forA_map)
  moreover have "drain_queue (with_on_error f env) ctx snapshot q = drain_queue env ctx snapshot q"
    by (simp add: fun_eq_iff Cons.IH)
  ultimately show ?case by (cases x; cases "snd x") auto
qed simp

lemma after_outcome_on_error [simp]:
  "after_outcome (with_on_error f env) config ctx turn messages snapshot n outcome
     = after_outcome env config ctx turn messages snapshot n outcome"
  by (simp add: after_outcome_def Let_def drain_new split: option.split)

lemma run_turn_on_error [simp]:
  "run_turn (with_on_error f env) config ctx tools turn messages n = run_turn env config ctx tools turn messages n"
  by (intro ext)
    (simp add: run_turn_def compact_if_over_def call_llm_with_retry_def forA_map Let_def)

lemma run_turns_on_error:
  "run_turns (with_on_error f env) config ctx tools turns messages n
     = run_turns env config ctx tools turns messages n"
proof (induction turns arbitrary: messages n)
  case (Cons turn turns)
  have "run_turns (with_on_error f env) config ctx tools turns = run_turns env config ctx tools turns"
    by (simp add: fun_eq_iff Cons.IH)
  then show ?case by simp
qed simp

section \<open>Counting LLM calls\<close>

text \<open>\<open>c\<close> counts at most the LLM calls: one call raises it by at most one, nothing else raises it.\<close>

definition counts_llm :: "('w \<Rightarrow> nat) \<Rightarrow> 'w env \<Rightarrow> bool" where
  "counts_llm c env \<longleftrightarrow>
     (\<forall>ctx ms tools. growsA c 1 (generate_turn env ctx ms tools))
     \<and> (\<forall>ms. growsA c 0 (compact env ms))
     \<and> (\<forall>ctx tc. growsA c 0 (execute_tool_call env ctx tc))
     \<and> (\<forall>h\<in>set (hooks env). \<forall>ctx tc ms.
          growsA c 0 (before_inference h ctx ms) \<and> growsA c 0 (after_inference h ctx ms)
          \<and> growsA c 0 (before_tool_execution h ctx tc ms) \<and> growsA c 0 (after_tool_execution h ctx tc ms))
     \<and> (\<forall>d w. c (sleep env d w) \<le> c w)"

lemma growsA_llm_attempts:
  assumes "counts_llm c env"
  shows "growsA c k (llm_attempts env ctx messages tools cfg k e)"
proof -
  have "c (snd (llm_attempts env ctx messages tools cfg k e w)) \<le> c w + k" for w
  proof (induction k arbitrary: e w)
    case (Suc k)
    obtain r w' where g: "generate_turn env ctx messages tools w = (r, w')" by force
    have w': "c w' \<le> c w + 1"
      using assms g unfolding counts_llm_def growsA_def by (metis snd_conv)
    show ?case
    proof (cases r)
      case (Inr outcome)
      with g w' show ?thesis by simp
    next
      case (Inl err)
      have s: "c (sleep env d w') \<le> c w + 1" for d
        using assms w' unfolding counts_llm_def by (meson le_trans)
      have "c (snd (llm_attempts env ctx messages tools cfg k e' (sleep env d w'))) \<le> c w + Suc k"
        for e' d using Suc.IH [of e' "sleep env d w'"] s [of d] by linarith
      with g w' Inl show ?thesis by (simp add: Let_def)
    qed
  qed simp
  then show ?thesis by (simp add: growsA_def)
qed

lemma growsA_seq: "growsA c 0 m \<Longrightarrow> (\<And>x. growsA c n (k x)) \<Longrightarrow> growsA c n (bindA m k)"
  using growsA_bind [of c 0 m n k] by simp

lemma growsA_guard:
  "growsA c n m \<Longrightarrow> growsA c n (\<lambda>w. if b w then (Inl e, w) else m w)"
  by (simp add: growsA_def)

lemma growsA_hooks:
  assumes "counts_llm c env"
  shows "growsA c 0 (forA (\<lambda>h. before_inference h ctx ms) (hooks env))"
    "growsA c 0 (forA (\<lambda>h. after_inference h ctx ms) (hooks env))"
    "growsA c 0 (forA (\<lambda>h. before_tool_execution h ctx tc ms) (hooks env))"
    "growsA c 0 (forA (\<lambda>h. after_tool_execution h ctx tc ms) (hooks env))"
  using assms by (auto intro!: growsA_for simp: counts_llm_def)

lemma growsA_dispatch:
  assumes "counts_llm c env"
  shows "growsA c 0 (dispatch_call env ctx snapshot r messages)"
proof -
  have x: "growsA c 0 (execute_tool_call env ctx tc)" for tc using assms by (simp add: counts_llm_def)
  have "growsA c 0 (tool_result_content env ctx tc d)" for tc d
    by (auto simp: tool_result_content_def intro!: growsA_seq x act_rules
        split: tool_decision.split tool_execution_result.split)
  then show ?thesis
    unfolding dispatch_call_def [abs_def] Let_def
    by (intro growsA_guard growsA_seq growsA_hooks assms act_rules)
qed

lemma growsA_drain:
  assumes "counts_llm c env"
  shows "growsA c 0 (drain_queue env ctx snapshot q messages)"
  using assms
  by (induction env ctx snapshot q messages rule: drain_queue.induct)
    (auto intro!: growsA_seq growsA_dispatch act_rules)

lemma growsA_after_outcome:
  assumes "counts_llm c env"
  shows "growsA c 0 (after_outcome env config ctx turn messages snapshot n outcome)"
  by (auto simp: after_outcome_def Let_def drain_new intro!: growsA_seq growsA_drain assms act_rules
      split: option.split)

lemma growsA_run_turn:
  assumes "counts_llm c env"
  shows "growsA c (max_attempts (retry config)) (run_turn env config ctx tools turn messages n)"
proof -
  have compact: "growsA c 0 (compact env ms)" for ms using assms by (simp add: counts_llm_def)
  have comp: "growsA c 0 (compact_if_over env config n ms)" for ms
    by (auto simp: compact_if_over_def run_compactor_def intro!: growsA_seq compact act_rules)
  have llm: "growsA c (max_attempts (retry config)) (call_llm_with_retry env ctx ms tools (retry config))"
    for ms by (simp add: call_llm_with_retry_def growsA_llm_attempts assms)
  have rest: "growsA c (max_attempts (retry config) + 0)
      (bindA (call_llm_with_retry env ctx ms tools (retry config)) (\<lambda>outcome.
         bindA (forA (\<lambda>h. after_inference h ctx (map project ms)) (hooks env)) (\<lambda>_.
         after_outcome env config ctx turn ms (map project ms)
           (saturating_add64 n (usage_input_tokens outcome)) outcome)))" for ms
    by (intro growsA_bind llm growsA_seq growsA_hooks growsA_after_outcome assms)
  show ?thesis
    unfolding run_turn_def [abs_def] Let_def
    by (intro growsA_guard growsA_seq comp growsA_hooks assms rest [simplified])
qed

lemma growsA_run_turns:
  assumes "counts_llm c env"
  shows "growsA c (length turns * max_attempts (retry config))
    (run_turns env config ctx tools turns messages n)"
proof (induction turns arbitrary: messages n)
  case Nil
  show ?case by (simp add: act_rules)
next
  case (Cons turn turns)
  have "growsA c (max_attempts (retry config) + length turns * max_attempts (retry config))
      (bindA (run_turn env config ctx tools turn messages n) (\<lambda>end.
         case end of
           Finish result \<Rightarrow> retA result
         | Next_turn messages' n' \<Rightarrow> run_turns env config ctx tools turns messages' n'))"
    by (rule growsA_bind [OF growsA_run_turn [OF assms]])
      (auto intro: Cons.IH act_rules split: turn_end.split)
  then show ?case by simp
qed

section \<open>The result of a run\<close>

definition result_shape :: "agent_loop_config \<Rightarrow> agent_loop_result \<Rightarrow> bool" where
  "result_shape config res \<longleftrightarrow>
     1 \<le> turns_executed res \<and> turns_executed res \<le> max_turns config
     \<and> (reason res = WaitingForApproval \<longleftrightarrow> pending_tool_calls res \<noteq> [])
     \<and> (reason res = MaxTurnsReached \<longrightarrow> turns_executed res = max_turns config)
     \<and> reason res \<noteq> LlmRetryExhausted_reason"

lemma pending_ids_new:
  "pending_tool_call_ids (asm_new calls policy) =
     map tc_id (filter (\<lambda>tc. call_action policy tc = Ask) calls)"
  by (simp add: pending_tool_call_ids_def asm_new_def filter_map o_def)

lemma after_outcome_finish:
  assumes "after_outcome env config ctx turn messages snapshot n outcome w = (Inr (Finish res), w')"
    and "1 \<le> turn" "turn \<le> max_turns config"
  shows "result_shape config res"
proof -
  have "filter P xs \<noteq> []" if "x \<in> set xs" "P x" for P and x :: proposed_tool_call and xs
    using that by (auto simp: filter_empty_conv)
  with assms show ?thesis
    by (auto simp: after_outcome_def Let_def result_shape_def bindA_eq_Inr pending_ids_new
        filter_empty_conv split: if_splits option.splits)
qed

lemma run_turn_finish:
  assumes "run_turn env config ctx tools turn messages n w = (Inr (Finish res), w')"
    and "1 \<le> turn" "turn \<le> max_turns config"
  shows "result_shape config res"
  using assms after_outcome_finish [OF _ assms(2,3)]
  by (auto simp: run_turn_def Let_def bindA_eq_Inr split: if_splits)

lemma run_turns_result:
  assumes "run_turns env config ctx tools turns messages n w = (Inr res, w')"
    and "\<And>t. t \<in> set turns \<Longrightarrow> 1 \<le> t \<and> t \<le> max_turns config" "0 < max_turns config"
  shows "result_shape config res"
  using assms
proof (induction turns arbitrary: messages n w)
  case Nil
  then show ?case by (auto simp: result_shape_def max_turns_result_def)
next
  case (Cons turn turns)
  from Cons.prems(1) obtain e w1 where
    e: "run_turn env config ctx tools turn messages n w = (Inr e, w1)"
    and k: "(case e of Finish result \<Rightarrow> retA result
         | Next_turn messages' n' \<Rightarrow> run_turns env config ctx tools turns messages' n') w1 = (Inr res, w')"
    by (auto simp: bindA_eq_Inr)
  show ?case
  proof (cases e)
    case (Finish r)
    with k e Cons.prems(2) [of turn] show ?thesis by (auto intro: run_turn_finish)
  next
    case (Next_turn ms m)
    with k Cons.IH [of ms m w1] Cons.prems show ?thesis by auto
  qed
qed

section \<open>The thread\<close>

lemma next_match_Some:
  "next_match r ms = (Some m, rest) \<Longrightarrow>
     \<exists>pre. ms = pre @ m # rest \<and> project m = r \<and> r \<notin> project ` set pre"
proof (induction r ms rule: next_match.induct)
  case (2 r x ms)
  show ?case
  proof (cases "project x = r")
    case True
    with "2.prems" show ?thesis by (intro exI [of _ "[]"]) (auto simp: project_def)
  next
    case False
    then have n: "\<not> (role x = m_role r \<and> content x = m_content r)" by (auto simp: project_def)
    with "2.prems" have "next_match r ms = (Some m, rest)" by auto
    from "2.IH" [OF n this] obtain pre where
      "ms = pre @ m # rest" "project m = r" "r \<notin> project ` set pre" by blast
    with False show ?thesis by (intro exI [of _ "x # pre"]) auto
  qed
qed simp

lemma next_match_None: "next_match r ms = (None, rest) \<Longrightarrow> rest = [] \<and> r \<notin> project ` set ms"
  by (induction r ms rule: next_match.induct) (auto simp: project_def split: if_splits)

lemma rebuild_Nil [simp]: "rebuild_thread_after_drop [] rs = []"
  by (induction rs) auto

lemma subseq_rebuild: "subseq (rebuild_thread_after_drop ms rs) ms"
proof (induction ms rs rule: rebuild_thread_after_drop.induct)
  case (2 ms r rs)
  obtain o' rest where n: "next_match r ms = (o', rest)" by force
  show ?case
  proof (cases o')
    case None
    with n next_match_None [of r ms rest] show ?thesis by simp
  next
    case (Some m)
    with n next_match_Some [of r ms m rest] obtain pre where "ms = pre @ m # rest" by auto
    moreover have "subseq (rebuild_thread_after_drop rest rs) rest"
      using "2.IH" n Some by simp
    ultimately show ?thesis using n Some by (simp add: subseq_drop_many subseq_Cons2)
  qed
qed simp

lemma subseq_after_first:
  "subseq (x # xs) (ys @ x # zs) \<Longrightarrow> x \<notin> set ys \<Longrightarrow> subseq xs zs"
  by (induction ys) (auto split: if_splits)

lemma rebuild_exact:
  "subseq rs (map project ms) \<Longrightarrow> map project (rebuild_thread_after_drop ms rs) = rs"
proof (induction ms rs rule: rebuild_thread_after_drop.induct)
  case (2 ms r rs)
  have mem: "r \<in> project ` set ms"
    using list_emb_set [OF "2.prems", of r] by auto
  obtain o' rest where n: "next_match r ms = (o', rest)" by force
  with mem next_match_None [of r ms rest] obtain m where o': "o' = Some m" by (cases o') auto
  with n next_match_Some [of r ms m rest] obtain pre where
    pre: "ms = pre @ m # rest" "project m = r" "r \<notin> project ` set pre" by auto
  have "subseq rs (map project rest)"
    by (rule subseq_after_first [of r rs "map project pre"]) (use "2.prems" pre in auto)
  with "2.IH" n o' pre show ?case by simp
qed simp

lemma subseq_run_reducer: "subseq (run_reducer f ms) ms"
  by (simp add: run_reducer_def Let_def subseq_rebuild)

lemma find_duplicate_id_None:
  "find_duplicate_id seen tcs = None \<longleftrightarrow> distinct (map tc_id tcs) \<and> set (map tc_id tcs) \<inter> set seen = {}"
  by (induction seen tcs rule: find_duplicate_id.induct) auto

definition extends_thread ::
  "tool_approval_policy \<Rightarrow> agent_message list \<Rightarrow> agent_message list \<Rightarrow> bool"
where
  "extends_thread policy ms ms' \<longleftrightarrow>
     (\<exists>kept text calls results. ms' = kept @ msg_assistant text calls # results \<and> subseq kept ms
        \<and> calls \<noteq> [] \<and> distinct (map tc_id calls) \<and> list_all2 (answers_call policy) calls results)"

lemma after_outcome_next:
  assumes "after_outcome env config ctx turn ms snapshot n outcome w = (Inr (Next_turn ms' n'), w')"
  shows "\<exists>text calls results. ms' = ms @ msg_assistant text calls # results \<and> calls \<noteq> []
    \<and> distinct (map tc_id calls) \<and> list_all2 (answers_call (approval_policy config)) calls results"
proof -
  let ?calls = "out_proposed_tool_calls outcome"
  let ?policy = "approval_policy config"
  let ?text = "case out_final_text outcome of None \<Rightarrow> [] | Some s \<Rightarrow> s"
  from assms have ne: "?calls \<noteq> []" and dup: "find_duplicate_id [] ?calls = None"
    and noask: "\<And>tc. tc \<in> set ?calls \<Longrightarrow> call_action ?policy tc \<noteq> Ask"
    and drain: "drain_queue env ctx snapshot (map (\<lambda>tc. (tc, policy_decision ?policy tc)) ?calls)
        (ms @ [msg_assistant ?text ?calls]) w = (Inr ms', w')"
    by (auto simp: after_outcome_def Let_def drain_new bindA_eq_Inr split: if_splits option.splits)
  from drain_queue_thread [OF noask drain] obtain results where
    "ms' = ms @ msg_assistant ?text ?calls # results" "list_all2 (answers_call ?policy) ?calls results"
    by auto
  with ne dup show ?thesis by (auto simp: find_duplicate_id_None)
qed

section \<open>Properties\<close>

text \<open>C1. The executor only ever sees calls the policy approves: replacing it by any other executor
  that agrees on the approved calls changes neither the result nor the world of a run, so under
  \<open>DenyAll\<close> (or for calls that need a human) its behaviour is irrelevant.\<close>

theorem executor_only_on_approved:
  assumes "agree_on_approved (approval_policy config) ctx ex (execute_tool_call env)"
  shows "run_agent (env\<lparr>execute_tool_call := ex\<rparr>) config ctx messages tools w
    = run_agent env config ctx messages tools w"
  by (simp add: run_agent_def run_turns_executor [OF assms])

text \<open>C3. A run makes at most \<open>max_turns * max_attempts\<close> LLM calls, whatever the model, the tools
  and the hooks return; in particular the loop always ends.\<close>

theorem run_agent_llm_calls_bounded:
  assumes "counts_llm c env"
  shows "c (snd (run_agent env config ctx messages tools w))
    \<le> c w + max_turns config * max_attempts (retry config)"
proof -
  have "growsA c (length [1..<Suc (max_turns config)] * max_attempts (retry config))
     (run_turns env config ctx tools [1..<Suc (max_turns config)] messages 0)"
    by (rule growsA_run_turns [OF assms])
  then have "growsA c (max_turns config * max_attempts (retry config))
      (run_agent env config ctx messages tools)"
    unfolding run_agent_def by (simp add: act_rules del: upt_Suc)
  then show ?thesis by (simp add: growsA_def)
qed

text \<open>Every successful run ends for one of three reasons, after between one and \<open>max_turns\<close>
  turns: it waits for approval exactly when it returns pending calls, it reports \<open>MaxTurnsReached\<close>
  only after all turns, and it never reports \<open>LlmRetryExhausted\<close>, which is an error instead.\<close>

theorem run_agent_result_shape:
  assumes "run_agent env config ctx messages tools w = (Inr res, w')"
  shows "result_shape config res"
proof -
  from assms have "run_turns env config ctx tools [1..<Suc (max_turns config)] messages 0 w = (Inr res, w')"
      "0 < max_turns config"
    by (auto simp: run_agent_def split: if_splits simp del: upt_Suc)
  note run = this
  show ?thesis by (rule run_turns_result [OF run(1) _ run(2)]) auto
qed

text \<open>A turn that goes on leaves a well-formed thread: the earlier messages with some dropped
  and none changed or reordered, the assistant's message with its calls, whose ids are distinct, and
  then one tool result per call in the proposed order, carrying the call's id; a denied call's
  result says so.\<close>

theorem turn_extends_thread:
  assumes "run_turn env config ctx tools turn messages n w = (Inr (Next_turn messages' n'), w')"
  shows "extends_thread (approval_policy config) messages messages'"
proof -
  from assms obtain ms w1 snapshot m outcome w2 w3 where
    ms: "compact_if_over env config n (run_reducer (reduce env) messages) w1 = (Inr ms, w2)"
    and a: "after_outcome env config ctx turn ms snapshot m outcome w3 = (Inr (Next_turn messages' n'), w')"
    unfolding run_turn_def Let_def by (auto simp: bindA_eq_Inr split: if_splits)
  from ms have "subseq ms (run_reducer (reduce env) messages)"
    by (auto simp: compact_if_over_def run_compactor_def bindA_eq_Inr subseq_rebuild split: if_splits)
  from subseq_order.trans [OF this subseq_run_reducer] have "subseq ms messages" .
  with after_outcome_next [OF a] show ?thesis unfolding extends_thread_def by blast
qed

text \<open>When a reducer or compactor only drops messages, the rebuilt thread is exactly the one it
  chose, with the tool metadata restored; and whatever it returns, the rebuilt thread only contains
  messages of the original, in order.\<close>

theorem rebuild_thread_faithful:
  "subseq (rebuild_thread_after_drop messages reduced) messages
   \<and> (subseq reduced (map project messages) \<longrightarrow>
        map project (rebuild_thread_after_drop messages reduced) = reduced)"
  by (simp add: subseq_rebuild rebuild_exact)

text \<open>A non-retryable error ends the call after one attempt, without sleeping, and is reported as
  \<open>LlmRetryExhausted\<close> with the configured number of attempts, not as \<open>Inference\<close>.\<close>

theorem non_retryable_reports_exhausted:
  assumes "generate_turn env ctx messages tools w = (Inl err, w')" "\<not> err_retryable err"
    and "0 < max_attempts cfg"
  shows "call_llm_with_retry env ctx messages tools cfg w =
    (Inl (LlmRetryExhausted (max_attempts cfg) (err_message err)), w')"
  using assms by (cases "max_attempts cfg") (simp_all add: call_llm_with_retry_def)

text \<open>The \<open>on_error\<close> hook is never fired: replacing it in every hook changes no run.\<close>

theorem on_error_never_fires:
  "run_agent (with_on_error f env) config ctx messages tools = run_agent env config ctx messages tools"
  by (simp add: run_agent_def run_turns_on_error del: upt_Suc)

section \<open>Witnesses\<close>

text \<open>An environment whose world is a script of LLM replies and the number of calls made so far.\<close>

type_synonym script_world = "(llm_turn_error + llm_turn_outcome) list \<times> nat"

definition wit_env :: "script_world env" where
  "wit_env = \<lparr>is_cancelled = (\<lambda>_. False), reduce = passthrough_reduce, compact = passthrough_compact,
     hooks = [],
     generate_turn = (\<lambda>ctx ms tools (script, n).
        case script of
          [] \<Rightarrow> (Inl \<lparr>err_message = ''end'', err_retryable = False, err_headers = []\<rparr>, ([], n + 1))
        | x # xs \<Rightarrow> (x, (xs, n + 1))),
     execute_tool_call = (\<lambda>ctx tc. retA (Completed ''done'' False)),
     sleep = (\<lambda>d w. w), utc_now = (\<lambda>_. 0), parse_from_rfc2822 = (\<lambda>_. None), powi_f64 = (\<lambda>x n. x)\<rparr>"

definition wit_ctx :: agent_run_context where
  "wit_ctx = \<lparr>ctx_run_id = 1, ctx_session_id = 2\<rparr>"

definition wit_final :: llm_turn_outcome where
  "wit_final = \<lparr>out_final_text = Some ''ok'', out_proposed_tool_calls = [],
     usage_input_tokens = 10, usage_output_tokens = 5\<rparr>"

definition wit_tool_turn :: llm_turn_outcome where
  "wit_tool_turn = wit_final\<lparr>out_proposed_tool_calls := wit_calls\<rparr>"

lemma growsA_wit: "growsA snd (Suc 0) (\<lambda>(script, n). case script of
     [] \<Rightarrow> (Inl e, ([], n + 1)) | x # xs \<Rightarrow> (x, (xs, n + 1)))"
  by (auto simp: growsA_def split: list.split)

lemma counts_wit_env: "counts_llm snd wit_env"
  using growsA_wit
  by (auto simp: counts_llm_def wit_env_def passthrough_compact_def Let_def intro: act_rules)

theorem executor_only_on_approved_witness:
  "run_agent (wit_env\<lparr>execute_tool_call := \<lambda>ctx tc. throwA Cancelled\<rparr>)
      (agent_loop_config_default\<lparr>approval_policy := DenyAll\<rparr>) wit_ctx [] []
      ([Inr wit_tool_turn, Inr wit_final], 0)
   = run_agent wit_env (agent_loop_config_default\<lparr>approval_policy := DenyAll\<rparr>) wit_ctx [] []
      ([Inr wit_tool_turn, Inr wit_final], 0)"
  by (rule executor_only_on_approved) (simp add: agree_on_approved_def call_action_def)

theorem run_agent_llm_calls_bounded_witness:
  "snd (snd (run_agent wit_env agent_loop_config_default wit_ctx [] [] ([], 0))) \<le> 32"
  using run_agent_llm_calls_bounded [OF counts_wit_env,
      of agent_loop_config_default wit_ctx "[]" "[]" "([], 0)"]
  by (simp add: agent_loop_config_default_def retry_config_default_def)

lemma call_llm_ok:
  "generate_turn env ctx messages tools w = (Inr outcome, w') \<Longrightarrow> 0 < max_attempts cfg \<Longrightarrow>
     call_llm_with_retry env ctx messages tools cfg w = (Inr outcome, w')"
  by (cases "max_attempts cfg") (simp_all add: call_llm_with_retry_def)

lemmas wit_eval = agent_loop_config_default_def retry_config_default_def wit_env_def
  passthrough_reduce_def run_reducer_def compact_if_over_def call_llm_ok
  after_outcome_def wit_final_def wit_tool_turn_def Let_def bindA_def

lemma wit_run:
  "run_agent wit_env (agent_loop_config_default\<lparr>max_turns := 2\<rparr>) wit_ctx [] [] ([Inr wit_final], 0)
     = (Inr \<lparr>reason = FinalAnswerReached, final_text = ''ok'', turns_executed = 1,
             pending_tool_calls = []\<rparr>, ([], 1))"
  by (simp add: run_agent_def run_turn_def wit_eval upt_rec)

theorem run_agent_result_shape_witness:
  "result_shape (agent_loop_config_default\<lparr>max_turns := 2\<rparr>)
     \<lparr>reason = FinalAnswerReached, final_text = ''ok'', turns_executed = 1, pending_tool_calls = []\<rparr>"
  by (rule run_agent_result_shape [OF wit_run])


lemma wit_turn:
  "run_turn wit_env (agent_loop_config_default\<lparr>approval_policy := AcceptAll\<rparr>) wit_ctx [] 1
      [msg_user ''hi''] 0 ([Inr wit_tool_turn], 0)
   = (Inr (Next_turn [msg_user ''hi'', msg_assistant ''ok'' wit_calls,
        msg_tool_result ''a'' ''done'', msg_tool_result ''b'' ''done''] 10), ([], 1))"
  by (simp add: run_turn_def wit_eval drain_new dispatch_call_def tool_result_content_def
      wit_calls_def wit_call_def policy_decision_def call_action_def initial_state_def
      saturating_add64_def)

theorem turn_extends_thread_witness:
  "extends_thread AcceptAll [msg_user ''hi''] [msg_user ''hi'', msg_assistant ''ok'' wit_calls,
     msg_tool_result ''a'' ''done'', msg_tool_result ''b'' ''done'']"
  using turn_extends_thread [OF wit_turn] by simp

theorem rebuild_thread_faithful_witness:
  "map project (rebuild_thread_after_drop [msg_user ''a'', msg_tool_result ''i'' ''b'', msg_user ''c'']
      [\<lparr>m_role = Tool, m_content = ''b''\<rparr>])
   = [\<lparr>m_role = Tool, m_content = ''b''\<rparr>]"
  using rebuild_thread_faithful [of "[msg_user ''a'', msg_tool_result ''i'' ''b'', msg_user ''c'']"
      "[\<lparr>m_role = Tool, m_content = ''b''\<rparr>]"]
  by (simp add: project_def msg_defs)

theorem non_retryable_reports_exhausted_witness:
  "call_llm_with_retry wit_env wit_ctx [] [] retry_config_default ([], 0)
     = (Inl (LlmRetryExhausted 4 ''end''), ([], 1))"
  using non_retryable_reports_exhausted [of wit_env wit_ctx "[]" "[]" "([], 0)"
      "\<lparr>err_message = ''end'', err_retryable = False, err_headers = []\<rparr>" "([], 1)" retry_config_default]
  by (simp add: wit_env_def retry_config_default_def)

end
