(* ===== verification/Shell_Parse.thy ===== *)
theory Shell_Parse
  imports Prelude "HOL-Library.Multiset"
begin

text \<open>
  \<open>libs/shell-tool-approvals/src/parse.rs\<close>: which commands a shell line runs. The syntax tree
  comes from the tree-sitter parser, a parameter \<open>ts\<close> from scripts to trees; the walk over the
  tree, the extraction of a command from its node and the recursion into nested \<open>-c\<close> scripts are
  the code's. The lemmas show that the two work lists visit exactly the commands of the line and of
  every script nested in it, and that the walk ends.
\<close>

section \<open>Syntax trees\<close>

datatype node = Node (kind: string) (start_byte: nat) (end_byte: nat) (node_children: "node list")

text \<open>\<open>child_count\<close> is read through a \<open>u32\<close>; a larger count is taken as zero.\<close>

definition children :: "node \<Rightarrow> node list" where
  "children n = (if length (node_children n) < 2 ^ 32 then node_children n else [])"

record parsed_command =
  pc_name :: "string option"
  pc_args :: "string list"
  pc_offset :: nat

datatype parse_error = ParserUnavailable | NestingLimitExceeded nat

definition MAX_SCRIPT_DEPTH :: nat where
  "MAX_SCRIPT_DEPTH = 5"

definition SHELLS :: "string list" where
  "SHELLS = [''sh'', ''bash'', ''zsh'', ''ksh'', ''dash'']"

section \<open>One command\<close>

definition unquote :: "string \<Rightarrow> string" where
  "unquote s =
     (if 2 \<le> length s
         \<and> ((hd s = CHR 0x22 \<and> last s = CHR 0x22) \<or> (hd s = CHR 0x27 \<and> last s = CHR 0x27))
      then butlast (tl s) else s)"

text \<open>The bytes of a node, empty when the range is not a string slice.\<close>

definition node_text :: "string \<Rightarrow> node \<Rightarrow> string" where
  "node_text src n =
     (if start_byte n \<le> end_byte n \<and> end_byte n \<le> length src
         \<and> is_char_boundary src (start_byte n) \<and> is_char_boundary src (end_byte n)
      then take (end_byte n - start_byte n) (drop (start_byte n) src) else [])"

definition argument_kinds :: "string list" where
  "argument_kinds = [''word'', ''string'', ''raw_string'', ''concatenation'', ''number'']"

fun extract_children :: "string \<Rightarrow> node list \<Rightarrow> parsed_command \<Rightarrow> parsed_command" where
  "extract_children src [] p = p"
| "extract_children src (n # ns) p =
     (let text = node_text src n in
      if text = [] then extract_children src ns p
      else if kind n = ''command_name'' then
        extract_children src ns (p\<lparr>pc_name := Some text, pc_offset := start_byte n\<rparr>)
      else if kind n \<in> set argument_kinds then
        extract_children src ns (p\<lparr>pc_args := pc_args p @ [unquote text]\<rparr>)
      else extract_children src ns p)"

definition extract_command :: "node \<Rightarrow> string \<Rightarrow> parsed_command option" where
  "extract_command n src =
     (let p = extract_children src (children n)
                \<lparr>pc_name = None, pc_args = [], pc_offset = start_byte n\<rparr> in
      if pc_name p = None \<and> pc_args p = [] then None else Some p)"

fun after_dash_c :: "string list \<Rightarrow> string option" where
  "after_dash_c [] = None"
| "after_dash_c (a # as) =
     (if a = ''-c'' then (case as of [] \<Rightarrow> None | s # _ \<Rightarrow> Some s) else after_dash_c as)"

definition nested_dash_c_script :: "parsed_command \<Rightarrow> string option" where
  "nested_dash_c_script p =
     (case pc_name p of
        None \<Rightarrow> None
      | Some name \<Rightarrow> if name \<in> set SHELLS then after_dash_c (pc_args p) else None)"

section \<open>The two work lists\<close>

text \<open>The lists have their top at the head. \<open>out\<close> holds the scripts found and the commands.\<close>

type_synonym walk = "(string \<times> nat) list \<times> parsed_command list"

definition visit :: "string \<Rightarrow> nat \<Rightarrow> node \<Rightarrow> walk \<Rightarrow> walk" where
  "visit script depth n out =
     (if kind n = ''command'' then
        (case extract_command n script of
           None \<Rightarrow> out
         | Some parsed \<Rightarrow>
             (case nested_dash_c_script parsed of
                Some inner \<Rightarrow> ((inner, depth + 1) # fst out, snd out)
              | None \<Rightarrow> (fst out, snd out @ [parsed])))
      else out)"

lemma sum_size_children: "sum_list (map size (children n)) < size n"
proof (cases n)
  case (Node k s e cs)
  have "sum_list (map size cs) \<le> size_list size cs" by (induction cs) auto
  with Node show ?thesis by (simp add: children_def)
qed

function walk_tree :: "string \<Rightarrow> nat \<Rightarrow> node list \<Rightarrow> walk \<Rightarrow> walk" where
  "walk_tree script depth [] out = out"
| "walk_tree script depth (n # stack) out =
     walk_tree script depth (children n @ stack) (visit script depth n out)"
  by pat_completeness auto
termination
  by (relation "measure (\<lambda>(script, depth, stack, out). sum_list (map size stack))")
    (use sum_size_children in auto)

text \<open>What one script adds: the nested scripts, newest first, and the commands.\<close>

definition script_walk :: "(string \<Rightarrow> node option) \<Rightarrow> string \<Rightarrow> nat \<Rightarrow> walk" where
  "script_walk ts script depth =
     (case ts script of None \<Rightarrow> ([], []) | Some tree \<Rightarrow> walk_tree script depth [tree] ([], []))"

lemma visit_append: "visit script depth n out =
    (fst (visit script depth n ([], [])) @ fst out, snd out @ snd (visit script depth n ([], [])))"
  by (cases out) (auto simp: visit_def split: option.splits)

text \<open>The nodes in the order the stack yields them, and the walk as one pass over them.\<close>

function preorder :: "node list \<Rightarrow> node list" where
  "preorder [] = []"
| "preorder (n # stack) = n # preorder (children n @ stack)"
  by pat_completeness auto
termination
  by (relation "measure (\<lambda>stack. sum_list (map size stack))") (use sum_size_children in auto)

lemma walk_tree_preorder:
  "walk_tree script depth stack out = fold (visit script depth) (preorder stack) out"
  by (induction script depth stack out rule: walk_tree.induct) auto

lemma preorder_append: "preorder (xs @ ys) = preorder xs @ preorder ys"
proof (induction xs rule: preorder.induct)
  case (2 n stack)
  have "preorder ((n # stack) @ ys) = n # preorder ((children n @ stack) @ ys)" by simp
  also have "\<dots> = n # preorder (children n @ stack) @ preorder ys" by (simp only: 2)
  finally show ?case by simp
qed simp

text \<open>The preorder of a tree lists the node and then its subtrees, left to right.\<close>

lemma preorder_node: "preorder [n] = n # concat (map (\<lambda>c. preorder [c]) (children n))"
proof -
  have "preorder cs = concat (map (\<lambda>c. preorder [c]) cs)" for cs
  proof (induction cs)
    case (Cons c cs)
    have "preorder (c # cs) = preorder [c] @ preorder cs" using preorder_append [of "[c]" cs] by simp
    with Cons show ?case by simp
  qed simp
  from this [of "children n"] show ?thesis by simp
qed

lemma fold_visit:
  "fold (visit script depth) ns out =
     (concat (rev (map (\<lambda>n. fst (visit script depth n ([], []))) ns)) @ fst out,
      snd out @ concat (map (\<lambda>n. snd (visit script depth n ([], []))) ns))"
proof (induction ns arbitrary: out)
  case (Cons n ns)
  show ?case by (subst fold_simps, subst visit_append, subst Cons.IH) simp
qed simp

text \<open>The commands of one script, and the scripts nested directly in it.\<close>

definition script_nodes :: "(string \<Rightarrow> node option) \<Rightarrow> string \<Rightarrow> node list" where
  "script_nodes ts script = (case ts script of None \<Rightarrow> [] | Some tree \<Rightarrow> preorder [tree])"

definition direct_commands :: "(string \<Rightarrow> node option) \<Rightarrow> string \<Rightarrow> parsed_command list" where
  "direct_commands ts script =
     concat (map (\<lambda>n. snd (visit script 0 n ([], []))) (script_nodes ts script))"

definition nested_scripts :: "(string \<Rightarrow> node option) \<Rightarrow> string \<Rightarrow> string list" where
  "nested_scripts ts script =
     concat (map (\<lambda>n. map fst (fst (visit script 0 n ([], [])))) (script_nodes ts script))"

lemma visit_depth:
  "snd (visit script depth n ([], [])) = snd (visit script 0 n ([], []))"
  "fst (visit script depth n ([], [])) =
     map (\<lambda>s. (s, depth + 1)) (map fst (fst (visit script 0 n ([], []))))"
  by (auto simp: visit_def split: option.splits)

lemma script_walk_eq:
  "script_walk ts script depth =
     (map (\<lambda>s. (s, depth + 1)) (rev (nested_scripts ts script)), direct_commands ts script)"
proof -
  have len: "length (map fst (fst (visit script 0 n ([], [])))) \<le> 1" for n
    by (auto simp: visit_def split: option.splits)
  have rev1: "rev xs = xs" if "length xs \<le> 1" for xs :: "string list"
    using that by (cases xs) auto
  have "concat (rev (map (\<lambda>n. fst (visit script depth n ([], []))) ns))
      = map (\<lambda>s. (s, depth + 1)) (rev (concat (map (\<lambda>n. map fst (fst (visit script 0 n ([], [])))) ns)))"
    for ns
    by (induction ns) (simp_all add: visit_depth(2) [of script depth] rev1 [OF len])
  then show ?thesis
    by (simp add: script_walk_def walk_tree_preorder fold_visit direct_commands_def
        nested_scripts_def script_nodes_def visit_depth(1) [of script depth] del: preorder.simps
        split: option.split)
qed

section \<open>Scripts within scripts\<close>

function parse_scripts ::
  "(string \<Rightarrow> node option) \<Rightarrow> (string \<times> nat) list \<Rightarrow> parsed_command list
     \<Rightarrow> parse_error + parsed_command list"
where
  "parse_scripts ts [] all_commands = Inr all_commands"
| "parse_scripts ts ((script, depth) # scripts) all_commands =
     (if MAX_SCRIPT_DEPTH < depth then Inl (NestingLimitExceeded MAX_SCRIPT_DEPTH)
      else parse_scripts ts (fst (script_walk ts script depth) @ scripts)
             (all_commands @ snd (script_walk ts script depth)))"
  by pat_completeness auto
termination
proof (relation "inv_image (mult less_than)
    (\<lambda>(ts :: string \<Rightarrow> node option, scripts, all :: parsed_command list).
       mset (map (\<lambda>s. Suc MAX_SCRIPT_DEPTH - snd s) scripts))", goal_cases)
  case 1
  show ?case by (simp add: wf_mult)
next
  case (2 ts script depth scripts all_commands)
  let ?f = "\<lambda>s :: string \<times> nat. Suc MAX_SCRIPT_DEPTH - snd s"
  let ?new = "fst (script_walk ts script depth)"
  have "(mset (map ?f scripts) + mset (map ?f ?new), mset (map ?f scripts) + {#?f (script, depth)#})
      \<in> mult less_than"
    using 2 by (intro one_step_implies_mult) (auto simp: script_walk_eq)
  then show ?case by (simp add: add.commute)
qed

definition parse :: "bool \<Rightarrow> (string \<Rightarrow> node option) \<Rightarrow> string \<Rightarrow> parse_error + parsed_command list" where
  "parse language_ok ts input =
     (if \<not> language_ok then Inl ParserUnavailable else parse_scripts ts [(input, 0)] [])"

text \<open>The scripts inside a script, with their nesting depth.\<close>

inductive nested_at :: "(string \<Rightarrow> node option) \<Rightarrow> string \<Rightarrow> nat \<Rightarrow> string \<Rightarrow> nat \<Rightarrow> bool" for ts where
  here: "nested_at ts s d s d"
| inner: "s' \<in> set (nested_scripts ts s) \<Longrightarrow> nested_at ts s' (Suc d) t e \<Longrightarrow> nested_at ts s d t e"

inductive_cases nested_at_cases: "nested_at ts s d t e"

text \<open>A command the line runs, in the script itself or in a nested one.\<close>

definition runs :: "(string \<Rightarrow> node option) \<Rightarrow> string \<Rightarrow> nat \<Rightarrow> parsed_command \<Rightarrow> bool" where
  "runs ts s d p \<longleftrightarrow> (\<exists>t e. nested_at ts s d t e \<and> p \<in> set (direct_commands ts t))"

definition too_deep :: "(string \<Rightarrow> node option) \<Rightarrow> string \<Rightarrow> nat \<Rightarrow> bool" where
  "too_deep ts s d \<longleftrightarrow> (\<exists>t e. nested_at ts s d t e \<and> MAX_SCRIPT_DEPTH < e)"

lemma runs_iff: "runs ts s d p \<longleftrightarrow>
    p \<in> set (direct_commands ts s) \<or> (\<exists>s'\<in>set (nested_scripts ts s). runs ts s' (Suc d) p)"
  unfolding runs_def by (blast elim: nested_at_cases intro: nested_at.intros)

lemma too_deep_iff: "too_deep ts s d \<longleftrightarrow>
    MAX_SCRIPT_DEPTH < d \<or> (\<exists>s'\<in>set (nested_scripts ts s). too_deep ts s' (Suc d))"
  unfolding too_deep_def by (blast elim: nested_at_cases intro: nested_at.intros)

lemma parse_scripts_ok:
  assumes "parse_scripts ts scripts all_commands = Inr cmds"
  shows "p \<in> set cmds \<longleftrightarrow> p \<in> set all_commands \<or> (\<exists>s d. (s, d) \<in> set scripts \<and> runs ts s d p)"
    and "(s, d) \<in> set scripts \<Longrightarrow> \<not> too_deep ts s d"
proof -
  have "(p \<in> set cmds \<longleftrightarrow> p \<in> set all_commands \<or> (\<exists>s d. (s, d) \<in> set scripts \<and> runs ts s d p))
      \<and> (\<forall>s d. (s, d) \<in> set scripts \<longrightarrow> \<not> too_deep ts s d)"
    using assms
  proof (induction ts scripts all_commands rule: parse_scripts.induct)
    case (2 ts script depth scripts all_commands)
    have ok: "\<not> MAX_SCRIPT_DEPTH < depth" using "2.prems" by (auto split: if_splits)
    have run: "parse_scripts ts (fst (script_walk ts script depth) @ scripts)
        (all_commands @ snd (script_walk ts script depth)) = Inr cmds"
      using "2.prems" ok by simp
    have pairs: "(s, d) \<in> set (fst (script_walk ts script depth) @ scripts) \<longleftrightarrow>
        (s \<in> set (nested_scripts ts script) \<and> d = Suc depth) \<or> (s, d) \<in> set scripts" for s d
      by (auto simp: script_walk_eq)
    note IH = "2.IH" [OF ok run, unfolded pairs]
    have cmds: "p \<in> set cmds \<longleftrightarrow> p \<in> set all_commands \<or> runs ts script depth p
        \<or> (\<exists>s d. (s, d) \<in> set scripts \<and> runs ts s d p)"
      unfolding runs_iff [of ts script depth p] using IH by (auto simp: script_walk_eq)
    have deep: "\<not> too_deep ts script depth"
      unfolding too_deep_iff [of ts script depth] using IH ok by blast
    show ?case using cmds deep IH by auto
  qed simp
  then show "p \<in> set cmds \<longleftrightarrow> p \<in> set all_commands \<or> (\<exists>s d. (s, d) \<in> set scripts \<and> runs ts s d p)"
    "(s, d) \<in> set scripts \<Longrightarrow> \<not> too_deep ts s d" by blast+
qed

lemma parse_scripts_error:
  "parse_scripts ts scripts all_commands = Inl e \<Longrightarrow>
     e = NestingLimitExceeded MAX_SCRIPT_DEPTH \<and> (\<exists>s d. (s, d) \<in> set scripts \<and> too_deep ts s d)"
proof (induction ts scripts all_commands rule: parse_scripts.induct)
  case (2 ts script depth scripts all_commands)
  show ?case
  proof (cases "MAX_SCRIPT_DEPTH < depth")
    case True
    with "2.prems" show ?thesis using too_deep_iff [of ts script depth] by auto
  next
    case False
    with "2.prems" have run: "parse_scripts ts (fst (script_walk ts script depth) @ scripts)
        (all_commands @ snd (script_walk ts script depth)) = Inl e" by simp
    from "2.IH" [OF False run] show ?thesis
      using too_deep_iff [of ts script depth] by (auto simp: script_walk_eq)
  qed
qed simp

lemma parse_ok: "parse True ts input = Inr cmds \<Longrightarrow> p \<in> set cmds \<longleftrightarrow> runs ts input 0 p"
  using parse_scripts_ok(1) [of ts "[(input, 0)]" "[]" cmds p] by (simp add: parse_def)

lemma parse_total: "(\<exists>cmds. parse True ts input = Inr cmds) \<longleftrightarrow> \<not> too_deep ts input 0"
proof (cases "parse True ts input")
  case (Inl e)
  then show ?thesis using parse_scripts_error [of ts "[(input, 0)]" "[]" e] by (simp add: parse_def)
next
  case (Inr cmds)
  then show ?thesis
    using parse_scripts_ok(2) [of ts "[(input, 0)]" "[]" cmds input 0] by (auto simp: parse_def)
qed


end
