(* ===== verification/Shell_Policy.thy ===== *)
theory Shell_Policy
  imports Shell_Parse
begin

text \<open>
  \<open>libs/shell-tool-approvals/src/{lib,resolver,matcher}.rs\<close> and \<open>libs/engine/src/executor\<close>: the
  verdict of a shell line is the most restrictive verdict of its commands, and the executor stops at
  the first line that is not allowed.
\<close>

section \<open>Verdicts\<close>

datatype verdict = Allow | Prompt | Deny

fun verdict_rank :: "verdict \<Rightarrow> nat" where
  "verdict_rank Allow = 0"
| "verdict_rank Prompt = 1"
| "verdict_rank Deny = 2"

lemma verdict_rank_inj [simp]: "verdict_rank a = verdict_rank b \<longleftrightarrow> a = b"
  by (cases a; cases b) auto

instantiation verdict :: linorder
begin

definition less_eq_verdict :: "verdict \<Rightarrow> verdict \<Rightarrow> bool" where
  "less_eq_verdict a b \<longleftrightarrow> verdict_rank a \<le> verdict_rank b"

definition less_verdict :: "verdict \<Rightarrow> verdict \<Rightarrow> bool" where
  "less_verdict a b \<longleftrightarrow> verdict_rank a < verdict_rank b"

instance
  by standard (auto simp: less_eq_verdict_def less_verdict_def)

end

lemma verdict_le [simp]: "Allow \<le> v" "v \<le> Deny" "Prompt \<le> v \<longleftrightarrow> v \<noteq> Allow" "v \<le> Allow \<longleftrightarrow> v = Allow"
  by (cases v; simp add: less_eq_verdict_def)+

definition verdict_default :: verdict where
  "verdict_default = Prompt"

definition clamp_failure_closed :: "verdict \<Rightarrow> verdict" where
  "clamp_failure_closed v = max v Prompt"

lemma clamp_not_Allow [simp]: "clamp_failure_closed v \<noteq> Allow"
  by (cases v) (auto simp: clamp_failure_closed_def max_def)

section \<open>Policies\<close>

type_synonym policy = "string \<rightharpoonup> verdict"

definition stage1_rules :: "(string \<times> verdict) list" where
  "stage1_rules =
     [(''run_command::terraform'', Prompt),
      (''run_command::terraform::plan'', Allow),
      (''run_command::terraform::validate'', Allow),
      (''run_command::terraform::fmt'', Allow),
      (''run_command::terraform::init'', Allow),
      (''run_command::terraform::show'', Allow),
      (''run_command::terraform::output'', Allow),
      (''run_command::terraform::apply'', Deny),
      (''run_command::terraform::destroy'', Deny),
      (''run_command::cargo'', Prompt),
      (''run_command::cargo::build'', Allow),
      (''run_command::cargo::check'', Allow),
      (''run_command::cargo::test'', Allow),
      (''run_command::cargo::fmt'', Allow),
      (''run_command::cargo::clippy'', Allow),
      (''run_command::cargo::run'', Prompt),
      (''run_command::git'', Prompt),
      (''run_command::git::status'', Allow),
      (''run_command::git::diff'', Allow),
      (''run_command::git::log'', Allow),
      (''run_command::git::show'', Allow),
      (''run_command::git::push'', Prompt),
      (''run_command::git::commit'', Prompt),
      (''run_command::echo'', Allow),
      (''run_command::rm'', Deny),
      (''run_command::curl'', Prompt),
      (''run_command::wget'', Prompt),
      (''run_command::nc'', Deny),
      (''run_command::env'', Deny),
      (''run_command::xargs'', Deny)]"

definition stage1_policy :: policy where
  "stage1_policy = map_of stage1_rules"

definition matches :: "string \<Rightarrow> string \<Rightarrow> bool" where
  "matches pattern arg \<longleftrightarrow> pattern = arg"

section \<open>Resolving\<close>

text \<open>The scope keys of a command, from the least specific; flags give no scope.\<close>

fun scope_keys :: "string \<Rightarrow> string list \<Rightarrow> string list" where
  "scope_keys deepest [] = [deepest]"
| "scope_keys deepest (arg # args) =
     (if starts_with ''-'' arg then scope_keys deepest args
      else deepest # scope_keys (deepest @ ''::'' @ arg) args)"

fun first_match :: "policy \<Rightarrow> string list \<Rightarrow> verdict \<Rightarrow> verdict" where
  "first_match policy [] dflt = dflt"
| "first_match policy (k # ks) dflt =
     (case policy k of Some v \<Rightarrow> v | None \<Rightarrow> first_match policy ks dflt)"

definition resolve_command :: "parsed_command \<Rightarrow> policy \<Rightarrow> verdict \<Rightarrow> verdict" where
  "resolve_command cmd policy dflt =
     (case pc_name cmd of
        None \<Rightarrow> dflt
      | Some name \<Rightarrow>
          first_match policy
            (rev (scope_keys (''run_command::'' @ name) (pc_args cmd)) @ [''run_command'']) dflt)"

text \<open>\<open>Iterator::max\<close> over a nonempty list.\<close>

definition resolve_parsed :: "parsed_command list \<Rightarrow> policy \<Rightarrow> verdict \<Rightarrow> verdict" where
  "resolve_parsed parsed policy dflt =
     (case map (\<lambda>cmd. resolve_command cmd policy dflt) parsed of
        [] \<Rightarrow> dflt
      | v # vs \<Rightarrow> fold max vs v)"

definition resolve :: "bool \<Rightarrow> (string \<Rightarrow> node option) \<Rightarrow> string \<Rightarrow> policy \<Rightarrow> verdict \<Rightarrow> verdict" where
  "resolve language_ok ts input policy dflt =
     (case parse language_ok ts input of
        Inl _ \<Rightarrow> clamp_failure_closed dflt
      | Inr parsed \<Rightarrow> resolve_parsed parsed policy dflt)"

definition parse_or_fail ::
  "bool \<Rightarrow> (string \<Rightarrow> node option) \<Rightarrow> string \<Rightarrow> parse_error + parsed_command list"
where
  "parse_or_fail = parse"

section \<open>The executor\<close>

datatype approval_mode = NonInteractive | Interactive

record executor =
  ex_policy :: policy
  ex_approval_mode :: approval_mode

definition stage1_default :: executor where
  "stage1_default = \<lparr>ex_policy = stage1_policy, ex_approval_mode = NonInteractive\<rparr>"

record apply_outcome =
  ao_run_id :: uuid
  ao_authorized_commands :: "string list"
  ao_working_dir :: string

text \<open>The \<open>Io\<close> and \<open>Audit\<close> errors wrap errors of other crates; the executor never builds them.\<close>

datatype executor_error =
    DeniedByApprovalGate string verdict
  | PromptRequiredButNonInteractive string
  | NotImplementedYet string string
  | Executor_Io string
  | Executor_Audit string

definition pre_apply_check :: "bool \<Rightarrow> (string \<Rightarrow> node option) \<Rightarrow> executor \<Rightarrow> string \<Rightarrow> verdict" where
  "pre_apply_check language_ok ts ex command = resolve language_ok ts command (ex_policy ex) Prompt"

fun apply_gate ::
  "bool \<Rightarrow> (string \<Rightarrow> node option) \<Rightarrow> executor \<Rightarrow> string list \<Rightarrow> string list
     \<Rightarrow> executor_error + string list"
where
  "apply_gate language_ok ts ex [] authorized = Inr authorized"
| "apply_gate language_ok ts ex (cmd # cmds) authorized =
     (case pre_apply_check language_ok ts ex cmd of
        Allow \<Rightarrow> apply_gate language_ok ts ex cmds (authorized @ [cmd])
      | Prompt \<Rightarrow>
          (if ex_approval_mode ex = NonInteractive then Inl (PromptRequiredButNonInteractive cmd)
           else Inl (PromptRequiredButNonInteractive cmd))
      | Deny \<Rightarrow> Inl (DeniedByApprovalGate cmd Deny))"

definition apply_commands ::
  "bool \<Rightarrow> (string \<Rightarrow> node option) \<Rightarrow> executor \<Rightarrow> uuid \<Rightarrow> string list \<Rightarrow> executor_error + apply_outcome"
where
  "apply_commands language_ok ts ex run_id commands =
     (case apply_gate language_ok ts ex commands [] of
        Inl e \<Rightarrow> Inl e
      | Inr authorized \<Rightarrow> Inl (NotImplementedYet ''terraform_subprocess_via_docker'' ''S5''))"

section \<open>Lemmas\<close>

lemma fold_max_ge: "x \<in> insert v (set vs) \<Longrightarrow> x \<le> fold max vs (v :: verdict)"
proof (induction vs arbitrary: v x)
  case (Cons a vs)
  show ?case
  proof (cases "x \<in> set vs")
    case True
    then show ?thesis using Cons.IH [of x "max a v"] by simp
  next
    case False
    with Cons.prems have "x \<le> max a v" by auto
    also have "\<dots> \<le> fold max vs (max a v)" using Cons.IH [of "max a v" "max a v"] by simp
    finally show ?thesis by simp
  qed
qed simp

lemma fold_max_in: "fold max vs (v :: verdict) \<in> insert v (set vs)"
proof (induction vs arbitrary: v)
  case (Cons a vs)
  show ?case using Cons.IH [of "max a v"] by (auto simp: max_def split: if_splits)
qed simp

lemma resolve_parsed_Nil [simp]: "resolve_parsed [] policy dflt = dflt"
  by (simp add: resolve_parsed_def)

lemma resolve_parsed_ge:
  "cmd \<in> set parsed \<Longrightarrow> resolve_command cmd policy dflt \<le> resolve_parsed parsed policy dflt"
  by (cases parsed) (auto simp: resolve_parsed_def intro!: fold_max_ge)

lemma resolve_parsed_in:
  "parsed \<noteq> [] \<Longrightarrow> \<exists>cmd\<in>set parsed. resolve_parsed parsed policy dflt = resolve_command cmd policy dflt"
proof (cases parsed)
  case (Cons c cs)
  then show ?thesis
    using fold_max_in [of "map (\<lambda>cmd. resolve_command cmd policy dflt) cs" "resolve_command c policy dflt"]
    by (auto simp: resolve_parsed_def)
qed simp

lemma resolve_parsed_Allow:
  "resolve_parsed parsed policy dflt = Allow \<longleftrightarrow>
     (if parsed = [] then dflt = Allow
      else list_all (\<lambda>cmd. resolve_command cmd policy dflt = Allow) parsed)"
proof (cases "parsed = []")
  case False
  have "resolve_command cmd policy dflt = Allow"
    if "resolve_parsed parsed policy dflt = Allow" "cmd \<in> set parsed" for cmd
    using resolve_parsed_ge [of cmd parsed policy dflt] that by simp
  with resolve_parsed_in [OF False, of policy dflt] False show ?thesis
    by (auto simp: list_all_iff)
qed simp

lemma first_match_append:
  "(\<And>k. k \<in> set ks \<Longrightarrow> policy k = None) \<Longrightarrow> first_match policy (ks @ ks') d = first_match policy ks' d"
  by (induction ks) auto

text \<open>The keys of a command that extends a key are extensions of that key.\<close>

lemma scope_keys_extend: "k \<in> set (scope_keys deepest args) \<Longrightarrow> k = deepest \<or> starts_with (deepest @ ''::'') k"
proof (induction deepest args rule: scope_keys.induct)
  case (2 deepest arg args)
  show ?case
  proof (cases "starts_with ''-'' arg \<or> k = deepest")
    case True
    with 2 show ?thesis by auto
  next
    case False
    with 2 have "k = deepest @ ''::'' @ arg \<or> starts_with ((deepest @ ''::'' @ arg) @ ''::'') k" by auto
    then show ?thesis by (auto simp: starts_with_iff)
  qed
qed simp

lemma scope_keys_split:
  "\<exists>ks. scope_keys deepest args = deepest # ks \<and> (\<forall>k\<in>set ks. starts_with (deepest @ ''::'') k)"
proof (induction deepest args rule: scope_keys.induct)
  case (2 deepest arg args)
  show ?case
  proof (cases "starts_with ''-'' arg")
    case True
    with 2 show ?thesis by simp
  next
    case False
    have "starts_with (deepest @ ''::'') k" if "k \<in> set (scope_keys (deepest @ ''::'' @ arg) args)" for k
      using scope_keys_extend [OF that] by (auto simp: starts_with_iff)
    with False show ?thesis by simp
  qed
qed simp

definition subcommands :: "string list \<Rightarrow> string list" where
  "subcommands args = filter (\<lambda>a. \<not> starts_with ''-'' a) args"

lemma scope_keys_subcommands:
  "scope_keys deepest args = scope_keys deepest (subcommands args)"
  by (induction deepest args rule: scope_keys.induct) (auto simp: subcommands_def)

text \<open>A rule with nothing more specific under it decides every command it is a key of.\<close>

definition leaf_rule :: "policy \<Rightarrow> string \<Rightarrow> verdict \<Rightarrow> bool" where
  "leaf_rule policy key v \<longleftrightarrow>
     policy key = Some v \<and> (\<forall>k. starts_with (key @ ''::'') k \<longrightarrow> policy k = None)"

lemma first_match_leaf:
  assumes "leaf_rule policy key v"
  shows "first_match policy (rev (scope_keys key args) @ ks) dflt = v"
proof -
  obtain ks' where "scope_keys key args = key # ks'" "\<forall>k\<in>set ks'. starts_with (key @ ''::'') k"
    using scope_keys_split by blast
  moreover from this assms have "first_match policy (rev ks' @ key # ks) dflt = first_match policy (key # ks) dflt"
    by (intro first_match_append) (auto simp: leaf_rule_def)
  ultimately show ?thesis using assms by (simp add: leaf_rule_def)
qed

lemma resolve_command_leaf_name:
  assumes "pc_name p = Some name" "leaf_rule policy (''run_command::'' @ name) v"
  shows "resolve_command p policy dflt = v"
  using assms by (simp add: resolve_command_def first_match_leaf)

lemma resolve_command_leaf_sub:
  assumes "pc_name p = Some name" "subcommands (pc_args p) = sub # rest"
    and "leaf_rule policy (''run_command::'' @ name @ ''::'' @ sub) v"
  shows "resolve_command p policy dflt = v"
proof -
  have "\<not> starts_with ''-'' sub"
  proof -
    have "sub \<in> set (subcommands (pc_args p))" using assms(2) by simp
    then show ?thesis by (simp add: subcommands_def)
  qed
  with assms show ?thesis
    by (simp add: resolve_command_def scope_keys_subcommands [of _ "pc_args p"] first_match_leaf)
qed

definition destructive :: "parsed_command \<Rightarrow> bool" where
  "destructive p \<longleftrightarrow>
     (\<exists>name. pc_name p = Some name \<and>
        (name \<in> {''rm'', ''nc'', ''env'', ''xargs''}
         \<or> (name = ''terraform'' \<and> (\<exists>sub rest. subcommands (pc_args p) = sub # rest
              \<and> sub \<in> {''apply'', ''destroy''}))))"

lemma leaf_rule_map_of:
  assumes "map_of rules key = Some v" "list_all (\<lambda>(k, v). \<not> starts_with (key @ ''::'') k) rules"
  shows "leaf_rule (map_of rules) key v"
  using assms by (auto simp: leaf_rule_def list_all_iff map_of_eq_None_iff)

lemma stage1_leaf:
  "leaf_rule stage1_policy ''run_command::rm'' Deny" "leaf_rule stage1_policy ''run_command::nc'' Deny"
  "leaf_rule stage1_policy ''run_command::env'' Deny" "leaf_rule stage1_policy ''run_command::xargs'' Deny"
  "leaf_rule stage1_policy ''run_command::terraform::apply'' Deny"
  "leaf_rule stage1_policy ''run_command::terraform::destroy'' Deny"
  unfolding stage1_policy_def
  by (rule leaf_rule_map_of; simp add: stage1_rules_def starts_with_def)+

lemma destructive_denied: "destructive p \<Longrightarrow> resolve_command p stage1_policy dflt = Deny"
  unfolding destructive_def
  using resolve_command_leaf_name [of p _ stage1_policy Deny dflt] stage1_leaf
    resolve_command_leaf_sub [of p "''terraform''" _ _ stage1_policy Deny dflt] by auto

lemma apply_gate_Inr:
  "(\<exists>auth. apply_gate ok ts ex commands authorized = Inr auth) \<longleftrightarrow>
     list_all (\<lambda>line. pre_apply_check ok ts ex line = Allow) commands"
  by (induction commands arbitrary: authorized) (auto split: verdict.split)

lemma apply_gate_error:
  "apply_gate ok ts ex commands authorized = Inl e \<Longrightarrow>
     (\<exists>c v. e = DeniedByApprovalGate c v) \<or> (\<exists>c. e = PromptRequiredButNonInteractive c)"
  by (induction commands arbitrary: authorized) (auto split: verdict.splits if_splits)

section \<open>Properties\<close>



section \<open>Witnesses\<close>

definition leaf :: "string \<Rightarrow> nat \<Rightarrow> nat \<Rightarrow> node" where
  "leaf k a b = Node k a b []"

text \<open>The trees of \<open>terraform -input=false apply\<close> and of \<open>bash x.sh -c 'echo ok'\<close>.\<close>

definition wit_ts :: "string \<Rightarrow> node option" where
  "wit_ts s =
     (if s = ''terraform -input=false apply'' then
        Some (Node ''program'' 0 28 [Node ''command'' 0 28
          [leaf ''command_name'' 0 9, leaf ''word'' 10 22, leaf ''word'' 23 28]])
      else if s = ''bash x.sh -c \"echo ok\"'' then
        Some (Node ''program'' 0 22 [Node ''command'' 0 22
          [leaf ''command_name'' 0 4, leaf ''word'' 5 9, leaf ''word'' 10 12, leaf ''string'' 13 22]])
      else if s = ''echo ok'' then
        Some (Node ''program'' 0 7 [Node ''command'' 0 7 [leaf ''command_name'' 0 4, leaf ''word'' 5 7]])
      else None)"

lemmas wit_parse_eval = wit_ts_def leaf_def script_nodes_def direct_commands_def nested_scripts_def
  visit_def extract_command_def children_def node_text_def is_char_boundary_def
  is_continuation_byte_def argument_kinds_def unquote_def nested_dash_c_script_def SHELLS_def Let_def

lemma wit_runs: "runs wit_ts ''terraform -input=false apply'' 0
    \<lparr>pc_name = Some ''terraform'', pc_args = [''-input=false'', ''apply''], pc_offset = 0\<rparr>"
  by (subst runs_iff, rule disjI1) (simp add: wit_parse_eval)


text \<open>The gate reads any \<open>-c\<close> argument of a shell as that shell's script, wherever it stands: a
  line that runs the file \<open>x.sh\<close> and passes it \<open>-c "echo ok"\<close> is reduced to \<open>echo ok\<close> and allowed.\<close>

theorem shell_file_passes_gate:
  "pre_apply_check True wit_ts stage1_default ''bash x.sh -c \"echo ok\"'' = Allow"
  by (simp add: pre_apply_check_def resolve_def parse_def script_walk_eq wit_parse_eval
      MAX_SCRIPT_DEPTH_def resolve_parsed_def resolve_command_def stage1_default_def
      stage1_policy_def stage1_rules_def starts_with_def)

end
