(* ===== verification/Audit_Scrubber.thy ===== *)
theory Audit_Scrubber
  imports Prelude
begin

text \<open>
  \<open>libs/audit/src/entry.rs\<close> and \<open>scrubber.rs\<close>: audit entries, and the scan for raw secrets that
  every entry passes before it is written. The four patterns are matched as their regular
  expressions read; whether a non-ASCII character is a word character is the parameter
  \<open>unicode_word\<close> of the word-boundary test.
\<close>

section \<open>Entries\<close>

type_synonym hash = "256 word"

datatype actor = Actor_User string | Actor_System | Actor_Agent string

datatype outcome = Outcome_Ok | Outcome_Err (err_kind: string) (err_text: string)

datatype file_op_kind = Create | Modify | Delete

datatype capture_via = Bundled | UserCommand | AutoUpdate

datatype audit_payload =
    LlmCall (provider: string) (model_id: string) (provider_endpoint: string) (tier: string)
      (input_tokens: u32) (output_tokens: u32) (cache_read_tokens: u32) (cache_write_tokens: u32)
      (cost_usd_micros: u64)
  | ToolExecution (tool_name: string) (te_cred_ref: "string option") (target: string) (te_duration_ms: u32)
  | PhaseTransition (from_phase: string) (to_phase: string) (checkpoint_id: "uuid option")
  | CredentialResolution (cr_cred_ref: string) (resolution_method: string) (expires_at: int)
  | FileOperation (path: string) (op_kind: file_op_kind) (backup_path: "string option")
  | SchemaCapture (sc_provider: string) (sc_source: string) (version_constraint: string)
      (resolved_version: string) (terraform_version: string) (captured_via: capture_via)
      (sha256: string) (sc_duration_ms: u32)

text \<open>Timestamps are nanoseconds since the epoch.\<close>

record audit_entry =
  ae_id :: uuid
  ae_timestamp :: int
  ae_run_id :: uuid
  ae_actor :: actor
  ae_operation :: string
  ae_outcome :: outcome
  ae_payload :: audit_payload
  ae_prev_hash :: hash
  ae_content_hash :: hash
  ae_signature :: string

text \<open>A fresh entry; the caller's environment supplies the random id and the clock.\<close>

definition audit_entry_new ::
  "uuid \<Rightarrow> int \<Rightarrow> uuid \<Rightarrow> actor \<Rightarrow> string \<Rightarrow> outcome \<Rightarrow> audit_payload \<Rightarrow> audit_entry"
where
  "audit_entry_new new_id now run_id actor operation out payload =
     \<lparr>ae_id = new_id, ae_timestamp = now, ae_run_id = run_id, ae_actor = actor,
      ae_operation = operation, ae_outcome = out, ae_payload = payload,
      ae_prev_hash = 0, ae_content_hash = 0, ae_signature = []\<rparr>"

section \<open>Pattern matching\<close>

text \<open>The characters just before and at a byte position, as UTF-8.\<close>

definition char_before :: "string \<Rightarrow> string" where
  "char_before pre =
     (let tail = takeWhile is_continuation_byte (rev pre) in
      rev (take (length tail + 1) (rev pre)))"

definition char_after :: "string \<Rightarrow> string" where
  "char_after post =
     (case post of [] \<Rightarrow> [] | c # cs \<Rightarrow> c # takeWhile is_continuation_byte cs)"

definition is_word_char :: "(string \<Rightarrow> bool) \<Rightarrow> string \<Rightarrow> bool" where
  "is_word_char unicode_word c =
     (case c of
        [] \<Rightarrow> False
      | [b] \<Rightarrow> is_ascii_alphanumeric b \<or> b = CHR ''_''
      | _ \<Rightarrow> unicode_word c)"

text \<open>\<open>\b\<close> between \<open>pre\<close> and \<open>post\<close>.\<close>

definition word_boundary :: "(string \<Rightarrow> bool) \<Rightarrow> string \<Rightarrow> string \<Rightarrow> bool" where
  "word_boundary unicode_word pre post \<longleftrightarrow>
     is_word_char unicode_word (char_before pre) \<noteq> is_word_char unicode_word (char_after post)"

definition is_digit_or_upper :: "char \<Rightarrow> bool" where
  "is_digit_or_upper c \<longleftrightarrow> is_ascii_digit c \<or> is_ascii_uppercase c"

definition is_token_char :: "char \<Rightarrow> bool" where
  "is_token_char c \<longleftrightarrow> is_ascii_alphanumeric c \<or> c = CHR ''_'' \<or> c = CHR ''-''"

text \<open>\<open>\b lit [cls]{n} \b\<close> with the text split at the position of the match.\<close>

definition fixed_at ::
  "(string \<Rightarrow> bool) \<Rightarrow> string \<Rightarrow> (char \<Rightarrow> bool) \<Rightarrow> nat \<Rightarrow> string \<Rightarrow> string \<Rightarrow> bool"
where
  "fixed_at uw lit cls n pre post \<longleftrightarrow>
     word_boundary uw pre post \<and> starts_with lit post \<and> length lit + n \<le> length post
     \<and> list_all cls (take n (drop (length lit) post))
     \<and> word_boundary uw (pre @ take (length lit + n) post) (drop (length lit + n) post)"

fun star_then :: "(char \<Rightarrow> bool) \<Rightarrow> string \<Rightarrow> string \<Rightarrow> bool" where
  "star_then cls lit [] = (lit = [])"
| "star_then cls lit (c # cs) = (starts_with lit (c # cs) \<or> (cls c \<and> star_then cls lit cs))"

definition private_key_at :: "string \<Rightarrow> bool" where
  "private_key_at post \<longleftrightarrow> starts_with ''-----BEGIN '' post
     \<and> star_then (\<lambda>c. is_ascii_uppercase c \<or> c = CHR '' '') ''PRIVATE KEY-----'' (drop 11 post)"

text \<open>\<open>Regex::is_match\<close>: some position matches.\<close>

fun match_somewhere :: "(string \<Rightarrow> string \<Rightarrow> bool) \<Rightarrow> string \<Rightarrow> string \<Rightarrow> bool" where
  "match_somewhere m pre [] = m pre []"
| "match_somewhere m pre (c # cs) = (m pre (c # cs) \<or> match_somewhere m (pre @ [c]) cs)"

definition patterns :: "(string \<Rightarrow> bool) \<Rightarrow> (string \<times> (string \<Rightarrow> string \<Rightarrow> bool)) list" where
  "patterns uw =
     [(''aws_access_key'', fixed_at uw ''AKIA'' is_digit_or_upper 16),
      (''gcp_api_key'', fixed_at uw ''AIza'' is_token_char 35),
      (''github_pat'', fixed_at uw ''ghp_'' is_ascii_alphanumeric 36),
      (''private_key_header'', (\<lambda>_. private_key_at))]"

definition PATTERN_NAMES :: "string list" where
  "PATTERN_NAMES =
     [''aws_access_key'', ''gcp_api_key'', ''github_pat'', ''private_key_header'', ''high_entropy_token'']"

section \<open>Scanning\<close>

record scrub_match =
  pattern_name :: string
  field_path :: string

definition is_ascii_hexdigit :: "char \<Rightarrow> bool" where
  "is_ascii_hexdigit c \<longleftrightarrow> is_ascii_digit c \<or> (CHR ''a'' \<le> c \<and> c \<le> CHR ''f'')
     \<or> (CHR ''A'' \<le> c \<and> c \<le> CHR ''F'')"

definition is_base64_char :: "char \<Rightarrow> bool" where
  "is_base64_char c \<longleftrightarrow>
     is_ascii_alphanumeric c \<or> c = CHR ''+'' \<or> c = CHR ''/'' \<or> c = CHR ''='' \<or> c = CHR ''_'' \<or> c = CHR ''-''"

definition high_entropy :: "string \<Rightarrow> bool" where
  "high_entropy value \<longleftrightarrow> 40 \<le> length value \<and> list_all is_base64_char value
     \<and> 4 \<le> length (filter is_ascii_uppercase value) \<and> 4 \<le> length (filter is_ascii_digit value)"

definition scan :: "(string \<Rightarrow> bool) \<Rightarrow> string \<Rightarrow> string \<Rightarrow> scrub_match option" where
  "scan uw fpath value =
     (case find (\<lambda>(name, m). match_somewhere m [] value) (patterns uw) of
        Some (name, m) \<Rightarrow> Some \<lparr>pattern_name = name, field_path = fpath\<rparr>
      | None \<Rightarrow>
          if length value = 64 \<and> list_all is_ascii_hexdigit value then None
          else if high_entropy value
          then Some \<lparr>pattern_name = ''high_entropy_token'', field_path = fpath\<rparr>
          else None)"

text \<open>The fields \<open>scrub_or_panic\<close> checks, in its order.\<close>

definition opt_field :: "string \<Rightarrow> string option \<Rightarrow> (string \<times> string) list" where
  "opt_field name v = (case v of None \<Rightarrow> [] | Some s \<Rightarrow> [(name, s)])"

fun payload_fields :: "audit_payload \<Rightarrow> (string \<times> string) list" where
  "payload_fields (LlmCall p m e t i out cr cw cost) =
     [(''payload.provider'', p), (''payload.model_id'', m), (''payload.provider_endpoint'', e)]"
| "payload_fields (ToolExecution n c t d) =
     (''payload.tool_name'', n) # opt_field ''payload.cred_ref'' c @ [(''payload.target'', t)]"
| "payload_fields (PhaseTransition f t c) = [(''payload.from'', f), (''payload.to'', t)]"
| "payload_fields (CredentialResolution c m x) =
     [(''payload.cred_ref'', c), (''payload.resolution_method'', m)]"
| "payload_fields (FileOperation p k b) =
     (''payload.path'', p) # opt_field ''payload.backup_path'' b"
| "payload_fields (SchemaCapture p s vc rv tv via sha d) =
     [(''payload.provider'', p), (''payload.source'', s), (''payload.version_constraint'', vc),
      (''payload.resolved_version'', rv), (''payload.terraform_version'', tv), (''payload.sha256'', sha)]"

definition checked_fields :: "audit_entry \<Rightarrow> (string \<times> string) list" where
  "checked_fields e =
     (''entry.operation'', ae_operation e)
     # (case ae_outcome e of
          Outcome_Ok \<Rightarrow> []
        | Outcome_Err k m \<Rightarrow> [(''entry.outcome.kind'', k), (''entry.outcome.message'', m)])
     @ payload_fields (ae_payload e)"

fun scrub_fields :: "(string \<Rightarrow> bool) \<Rightarrow> (string \<times> string) list \<Rightarrow> scrub_match option" where
  "scrub_fields uw [] = None"
| "scrub_fields uw ((p, v) # fs) =
     (case scan uw p v of Some m \<Rightarrow> Some m | None \<Rightarrow> scrub_fields uw fs)"

text \<open>\<open>Some\<close> is the match the panic message names.\<close>

definition scrub_or_panic :: "(string \<Rightarrow> bool) \<Rightarrow> audit_entry \<Rightarrow> scrub_match option" where
  "scrub_or_panic uw e = scrub_fields uw (checked_fields e)"

section \<open>Lemmas\<close>

lemma match_somewhere_iff:
  "match_somewhere m pre s \<longleftrightarrow> (\<exists>a b. s = a @ b \<and> m (pre @ a) b)"
proof (induction m pre s rule: match_somewhere.induct)
  case (2 m pre c cs)
  show ?case
  proof
    assume "match_somewhere m pre (c # cs)"
    with 2 show "\<exists>a b. c # cs = a @ b \<and> m (pre @ a) b"
      by (auto intro: exI [of _ "[]"]) (metis append_Cons)
  next
    assume "\<exists>a b. c # cs = a @ b \<and> m (pre @ a) b"
    then obtain a b where ab: "c # cs = a @ b" "m (pre @ a) b" by blast
    show "match_somewhere m pre (c # cs)"
    proof (cases a)
      case Nil
      with ab have "m pre (c # cs)" by simp
      then show ?thesis by simp
    next
      case (Cons x a')
      with ab have "cs = a' @ b" "m ((pre @ [c]) @ a') b" by auto
      with 2 have "match_somewhere m (pre @ [c]) cs" by blast
      then show ?thesis by simp
    qed
  qed
qed simp

lemma scrub_fields_None: "scrub_fields uw fs = None \<longleftrightarrow> list_all (\<lambda>(p, v). scan uw p v = None) fs"
  by (induction uw fs rule: scrub_fields.induct) (auto split: option.split)

lemma scan_pattern:
  "(name, m) \<in> set (patterns uw) \<Longrightarrow> match_somewhere m [] v \<Longrightarrow> scan uw p v \<noteq> None"
  by (auto simp: scan_def find_None_iff split: option.split)

lemma is_word_char_token:
  assumes "is_digit_or_upper c"
  shows "is_word_char uw [c]"
  using assms
  by (auto simp: is_word_char_def is_digit_or_upper_def is_ascii_digit_def is_ascii_uppercase_def
      is_ascii_alphanumeric_def)

lemma digit_or_upper_not_continuation: "is_digit_or_upper c \<Longrightarrow> \<not> is_continuation_byte c"
  by (auto simp: is_digit_or_upper_def is_ascii_digit_def is_ascii_uppercase_def
      is_continuation_byte_def less_eq_char_def)

lemma char_before_snoc: "\<not> is_continuation_byte c \<Longrightarrow> char_before (xs @ [c]) = [c]"
  by (simp add: char_before_def)

lemma char_after_two: "\<not> is_continuation_byte d \<Longrightarrow> char_after (c # d # xs) = [c]"
  by (simp add: char_after_def)

text \<open>No word character on either side of a token.\<close>

definition delimited :: "(string \<Rightarrow> bool) \<Rightarrow> string \<Rightarrow> string \<Rightarrow> bool" where
  "delimited uw pre post \<longleftrightarrow>
     \<not> is_word_char uw (char_before pre) \<and> \<not> is_word_char uw (char_after post)"

lemma aws_key_scanned:
  assumes "length key = 16" "list_all is_digit_or_upper key" "delimited uw pre post"
  shows "scan uw p (pre @ (''AKIA'' @ key) @ post) \<noteq> None"
proof -
  obtain ks k where key: "key = ks @ [k]" using assms(1) by (cases key rule: rev_cases) auto
  have tok: "is_digit_or_upper (CHR ''A'')" "is_digit_or_upper k"
    using assms(2) key by (auto simp: is_digit_or_upper_def is_ascii_uppercase_def less_eq_char_def)
  have K: "\<not> is_continuation_byte (CHR ''K'')"
    by (rule digit_or_upper_not_continuation)
      (simp add: is_digit_or_upper_def is_ascii_uppercase_def less_eq_char_def)
  have "word_boundary uw pre (''AKIA'' @ key @ post)"
    using assms(3) is_word_char_token [OF tok(1), of uw] K
    by (simp add: word_boundary_def delimited_def char_after_two)
  moreover have "word_boundary uw (pre @ ''AKIA'' @ key) post"
  proof -
    have "char_before ((pre @ ''AKIA'' @ ks) @ [k]) = [k]"
      by (rule char_before_snoc) (rule digit_or_upper_not_continuation [OF tok(2)])
    then show ?thesis
      using assms(3) is_word_char_token [OF tok(2), of uw]
      by (simp add: word_boundary_def delimited_def key)
  qed
  ultimately have "fixed_at uw ''AKIA'' is_digit_or_upper 16 pre ((''AKIA'' @ key) @ post)"
    using assms(1,2) by (simp add: fixed_at_def starts_with_def)
  then have "match_somewhere (fixed_at uw ''AKIA'' is_digit_or_upper 16) [] (pre @ (''AKIA'' @ key) @ post)"
    unfolding match_somewhere_iff by auto
  then show ?thesis by (rule scan_pattern [of "''aws_access_key''", rotated]) (simp add: patterns_def)
qed

end
