(* ===== verification/Audit_Store.thy ===== *)
theory Audit_Store
  imports Audit_Scrubber Agent_Types
begin

text \<open>
  \<open>libs/audit/src/{store,verify,signer,hooks}.rs\<close>: the append-only store, its hash chain and its
  verification. SHA-256 over the canonical serialisation and Ed25519 are the fields of \<open>crypto\<close>; the
  SQLite tables are lists of typed rows with SQL's meaning of the statements the code issues
  (\<open>MAX\<close> over no rows is NULL, which \<open>sqlx\<close> reads as 0).
\<close>

section \<open>Cryptography\<close>

text \<open>What the content hash covers: every field but the hash itself and the signature.\<close>

record canonical =
  cn_id :: uuid
  cn_timestamp :: int
  cn_run_id :: uuid
  cn_actor :: actor
  cn_operation :: string
  cn_outcome :: outcome
  cn_payload :: audit_payload
  cn_prev_hash :: hash

definition canonical_of :: "audit_entry \<Rightarrow> canonical" where
  "canonical_of e = \<lparr>cn_id = ae_id e, cn_timestamp = ae_timestamp e, cn_run_id = ae_run_id e,
     cn_actor = ae_actor e, cn_operation = ae_operation e, cn_outcome = ae_outcome e,
     cn_payload = ae_payload e, cn_prev_hash = ae_prev_hash e\<rparr>"

record crypto =
  digest :: "canonical \<Rightarrow> hash"
  ed_public :: "hash \<Rightarrow> hash"
  ed_sign :: "hash \<Rightarrow> hash \<Rightarrow> string"
  ed_valid_key :: "hash \<Rightarrow> bool"
  ed_verify :: "hash \<Rightarrow> hash \<Rightarrow> string \<Rightarrow> bool"

definition compute_content_hash :: "crypto \<Rightarrow> audit_entry \<Rightarrow> hash" where
  "compute_content_hash c e = digest c (canonical_of e)"

text \<open>A session signer is its 32-byte seed.\<close>

record session_signer =
  seed :: hash

definition verify_key_bytes :: "crypto \<Rightarrow> session_signer \<Rightarrow> hash" where
  "verify_key_bytes c s = ed_public c (seed s)"

definition sign :: "crypto \<Rightarrow> session_signer \<Rightarrow> hash \<Rightarrow> string" where
  "sign c s h = ed_sign c (seed s) h"

datatype chain_fault = Prev_hash_mismatch hash hash | Content_hash_mismatch

datatype signature_fault = Bad_length nat | Bad_signature

datatype audit_error =
    Storage
  | Serialize
  | Signing string
  | SignatureInvalid "uuid option" signature_fault
  | ChainBroken uuid chain_fault
  | RunNotFound uuid
  | InvalidKey

definition verify_signature :: "crypto \<Rightarrow> hash \<Rightarrow> hash \<Rightarrow> string \<Rightarrow> audit_error + unit" where
  "verify_signature c key h sig =
     (if \<not> ed_valid_key c key then Inl InvalidKey
      else if length sig \<noteq> 64 then Inl (SignatureInvalid None (Bad_length (length sig)))
      else if ed_verify c key h sig then Inr ()
      else Inl (SignatureInvalid None Bad_signature))"

text \<open>Ed25519 accepts its own 64-byte signatures.\<close>

definition crypto_ok :: "crypto \<Rightarrow> bool" where
  "crypto_ok c \<longleftrightarrow> (\<forall>s h. ed_valid_key c (ed_public c s) \<and> length (ed_sign c s h) = 64
     \<and> ed_verify c (ed_public c s) h (ed_sign c s h))"

section \<open>The store\<close>

record audit_store =
  audit_runs :: "(uuid \<times> hash) list"
  audit_rows :: "(audit_entry \<times> nat) list"
  chain_heads :: "uuid \<rightharpoonup> hash"

text \<open>Opening a database file: the tables as they are, and no chain heads.\<close>

definition open_store :: "(uuid \<times> hash) list \<Rightarrow> (audit_entry \<times> nat) list \<Rightarrow> audit_store" where
  "open_store runs entry_rows = \<lparr>audit_runs = runs, audit_rows = entry_rows, chain_heads = Map.empty\<rparr>"

definition in_memory :: audit_store where
  "in_memory = open_store [] []"

definition reopen :: "audit_store \<Rightarrow> audit_store" where
  "reopen st = open_store (audit_runs st) (audit_rows st)"

definition register_run :: "uuid \<Rightarrow> hash \<Rightarrow> audit_store \<Rightarrow> audit_store" where
  "register_run run_id key st =
     (if run_id \<in> fst ` set (audit_runs st) then st
      else st\<lparr>audit_runs := audit_runs st @ [(run_id, key)]\<rparr>)"

definition get_verify_key :: "uuid \<Rightarrow> audit_store \<Rightarrow> audit_error + hash" where
  "get_verify_key run_id st =
     (case map_of (audit_runs st) run_id of None \<Rightarrow> Inl (RunNotFound run_id) | Some k \<Rightarrow> Inr k)"

definition run_rows :: "uuid \<Rightarrow> audit_store \<Rightarrow> (audit_entry \<times> nat) list" where
  "run_rows run_id st = filter (\<lambda>(e, n). ae_run_id e = run_id) (audit_rows st)"

definition next_seq :: "uuid \<Rightarrow> audit_store \<Rightarrow> nat" where
  "next_seq run_id st = fold max (map snd (run_rows run_id st)) 0 + 1"

definition export :: "uuid \<Rightarrow> audit_store \<Rightarrow> audit_entry list" where
  "export run_id st = map fst (sort_key snd (run_rows run_id st))"

text \<open>Steps 2 to 4 of \<open>append\<close>: link, hash and sign the entry against the cached head.\<close>

definition link_entry :: "crypto \<Rightarrow> session_signer \<Rightarrow> audit_store \<Rightarrow> audit_entry \<Rightarrow> audit_entry" where
  "link_entry c s st e =
     (let prev = (case chain_heads st (ae_run_id e) of None \<Rightarrow> 0 | Some h \<Rightarrow> h);
          e1 = e\<lparr>ae_prev_hash := prev\<rparr>;
          e2 = e1\<lparr>ae_content_hash := compute_content_hash c e1\<rparr>
      in e2\<lparr>ae_signature := sign c s (ae_content_hash e2)\<rparr>)"

text \<open>The insert fails on the primary key when the id is already there.\<close>

definition insert_row :: "audit_entry \<Rightarrow> nat \<Rightarrow> audit_store \<Rightarrow> (audit_error + unit) \<times> audit_store" where
  "insert_row e n st =
     (if ae_id e \<in> (\<lambda>(e, n). ae_id e) ` set (audit_rows st) then (Inl Storage, st)
      else (Inr (), st\<lparr>audit_rows := audit_rows st @ [(e, n)]\<rparr>))"

definition advance_head :: "audit_entry \<Rightarrow> audit_store \<Rightarrow> audit_store" where
  "advance_head e st = st\<lparr>chain_heads := (chain_heads st)(ae_run_id e \<mapsto> ae_content_hash e)\<rparr>"

datatype append_failure = Panic scrub_match | Failed audit_error

definition audit_append ::
  "crypto \<Rightarrow> (string \<Rightarrow> bool) \<Rightarrow> session_signer \<Rightarrow> audit_entry \<Rightarrow> audit_store
     \<Rightarrow> (append_failure + audit_entry) \<times> audit_store"
where
  "audit_append c uw s e st =
     (case scrub_or_panic uw e of
        Some m \<Rightarrow> (Inl (Panic m), st)
      | None \<Rightarrow>
          (let e' = link_entry c s st e in
           case insert_row e' (next_seq (ae_run_id e) st) st of
             (Inl err, st') \<Rightarrow> (Inl (Failed err), st')
           | (Inr _, st') \<Rightarrow> (Inr e', advance_head e' st')))"

fun append_all ::
  "crypto \<Rightarrow> (string \<Rightarrow> bool) \<Rightarrow> (session_signer \<times> audit_entry) list \<Rightarrow> audit_store \<Rightarrow> audit_store"
where
  "append_all c uw [] st = st"
| "append_all c uw ((s, e) # es) st = append_all c uw es (snd (audit_append c uw s e st))"

section \<open>Verification\<close>

fun verify_from :: "crypto \<Rightarrow> hash \<Rightarrow> audit_entry list \<Rightarrow> hash \<Rightarrow> audit_error + unit" where
  "verify_from c key [] expected_prev = Inr ()"
| "verify_from c key (e # es) expected_prev =
     (if ae_prev_hash e \<noteq> expected_prev
      then Inl (ChainBroken (ae_id e) (Prev_hash_mismatch expected_prev (ae_prev_hash e)))
      else if compute_content_hash c e \<noteq> ae_content_hash e
      then Inl (ChainBroken (ae_id e) Content_hash_mismatch)
      else case verify_signature c key (ae_content_hash e) (ae_signature e) of
        Inl (SignatureInvalid i f) \<Rightarrow> Inl (SignatureInvalid (Some (ae_id e)) f)
      | Inl other \<Rightarrow> Inl other
      | Inr _ \<Rightarrow> verify_from c key es (ae_content_hash e))"

definition verify_chain :: "crypto \<Rightarrow> audit_entry list \<Rightarrow> hash \<Rightarrow> audit_error + unit" where
  "verify_chain c es key = verify_from c key es 0"

section \<open>The hook of the agent loop\<close>

text \<open>\<open>AuditWriterHook::after_tool_execution\<close>; the id and the time come from the environment.\<close>

definition tool_audit_entry :: "uuid \<Rightarrow> int \<Rightarrow> uuid \<Rightarrow> proposed_tool_call \<Rightarrow> audit_entry" where
  "tool_audit_entry new_id now run_id tc =
     audit_entry_new new_id now run_id (Actor_Agent ''agent-core'') ''tool.execute'' Outcome_Ok
       (audit_payload.ToolExecution (tc_name tc) None (tc_id tc) 0)"

definition audit_after_tool_execution ::
  "crypto \<Rightarrow> (string \<Rightarrow> bool) \<Rightarrow> session_signer \<Rightarrow> uuid \<Rightarrow> uuid \<Rightarrow> int \<Rightarrow> proposed_tool_call \<Rightarrow> audit_store
     \<Rightarrow> (append_failure + unit) \<times> audit_store"
where
  "audit_after_tool_execution c uw s run_id new_id now tc st =
     (case audit_append c uw s (tool_audit_entry new_id now run_id tc) st of
        (Inl e, st') \<Rightarrow> (Inl e, st')
      | (Inr _, st') \<Rightarrow> (Inr (), st'))"

section \<open>The chain invariant\<close>

definition head_of :: "hash \<Rightarrow> audit_entry list \<Rightarrow> hash" where
  "head_of p es = (if es = [] then p else ae_content_hash (last es))"

definition good_entry :: "crypto \<Rightarrow> hash \<Rightarrow> audit_entry \<Rightarrow> bool" where
  "good_entry c key e \<longleftrightarrow> compute_content_hash c e = ae_content_hash e
     \<and> verify_signature c key (ae_content_hash e) (ae_signature e) = Inr ()"

lemma verify_from_Cons:
  "verify_from c key (e # es) p = Inr () \<longleftrightarrow>
     ae_prev_hash e = p \<and> good_entry c key e \<and> verify_from c key es (ae_content_hash e) = Inr ()"
  by (auto simp: good_entry_def split: sum.splits audit_error.splits)

lemma verify_from_append:
  "verify_from c key (es @ es') p = Inr () \<longleftrightarrow>
     verify_from c key es p = Inr () \<and> verify_from c key es' (head_of p es) = Inr ()"
proof (induction es arbitrary: p)
  case (Cons e es)
  show ?case
    unfolding append_Cons verify_from_Cons Cons.IH
    by (auto simp: head_of_def verify_from_Cons simp del: verify_from.simps)
qed (simp add: head_of_def)

lemma link_entry_fields [simp]:
  "ae_id (link_entry c s st e) = ae_id e" "ae_run_id (link_entry c s st e) = ae_run_id e"
  "ae_payload (link_entry c s st e) = ae_payload e" "ae_actor (link_entry c s st e) = ae_actor e"
  "ae_operation (link_entry c s st e) = ae_operation e" "ae_outcome (link_entry c s st e) = ae_outcome e"
  "ae_prev_hash (link_entry c s st e) = (case chain_heads st (ae_run_id e) of None \<Rightarrow> 0 | Some h \<Rightarrow> h)"
  by (simp_all add: link_entry_def Let_def)

lemma good_link_entry:
  "crypto_ok c \<Longrightarrow> good_entry c (verify_key_bytes c s) (link_entry c s st e)"
  by (simp add: good_entry_def link_entry_def Let_def compute_content_hash_def canonical_of_def
      verify_signature_def verify_key_bytes_def sign_def crypto_ok_def)

definition run_ok :: "crypto \<Rightarrow> (uuid \<Rightarrow> session_signer) \<Rightarrow> audit_store \<Rightarrow> uuid \<Rightarrow> bool" where
  "run_ok c signers st r \<longleftrightarrow>
     (let rs = run_rows r st in
      map snd rs = [1..<Suc (length rs)]
      \<and> verify_from c (verify_key_bytes c (signers r)) (map fst rs) 0 = Inr ()
      \<and> chain_heads st r = (if rs = [] then None else Some (ae_content_hash (fst (last rs)))))"

lemma fold_max_upt: "fold max [Suc 0..<Suc n] 0 = (n :: nat)"
  by (induction n) auto

lemma export_run_ok: "run_ok c signers st r \<Longrightarrow> export r st = map fst (run_rows r st)"
proof -
  assume "run_ok c signers st r"
  then have "sorted (map snd (run_rows r st))" by (simp add: run_ok_def Let_def del: upt_Suc)
  then show ?thesis by (simp add: export_def sorted_sort_id sort_key_id_if_sorted)
qed

lemma run_ok_append_same:
  assumes "crypto_ok c" "run_ok c signers st r" "ae_run_id e = r"
  shows "run_ok c signers (snd (audit_append c uw (signers r) e st)) r"
proof (cases "scrub_or_panic uw e \<noteq> None \<or> ae_id e \<in> (\<lambda>(e, n). ae_id e) ` set (audit_rows st)")
  case True
  with assms(2) show ?thesis
    by (cases "scrub_or_panic uw e") (auto simp: audit_append_def Let_def insert_row_def)
next
  case False
  define e' where "e' = link_entry c (signers r) st e"
  define st' where "st' = snd (audit_append c uw (signers r) e st)"
  let ?rs = "run_rows r st"
  have seqs: "map snd ?rs = [1..<Suc (length ?rs)]"
    and ver: "verify_from c (verify_key_bytes c (signers r)) (map fst ?rs) 0 = Inr ()"
    and heads: "chain_heads st r = (if ?rs = [] then None else Some (ae_content_hash (fst (last ?rs))))"
    using assms(2) by (auto simp: run_ok_def Let_def)
  have seq: "next_seq r st = Suc (length ?rs)"
    using seqs by (simp add: next_seq_def fold_max_upt del: upt_Suc)
  from False have st: "st' = advance_head e' (st\<lparr>audit_rows := audit_rows st @ [(e', next_seq r st)]\<rparr>)"
    using assms(3) by (auto simp: st'_def e'_def audit_append_def Let_def insert_row_def)
  have run: "ae_run_id e' = r" using assms(3) by (simp add: e'_def)
  have rows: "run_rows r st' = ?rs @ [(e', Suc (length ?rs))]"
    using run by (simp add: st run_rows_def advance_head_def seq [unfolded run_rows_def])
  have prev: "ae_prev_hash e' = head_of 0 (map fst ?rs)"
    using heads assms(3) by (simp add: e'_def head_of_def last_map)
  have good: "good_entry c (verify_key_bytes c (signers r)) e'"
    unfolding e'_def by (rule good_link_entry [OF assms(1)])
  have "verify_from c (verify_key_bytes c (signers r)) (map fst ?rs @ [e']) 0 = Inr ()"
    unfolding verify_from_append verify_from_Cons using ver prev good by simp
  moreover have "chain_heads st' r = Some (ae_content_hash e')"
    using run by (simp add: st advance_head_def)
  moreover have "map snd (run_rows r st') = [1..<Suc (length (run_rows r st'))]"
    unfolding rows using seqs by simp
  ultimately show ?thesis
    unfolding st'_def [symmetric] by (simp add: run_ok_def Let_def rows del: upt_Suc)
qed

lemma append_other_run:
  assumes "ae_run_id e \<noteq> r"
  shows "run_rows r (snd (audit_append c uw s e st)) = run_rows r st"
    "chain_heads (snd (audit_append c uw s e st)) r = chain_heads st r"
  using assms
  by (auto simp: audit_append_def Let_def insert_row_def advance_head_def run_rows_def split: option.split)

lemma run_ok_append:
  assumes "crypto_ok c" "run_ok c signers st r" "s = signers (ae_run_id e)"
  shows "run_ok c signers (snd (audit_append c uw s e st)) r"
proof (cases "ae_run_id e = r")
  case True
  with assms run_ok_append_same [of c signers st r e uw] show ?thesis by simp
next
  case False
  from append_other_run [OF this, of c uw s st] assms(2) show ?thesis
    by (simp add: run_ok_def)
qed

lemma run_ok_append_all:
  "crypto_ok c \<Longrightarrow> run_ok c signers st r \<Longrightarrow> list_all (\<lambda>(s, e). s = signers (ae_run_id e)) es \<Longrightarrow>
     run_ok c signers (append_all c uw es st) r"
  by (induction c uw es st rule: append_all.induct) (auto intro: run_ok_append)

lemma run_ok_open: "run_ok c signers (open_store runs []) r"
  by (simp add: run_ok_def open_store_def run_rows_def)

lemma verify_from_ok_append:
  "verify_from c key es p = Inr () \<Longrightarrow> verify_from c key (es @ es') p = verify_from c key es' (head_of p es)"
proof (induction es arbitrary: p)
  case (Cons e es)
  then have e: "ae_prev_hash e = p" "good_entry c key e" "verify_from c key es (ae_content_hash e) = Inr ()"
    unfolding verify_from_Cons by auto
  with Cons.IH [OF e(3)] show ?case
    by (auto simp: head_of_def good_entry_def)
qed (simp add: head_of_def)

section \<open>Interleaved appends\<close>

text \<open>
  \<open>append\<close> awaits four times: it reads the head (and then hashes and signs), queries the next
  sequence number, inserts, and advances the head. Tasks on one store interleave at these points.
\<close>

datatype phase =
    Ready_to_append audit_entry
  | Linked audit_entry
  | Numbered audit_entry nat
  | Inserted audit_entry
  | Finished "append_failure + audit_entry"

fun advance ::
  "crypto \<Rightarrow> (string \<Rightarrow> bool) \<Rightarrow> session_signer \<Rightarrow> phase \<Rightarrow> audit_store \<Rightarrow> phase \<times> audit_store"
where
  "advance c uw s (Ready_to_append e) st =
     (case scrub_or_panic uw e of
        Some m \<Rightarrow> (Finished (Inl (Panic m)), st)
      | None \<Rightarrow> (Linked (link_entry c s st e), st))"
| "advance c uw s (Linked e) st = (Numbered e (next_seq (ae_run_id e) st), st)"
| "advance c uw s (Numbered e n) st =
     (case insert_row e n st of
        (Inl err, st') \<Rightarrow> (Finished (Inl (Failed err)), st')
      | (Inr _, st') \<Rightarrow> (Inserted e, st'))"
| "advance c uw s (Inserted e) st = (Finished (Inr e), advance_head e st)"
| "advance c uw s (Finished r) st = (Finished r, st)"

inductive interleave ::
  "crypto \<Rightarrow> (string \<Rightarrow> bool) \<Rightarrow> session_signer
     \<Rightarrow> phase list \<times> audit_store \<Rightarrow> phase list \<times> audit_store \<Rightarrow> bool"
  for c uw s
where
  stop: "interleave c uw s cfg cfg"
| task: "i < length ps \<Longrightarrow> advance c uw s (ps ! i) st = (p, st')
    \<Longrightarrow> interleave c uw s (ps[i := p], st') cfg \<Longrightarrow> interleave c uw s (ps, st) cfg"

text \<open>The scheduler as a list of task numbers.\<close>

fun run_schedule ::
  "crypto \<Rightarrow> (string \<Rightarrow> bool) \<Rightarrow> session_signer \<Rightarrow> nat list \<Rightarrow> phase list \<Rightarrow> audit_store
     \<Rightarrow> phase list \<times> audit_store"
where
  "run_schedule c uw s [] ps st = (ps, st)"
| "run_schedule c uw s (i # is) ps st =
     (if i < length ps then
        (case advance c uw s (ps ! i) st of (p, st') \<Rightarrow> run_schedule c uw s is (ps[i := p]) st')
      else run_schedule c uw s is ps st)"

lemma run_schedule_interleave: "interleave c uw s (ps, st) (run_schedule c uw s is ps st)"
  by (induction c uw s "is" ps st rule: run_schedule.induct)
    (auto intro: interleave.intros split: prod.split)

text \<open>One task alone does what \<open>append\<close> does.\<close>

lemma single_task_append:
  "run_schedule c uw s [0, 0, 0, 0] [Ready_to_append e] st =
     ([Finished (fst (audit_append c uw s e st))], snd (audit_append c uw s e st))"
  by (auto simp: audit_append_def Let_def insert_row_def split: option.splits)

section \<open>Properties\<close>

text \<open>C10. Whatever entries are appended, one after the other, for whatever runs, each run with its own
  signer, and whichever of the appends are rejected or fail, the exported log of every run verifies
  against the run's key.\<close>

theorem audit_log_verifies:
  assumes "crypto_ok c" "list_all (\<lambda>(s, e). s = signers (ae_run_id e)) es"
  shows "verify_chain c (export r (append_all c uw es in_memory)) (verify_key_bytes c (signers r)) = Inr ()"
proof -
  have "run_ok c signers (append_all c uw es in_memory) r"
    using run_ok_append_all [OF assms(1) run_ok_open assms(2)] by (simp add: in_memory_def)
  then show ?thesis by (simp add: verify_chain_def export_run_ok) (simp add: run_ok_def Let_def)
qed

lemma verify_chain_snoc:
  assumes "verify_chain c (xs @ [x]) k = Inr ()"
  shows "verify_chain c xs k = Inr ()" "ae_prev_hash x = head_of 0 xs"
    "ae_content_hash x = digest c (canonical_of x)"
  using assms
  by (auto simp: verify_chain_def verify_from_append verify_from_Cons good_entry_def
      compute_content_hash_def simp del: verify_from.simps(2))


text \<open>C30. The chain heads live in memory only: after a restart the first append to a run that already
  has entries is linked to zero, and the exported log no longer verifies.\<close>

theorem reopened_store_breaks_chain:
  assumes "crypto_ok c" "list_all (\<lambda>(s, e). s = signers (ae_run_id e)) es"
    and "st = append_all c uw es in_memory" "run_rows (ae_run_id e) st \<noteq> []"
    and "head_of 0 (export (ae_run_id e) st) \<noteq> 0"
    and "audit_append c uw s e (reopen st) = (Inr e', st')"
  shows "verify_chain c (export (ae_run_id e) st') (verify_key_bytes c (signers (ae_run_id e)))
    = Inl (ChainBroken (ae_id e) (Prev_hash_mismatch (head_of 0 (export (ae_run_id e) st)) 0))"
proof -
  let ?r = "ae_run_id e" and ?re = "reopen st"
  have ok: "run_ok c signers st ?r"
    using run_ok_append_all [OF assms(1) run_ok_open assms(2)] assms(3) by (simp add: in_memory_def)
  have rows: "run_rows ?r ?re = run_rows ?r st" by (simp add: reopen_def open_store_def run_rows_def)
  have seq: "next_seq ?r ?re = Suc (length (run_rows ?r st))"
    using ok by (simp add: next_seq_def rows run_ok_def Let_def fold_max_upt del: upt_Suc)
  from assms(6) have e': "e' = link_entry c s ?re e" and
    st': "run_rows ?r st' = run_rows ?r ?re @ [(e', next_seq ?r ?re)]"
    by (auto simp: audit_append_def Let_def insert_row_def advance_head_def run_rows_def
        split: option.splits if_splits)
  have "map snd (run_rows ?r st') = [1..<Suc (Suc (length (run_rows ?r st)))]"
    using ok by (simp add: st' seq rows run_ok_def Let_def)
  then have "sorted (map snd (run_rows ?r st'))" by (simp del: upt_Suc)
  then have ex: "export ?r st' = export ?r st @ [e']"
    by (simp add: export_def sort_key_id_if_sorted export_run_ok [OF ok, unfolded export_def] st' rows)
  have "verify_from c (verify_key_bytes c (signers ?r)) (export ?r st) 0 = Inr ()"
    unfolding export_run_ok [OF ok] using ok by (simp add: run_ok_def Let_def)
  from verify_from_ok_append [OF this, of "[e']"] show ?thesis
    using assms(5) by (simp add: verify_chain_def ex e' reopen_def open_store_def)
qed

text \<open>C13. A checked field that holds an AWS access key, on its own or between non-word characters,
  makes \<open>append\<close> panic before anything is written.\<close>

theorem append_rejects_aws_key:
  assumes "(f, pre @ (''AKIA'' @ key) @ post) \<in> set (checked_fields e)"
    and "length key = 16" "list_all is_digit_or_upper key" "delimited uw pre post"
  shows "\<exists>m. audit_append c uw s e st = (Inl (Panic m), st)"
proof -
  have "scan uw f (pre @ (''AKIA'' @ key) @ post) \<noteq> None" by (rule aws_key_scanned [OF assms(2-4)])
  with assms(1) have "scrub_or_panic uw e \<noteq> None"
    unfolding scrub_or_panic_def scrub_fields_None list_all_iff by fastforce
  then show ?thesis by (auto simp: audit_append_def)
qed

text \<open>The scrubber never looks at the actor nor at the tier of an LLM call: whatever they hold, a
  secret included, the entry is treated alike.\<close>

theorem scrubber_skips_actor_and_tier:
  "scrub_or_panic uw (e\<lparr>ae_actor := a\<rparr>) = scrub_or_panic uw e
   \<and> scrub_or_panic uw (e\<lparr>ae_payload := LlmCall p m ep t i out cr cw cost\<rparr>)
     = scrub_or_panic uw (e\<lparr>ae_payload := LlmCall p m ep t' i out cr cw cost\<rparr>)"
  by (simp add: scrub_or_panic_def checked_fields_def)

section \<open>Witnesses\<close>

text \<open>A toy instance of the cryptography: the digest is the id plus one.\<close>

definition wit_crypto :: crypto where
  "wit_crypto = \<lparr>digest = (\<lambda>cn. ucast (cn_id cn) + 1), ed_public = (\<lambda>s. s + 1),
     ed_sign = (\<lambda>s h. replicate 64 (CHR ''s'')), ed_valid_key = (\<lambda>k. True),
     ed_verify = (\<lambda>k h sig. True)\<rparr>"

definition wit_signer :: session_signer where
  "wit_signer = \<lparr>seed = 7\<rparr>"

definition wit_entry :: "uuid \<Rightarrow> audit_entry" where
  "wit_entry i = audit_entry_new i 0 9 Actor_System ''op'' Outcome_Ok (PhaseTransition ''a'' ''b'' None)"

lemma wit_scrub: "scrub_or_panic (\<lambda>_. False) (wit_entry i) = None"
  by (simp add: scrub_or_panic_def checked_fields_def wit_entry_def audit_entry_new_def scan_def
      patterns_def fixed_at_def private_key_at_def starts_with_def high_entropy_def)

lemmas wit_audit_eval = wit_scrub wit_crypto_def wit_signer_def link_entry_def insert_row_def
  advance_head_def next_seq_def run_rows_def export_def compute_content_hash_def canonical_of_def
  sign_def in_memory_def open_store_def reopen_def verify_key_bytes_def verify_chain_def
  verify_signature_def head_of_def Let_def

lemma wit_entry_fields [simp]:
  "ae_id (wit_entry i) = i" "ae_run_id (wit_entry i) = 9" "ae_prev_hash (wit_entry i) = 0"
  by (simp_all add: wit_entry_def audit_entry_new_def)

lemma wit_crypto_ok: "crypto_ok wit_crypto"
  by (simp add: crypto_ok_def wit_crypto_def)

theorem audit_log_verifies_witness:
  "verify_chain wit_crypto (export 9 (append_all wit_crypto (\<lambda>_. False)
      [(wit_signer, wit_entry 1), (wit_signer, wit_entry 1), (wit_signer, wit_entry 2)] in_memory))
     (verify_key_bytes wit_crypto wit_signer) = Inr ()"
  by (rule audit_log_verifies [OF wit_crypto_ok, where signers = "\<lambda>_. wit_signer"]) simp

definition wit_log :: "audit_entry list" where
  "wit_log = export 9 (append_all wit_crypto (\<lambda>_. False)
     [(wit_signer, wit_entry 1), (wit_signer, wit_entry 2)] in_memory)"

lemma wit_log_eq:
  "wit_log = [(wit_entry 1)\<lparr>ae_content_hash := 2, ae_signature := replicate 64 (CHR ''s'')\<rparr>,
     (wit_entry 2)\<lparr>ae_prev_hash := 2, ae_content_hash := 3, ae_signature := replicate 64 (CHR ''s'')\<rparr>]"
  by (simp add: wit_log_def audit_append_def wit_audit_eval)


theorem reopened_store_breaks_chain_witness:
  "\<exists>st' e'. audit_append wit_crypto (\<lambda>_. False) wit_signer (wit_entry 2)
       (reopen (append_all wit_crypto (\<lambda>_. False) [(wit_signer, wit_entry 1)] in_memory)) = (Inr e', st')
     \<and> verify_chain wit_crypto (export 9 st') (verify_key_bytes wit_crypto wit_signer)
       = Inl (ChainBroken 2 (Prev_hash_mismatch 2 0))"
proof -
  let ?st = "append_all wit_crypto (\<lambda>_. False) [(wit_signer, wit_entry 1)] in_memory"
  obtain e' st' where a: "audit_append wit_crypto (\<lambda>_. False) wit_signer (wit_entry 2) (reopen ?st) = (Inr e', st')"
    by (simp add: audit_append_def wit_audit_eval)
  have head: "head_of 0 (export (ae_run_id (wit_entry 2)) ?st) = 2"
    and rows: "run_rows (ae_run_id (wit_entry 2)) ?st \<noteq> []"
    by (simp_all add: audit_append_def wit_audit_eval)
  from reopened_store_breaks_chain [OF wit_crypto_ok, where signers = "\<lambda>_. wit_signer", OF _ refl rows _ a]
  show ?thesis using a head by auto
qed

theorem append_rejects_aws_key_witness:
  "\<exists>m. audit_append wit_crypto (\<lambda>_. False) wit_signer
     ((wit_entry 1)\<lparr>ae_operation := ''key='' @ (''AKIA'' @ ''ABCDEFGHIJKLMNOP'') @ ''!''\<rparr>) in_memory
     = (Inl (Panic m), in_memory)"
  by (rule append_rejects_aws_key [of "''entry.operation''" "''key=''" "''ABCDEFGHIJKLMNOP''" "''!''"])
    (simp_all add: checked_fields_def is_digit_or_upper_def is_ascii_digit_def is_ascii_uppercase_def
      less_eq_char_def delimited_def is_word_char_def char_before_def char_after_def
      is_continuation_byte_def is_ascii_alphanumeric_def)

text \<open>Two appends to the same run that overlap at an await point both succeed and fork the chain:
  both entries are linked to the same head, get their numbers, and the exported log fails
  verification.\<close>

theorem overlapping_appends_break_chain:
  "\<exists>e1 e2 st. interleave wit_crypto (\<lambda>_. False) wit_signer
       ([Ready_to_append (wit_entry 1), Ready_to_append (wit_entry 2)], in_memory)
       ([Finished (Inr e1), Finished (Inr e2)], st)
     \<and> verify_chain wit_crypto (export 9 st) (verify_key_bytes wit_crypto wit_signer)
       = Inl (ChainBroken 2 (Prev_hash_mismatch 2 0))"
proof -
  let ?tasks = "[Ready_to_append (wit_entry 1), Ready_to_append (wit_entry 2)]"
  let ?last = "run_schedule wit_crypto (\<lambda>_. False) wit_signer [0, 1, 0, 0, 0, 1, 1, 1] ?tasks in_memory"
  have "\<exists>e1 e2. fst ?last = [Finished (Inr e1), Finished (Inr e2)]"
    by (simp add: wit_audit_eval)
  moreover have "verify_chain wit_crypto (export 9 (snd ?last)) (verify_key_bytes wit_crypto wit_signer)
      = Inl (ChainBroken 2 (Prev_hash_mismatch 2 0))"
    by (simp add: wit_audit_eval)
  ultimately show ?thesis
    using run_schedule_interleave [of wit_crypto "\<lambda>_. False" wit_signer ?tasks in_memory
        "[0, 1, 0, 0, 0, 1, 1, 1]"] by (metis prod.collapse)
qed

end
