(* ===== verification/Schema_Store.thy ===== *)
theory Schema_Store
  imports Prelude
begin

text \<open>
  \<open>libs/knowledge/src/{types,errors,schema_store,local_schema_store}.rs\<close>: provider schemas and the
  SQLite store that pins them by provider and version. The rows hold the schemas themselves (the
  JSON column is the serialisation of the code's own derived format). The locale \<open>schema_store\<close> is
  the \<open>SchemaStore\<close> trait with the promises its comments make; the store of the code satisfies it.
\<close>

section \<open>Schemas\<close>

record attribute_schema =
  as_name :: string
  as_attribute_type :: string
  as_required :: bool
  as_optional :: bool
  as_computed :: bool
  as_sensitive :: bool
  as_deprecated :: "string option"
  as_description :: "string option"

record resource_schema =
  rs_name :: string
  rs_description :: "string option"
  rs_attributes :: "(string, attribute_schema) btree"

record provider_schema =
  ps_provider :: string
  ps_version :: string
  ps_resources :: "(string, resource_schema) btree"
  ps_data_sources :: "(string, resource_schema) btree"
  ps_fetched_at :: int

text \<open>The maps of a schema are ordered maps.\<close>

definition schema_wf :: "provider_schema \<Rightarrow> bool" where
  "schema_wf s \<longleftrightarrow> bt_wf (ps_resources s) \<and> list_all (\<lambda>(k, rs). bt_wf (rs_attributes rs)) (ps_resources s)"

datatype schema_error =
    NotFound string string
  | AlreadyPinned string string
  | Schema_Storage
  | Schema_Serialize
  | InvalidVersion string
  | ManifestIo string

section \<open>The SQLite store\<close>

type_synonym local_schema_store = "provider_schema list"

definition same_key :: "string \<Rightarrow> string \<Rightarrow> provider_schema \<Rightarrow> bool" where
  "same_key p v s \<longleftrightarrow> ps_provider s = p \<and> ps_version s = v"

definition find_schema :: "local_schema_store \<Rightarrow> string \<Rightarrow> string \<Rightarrow> provider_schema option" where
  "find_schema st p v = find (same_key p v) st"

definition fetch_provider_schema ::
  "local_schema_store \<Rightarrow> string \<Rightarrow> string \<Rightarrow> schema_error + provider_schema"
where
  "fetch_provider_schema st p v =
     (case find_schema st p v of None \<Rightarrow> Inl (NotFound p v) | Some s \<Rightarrow> Inr s)"

text \<open>\<open>INSERT OR IGNORE\<close> on the primary key, reporting whether a row was inserted.\<close>

definition cache_schema :: "provider_schema \<Rightarrow> local_schema_store \<Rightarrow> bool \<times> local_schema_store" where
  "cache_schema s st =
     (if find_schema st (ps_provider s) (ps_version s) = None then (True, st @ [s]) else (False, st))"

text \<open>SQLite's \<open>ORDER BY\<close> on text compares bytes.\<close>

definition list_versions :: "local_schema_store \<Rightarrow> string \<Rightarrow> string list" where
  "list_versions st p = rev (sort (map ps_version (filter (\<lambda>s. ps_provider s = p) st)))"

definition list_providers :: "local_schema_store \<Rightarrow> string list" where
  "list_providers st = sort (remdups (map ps_provider st))"

definition store_search_mappings :: "local_schema_store \<Rightarrow> string \<Rightarrow> nat \<Rightarrow> string list" where
  "store_search_mappings st query top_k = []"

section \<open>The contract of a schema store\<close>

locale schema_store =
  fixes lookup :: "'s \<Rightarrow> string \<Rightarrow> string \<Rightarrow> provider_schema option"
    and cache :: "provider_schema \<Rightarrow> 's \<Rightarrow> bool \<times> 's"
  assumes pinned: "lookup st p v = Some s \<Longrightarrow> lookup (snd (cache s' st)) p v = Some s"
    and inserted: "lookup st (ps_provider s) (ps_version s) = None \<Longrightarrow>
      fst (cache s st) \<and> lookup (snd (cache s st)) (ps_provider s) (ps_version s) = Some s"
    and refused: "lookup st (ps_provider s) (ps_version s) \<noteq> None \<Longrightarrow> cache s st = (False, st)"
    and frame: "(ps_provider s, ps_version s) \<noteq> (p, v) \<Longrightarrow> lookup (snd (cache s st)) p v = lookup st p v"
    and keyed: "lookup st p v = Some s \<Longrightarrow> ps_provider s = p \<and> ps_version s = v"
begin

lemma cached: "lookup (snd (cache s st)) (ps_provider s) (ps_version s) \<noteq> None"
  using inserted [of st s] refused [of st s] by fastforce

text \<open>A pinned schema survives any later sequence of writes.\<close>

lemma pinned_fold: "lookup st p v = Some s \<Longrightarrow> lookup (fold (\<lambda>s st. snd (cache s st)) ss st) p v = Some s"
  by (induction ss arbitrary: st) (auto intro: pinned)

lemma known_fold:
  "lookup st p v \<noteq> None \<Longrightarrow> lookup (fold (\<lambda>s st. snd (cache s st)) ss st) p v \<noteq> None"
  using pinned_fold by fastforce

text \<open>The first schema written for a key is the one every later lookup returns.\<close>

lemma first_write_wins:
  "lookup st p v = None \<Longrightarrow>
     lookup (fold (\<lambda>s st. snd (cache s st)) ss st) p v
       = find (\<lambda>s. ps_provider s = p \<and> ps_version s = v) ss"
proof (induction ss arbitrary: st)
  case (Cons s ss)
  show ?case
  proof (cases "ps_provider s = p \<and> ps_version s = v")
    case True
    with Cons.prems have "lookup (snd (cache s st)) p v = Some s" using inserted [of st s] by auto
    with True show ?thesis by (simp add: pinned_fold)
  next
    case False
    with Cons.prems have "lookup (snd (cache s st)) p v = None" by (subst frame) auto
    with False Cons.IH show ?thesis by auto
  qed
qed simp

end

lemma find_append: "find P (xs @ ys) = (case find P xs of None \<Rightarrow> find P ys | Some x \<Rightarrow> Some x)"
  by (induction xs) auto

interpretation local_store: schema_store find_schema cache_schema
proof
  show "find_schema st p v = Some s \<Longrightarrow> find_schema (snd (cache_schema s' st)) p v = Some s" for st p v s s'
    by (auto simp: cache_schema_def find_schema_def find_append)
  show "find_schema st (ps_provider s) (ps_version s) = None \<Longrightarrow>
      fst (cache_schema s st) \<and> find_schema (snd (cache_schema s st)) (ps_provider s) (ps_version s) = Some s"
    for st s
    by (auto simp: cache_schema_def find_schema_def find_append same_key_def)
  show "find_schema st (ps_provider s) (ps_version s) \<noteq> None \<Longrightarrow> cache_schema s st = (False, st)" for st s
    by (simp add: cache_schema_def)
  show "(ps_provider s, ps_version s) \<noteq> (p, v) \<Longrightarrow>
      find_schema (snd (cache_schema s st)) p v = find_schema st p v" for st s p v
    by (auto simp: cache_schema_def find_schema_def find_append same_key_def split: option.split)
  show "find_schema st p v = Some s \<Longrightarrow> ps_provider s = p \<and> ps_version s = v" for st p v s
    by (auto simp: find_schema_def find_Some_iff same_key_def)
qed

section \<open>Properties\<close>

text \<open>Pinned versions are immutable: from an empty store, whatever schemas are cached in whatever
  order, a fetch returns the first schema that was cached under that provider and version, and
  \<open>NotFound\<close> when there was none.\<close>

theorem pinned_schema_immutable:
  "fetch_provider_schema (fold (\<lambda>s st. snd (cache_schema s st)) schemas []) p v =
     (case find (same_key p v) schemas of None \<Rightarrow> Inl (NotFound p v) | Some s \<Rightarrow> Inr s)"
proof -
  have "find_schema [] p v = None" by (simp add: find_schema_def)
  from local_store.first_write_wins [OF this, of schemas]
  show ?thesis by (simp add: fetch_provider_schema_def same_key_def [abs_def])
qed

text \<open>The list of versions, documented as newest first, is in descending text order: with 5.9.0
  and 5.30.0 cached, 5.9.0 comes first.\<close>

theorem list_versions_text_order:
  "list_versions
     [\<lparr>ps_provider = ''aws'', ps_version = ''5.9.0'', ps_resources = [], ps_data_sources = [],
       ps_fetched_at = 0\<rparr>,
      \<lparr>ps_provider = ''aws'', ps_version = ''5.30.0'', ps_resources = [], ps_data_sources = [],
       ps_fetched_at = 1\<rparr>] ''aws''
   = [''5.9.0'', ''5.30.0'']"
  by (simp add: list_versions_def less_eq_char_def list_le_def)

end
