(* ===== verification/Validator.thy ===== *)
theory Validator
  imports Schema_Store
begin

text \<open>
  \<open>libs/engine/src/mapper/mod.rs\<close> (the plan and its lookups) and \<open>libs/engine/src/validator\<close>: the
  gate between the mapper and the generator. The lemmas characterise the findings one by one: which
  errors a report holds, and that it passes exactly when the plan conforms to the schema.
\<close>

section \<open>Plans\<close>

datatype attribute_value =
    AString string
  | ANumber f64
  | ABool bool
  | AList "attribute_value list"
  | AMap "(string \<times> attribute_value) list"
  | AReference string

record mapped_resource =
  source_addr :: string
  target_addr :: string
  target_type :: string
  target_name :: string
  attributes :: "(string, attribute_value) btree"
  dependencies :: "string list"

record mapping_plan =
  plan_run_id :: uuid
  source_provider :: string
  target_provider :: string
  resources :: "mapped_resource list"

datatype mapper_lookup_error = Missing string string | WrongType string string string

definition require_string :: "mapped_resource \<Rightarrow> string \<Rightarrow> mapper_lookup_error + string" where
  "require_string r attr =
     (case map_of (attributes r) attr of
        Some (AString s) \<Rightarrow> Inr s
      | Some _ \<Rightarrow> Inl (WrongType (target_addr r) attr ''string'')
      | None \<Rightarrow> Inl (Missing (target_addr r) attr))"

definition optional_string :: "mapped_resource \<Rightarrow> string \<Rightarrow> string option" where
  "optional_string r attr = (case map_of (attributes r) attr of Some (AString s) \<Rightarrow> Some s | _ \<Rightarrow> None)"

definition optional_bool :: "mapped_resource \<Rightarrow> string \<Rightarrow> bool option" where
  "optional_bool r attr = (case map_of (attributes r) attr of Some (ABool b) \<Rightarrow> Some b | _ \<Rightarrow> None)"

definition optional_reference :: "mapped_resource \<Rightarrow> string \<Rightarrow> string option" where
  "optional_reference r attr = (case map_of (attributes r) attr of Some (AReference s) \<Rightarrow> Some s | _ \<Rightarrow> None)"

definition optional_map :: "mapped_resource \<Rightarrow> string \<Rightarrow> (string \<times> attribute_value) list option" where
  "optional_map r attr = (case map_of (attributes r) attr of Some (AMap m) \<Rightarrow> Some m | _ \<Rightarrow> None)"

section \<open>Reports\<close>

datatype validation_error =
    UnknownResourceType (ve_addr: string) (ve_type: string)
  | UnknownAttribute (ve_addr: string) (ve_attr: string) (ve_type: string)
  | MissingRequiredAttribute (ve_addr: string) (ve_attr: string) (ve_type: string)

datatype validation_warning =
    DeprecatedAttribute string string string
  | SetComputedAttribute string string string

record validation_report =
  passed :: bool
  errors :: "validation_error list"
  warnings :: "validation_warning list"

definition report_new :: "validation_error list \<Rightarrow> validation_warning list \<Rightarrow> validation_report" where
  "report_new es ws = \<lparr>passed = (es = []), errors = es, warnings = ws\<rparr>"

fun show_validation_error :: "validation_error \<Rightarrow> string" where
  "show_validation_error (UnknownResourceType addr ty) =
     ''Article III violation: '' @ [CHR 0x27] @ addr @ [CHR 0x27] @ '' uses unknown target_type ''
     @ [CHR 0x27] @ ty @ [CHR 0x27] @ '' (Mapper hallucinated a resource that doesn''
     @ [CHR 0x27] @ ''t exist in the target schema)''"
| "show_validation_error (UnknownAttribute addr attr ty) =
     ''Article III violation: '' @ [CHR 0x27] @ addr @ [CHR 0x27] @ '' (target_type='' @ [CHR 0x27] @ ty
     @ [CHR 0x27] @ '') sets unknown attribute '' @ [CHR 0x27] @ attr @ [CHR 0x27]
     @ '' (Mapper hallucinated an attribute that doesn'' @ [CHR 0x27] @ ''t exist in the schema)''"
| "show_validation_error (MissingRequiredAttribute addr attr ty) =
     ''Article IV violation: '' @ [CHR 0x27] @ addr @ [CHR 0x27] @ '' (target_type='' @ [CHR 0x27] @ ty
     @ [CHR 0x27] @ '') is missing required attribute '' @ [CHR 0x27] @ attr @ [CHR 0x27]"

fun show_validation_warning :: "validation_warning \<Rightarrow> string" where
  "show_validation_warning (DeprecatedAttribute addr attr since) =
     ''deprecated: '' @ [CHR 0x27] @ addr @ [CHR 0x27] @ '' sets attribute '' @ [CHR 0x27] @ attr
     @ [CHR 0x27] @ '' (deprecated since: '' @ since @ '')''"
| "show_validation_warning (SetComputedAttribute addr attr ty) =
     ''computed: '' @ [CHR 0x27] @ addr @ [CHR 0x27] @ '' (target_type='' @ [CHR 0x27] @ ty @ [CHR 0x27]
     @ '') sets read-only attribute '' @ [CHR 0x27] @ attr @ [CHR 0x27] @ '' ''
     @ map char_of [0xE2, 0x80, 0x94 :: nat] @ '' value will be ignored by terraform''"

section \<open>Validation\<close>

definition attribute_errors :: "resource_schema \<Rightarrow> mapped_resource \<Rightarrow> validation_error list" where
  "attribute_errors rs r =
     map (\<lambda>a. UnknownAttribute (target_addr r) a (target_type r))
       (filter (\<lambda>a. map_of (rs_attributes rs) a = None) (map fst (attributes r)))"

definition attribute_warnings ::
  "resource_schema \<Rightarrow> mapped_resource \<Rightarrow> string \<Rightarrow> validation_warning list"
where
  "attribute_warnings rs r a =
     (case map_of (rs_attributes rs) a of
        None \<Rightarrow> []
      | Some s \<Rightarrow>
          (case as_deprecated s of
             Some since \<Rightarrow> [DeprecatedAttribute (target_addr r) a since]
           | None \<Rightarrow> [])
          @ (if as_computed s \<and> \<not> as_optional s
             then [SetComputedAttribute (target_addr r) a (target_type r)] else []))"

definition missing_errors :: "resource_schema \<Rightarrow> mapped_resource \<Rightarrow> validation_error list" where
  "missing_errors rs r =
     map (\<lambda>(a, s). MissingRequiredAttribute (target_addr r) a (target_type r))
       (filter (\<lambda>(a, s). as_required s \<and> \<not> bt_has (attributes r) a) (rs_attributes rs))"

definition check_resource ::
  "provider_schema \<Rightarrow> mapped_resource \<Rightarrow> validation_error list \<times> validation_warning list"
where
  "check_resource schema r =
     (case map_of (ps_resources schema) (target_type r) of
        None \<Rightarrow> ([UnknownResourceType (target_addr r) (target_type r)], [])
      | Some rs \<Rightarrow> (attribute_errors rs r @ missing_errors rs r,
                    concat (map (attribute_warnings rs r) (map fst (attributes r)))))"

definition validate_plan_against :: "provider_schema \<Rightarrow> mapping_plan \<Rightarrow> validation_report" where
  "validate_plan_against schema plan =
     report_new (concat (map (fst \<circ> check_resource schema) (resources plan)))
                (concat (map (snd \<circ> check_resource schema) (resources plan)))"

text \<open>\<open>fetch\<close> is \<open>KnowledgeService::fetch_schema\<close>.\<close>

definition validate ::
  "(string \<Rightarrow> string \<Rightarrow> schema_error + provider_schema) \<Rightarrow> mapping_plan \<Rightarrow> string
     \<Rightarrow> schema_error + validation_report"
where
  "validate fetch plan target_version =
     (case fetch (target_provider plan) target_version of
        Inl e \<Rightarrow> Inl e
      | Inr schema \<Rightarrow> Inr (validate_plan_against schema plan))"

section \<open>Conformance\<close>

definition conforms :: "provider_schema \<Rightarrow> mapped_resource \<Rightarrow> bool" where
  "conforms schema r \<longleftrightarrow>
     (case map_of (ps_resources schema) (target_type r) of
        None \<Rightarrow> False
      | Some rs \<Rightarrow>
          list_all (\<lambda>a. bt_has (rs_attributes rs) a) (map fst (attributes r))
          \<and> list_all (\<lambda>(a, s). as_required s \<longrightarrow> bt_has (attributes r) a) (rs_attributes rs))"

lemma check_resource_errors: "fst (check_resource schema r) = [] \<longleftrightarrow> conforms schema r"
  by (auto simp: check_resource_def conforms_def attribute_errors_def missing_errors_def list_all_iff
      bt_has_def filter_empty_conv split: option.split)

lemma validate_errors [simp]:
  "errors (validate_plan_against schema plan) = concat (map (fst \<circ> check_resource schema) (resources plan))"
  "passed (validate_plan_against schema plan) \<longleftrightarrow> errors (validate_plan_against schema plan) = []"
  by (simp_all add: validate_plan_against_def report_new_def)

lemma validate_passed: "passed (validate_plan_against schema plan) \<longleftrightarrow> list_all (conforms schema) (resources plan)"
  by (auto simp: list_all_iff check_resource_errors)

text \<open>What each kind of error says about the plan.\<close>

definition error_holds :: "provider_schema \<Rightarrow> mapping_plan \<Rightarrow> validation_error \<Rightarrow> bool" where
  "error_holds schema plan e \<longleftrightarrow>
     (\<exists>r\<in>set (resources plan). ve_addr e = target_addr r \<and> ve_type e = target_type r \<and>
        (case e of
           UnknownResourceType _ _ \<Rightarrow> map_of (ps_resources schema) (target_type r) = None
         | UnknownAttribute _ a _ \<Rightarrow>
             (\<exists>rs. map_of (ps_resources schema) (target_type r) = Some rs
                \<and> bt_has (attributes r) a \<and> \<not> bt_has (rs_attributes rs) a)
         | MissingRequiredAttribute _ a _ \<Rightarrow>
             (\<exists>rs s. map_of (ps_resources schema) (target_type r) = Some rs
                \<and> map_of (rs_attributes rs) a = Some s \<and> as_required s \<and> \<not> bt_has (attributes r) a)))"

lemma errors_exact:
  assumes "schema_wf schema"
  shows "e \<in> set (errors (validate_plan_against schema plan)) \<longleftrightarrow> error_holds schema plan e"
proof -
  have "e \<in> set (fst (check_resource schema r)) \<longleftrightarrow> ve_addr e = target_addr r \<and> ve_type e = target_type r \<and>
        (case e of
           UnknownResourceType _ _ \<Rightarrow> map_of (ps_resources schema) (target_type r) = None
         | UnknownAttribute _ a _ \<Rightarrow>
             (\<exists>rs. map_of (ps_resources schema) (target_type r) = Some rs
                \<and> bt_has (attributes r) a \<and> \<not> bt_has (rs_attributes rs) a)
         | MissingRequiredAttribute _ a _ \<Rightarrow>
             (\<exists>rs s. map_of (ps_resources schema) (target_type r) = Some rs
                \<and> map_of (rs_attributes rs) a = Some s \<and> as_required s \<and> \<not> bt_has (attributes r) a))" for r
  proof (cases "map_of (ps_resources schema) (target_type r)")
    case None
    then show ?thesis by (cases e) (auto simp: check_resource_def)
  next
    case (Some rs)
    have "distinct (map fst (rs_attributes rs))"
      using assms Some by (auto simp: schema_wf_def list_all_iff intro!: bt_wf_distinct dest: map_of_SomeD)
    then have mem: "(a, s) \<in> set (rs_attributes rs) \<longleftrightarrow> map_of (rs_attributes rs) a = Some s" for a s
      by simp
    show ?thesis
      using Some mem
      by (cases e) (auto simp: check_resource_def attribute_errors_def missing_errors_def bt_has_iff
          map_of_eq_None_iff)
  qed
  then show ?thesis by (auto simp: error_holds_def)
qed

section \<open>Properties\<close>

text \<open>C16. The gate is sound and complete: when the schema can be fetched, the report passes exactly when
  every resource of the plan has a known type, sets only attributes of that type's schema and sets
  all the required ones; and its errors are exactly the violations of the plan, none missing and
  none invented. Warnings change neither.\<close>

theorem validator_exact:
  assumes "fetch (target_provider plan) version = Inr schema" "schema_wf schema"
    and "validate fetch plan version = Inr report"
  shows "(passed report \<longleftrightarrow> list_all (conforms schema) (resources plan))
    \<and> set (errors report) = {e. error_holds schema plan e}"
proof -
  have report: "report = validate_plan_against schema plan" using assms by (simp add: validate_def)
  show ?thesis
    unfolding report validate_passed using errors_exact [OF assms(2)] by blast
qed

text \<open>A small schema and a plan with one good and two bad attributes.\<close>

definition wit_attr :: "string \<Rightarrow> bool \<Rightarrow> attribute_schema" where
  "wit_attr n req = \<lparr>as_name = n, as_attribute_type = ''string'', as_required = req, as_optional = \<not> req,
     as_computed = False, as_sensitive = False, as_deprecated = None, as_description = None\<rparr>"

definition wit_schema :: provider_schema where
  "wit_schema = \<lparr>ps_provider = ''aws'', ps_version = ''5.30.0'',
     ps_resources = [(''aws_vpc'', \<lparr>rs_name = ''aws_vpc'', rs_description = None,
        rs_attributes = [(''cidr_block'', wit_attr ''cidr_block'' True), (''tags'', wit_attr ''tags'' False)]\<rparr>)],
     ps_data_sources = [], ps_fetched_at = 0\<rparr>"

definition wit_plan :: mapping_plan where
  "wit_plan = \<lparr>plan_run_id = 1, source_provider = ''azurerm'', target_provider = ''aws'',
     resources = [\<lparr>source_addr = ''azurerm_virtual_network.m'', target_addr = ''aws_vpc.m'',
        target_type = ''aws_vpc'', target_name = ''m'',
        attributes = [(''cidr_blocks'', AString ''10.0.0.0/16'')], dependencies = []\<rparr>]\<rparr>"

lemma wit_schema_wf: "schema_wf wit_schema"
  by (simp add: schema_wf_def wit_schema_def)

lemma wit_report:
  "validate (\<lambda>p v. Inr wit_schema) wit_plan ''5.30.0'' =
     Inr \<lparr>passed = False,
       errors = [UnknownAttribute ''aws_vpc.m'' ''cidr_blocks'' ''aws_vpc'',
                 MissingRequiredAttribute ''aws_vpc.m'' ''cidr_block'' ''aws_vpc''],
       warnings = []\<rparr>"
  by (simp add: validate_def validate_plan_against_def report_new_def wit_plan_def wit_schema_def
      check_resource_def attribute_errors_def missing_errors_def attribute_warnings_def wit_attr_def bt_has_def)

theorem validator_exact_witness:
  "\<not> list_all (conforms wit_schema) (resources wit_plan)
   \<and> {e. error_holds wit_schema wit_plan e}
     = {UnknownAttribute ''aws_vpc.m'' ''cidr_blocks'' ''aws_vpc'',
        MissingRequiredAttribute ''aws_vpc.m'' ''cidr_block'' ''aws_vpc''}"
  using validator_exact [where fetch = "\<lambda>p v. Inr wit_schema", OF refl wit_schema_wf wit_report] by simp

end
