(* ===== verification/Templates.thy ===== *)
theory Templates
  imports Validator "HOL-Library.AList" "HOL-Library.Multiset"
begin

text \<open>
  \<open>libs/engine/src/generator/templates.rs\<close>: how a mapped resource becomes a resource block. The
  \<open>hcl\<close> crate's tests on identifiers are parameters: \<open>valid_ident\<close> (\<open>Identifier::new\<close>,
  \<open>Variable::new\<close>) and \<open>sanitized\<close>; its expression and block types are kept as built here, before
  the crate renders them.
\<close>

section \<open>Expressions and blocks\<close>

datatype expression =
    EString string
  | ENumber f64
  | EBool bool
  | EVariable string
  | ETraversal string "string list"
  | EArray "expression list"
  | EObject "(string \<times> expression) list"

record block =
  labels :: "string list"
  block_attributes :: "(string \<times> expression) list"

datatype generator_error =
    TemplateMiss string
  | Hcl string
  | Io "string list"
  | Backup_SourceMissing "string list"
  | Backup_CreateDir "string list"
  | Backup_Move "string list" "string list"
  | Backup_Restore "string list" "string list"
  | Generator_Audit string
  | InvalidOutputDir "string list"
  | Lookup mapper_lookup_error
  | EmptyReference
  | RollbackPartial nat nat "(string list \<times> generator_error) list"

record hcl =
  valid_ident :: "string \<Rightarrow> bool"
  sanitized :: "string \<Rightarrow> string"
  hcl_to_string :: "block list \<Rightarrow> string + string"

definition parse_reference :: "hcl \<Rightarrow> string \<Rightarrow> generator_error + expression" where
  "parse_reference h s =
     (if s = [] then Inl EmptyReference
      else case split_on (CHR ''.'') s of
        [] \<Rightarrow> Inl EmptyReference
      | first # parts \<Rightarrow>
          (if first = [] then Inl EmptyReference
           else if \<not> valid_ident h first then Inl (Hcl first)
           else case find (\<lambda>p. \<not> valid_ident h p) parts of
             Some bad \<Rightarrow> Inl (Hcl bad)
           | None \<Rightarrow> Inr (if parts = [] then EVariable first else ETraversal first parts)))"

fun to_expression :: "hcl \<Rightarrow> attribute_value \<Rightarrow> generator_error + expression"
  and to_expressions :: "hcl \<Rightarrow> attribute_value list \<Rightarrow> generator_error + expression list"
  and to_fields :: "hcl \<Rightarrow> (string \<times> attribute_value) list \<Rightarrow> (string \<times> expression) list
    \<Rightarrow> generator_error + (string \<times> expression) list"
where
  "to_expression h (AString s) = Inr (EString s)"
| "to_expression h (ANumber n) = Inr (ENumber n)"
| "to_expression h (ABool b) = Inr (EBool b)"
| "to_expression h (AReference r) = parse_reference h r"
| "to_expression h (AList items) =
     (case to_expressions h items of Inl e \<Rightarrow> Inl e | Inr es \<Rightarrow> Inr (EArray es))"
| "to_expression h (AMap m) =
     (case to_fields h m [] of Inl e \<Rightarrow> Inl e | Inr fs \<Rightarrow> Inr (EObject fs))"
| "to_expressions h [] = Inr []"
| "to_expressions h (v # vs) =
     (case to_expression h v of
        Inl e \<Rightarrow> Inl e
      | Inr x \<Rightarrow> (case to_expressions h vs of Inl e \<Rightarrow> Inl e | Inr xs \<Rightarrow> Inr (x # xs)))"
| "to_fields h [] object = Inr object"
| "to_fields h ((k, v) # kvs) object =
     (case to_expression h v of
        Inl e \<Rightarrow> Inl e
      | Inr x \<Rightarrow> to_fields h kvs (AList.update (sanitized h k) x object))"

definition map_to_object_expression :: "hcl \<Rightarrow> (string \<times> attribute_value) list \<Rightarrow> generator_error + expression" where
  "map_to_object_expression h m = to_expression h (AMap m)"

section \<open>Building a block\<close>

fun add_required ::
  "hcl \<Rightarrow> mapped_resource \<Rightarrow> string list \<Rightarrow> (string \<times> expression) list
     \<Rightarrow> generator_error + (string \<times> expression) list"
where
  "add_required h r [] acc = Inr acc"
| "add_required h r (k # ks) acc =
     (case map_of (attributes r) k of
        None \<Rightarrow> Inl (Lookup (Missing (target_addr r) k))
      | Some v \<Rightarrow>
          (case to_expression h v of
             Inl e \<Rightarrow> Inl e
           | Inr x \<Rightarrow> add_required h r ks (acc @ [(k, x)])))"

fun add_optional ::
  "hcl \<Rightarrow> mapped_resource \<Rightarrow> string list \<Rightarrow> (string \<times> expression) list
     \<Rightarrow> generator_error + (string \<times> expression) list"
where
  "add_optional h r [] acc = Inr acc"
| "add_optional h r (k # ks) acc =
     (case map_of (attributes r) k of
        None \<Rightarrow> add_optional h r ks acc
      | Some v \<Rightarrow>
          (case to_expression h v of
             Inl e \<Rightarrow> Inl e
           | Inr x \<Rightarrow> add_optional h r ks (acc @ [(k, x)])))"

definition add_tags ::
  "hcl \<Rightarrow> mapped_resource \<Rightarrow> (string \<times> expression) list \<Rightarrow> generator_error + (string \<times> expression) list"
where
  "add_tags h r acc =
     (case optional_map r ''tags'' of
        None \<Rightarrow> Inr acc
      | Some tags \<Rightarrow>
          (case map_to_object_expression h tags of
             Inl e \<Rightarrow> Inl e
           | Inr x \<Rightarrow> Inr (acc @ [(''tags'', x)])))"

definition build_resource_block ::
  "hcl \<Rightarrow> mapped_resource \<Rightarrow> string list \<Rightarrow> string list \<Rightarrow> generator_error + block"
where
  "build_resource_block h r required_keys optional_keys =
     (case add_required h r required_keys [] of
        Inl e \<Rightarrow> Inl e
      | Inr acc1 \<Rightarrow>
          (case add_optional h r optional_keys acc1 of
             Inl e \<Rightarrow> Inl e
           | Inr acc2 \<Rightarrow>
               (case add_tags h r acc2 of
                  Inl e \<Rightarrow> Inl e
                | Inr acc3 \<Rightarrow> Inr \<lparr>labels = [target_type r, target_name r], block_attributes = acc3\<rparr>)))"

section \<open>The registry\<close>

text \<open>A template is its required and optional keys.\<close>

record template =
  required_keys :: "string list"
  optional_keys :: "string list"

definition tmpl :: "string list \<Rightarrow> string list \<Rightarrow> template" where
  "tmpl req opt = \<lparr>required_keys = req, optional_keys = opt\<rparr>"

definition template_aws_vpc :: template where
  "template_aws_vpc = tmpl [''cidr_block''] [''instance_tenancy'', ''enable_dns_support'']"

definition template_aws_subnet :: template where
  "template_aws_subnet =
     tmpl [''cidr_block''] [''vpc_id'', ''availability_zone'', ''map_public_ip_on_launch'']"

definition template_aws_security_group :: template where
  "template_aws_security_group = tmpl [''name''] [''vpc_id'', ''description'']"

definition template_aws_instance :: template where
  "template_aws_instance =
     tmpl [''instance_type''] [''ami'', ''subnet_id'', ''key_name'', ''associate_public_ip_address'']"

definition template_aws_s3_bucket :: template where
  "template_aws_s3_bucket = tmpl [''bucket''] [''acl'', ''force_destroy'']"

definition template_azurerm_virtual_network :: template where
  "template_azurerm_virtual_network =
     tmpl [''name'', ''resource_group_name'', ''location''] [''address_space'']"

definition template_azurerm_subnet :: template where
  "template_azurerm_subnet =
     tmpl [''name'', ''resource_group_name'', ''virtual_network_name''] [''address_prefixes'']"

definition template_azurerm_network_security_group :: template where
  "template_azurerm_network_security_group = tmpl [''name'', ''location'', ''resource_group_name''] []"

definition template_azurerm_linux_virtual_machine :: template where
  "template_azurerm_linux_virtual_machine =
     tmpl [''name'', ''resource_group_name'', ''location'', ''size'']
       [''admin_username'', ''network_interface_ids'']"

definition template_azurerm_storage_account :: template where
  "template_azurerm_storage_account =
     tmpl [''name'', ''resource_group_name'', ''location'', ''account_tier'', ''account_replication_type''] []"

definition template_aws_iam_role :: template where
  "template_aws_iam_role =
     tmpl [''assume_role_policy''] [''name'', ''description'', ''path'', ''permissions_boundary'']"

definition template_google_storage_bucket :: template where
  "template_google_storage_bucket =
     tmpl [''name'', ''location'']
       [''force_destroy'', ''storage_class'', ''uniform_bucket_level_access'', ''versioning'']"

definition template_google_compute_network :: template where
  "template_google_compute_network =
     tmpl [''name'']
       [''description'', ''auto_create_subnetworks'', ''routing_mode'', ''mtu'',
        ''delete_default_routes_on_create'']"

definition template_google_compute_subnetwork :: template where
  "template_google_compute_subnetwork =
     tmpl [''name'', ''ip_cidr_range'', ''network'', ''region'']
       [''description'', ''private_ip_google_access'', ''purpose'', ''role'', ''stack_type'',
        ''ipv6_access_type'']"

definition template_google_compute_firewall :: template where
  "template_google_compute_firewall =
     tmpl [''name'', ''network'']
       [''description'', ''direction'', ''priority'', ''source_ranges'', ''destination_ranges'',
        ''source_tags'', ''target_tags'', ''disabled'', ''log_config'']"

definition template_google_compute_instance :: template where
  "template_google_compute_instance =
     tmpl [''name'', ''machine_type'', ''zone'']
       [''description'', ''tags'', ''labels'', ''metadata_startup_script'', ''can_ip_forward'',
        ''deletion_protection'', ''hostname'']"

definition template_azurerm_route_table :: template where
  "template_azurerm_route_table =
     tmpl [''name'', ''location'', ''resource_group_name''] [''disable_bgp_route_propagation'']"

definition template_azurerm_public_ip :: template where
  "template_azurerm_public_ip =
     tmpl [''name'', ''location'', ''resource_group_name'', ''allocation_method'']
       [''sku'', ''domain_name_label'', ''ip_version'']"

definition template_azurerm_subnet_nsg_association :: template where
  "template_azurerm_subnet_nsg_association = tmpl [''subnet_id'', ''network_security_group_id''] []"

definition template_azurerm_subnet_route_table_association :: template where
  "template_azurerm_subnet_route_table_association = tmpl [''subnet_id'', ''route_table_id''] []"

definition template_azurerm_resource_group :: template where
  "template_azurerm_resource_group = tmpl [''name'', ''location''] []"

definition stage1_registry :: "(string \<times> template) list" where
  "stage1_registry =
     [(''aws_vpc'', template_aws_vpc),
      (''aws_subnet'', template_aws_subnet),
      (''aws_security_group'', template_aws_security_group),
      (''aws_instance'', template_aws_instance),
      (''aws_s3_bucket'', template_aws_s3_bucket),
      (''azurerm_virtual_network'', template_azurerm_virtual_network),
      (''azurerm_subnet'', template_azurerm_subnet),
      (''azurerm_network_security_group'', template_azurerm_network_security_group),
      (''azurerm_linux_virtual_machine'', template_azurerm_linux_virtual_machine),
      (''azurerm_storage_account'', template_azurerm_storage_account),
      (''aws_iam_role'', template_aws_iam_role),
      (''google_storage_bucket'', template_google_storage_bucket),
      (''google_compute_network'', template_google_compute_network),
      (''google_compute_subnetwork'', template_google_compute_subnetwork),
      (''google_compute_firewall'', template_google_compute_firewall),
      (''google_compute_instance'', template_google_compute_instance),
      (''azurerm_route_table'', template_azurerm_route_table),
      (''azurerm_public_ip'', template_azurerm_public_ip),
      (''azurerm_subnet_network_security_group_association'', template_azurerm_subnet_nsg_association),
      (''azurerm_subnet_route_table_association'', template_azurerm_subnet_route_table_association),
      (''azurerm_resource_group'', template_azurerm_resource_group)]"

definition template_for :: "string \<Rightarrow> template option" where
  "template_for ty = map_of stage1_registry ty"

definition registered_types :: "string list" where
  "registered_types = map fst stage1_registry"

definition registry_len :: nat where
  "registry_len = length stage1_registry"

definition apply_template :: "hcl \<Rightarrow> template \<Rightarrow> mapped_resource \<Rightarrow> generator_error + block" where
  "apply_template h t r = build_resource_block h r (required_keys t) (optional_keys t)"

section \<open>Ordering and grouping\<close>

definition sort_resources :: "mapped_resource list \<Rightarrow> mapped_resource list" where
  "sort_resources rs = sort_key target_addr rs"

fun group_push :: "mapped_resource \<Rightarrow> (string, mapped_resource list) btree \<Rightarrow> (string, mapped_resource list) btree" where
  "group_push r groups =
     bt_insert (target_type r) ((case map_of groups (target_type r) of None \<Rightarrow> [] | Some rs \<Rightarrow> rs) @ [r]) groups"

definition group_by_target_type :: "mapped_resource list \<Rightarrow> (string, mapped_resource list) btree" where
  "group_by_target_type rs = fold group_push rs []"

text \<open>A body is the list of its blocks.\<close>

definition body_from_blocks :: "block list \<Rightarrow> block list" where
  "body_from_blocks bs = bs"

section \<open>What a block holds\<close>

definition comes_from :: "hcl \<Rightarrow> mapped_resource \<Rightarrow> string \<times> expression \<Rightarrow> bool" where
  "comes_from h r kx \<longleftrightarrow>
     (case map_of (attributes r) (fst kx) of None \<Rightarrow> False | Some v \<Rightarrow> to_expression h v = Inr (snd kx))"

lemma add_required_Inr:
  "add_required h r ks acc = Inr acc' \<Longrightarrow>
     \<exists>new. acc' = acc @ new \<and> map fst new = ks \<and> list_all (comes_from h r) new"
proof (induction ks arbitrary: acc)
  case (Cons k ks)
  from Cons.prems obtain v x where v: "map_of (attributes r) k = Some v" "to_expression h v = Inr x"
    "add_required h r ks (acc @ [(k, x)]) = Inr acc'"
    by (auto split: option.splits sum.splits)
  from Cons.IH [OF v(3)] obtain new where
    "acc' = (acc @ [(k, x)]) @ new" "map fst new = ks" "list_all (comes_from h r) new" by blast
  moreover have "comes_from h r (k, x)" using v by (simp add: comes_from_def)
  ultimately show ?case by (intro exI [of _ "(k, x) # new"]) simp
qed simp

lemma add_optional_Inr:
  "add_optional h r ks acc = Inr acc' \<Longrightarrow>
     \<exists>new. acc' = acc @ new \<and> map fst new = filter (bt_has (attributes r)) ks
       \<and> list_all (comes_from h r) new"
proof (induction ks arbitrary: acc)
  case (Cons k ks)
  show ?case
  proof (cases "map_of (attributes r) k")
    case None
    with Cons show ?thesis by (auto simp: bt_has_def)
  next
    case (Some v)
    with Cons.prems obtain x where x: "to_expression h v = Inr x"
      "add_optional h r ks (acc @ [(k, x)]) = Inr acc'" by (auto split: sum.splits)
    from Cons.IH [OF x(2)] obtain new where
      "acc' = (acc @ [(k, x)]) @ new" "map fst new = filter (bt_has (attributes r)) ks"
      "list_all (comes_from h r) new" by blast
    moreover have "comes_from h r (k, x)" "bt_has (attributes r) k"
      using Some x by (simp_all add: comes_from_def bt_has_def)
    ultimately show ?thesis by (intro exI [of _ "(k, x) # new"]) simp
  qed
qed simp

lemma optional_map_Some: "optional_map r k = Some m \<longleftrightarrow> map_of (attributes r) k = Some (AMap m)"
  by (auto simp: optional_map_def split: option.splits attribute_value.splits)

lemma add_tags_Inr:
  "add_tags h r acc = Inr acc' \<Longrightarrow>
     \<exists>new. acc' = acc @ new \<and> list_all (comes_from h r) new
       \<and> map fst new = (if optional_map r ''tags'' = None then [] else [''tags''])"
proof (cases "optional_map r ''tags''")
  case (Some m)
  then have "map_of (attributes r) ''tags'' = Some (AMap m)" by (simp add: optional_map_Some)
  moreover assume "add_tags h r acc = Inr acc'"
  ultimately show ?thesis using Some
    by (auto simp: add_tags_def map_to_object_expression_def comes_from_def split: sum.splits)
qed (simp add: add_tags_def)

definition emitted_keys :: "template \<Rightarrow> mapped_resource \<Rightarrow> string list" where
  "emitted_keys t r = required_keys t @ filter (bt_has (attributes r)) (optional_keys t)
     @ (if optional_map r ''tags'' = None then [] else [''tags''])"

lemma apply_template_Inr:
  assumes "apply_template h t r = Inr b"
  shows "labels b = [target_type r, target_name r] \<and> map fst (block_attributes b) = emitted_keys t r
    \<and> list_all (comes_from h r) (block_attributes b)"
proof -
  from assms obtain a1 a2 a3 where
    a: "add_required h r (required_keys t) [] = Inr a1" "add_optional h r (optional_keys t) a1 = Inr a2"
      "add_tags h r a2 = Inr a3" "b = \<lparr>labels = [target_type r, target_name r], block_attributes = a3\<rparr>"
    by (auto simp: apply_template_def build_resource_block_def split: sum.splits)
  from add_required_Inr [OF a(1)] add_optional_Inr [OF a(2)] add_tags_Inr [OF a(3)] a(4)
  show ?thesis by (auto simp: emitted_keys_def)
qed

section \<open>Order and groups\<close>

lemma sort_resources_perm:
  assumes "mset rs = mset rs'" "distinct (map target_addr rs)"
  shows "sort_resources rs = sort_resources rs'"
proof -
  have "inj_on target_addr (set rs)" using assms(2) by (simp add: distinct_map)
  moreover have "mset rs = mset (sort_key target_addr rs')" using assms(1) by simp
  ultimately have "sort_key target_addr rs = sort_key target_addr rs'"
    by (intro sort_key_inj_key_eq) auto
  then show ?thesis by (simp add: sort_resources_def)
qed

lemma group_fold:
  "bt_wf groups \<Longrightarrow> bt_wf (fold group_push rs groups)
     \<and> map_of (fold group_push rs groups) ty =
         (let xs = (case map_of groups ty of None \<Rightarrow> [] | Some ys \<Rightarrow> ys) @ filter (\<lambda>r. target_type r = ty) rs
          in if map_of groups ty = None \<and> filter (\<lambda>r. target_type r = ty) rs = [] then None else Some xs)"
proof (induction rs arbitrary: groups)
  case Nil
  then show ?case by (auto split: option.split)
next
  case (Cons r rs)
  have "bt_wf (group_push r groups)" using Cons.prems by simp
  from Cons.IH [OF this] Cons.prems show ?case
    by (auto simp: Let_def split: option.splits if_splits)
qed

lemma group_by_target_type:
  "bt_wf (group_by_target_type rs)"
  "map_of (group_by_target_type rs) ty =
     (if filter (\<lambda>r. target_type r = ty) rs = [] then None else Some (filter (\<lambda>r. target_type r = ty) rs))"
  using group_fold [of "[]" rs ty] by (auto simp: group_by_target_type_def Let_def)

section \<open>Properties\<close>


definition wit_hcl :: hcl where
  "wit_hcl = \<lparr>valid_ident = (\<lambda>s. s \<noteq> []), sanitized = (\<lambda>s. s), hcl_to_string = (\<lambda>bs. Inr (concat (map (concat \<circ> labels) bs)))\<rparr>"

definition wit_vpc :: mapped_resource where
  "wit_vpc = \<lparr>source_addr = ''google_compute_network.m'', target_addr = ''aws_vpc.m'',
     target_type = ''aws_vpc'', target_name = ''m'',
     attributes = [(''cidr_block'', AString ''10.0.0.0/16''), (''enable_dns_hostnames'', ABool True),
                   (''tags'', AReference ''var.tags'')],
     dependencies = []\<rparr>"

lemma wit_vpc_block:
  "apply_template wit_hcl template_aws_vpc wit_vpc =
     Inr \<lparr>labels = [''aws_vpc'', ''m''], block_attributes = [(''cidr_block'', EString ''10.0.0.0/16'')]\<rparr>"
  by (simp add: apply_template_def build_resource_block_def template_aws_vpc_def tmpl_def wit_vpc_def
      add_tags_def optional_map_def)


definition wit_instance :: mapped_resource where
  "wit_instance = \<lparr>source_addr = ''aws_instance.m'', target_addr = ''google_compute_instance.m'',
     target_type = ''google_compute_instance'', target_name = ''m'',
     attributes = [(''machine_type'', AString ''e2''), (''name'', AString ''m''),
                   (''tags'', AMap [(''env'', AString ''dev'')]), (''zone'', AString ''z'')],
     dependencies = []\<rparr>"

text \<open>Attributes the schema allows but the template does not list are dropped without an error (here
  \<open>enable_dns_hostnames\<close>, and \<open>tags\<close> because it is a reference), and a compute instance whose \<open>tags\<close>
  is a map gets the attribute twice.\<close>

theorem template_drops_and_repeats:
  "apply_template wit_hcl template_aws_vpc wit_vpc =
     Inr \<lparr>labels = [''aws_vpc'', ''m''], block_attributes = [(''cidr_block'', EString ''10.0.0.0/16'')]\<rparr>
   \<and> (\<exists>b. apply_template wit_hcl template_google_compute_instance wit_instance = Inr b
        \<and> map fst (block_attributes b) = [''name'', ''machine_type'', ''zone'', ''tags'', ''tags''])"
  by (simp add: apply_template_def build_resource_block_def template_aws_vpc_def tmpl_def wit_vpc_def
      add_tags_def optional_map_def template_google_compute_instance_def wit_instance_def
      map_to_object_expression_def)

end
