(* ===== verification/File_System.thy ===== *)
theory File_System
  imports Prelude "HOL-Library.Sublist"
begin

text \<open>
  The file system the generator, the pipeline and the schema cache work on. Paths are lists of
  components; a file system is the contents of its files and the set of its directories; which
  operations the operating system refuses is the record \<open>io\<close>.
\<close>

section \<open>The file system\<close>

type_synonym path = "string list"

record fs =
  files :: "path \<rightharpoonup> string"
  dirs :: "path \<Rightarrow> bool"

text \<open>
  Faults: \<open>Some\<close> raw error code for a rename; for a copy or a write, the content left behind.
\<close>

record io =
  mkdir_fault :: "path \<Rightarrow> bool"
  rename_fault :: "path \<Rightarrow> path \<Rightarrow> int option option"
  copy_fault :: "path \<Rightarrow> path \<Rightarrow> string option option"
  remove_fault :: "path \<Rightarrow> bool"
  write_fault :: "path \<Rightarrow> string option option"
  new_op_uuid :: "path \<Rightarrow> string"
  show_uuid :: "uuid \<Rightarrow> string"

definition no_disk_faults :: "io \<Rightarrow> bool" where
  "no_disk_faults io \<longleftrightarrow> (\<forall>p q. \<not> mkdir_fault io p \<and> rename_fault io p q = None \<and> write_fault io p = None)"

definition path_exists :: "fs \<Rightarrow> path \<Rightarrow> bool" where
  "path_exists s p \<longleftrightarrow> files s p \<noteq> None \<or> dirs s p"

definition create_dir_all :: "path \<Rightarrow> fs \<Rightarrow> fs" where
  "create_dir_all d s = s\<lparr>dirs := (\<lambda>p. dirs s p \<or> prefix p d)\<rparr>"

definition rename_error :: "io \<Rightarrow> fs \<Rightarrow> path \<Rightarrow> path \<Rightarrow> int option option" where
  "rename_error io s src dst =
     (case rename_fault io src dst of
        Some code \<Rightarrow> Some code
      | None \<Rightarrow> if files s src = None then Some (Some 2) else None)"

definition move_file :: "path \<Rightarrow> path \<Rightarrow> fs \<Rightarrow> fs" where
  "move_file src dst s = s\<lparr>files := (files s)(src := None, dst := files s src)\<rparr>"

section \<open>Text files\<close>

text \<open>\<open>String::from_utf8\<close> accepts exactly these byte sequences.\<close>

definition in_range :: "nat \<Rightarrow> nat \<Rightarrow> char \<Rightarrow> bool" where
  "in_range lo hi c \<longleftrightarrow> lo \<le> (of_char c :: nat) \<and> (of_char c :: nat) \<le> hi"

definition utf8_unit :: "string \<Rightarrow> bool" where
  "utf8_unit u \<longleftrightarrow> (case u of
     [a] \<Rightarrow> in_range 0 0x7F a
   | [a, b] \<Rightarrow> in_range 0xC2 0xDF a \<and> in_range 0x80 0xBF b
   | [a, b, c] \<Rightarrow> in_range 0x80 0xBF c \<and>
       (in_range 0xE0 0xE0 a \<and> in_range 0xA0 0xBF b
        \<or> (in_range 0xE1 0xEC a \<or> in_range 0xEE 0xEF a) \<and> in_range 0x80 0xBF b
        \<or> in_range 0xED 0xED a \<and> in_range 0x80 0x9F b)
   | [a, b, c, d] \<Rightarrow> in_range 0x80 0xBF c \<and> in_range 0x80 0xBF d \<and>
       (in_range 0xF0 0xF0 a \<and> in_range 0x90 0xBF b
        \<or> in_range 0xF1 0xF3 a \<and> in_range 0x80 0xBF b
        \<or> in_range 0xF4 0xF4 a \<and> in_range 0x80 0x8F b)
   | _ \<Rightarrow> False)"

function valid_utf8 :: "string \<Rightarrow> bool" where
  "valid_utf8 s \<longleftrightarrow> s = [] \<or>
     (case find (\<lambda>n. n \<le> length s \<and> utf8_unit (take n s)) [1, 2, 3, 4] of
        None \<Rightarrow> False
      | Some n \<Rightarrow> valid_utf8 (drop n s))"
  by pat_completeness auto
termination
  by (relation "measure length") (auto simp: find_Some_iff nth_Cons' split: if_splits)

declare valid_utf8.simps [simp del]

definition read_to_string :: "fs \<Rightarrow> path \<Rightarrow> string option" where
  "read_to_string s p = (case files s p of Some c \<Rightarrow> if valid_utf8 c then Some c else None | None \<Rightarrow> None)"

definition remove_tree :: "path \<Rightarrow> fs \<Rightarrow> fs" where
  "remove_tree d s = s\<lparr>files := (\<lambda>p. if prefix d p then None else files s p), dirs := (\<lambda>p. dirs s p \<and> \<not> prefix d p)\<rparr>"

lemma valid_utf8_Nil [simp]: "valid_utf8 []"
  by (simp add: valid_utf8.simps [of "[]"])

lemma valid_utf8_append: "valid_utf8 a \<Longrightarrow> valid_utf8 b \<Longrightarrow> valid_utf8 (a @ b)"
proof (induction a rule: valid_utf8.induct)
  case (1 a)
  show ?case
  proof (cases "a = []")
    case False
    with 1(2) obtain n where n: "find (\<lambda>n. n \<le> length a \<and> utf8_unit (take n a)) [1, 2, 3, 4] = Some n"
      and v: "valid_utf8 (drop n a)"
      by (subst (asm) valid_utf8.simps) (auto split: option.splits)
    have "find P xs = Some m \<Longrightarrow> P m" for P and xs :: "nat list" and m by (auto simp: find_Some_iff)
    from this [OF n] have le: "n \<le> length a" by simp
    have "find (\<lambda>n. n \<le> length (a @ b) \<and> utf8_unit (take n (a @ b))) [1, 2, 3, 4] = Some n"
      using n by (auto split: if_splits)
    moreover have "valid_utf8 (drop n a @ b)" by (rule 1(1) [OF n v 1(3)])
    ultimately show ?thesis using le by (subst valid_utf8.simps) simp
  qed (use 1 in simp)
qed

end
