(* ===== verification/Generator.thy ===== *)
theory Generator
  imports Templates File_System
begin

text \<open>
  \<open>libs/engine/src/generator/{backup,emitter,mod}.rs\<close>: writing the blocks to files, moving what was
  there to a backup first, and rolling a run back, on the file system of \<open>File_System\<close>. A directory
  standing where a \<open>.tf\<close> file should go is outside the model.
\<close>

section \<open>Backups\<close>

definition backup_root :: "io \<Rightarrow> path \<Rightarrow> uuid \<Rightarrow> path" where
  "backup_root io cwd run_id = cwd @ [''.terrashift'', ''runs'', show_uuid io run_id, ''backups'']"

definition is_cross_device :: "int option \<Rightarrow> bool" where
  "is_cross_device code \<longleftrightarrow> code = Some 17 \<or> code = Some 18"

definition copy_then_remove :: "io \<Rightarrow> path \<Rightarrow> path \<Rightarrow> (fs, generator_error, path) act" where
  "copy_then_remove io src dst s =
     (case copy_fault io src dst of
        Some left \<Rightarrow> (Inl (Backup_Move src dst), s\<lparr>files := (files s)(dst := left)\<rparr>)
      | None \<Rightarrow>
          (if files s src = None then (Inl (Backup_Move src dst), s)
           else
             let s1 = s\<lparr>files := (files s)(dst := files s src)\<rparr> in
             if remove_fault io src then (Inl (Backup_Move src dst), s1)
             else (Inr dst, s1\<lparr>files := (files s1)(src := None)\<rparr>)))"

definition backup_dir :: "io \<Rightarrow> path \<Rightarrow> uuid \<Rightarrow> path \<Rightarrow> path" where
  "backup_dir io cwd run_id p = backup_root io cwd run_id @ [new_op_uuid io p]"

definition item_name :: "path \<Rightarrow> string" where
  "item_name p = (if p = [] then ''unknown_item'' else last p)"

definition move_to_backup :: "io \<Rightarrow> path \<Rightarrow> uuid \<Rightarrow> path \<Rightarrow> (fs, generator_error, path) act" where
  "move_to_backup io cwd run_id p s =
     (if \<not> path_exists s p then (Inl (Backup_SourceMissing p), s)
      else
        let dir = backup_dir io cwd run_id p in
        if mkdir_fault io dir then (Inl (Backup_CreateDir dir), s)
        else
          let s1 = create_dir_all dir s; dst = dir @ [item_name p] in
          case rename_error io s1 p dst of
            None \<Rightarrow> (Inr dst, move_file p dst s1)
          | Some code \<Rightarrow>
              (if is_cross_device code then copy_then_remove io p dst s1
               else (Inl (Backup_Move p dst), s1)))"

definition restore_from_backup :: "io \<Rightarrow> path \<Rightarrow> path \<Rightarrow> (fs, generator_error, unit) act" where
  "restore_from_backup io backup original s =
     (let parent = butlast original in
      if original \<noteq> [] \<and> \<not> path_exists s parent \<and> mkdir_fault io parent
      then (Inl (Backup_CreateDir parent), s)
      else
        let s1 = (if original \<noteq> [] \<and> \<not> path_exists s parent then create_dir_all parent s else s) in
        case rename_error io s1 backup original of
          None \<Rightarrow> (Inr (), move_file backup original s1)
        | Some code \<Rightarrow>
            (if is_cross_device code then
               (case copy_then_remove io backup original s1 of
                  (Inr _, s2) \<Rightarrow> (Inr (), s2)
                | (Inl (Backup_Move a b), s2) \<Rightarrow> (Inl (Backup_Restore backup original), s2)
                | (Inl other, s2) \<Rightarrow> (Inl other, s2))
             else (Inl (Backup_Restore backup original), s1)))"

section \<open>Emitting\<close>

record emitted_file =
  ef_path :: path
  ef_backup_path :: "path option"
  ef_overwrote :: bool

fun render_blocks :: "hcl \<Rightarrow> template \<Rightarrow> mapped_resource list \<Rightarrow> generator_error + block list" where
  "render_blocks h t [] = Inr []"
| "render_blocks h t (r # rs) =
     (case apply_template h t r of
        Inl e \<Rightarrow> Inl e
      | Inr b \<Rightarrow> (case render_blocks h t rs of Inl e \<Rightarrow> Inl e | Inr bs \<Rightarrow> Inr (b # bs)))"

definition render_group :: "hcl \<Rightarrow> string \<Rightarrow> mapped_resource list \<Rightarrow> generator_error + string" where
  "render_group h ty rs =
     (case template_for ty of
        None \<Rightarrow> Inl (TemplateMiss ty)
      | Some t \<Rightarrow>
          (case render_blocks h t rs of
             Inl e \<Rightarrow> Inl e
           | Inr bs \<Rightarrow>
               (case hcl_to_string h (body_from_blocks bs) of Inl e \<Rightarrow> Inl (Hcl e) | Inr s \<Rightarrow> Inr s)))"

definition target_path :: "path \<Rightarrow> string \<Rightarrow> path" where
  "target_path out ty = out @ [ty @ ''.tf'']"

definition write_file :: "io \<Rightarrow> path \<Rightarrow> string \<Rightarrow> (fs, generator_error, unit) act" where
  "write_file io p c s =
     (case write_fault io p of
        Some left \<Rightarrow> (Inl (Io p), s\<lparr>files := (files s)(p := left)\<rparr>)
      | None \<Rightarrow> (Inr (), s\<lparr>files := (files s)(p \<mapsto> c)\<rparr>))"

definition emit_group ::
  "io \<Rightarrow> hcl \<Rightarrow> path \<Rightarrow> path \<Rightarrow> uuid \<Rightarrow> string \<Rightarrow> mapped_resource list \<Rightarrow> (fs, generator_error, emitted_file) act"
where
  "emit_group io h cwd out run_id ty rs s =
     (case render_group h ty rs of
        Inl e \<Rightarrow> (Inl e, s)
      | Inr content \<Rightarrow>
          (let p = target_path out ty in
           bindA (if path_exists s p then bindA (move_to_backup io cwd run_id p) (\<lambda>b. retA (Some b))
                  else retA None) (\<lambda>backup.
           bindA (write_file io p content) (\<lambda>_.
           retA \<lparr>ef_path = p, ef_backup_path = backup, ef_overwrote = (backup \<noteq> None)\<rparr>)) s))"

fun emit_groups ::
  "io \<Rightarrow> hcl \<Rightarrow> path \<Rightarrow> path \<Rightarrow> uuid \<Rightarrow> (string \<times> mapped_resource list) list
     \<Rightarrow> (fs, generator_error, emitted_file list) act"
where
  "emit_groups io h cwd out run_id [] = retA []"
| "emit_groups io h cwd out run_id ((ty, rs) # groups) =
     bindA (emit_group io h cwd out run_id ty rs) (\<lambda>f.
     bindA (emit_groups io h cwd out run_id groups) (\<lambda>fs. retA (f # fs)))"

definition emit :: "io \<Rightarrow> hcl \<Rightarrow> path \<Rightarrow> path \<Rightarrow> mapping_plan \<Rightarrow> (fs, generator_error, emitted_file list) act" where
  "emit io h cwd out plan s =
     (if \<not> dirs s out then (Inl (InvalidOutputDir out), s)
      else emit_groups io h cwd out (plan_run_id plan)
             (group_by_target_type (sort_resources (resources plan))) s)"

definition render_one :: "hcl \<Rightarrow> mapped_resource \<Rightarrow> generator_error + string" where
  "render_one h r = render_group h (target_type r) [r]"

fun render_many_blocks :: "hcl \<Rightarrow> mapped_resource list \<Rightarrow> generator_error + block list" where
  "render_many_blocks h [] = Inr []"
| "render_many_blocks h (r # rs) =
     (case template_for (target_type r) of
        None \<Rightarrow> Inl (TemplateMiss (target_type r))
      | Some t \<Rightarrow>
          (case apply_template h t r of
             Inl e \<Rightarrow> Inl e
           | Inr b \<Rightarrow> (case render_many_blocks h rs of Inl e \<Rightarrow> Inl e | Inr bs \<Rightarrow> Inr (b # bs))))"

definition render_many :: "hcl \<Rightarrow> mapped_resource list \<Rightarrow> generator_error + string" where
  "render_many h rs =
     (case render_many_blocks h (sort_resources rs) of
        Inl e \<Rightarrow> Inl e
      | Inr bs \<Rightarrow> (case hcl_to_string h (body_from_blocks bs) of Inl e \<Rightarrow> Inl (Hcl e) | Inr s \<Rightarrow> Inr s))"

section \<open>Rolling back\<close>

definition rollback_file :: "io \<Rightarrow> emitted_file \<Rightarrow> (fs, generator_error, unit) act" where
  "rollback_file io f s =
     (case ef_backup_path f of
        Some backup \<Rightarrow> restore_from_backup io backup (ef_path f) s
      | None \<Rightarrow>
          (if path_exists s (ef_path f) then
             (if remove_fault io (ef_path f) then (Inl (Io (ef_path f)), s)
              else (Inr (), s\<lparr>files := (files s)(ef_path f := None)\<rparr>))
           else (Inr (), s)))"

fun rollback_loop ::
  "io \<Rightarrow> emitted_file list \<Rightarrow> fs \<Rightarrow> (path \<times> generator_error) list \<times> fs"
where
  "rollback_loop io [] s = ([], s)"
| "rollback_loop io (f # fs) s =
     (case rollback_file io f s of
        (Inl e, s') \<Rightarrow> (case rollback_loop io fs s' of (ds, s'') \<Rightarrow> ((ef_path f, e) # ds, s''))
      | (Inr _, s') \<Rightarrow> rollback_loop io fs s')"

definition rollback_emitted :: "io \<Rightarrow> emitted_file list \<Rightarrow> (fs, generator_error, unit) act" where
  "rollback_emitted io emitted s =
     (case rollback_loop io emitted s of
        (details, s') \<Rightarrow>
          ((if details = [] then Inr () else Inl (RollbackPartial (length emitted) (length details) details)), s'))"

section \<open>The facade\<close>

record generated_artifacts =
  ga_files :: "path list"
  ga_backups :: "path list"
  ga_backups_created :: nat
  ga_emitted :: "emitted_file list"

definition generate :: "io \<Rightarrow> hcl \<Rightarrow> path \<Rightarrow> path \<Rightarrow> mapping_plan \<Rightarrow> (fs, generator_error, generated_artifacts) act" where
  "generate io h cwd out plan =
     bindA (emit io h cwd out plan) (\<lambda>emitted.
       retA \<lparr>ga_files = map ef_path emitted, ga_backups = List.map_filter ef_backup_path emitted,
             ga_backups_created = length (filter ef_overwrote emitted), ga_emitted = emitted\<rparr>)"

definition rollback :: "io \<Rightarrow> generated_artifacts \<Rightarrow> (fs, generator_error, unit) act" where
  "rollback io artifacts = rollback_emitted io (ga_emitted artifacts)"

section \<open>What a run does to the files\<close>

definition no_faults :: "io \<Rightarrow> bool" where
  "no_faults io \<longleftrightarrow> (\<forall>p q. \<not> mkdir_fault io p \<and> rename_fault io p q = None \<and> \<not> remove_fault io p
     \<and> write_fault io p = None)"

definition backup_path :: "io \<Rightarrow> path \<Rightarrow> path \<Rightarrow> uuid \<Rightarrow> string \<Rightarrow> path" where
  "backup_path io cwd out run_id ty =
     backup_dir io cwd run_id (target_path out ty) @ [item_name (target_path out ty)]"

text \<open>The places a run uses are free: no backup path is taken, no target is inside a backup.\<close>

definition safe_layout :: "io \<Rightarrow> path \<Rightarrow> path \<Rightarrow> uuid \<Rightarrow> string list \<Rightarrow> fs \<Rightarrow> bool" where
  "safe_layout io cwd out run_id tys s \<longleftrightarrow>
     list_all (\<lambda>ty. files s (backup_path io cwd out run_id ty) = None \<and> \<not> dirs s (target_path out ty)
       \<and> list_all (\<lambda>ty'. \<not> prefix (target_path out ty) (backup_path io cwd out run_id ty')) tys) tys"

lemma target_path_inj [simp]: "target_path out ty = target_path out ty' \<longleftrightarrow> ty = ty'"
  by (simp add: target_path_def)

lemma backup_path_inj [simp]:
  "backup_path io cwd out run_id ty = backup_path io cwd out run_id ty' \<longleftrightarrow> ty = ty'"
  by (auto simp: backup_path_def item_name_def target_path_def)

text \<open>The files after one group: the target is written, the old content is in the backup.\<close>

definition after_group ::
  "(string \<Rightarrow> path) \<Rightarrow> (string \<Rightarrow> path) \<Rightarrow> string \<Rightarrow> string \<Rightarrow> (path \<rightharpoonup> string) \<Rightarrow> (path \<rightharpoonup> string)"
where
  "after_group P B ty c f =
     (case f (P ty) of None \<Rightarrow> f(P ty \<mapsto> c) | Some old \<Rightarrow> f(B ty \<mapsto> old, P ty \<mapsto> c))"

definition record_of :: "(string \<Rightarrow> path) \<Rightarrow> (string \<Rightarrow> path) \<Rightarrow> (path \<rightharpoonup> string) \<Rightarrow> string \<Rightarrow> emitted_file" where
  "record_of P B f ty =
     \<lparr>ef_path = P ty, ef_backup_path = (if f (P ty) = None then None else Some (B ty)),
      ef_overwrote = (f (P ty) \<noteq> None)\<rparr>"

lemma emit_group_effect:
  assumes "no_faults io" "\<not> dirs s (target_path out ty)"
    and "emit_group io h cwd out run_id ty rs s = (Inr e, s')"
    and "backup_path io cwd out run_id ty \<noteq> target_path out ty"
  shows "\<exists>c. files s' = after_group (target_path out) (backup_path io cwd out run_id) ty c (files s)
    \<and> e = record_of (target_path out) (backup_path io cwd out run_id) (files s) ty
    \<and> (\<forall>p. dirs s' p \<longrightarrow> dirs s p \<or> prefix p (backup_path io cwd out run_id ty))"
proof -
  let ?P = "target_path out ty" and ?B = "backup_path io cwd out run_id ty"
  from assms(3) obtain c where c: "render_group h ty rs = Inr c"
    by (auto simp: emit_group_def split: sum.splits)
  show ?thesis
  proof (cases "files s ?P")
    case None
    with assms c show ?thesis
      by (auto simp: emit_group_def Let_def path_exists_def write_file_def no_faults_def after_group_def
          record_of_def)
  next
    case (Some old)
    have ex: "path_exists s ?P" using Some by (simp add: path_exists_def)
    let ?s1 = "create_dir_all (backup_dir io cwd run_id ?P) s"
    have mv: "move_to_backup io cwd run_id ?P s = (Inr ?B, move_file ?P ?B ?s1)"
      using ex Some assms(1)
      by (simp add: move_to_backup_def Let_def rename_error_def no_faults_def create_dir_all_def backup_path_def)
    have wr: "write_file io ?P c (move_file ?P ?B ?s1)
        = (Inr (), (move_file ?P ?B ?s1)\<lparr>files := (files (move_file ?P ?B ?s1))(?P \<mapsto> c)\<rparr>)"
      using assms(1) by (simp add: write_file_def no_faults_def)
    from assms(3) c ex mv wr
    have e: "e = \<lparr>ef_path = ?P, ef_backup_path = Some ?B, ef_overwrote = True\<rparr>"
      and s': "s' = (move_file ?P ?B ?s1)\<lparr>files := (files (move_file ?P ?B ?s1))(?P \<mapsto> c)\<rparr>"
      by (auto simp: emit_group_def Let_def)
    have "files s' = after_group (target_path out) (backup_path io cwd out run_id) ty c (files s)"
      using Some assms(4) by (auto simp: s' move_file_def create_dir_all_def after_group_def fun_eq_iff)
    moreover have "dirs s p \<or> prefix p ?B" if "dirs s' p" for p
      using that by (auto simp: s' move_file_def create_dir_all_def backup_path_def)
    ultimately show ?thesis using e Some by (auto simp: record_of_def)
  qed
qed

lemma emit_groups_effect:
  assumes "no_faults io" "distinct (map fst groups)"
    and "emit_groups io h cwd out run_id groups s = (Inr es, s')"
    and "safe_layout io cwd out run_id (map fst groups) s"
  shows "es = map (record_of (target_path out) (backup_path io cwd out run_id) (files s)) (map fst groups)
    \<and> (\<exists>cs. length cs = length groups \<and> files s' =
         fold (\<lambda>(ty, c). after_group (target_path out) (backup_path io cwd out run_id) ty c)
           (zip (map fst groups) cs) (files s))"
  using assms(2-4)
proof (induction groups arbitrary: s es)
  case (Cons g groups)
  obtain ty rs where g: "g = (ty, rs)" by force
  let ?P = "target_path out" and ?B = "backup_path io cwd out run_id"
  from Cons.prems(2) obtain e es' s1 where
    e: "emit_group io h cwd out run_id ty rs s = (Inr e, s1)"
    and es': "emit_groups io h cwd out run_id groups s1 = (Inr es', s')" and es: "es = e # es'"
    by (auto simp: g bindA_eq_Inr)
  have lay: "\<not> dirs s (?P ty)" "?B ty \<noteq> ?P ty"
    and foreign: "\<And>t. t \<in> set (map fst groups) \<Longrightarrow> ?P t \<noteq> ?B ty \<and> ?P ty \<noteq> ?B t \<and> \<not> prefix (?P t) (?B ty)"
    using Cons.prems(3) by (auto simp: g safe_layout_def list_all_iff)
  from emit_group_effect [OF assms(1) lay(1) e lay(2)] obtain c where
    c: "files s1 = after_group ?P ?B ty c (files s)" and ee: "e = record_of ?P ?B (files s) ty"
    and d: "\<forall>p. dirs s1 p \<longrightarrow> dirs s p \<or> prefix p (?B ty)" by blast
  have ty: "ty \<notin> set (map fst groups)" using Cons.prems(1) g by simp
  have same: "files s1 (?P t) = files s (?P t)" "files s1 (?B t) = files s (?B t)"
    if "t \<in> set (map fst groups)" for t
  proof -
    have ne: "t \<noteq> ty" "?P t \<noteq> ?B ty" "?P ty \<noteq> ?B t" using that ty foreign by auto
    then show "files s1 (?P t) = files s (?P t)" "files s1 (?B t) = files s (?B t)"
      by (auto simp: c after_group_def split: option.split)
  qed
  have "safe_layout io cwd out run_id (map fst groups) s1"
    unfolding safe_layout_def list_all_iff
  proof (intro ballI conjI)
    fix t assume t: "t \<in> set (map fst groups)"
    then show "files s1 (?B t) = None"
      using same(2) [OF t] Cons.prems(3) by (auto simp: g safe_layout_def list_all_iff)
    show "\<not> dirs s1 (?P t)"
      using d foreign [OF t] t Cons.prems(3) by (auto simp: g safe_layout_def list_all_iff)
    show "\<not> prefix (?P t) (?B t')" if "t' \<in> set (map fst groups)" for t'
      using t that Cons.prems(3) by (auto simp: g safe_layout_def list_all_iff)
  qed
  from Cons.IH [OF _ es' this] Cons.prems(1) obtain cs where
    es'': "es' = map (record_of ?P ?B (files s1)) (map fst groups)" and
    cs: "length cs = length groups" "files s' =
       fold (\<lambda>(ty, c). after_group ?P ?B ty c) (zip (map fst groups) cs) (files s1)" by auto
  have "es' = map (record_of ?P ?B (files s)) (map fst groups)"
    unfolding es'' using same(1) by (intro map_cong) (auto simp: record_of_def)
  moreover have "files s' = fold (\<lambda>(ty, c). after_group ?P ?B ty c) (zip (map fst (g # groups)) (c # cs)) (files s)"
    using cs(2) c by (simp add: g)
  ultimately show ?case using es ee cs(1) by (intro conjI exI [of _ "c # cs"]) (simp_all add: g)
qed (auto intro: exI [of _ "[]"])

text \<open>Targets and backups never collide.\<close>

definition disjoint_places :: "(string \<Rightarrow> path) \<Rightarrow> (string \<Rightarrow> path) \<Rightarrow> string list \<Rightarrow> bool" where
  "disjoint_places P B tys \<longleftrightarrow> inj P \<and> inj B \<and> (\<forall>t\<in>set tys. \<forall>t'\<in>set tys. P t \<noteq> B t')"

lemma fold_after_group:
  assumes "distinct tys" "length cs = length tys" "disjoint_places P B tys"
  shows "q \<notin> P ` set tys \<union> B ` set tys \<Longrightarrow> fold (\<lambda>(ty, c). after_group P B ty c) (zip tys cs) f q = f q"
    and "t \<in> set tys \<Longrightarrow> fold (\<lambda>(ty, c). after_group P B ty c) (zip tys cs) f (B t)
      = (if f (P t) = None then f (B t) else f (P t))"
proof -
  let ?F = "\<lambda>tys cs f. fold (\<lambda>(ty, c). after_group P B ty c) (zip tys cs) f"
  have "(\<forall>q. q \<notin> P ` set tys \<union> B ` set tys \<longrightarrow> ?F tys cs f q = f q)
      \<and> (\<forall>t\<in>set tys. ?F tys cs f (B t) = (if f (P t) = None then f (B t) else f (P t)))"
    using assms
  proof (induction tys arbitrary: cs f)
    case (Cons ty tys)
    then obtain c cs' where cs: "cs = c # cs'" by (cases cs) auto
    let ?f = "after_group P B ty c f"
    have dj: "disjoint_places P B tys" using Cons.prems(3) by (auto simp: disjoint_places_def)
    have IH: "(\<forall>q. q \<notin> P ` set tys \<union> B ` set tys \<longrightarrow> ?F tys cs' ?f q = ?f q)
        \<and> (\<forall>t\<in>set tys. ?F tys cs' ?f (B t) = (if ?f (P t) = None then ?f (B t) else ?f (P t)))"
      using Cons.prems cs dj by (intro Cons.IH) auto
    have here: "?f (B ty) = (if f (P ty) = None then f (B ty) else f (P ty))"
      and off: "q \<noteq> P ty \<Longrightarrow> q \<noteq> B ty \<Longrightarrow> ?f q = f q" for q
      using Cons.prems(3) by (auto simp: after_group_def disjoint_places_def split: option.split)
    have ne: "P t \<noteq> P ty" "P t \<noteq> B ty" "B t \<noteq> P ty" "B t \<noteq> B ty" if "t \<in> set tys" for t
      using that Cons.prems(1,3) by (auto simp: disjoint_places_def dest: injD)
    have new: "B ty \<notin> P ` set tys \<union> B ` set tys" using ne by (metis UnE imageE)
    show ?case
    proof (intro conjI allI ballI impI)
      fix q assume "q \<notin> P ` set (ty # tys) \<union> B ` set (ty # tys)"
      with IH off [of q] show "?F (ty # tys) cs f q = f q" by (simp add: cs)
    next
      fix t assume "t \<in> set (ty # tys)"
      then consider "t = ty" | "t \<in> set tys" by auto
      then show "?F (ty # tys) cs f (B t) = (if f (P t) = None then f (B t) else f (P t))"
      proof cases
        case 1
        with IH new here show ?thesis by (simp add: cs)
      next
        case 2
        with IH ne [OF 2] off show ?thesis by (simp add: cs)
      qed
    qed
  qed simp
  then show "q \<notin> P ` set tys \<union> B ` set tys \<Longrightarrow> ?F tys cs f q = f q"
    "t \<in> set tys \<Longrightarrow> ?F tys cs f (B t) = (if f (P t) = None then f (B t) else f (P t))" by blast+
qed

lemma rollback_file_effect:
  assumes "no_faults io" "f (P t) \<noteq> None \<Longrightarrow> files s (B t) \<noteq> None"
  shows "\<exists>s'. rollback_file io (record_of P B f t) s = (Inr (), s')
    \<and> files s' = (if f (P t) = None then (files s)(P t := None)
         else (files s)(B t := None, P t := files s (B t)))"
proof (cases "f (P t)")
  case None
  with assms(1) show ?thesis
    by (auto simp: rollback_file_def record_of_def path_exists_def no_faults_def fun_eq_iff)
next
  case (Some old)
  let ?s1 = "if P t \<noteq> [] \<and> \<not> path_exists s (butlast (P t)) then create_dir_all (butlast (P t)) s else s"
  have s1: "files ?s1 = files s" by (simp add: create_dir_all_def)
  have "restore_from_backup io (B t) (P t) s = (Inr (), move_file (B t) (P t) ?s1)"
    using assms Some s1 by (auto simp: restore_from_backup_def Let_def rename_error_def no_faults_def)
  with Some s1 show ?thesis by (simp add: rollback_file_def record_of_def move_file_def)
qed

lemma rollback_loop_effect:
  assumes "no_faults io" "distinct tys" "disjoint_places P B tys"
    and "\<And>t. t \<in> set tys \<Longrightarrow> f (P t) \<noteq> None \<Longrightarrow> files s (B t) = f (P t)"
  shows "\<exists>s'. rollback_loop io (map (record_of P B f) tys) s = ([], s') \<and>
    (\<forall>q. files s' q = (if q \<in> P ` set tys then f q
        else if \<exists>t\<in>set tys. q = B t \<and> f (P t) \<noteq> None then None else files s q))"
  using assms(2-4)
proof (induction tys arbitrary: s)
  case (Cons ty tys)
  have mem: "f (P ty) \<noteq> None \<Longrightarrow> files s (B ty) = f (P ty)" using Cons.prems(3) by simp
  then obtain s1 where s1: "rollback_file io (record_of P B f ty) s = (Inr (), s1)"
    "files s1 = (if f (P ty) = None then (files s)(P ty := None)
         else (files s)(B ty := None, P ty := files s (B ty)))"
    using rollback_file_effect [OF assms(1), of f P ty s B] by fastforce
  have ne: "P t \<noteq> P ty" "P t \<noteq> B ty" "B t \<noteq> P ty" "B t \<noteq> B ty" if "t \<in> set tys" for t
    using that Cons.prems(1,2) by (auto simp: disjoint_places_def dest: injD)
  have PB: "P ty \<noteq> B ty" using Cons.prems(2) by (simp add: disjoint_places_def)
  have "\<exists>s'. rollback_loop io (map (record_of P B f) tys) s1 = ([], s') \<and>
    (\<forall>q. files s' q = (if q \<in> P ` set tys then f q
        else if \<exists>t\<in>set tys. q = B t \<and> f (P t) \<noteq> None then None else files s1 q))"
  proof (rule Cons.IH)
    show "distinct tys" "disjoint_places P B tys" using Cons.prems by (auto simp: disjoint_places_def)
    fix t assume t: "t \<in> set tys" "f (P t) \<noteq> None"
    then show "files s1 (B t) = f (P t)" using ne [OF t(1)] Cons.prems(3) [of t] by (auto simp: s1(2))
  qed
  then obtain s' where s': "rollback_loop io (map (record_of P B f) tys) s1 = ([], s')"
    "\<And>q. files s' q = (if q \<in> P ` set tys then f q
        else if \<exists>t\<in>set tys. q = B t \<and> f (P t) \<noteq> None then None else files s1 q)" by blast
  have "files s' q = (if q \<in> P ` set (ty # tys) then f q
        else if \<exists>t\<in>set (ty # tys). q = B t \<and> f (P t) \<noteq> None then None else files s q)" for q
  proof -
    have p: "P ty \<noteq> B t" if "t \<in> set tys" for t using ne(3) [OF that] by simp
    have b: "B ty \<notin> P ` set tys" using ne(2) by (metis imageE)
    show ?thesis
      using p b PB mem by (cases "q = P ty"; cases "q = B ty") (auto simp: s'(2) s1(2))
  qed
  with s1(1) s'(1) show ?case by auto
qed simp

lemma rollback_restores:
  assumes "no_faults io" "distinct (map fst groups)"
    and "emit_groups io h cwd out run_id groups s = (Inr es, s')"
    and "safe_layout io cwd out run_id (map fst groups) s"
  shows "\<exists>s''. rollback_emitted io es s' = (Inr (), s'') \<and> files s'' = files s"
proof -
  let ?P = "target_path out" and ?B = "backup_path io cwd out run_id" and ?tys = "map fst groups"
  from emit_groups_effect [OF assms] obtain cs where
    es: "es = map (record_of ?P ?B (files s)) ?tys" and len: "length cs = length ?tys"
    and fin: "files s' = fold (\<lambda>(ty, c). after_group ?P ?B ty c) (zip ?tys cs) (files s)" by auto
  have dj: "disjoint_places ?P ?B ?tys"
    unfolding disjoint_places_def
  proof (intro conjI ballI)
    fix t t' assume "t \<in> set ?tys" "t' \<in> set ?tys"
    then have "\<not> prefix (?P t) (?B t')" using assms(4) by (auto simp: safe_layout_def list_all_iff)
    then show "?P t \<noteq> ?B t'" by auto
  qed (auto simp: inj_def)
  note fold = fold_after_group [OF assms(2) len dj, of _ "files s", folded fin]
  have kept: "files s' (?B t) = files s (?P t)" if "t \<in> set ?tys" "files s (?P t) \<noteq> None" for t
    using fold(2) [OF that(1)] that(2) by simp
  obtain s'' where s'': "rollback_loop io (map (record_of ?P ?B (files s)) ?tys) s' = ([], s'')"
    "\<And>q. files s'' q = (if q \<in> ?P ` set ?tys then files s q
        else if \<exists>t\<in>set ?tys. q = ?B t \<and> files s (?P t) \<noteq> None then None else files s' q)"
    using rollback_loop_effect [OF assms(1,2) dj kept] by blast
  have free: "files s (?B t) = None" if "t \<in> set ?tys" for t
    using assms(4) that by (auto simp: safe_layout_def list_all_iff)
  have "files s'' q = files s q" for q
  proof (cases "q \<in> ?P ` set ?tys")
    case False
    show ?thesis
    proof (cases "q \<in> ?B ` set ?tys")
      case True
      then obtain t where t: "t \<in> set ?tys" "q = ?B t" by blast
      with free [OF t(1)] fold(2) [OF t(1)] False show ?thesis by (auto simp: s''(2))
    next
      case notB: False
      with False fold(1) [of q] show ?thesis by (auto simp: s''(2))
    qed
  qed (simp add: s''(2))
  then have "files s'' = files s" by blast
  with s''(1) es show ?thesis by (simp add: rollback_emitted_def)
qed

section \<open>A plan whose types have templates\<close>

lemma to_expression_no_miss:
  "to_expression h v \<noteq> Inl (TemplateMiss ty)"
  "to_expressions h vs \<noteq> Inl (TemplateMiss ty)"
  "to_fields h kvs ob \<noteq> Inl (TemplateMiss ty)"
  by (induction h v and h vs and h kvs ob rule: to_expression_to_expressions_to_fields.induct)
    (auto simp: parse_reference_def split: sum.splits list.splits option.splits)

lemma apply_template_no_miss: "apply_template h t r \<noteq> Inl (TemplateMiss ty)"
proof -
  have "add_required h r ks acc \<noteq> Inl (TemplateMiss ty)" for ks acc
    by (induction h r ks acc rule: add_required.induct)
      (auto simp: to_expression_no_miss split: option.splits sum.splits)
  moreover have "add_optional h r ks acc \<noteq> Inl (TemplateMiss ty)" for ks acc
    by (induction h r ks acc rule: add_optional.induct)
      (auto simp: to_expression_no_miss split: option.splits sum.splits)
  ultimately show ?thesis
    by (auto simp: apply_template_def build_resource_block_def add_tags_def map_to_object_expression_def
        to_expression_no_miss split: option.splits sum.splits)
qed

lemma render_group_no_miss: "template_for ty' \<noteq> None \<Longrightarrow> render_group h ty' rs \<noteq> Inl (TemplateMiss ty)"
proof -
  have "render_blocks h t rs \<noteq> Inl (TemplateMiss ty)" for t
    by (induction h t rs rule: render_blocks.induct) (auto simp: apply_template_no_miss split: sum.splits)
  then show "template_for ty' \<noteq> None \<Longrightarrow> ?thesis" by (auto simp: render_group_def split: option.splits sum.splits)
qed

lemma disk_step_no_miss:
  "fst (write_file io p c s) \<noteq> Inl (TemplateMiss ty)"
  "fst (move_to_backup io cwd run_id p s) \<noteq> Inl (TemplateMiss ty)"
  by (auto simp: write_file_def move_to_backup_def copy_then_remove_def Let_def split: option.splits)

lemma emit_group_no_miss:
  assumes "template_for ty' \<noteq> None"
  shows "fst (emit_group io h cwd out run_id ty' rs s) \<noteq> Inl (TemplateMiss ty)"
proof
  assume "fst (emit_group io h cwd out run_id ty' rs s) = Inl (TemplateMiss ty)"
  then obtain s' where "emit_group io h cwd out run_id ty' rs s = (Inl (TemplateMiss ty), s')"
    by (metis prod.collapse)
  with render_group_no_miss [OF assms, of h rs ty] show False
    using disk_step_no_miss
    by (auto simp: emit_group_def Let_def bindA_eq_Inl split: sum.splits if_splits) (metis fst_conv)+
qed

lemma generate_has_templates:
  assumes "list_all (\<lambda>r. template_for (target_type r) \<noteq> None) (resources p)"
  shows "fst (generate io h cwd out p s) \<noteq> Inl (TemplateMiss ty)"
proof -
  have groups: "fst (emit_groups io h cwd out run_id gs s) \<noteq> Inl (TemplateMiss ty)"
    if "list_all (\<lambda>(ty', rs). template_for ty' \<noteq> None) gs" for run_id gs s
    using that
  proof (induction gs arbitrary: s)
    case (Cons g gs)
    obtain ty' rs where g: "g = (ty', rs)" by (cases g)
    obtain res s1 where one: "emit_group io h cwd out run_id ty' rs s = (res, s1)" by force
    show ?case
    proof (cases res)
      case (Inl e)
      with one Cons.prems emit_group_no_miss [of ty' io h cwd out run_id rs s ty] show ?thesis by (simp add: g)
    next
      case (Inr f)
      obtain res2 s2 where rest: "emit_groups io h cwd out run_id gs s1 = (res2, s2)" by force
      with Cons.IH [of s1] Cons.prems one Inr show ?thesis by (cases res2) (auto simp: g bindA_def)
    qed
  qed simp
  let ?gs = "group_by_target_type (sort_resources (resources p))"
  have "template_for ty' \<noteq> None" if "(ty', rs) \<in> set ?gs" for ty' rs
  proof -
    from that bt_wf_distinct [OF group_by_target_type(1)] have "map_of ?gs ty' = Some rs" by simp
    then obtain r where "r \<in> set (resources p)" "target_type r = ty'"
      by (auto simp: group_by_target_type(2) filter_empty_conv sort_resources_def split: if_splits)
    with assms show ?thesis by (auto simp: list_all_iff)
  qed
  then have "list_all (\<lambda>(ty', rs). template_for ty' \<noteq> None) ?gs" by (auto simp: list_all_iff)
  from groups [OF this] have "fst (emit io h cwd out p s) \<noteq> Inl (TemplateMiss ty)" by (simp add: emit_def)
  then obtain res s' where "emit io h cwd out p s = (res, s')" "res \<noteq> Inl (TemplateMiss ty)"
    by (cases "emit io h cwd out p s") simp
  then show ?thesis by (cases res) (auto simp: generate_def bindA_def)
qed

section \<open>Properties\<close>

text \<open>C7. A run can be undone: when no file operation fails and the places it uses are free, generating
  and then rolling back restores the content of every file, those that were overwritten, those that
  were created and all the others.\<close>

theorem generate_then_rollback_restores:
  assumes "no_faults io" "generate io h cwd out plan s = (Inr artifacts, s')"
    and "safe_layout io cwd out (plan_run_id plan)
           (map fst (group_by_target_type (sort_resources (resources plan)))) s"
  shows "\<exists>s''. rollback io artifacts s' = (Inr (), s'') \<and> files s'' = files s"
proof -
  let ?groups = "group_by_target_type (sort_resources (resources plan))"
  from assms(2) obtain es where es: "emit io h cwd out plan s = (Inr es, s')" "ga_emitted artifacts = es"
    by (auto simp: generate_def bindA_eq_Inr)
  then have "emit_groups io h cwd out (plan_run_id plan) ?groups s = (Inr es, s')"
    by (simp add: emit_def split: if_splits)
  from rollback_restores [OF assms(1) _ this assms(3)] es(2)
  show ?thesis by (simp add: rollback_def bt_wf_distinct group_by_target_type(1))
qed

text \<open>C31. The output does not depend on the order in which the mapper listed the resources: two plans
  that differ only in that order, with distinct target addresses, do the same to the file system and
  return the same artifacts.\<close>

theorem generate_order_independent:
  assumes "mset (resources plan) = mset (resources plan')" "distinct (map target_addr (resources plan))"
    and "plan_run_id plan' = plan_run_id plan"
  shows "generate io h cwd out plan' s = generate io h cwd out plan s"
proof -
  have "sort_resources (resources plan') = sort_resources (resources plan)"
    using sort_resources_perm [OF assms(1,2)] by simp
  then have "emit io h cwd out plan' = emit io h cwd out plan"
    by (intro ext) (simp add: emit_def assms(3))
  then show ?thesis by (simp add: generate_def)
qed

section \<open>Witnesses\<close>

definition wit_io :: io where
  "wit_io = \<lparr>mkdir_fault = (\<lambda>_. False), rename_fault = (\<lambda>_ _. None), copy_fault = (\<lambda>_ _. None),
     remove_fault = (\<lambda>_. False), write_fault = (\<lambda>_. None), new_op_uuid = (\<lambda>_. ''u''), show_uuid = (\<lambda>_. ''r'')\<rparr>"

definition wit_fs :: fs where
  "wit_fs = \<lparr>files = [[''out'', ''aws_vpc.tf''] \<mapsto> ''old''], dirs = (\<lambda>p. p = [''out''])\<rparr>"

definition wit_gen_plan :: "mapped_resource list \<Rightarrow> mapping_plan" where
  "wit_gen_plan rs = \<lparr>plan_run_id = 1, source_provider = ''google'', target_provider = ''aws'', resources = rs\<rparr>"

lemma wit_groups: "group_by_target_type (sort_resources [wit_vpc]) = [(''aws_vpc'', [wit_vpc])]"
  by (simp add: group_by_target_type_def sort_resources_def wit_vpc_def)

lemma wit_generate:
  "\<exists>artifacts s'. generate wit_io wit_hcl [] [''out''] (wit_gen_plan [wit_vpc]) wit_fs = (Inr artifacts, s')
     \<and> files s' [''out'', ''aws_vpc.tf''] = Some ''aws_vpcm''"
proof -
  have r: "render_group wit_hcl ''aws_vpc'' [wit_vpc] = Inr ''aws_vpcm''"
    by (simp add: render_group_def template_for_def stage1_registry_def wit_vpc_block body_from_blocks_def)
      (simp add: wit_hcl_def)
  show ?thesis
    by (simp add: generate_def emit_def wit_gen_plan_def wit_groups emit_group_def r Let_def bindA_def
        target_path_def path_exists_def move_to_backup_def backup_dir_def backup_root_def
        rename_error_def write_file_def move_file_def create_dir_all_def wit_fs_def wit_io_def item_name_def)
qed

theorem generate_then_rollback_restores_witness:
  "\<exists>artifacts s' s''. generate wit_io wit_hcl [] [''out''] (wit_gen_plan [wit_vpc]) wit_fs = (Inr artifacts, s')
     \<and> files s' \<noteq> files wit_fs \<and> rollback wit_io artifacts s' = (Inr (), s'') \<and> files s'' = files wit_fs"
proof -
  obtain artifacts s' where g: "generate wit_io wit_hcl [] [''out''] (wit_gen_plan [wit_vpc]) wit_fs = (Inr artifacts, s')"
    "files s' [''out'', ''aws_vpc.tf''] = Some ''aws_vpcm''" using wit_generate by blast
  have "no_faults wit_io" by (simp add: no_faults_def wit_io_def)
  moreover have "safe_layout wit_io [] [''out''] (plan_run_id (wit_gen_plan [wit_vpc]))
      (map fst (group_by_target_type (sort_resources (resources (wit_gen_plan [wit_vpc]))))) wit_fs"
    by (simp add: safe_layout_def wit_gen_plan_def wit_groups wit_fs_def backup_path_def backup_dir_def
        backup_root_def target_path_def wit_io_def)
  ultimately have "\<exists>s''. rollback wit_io artifacts s' = (Inr (), s'') \<and> files s'' = files wit_fs"
    by (intro generate_then_rollback_restores [OF _ g(1)])
  moreover have "files s' \<noteq> files wit_fs" using g(2) by (auto simp: wit_fs_def)
  ultimately show ?thesis using g(1) by blast
qed

theorem generate_order_independent_witness:
  "generate wit_io wit_hcl [] [''out''] (wit_gen_plan [wit_instance, wit_vpc]) wit_fs
     = generate wit_io wit_hcl [] [''out''] (wit_gen_plan [wit_vpc, wit_instance]) wit_fs"
  by (rule generate_order_independent) (simp_all add: wit_gen_plan_def wit_vpc_def wit_instance_def)

definition wit_unknown :: mapped_resource where
  "wit_unknown = wit_vpc\<lparr>target_addr := ''zz.m'', target_type := ''zz''\<rparr>"

text \<open>A run that fails half-way leaves what it has done: with a type without template in the second
  group, the first group's file has been overwritten, its old content is only in the backup, and the
  error carries no record to roll back from.\<close>

theorem failed_run_leaves_files:
  "\<exists>s'. generate wit_io wit_hcl [] [''out''] (wit_gen_plan [wit_vpc, wit_unknown]) wit_fs = (Inl (TemplateMiss ''zz''), s')
     \<and> files s' [''out'', ''aws_vpc.tf''] = Some ''aws_vpcm''
     \<and> files wit_fs [''out'', ''aws_vpc.tf''] = Some ''old''"
proof -
  have r: "render_group wit_hcl ''aws_vpc'' [wit_vpc] = Inr ''aws_vpcm''"
    by (simp add: render_group_def template_for_def stage1_registry_def wit_vpc_block body_from_blocks_def)
      (simp add: wit_hcl_def)
  have u: "render_group wit_hcl ''zz'' [wit_unknown] = Inl (TemplateMiss ''zz'')"
    by (simp add: render_group_def template_for_def stage1_registry_def)
  have "group_by_target_type (sort_resources [wit_vpc, wit_unknown])
      = [(''aws_vpc'', [wit_vpc]), (''zz'', [wit_unknown])]"
    by (simp add: group_by_target_type_def sort_resources_def wit_vpc_def wit_unknown_def
        less_eq_char_def list_le_def)
  then show ?thesis
    by (simp add: generate_def emit_def wit_gen_plan_def emit_group_def r u Let_def bindA_def
        target_path_def path_exists_def move_to_backup_def backup_dir_def backup_root_def
        rename_error_def write_file_def move_file_def create_dir_all_def wit_fs_def wit_io_def item_name_def)
qed

end
