(* ===== verification/Refinement.thy ===== *)
theory Refinement
  imports Agent_Loop Validator Float64
begin

text \<open>
  What the recovery agent (\<open>libs/engine/src/recovery\<close>) and the cost optimizer
  (\<open>libs/engine/src/cost_optimizer\<close>) share: a mapping plan and a fix counter behind a lock, an
  executor that applies the model's tool calls to them, and an outer loop that evaluates the plan,
  runs the agent kernel for one bounded cycle and starts again. The locale \<open>refinement_loop\<close> is that
  loop's contract; both modules interpret it on their own loop.
\<close>

section \<open>Invariants of a run of the agent loop\<close>

definition env_keeps :: "('w \<Rightarrow> bool) \<Rightarrow> 'w env \<Rightarrow> bool" where
  "env_keeps I env \<longleftrightarrow>
     (\<forall>ctx ms tools. keepsA I (generate_turn env ctx ms tools))
     \<and> (\<forall>ms. keepsA I (compact env ms))
     \<and> (\<forall>ctx tc. keepsA I (execute_tool_call env ctx tc))
     \<and> (\<forall>h\<in>set (hooks env). \<forall>ctx tc ms.
          keepsA I (before_inference h ctx ms) \<and> keepsA I (after_inference h ctx ms)
          \<and> keepsA I (before_tool_execution h ctx tc ms) \<and> keepsA I (after_tool_execution h ctx tc ms))
     \<and> (\<forall>d w. I w \<longrightarrow> I (sleep env d w))"

lemma keepsA_llm_attempts:
  assumes "env_keeps I env"
  shows "keepsA I (llm_attempts env ctx messages tools cfg k e)"
proof -
  have "I w \<Longrightarrow> I (snd (llm_attempts env ctx messages tools cfg k e w))" for w
  proof (induction k arbitrary: e w)
    case (Suc k)
    obtain r w' where g: "generate_turn env ctx messages tools w = (r, w')" by force
    have w': "I w'" using assms g Suc.prems unfolding env_keeps_def keepsA_def by (metis snd_conv)
    have s: "I (sleep env d w')" for d using assms w' by (simp add: env_keeps_def)
    show ?case
    proof (cases r)
      case (Inl err)
      with g w' s Suc.IH show ?thesis by (simp add: Let_def)
    qed (use g w' in simp)
  qed simp
  then show ?thesis by (simp add: keepsA_def)
qed

lemma keepsA_hooks:
  assumes "env_keeps I env"
  shows "keepsA I (forA (\<lambda>h. before_inference h ctx ms) (hooks env))"
    "keepsA I (forA (\<lambda>h. after_inference h ctx ms) (hooks env))"
    "keepsA I (forA (\<lambda>h. before_tool_execution h ctx tc ms) (hooks env))"
    "keepsA I (forA (\<lambda>h. after_tool_execution h ctx tc ms) (hooks env))"
  using assms by (auto intro!: keepsA_for simp: env_keeps_def)

lemma keepsA_dispatch:
  assumes "env_keeps I env"
  shows "keepsA I (dispatch_call env ctx snapshot r messages)"
proof -
  have x: "keepsA I (execute_tool_call env ctx tc)" for tc using assms by (simp add: env_keeps_def)
  have "keepsA I (tool_result_content env ctx tc d)" for tc d
    by (auto simp: tool_result_content_def intro!: x act_rules
        split: tool_decision.split tool_execution_result.split)
  then show ?thesis
    unfolding dispatch_call_def [abs_def] Let_def
    by (intro keepsA_guard keepsA_bind keepsA_hooks assms act_rules)
qed

lemma keepsA_drain:
  assumes "env_keeps I env"
  shows "keepsA I (drain_queue env ctx snapshot q messages)"
  using assms
  by (induction env ctx snapshot q messages rule: drain_queue.induct)
    (auto intro!: keepsA_bind keepsA_dispatch act_rules)

lemma keepsA_after_outcome:
  assumes "env_keeps I env"
  shows "keepsA I (after_outcome env config ctx turn messages snapshot n outcome)"
  by (auto simp: after_outcome_def Let_def drain_new intro!: keepsA_bind keepsA_drain assms act_rules
      split: option.split)

lemma keepsA_run_turn:
  assumes "env_keeps I env"
  shows "keepsA I (run_turn env config ctx tools turn messages n)"
proof -
  have compact: "keepsA I (compact env ms)" for ms using assms by (simp add: env_keeps_def)
  have comp: "keepsA I (compact_if_over env config n ms)" for ms
    by (auto simp: compact_if_over_def run_compactor_def intro!: keepsA_bind compact act_rules)
  show ?thesis
    unfolding run_turn_def [abs_def] Let_def call_llm_with_retry_def
    by (intro keepsA_guard keepsA_bind comp keepsA_hooks keepsA_llm_attempts keepsA_after_outcome assms)
qed

lemma keepsA_run_turns:
  assumes "env_keeps I env"
  shows "keepsA I (run_turns env config ctx tools turns messages n)"
  by (induction turns arbitrary: messages n)
    (auto intro!: keepsA_bind keepsA_run_turn assms act_rules split: turn_end.split)

lemma keepsA_run_agent: "env_keeps I env \<Longrightarrow> keepsA I (run_agent env config ctx messages tools)"
  by (auto simp: run_agent_def intro!: keepsA_run_turns act_rules simp del: upt_Suc)

lemma growsA_run_agent:
  assumes "counts_llm c env"
  shows "growsA c (max_turns config * max_attempts (retry config)) (run_agent env config ctx messages tools)"
  using growsA_run_turns [OF assms, of "[1..<Suc (max_turns config)]" config ctx tools messages 0]
  by (simp add: run_agent_def act_rules del: upt_Suc)

section \<open>A plan under repair\<close>

text \<open>
  \<open>Arc<Mutex<MappingPlan>>\<close> and \<open>Arc<AtomicUsize>\<close> beside the outside world. Only the executor
  holds them: the other seams act on the outside world alone. Nothing panics while the lock is
  held, so it is never poisoned.
\<close>

record 'w plan_state =
  plan :: mapping_plan
  fix_count :: nat
  outer :: 'w

definition liftA :: "('w, 'e, 'a) act \<Rightarrow> ('w plan_state, 'e, 'a) act" where
  "liftA m s = (case m (outer s) of (r, w) \<Rightarrow> (r, s\<lparr>outer := w\<rparr>))"

definition lift_hook :: "'w agent_hook \<Rightarrow> 'w plan_state agent_hook" where
  "lift_hook h = \<lparr>
     before_inference = (\<lambda>ctx ms. liftA (before_inference h ctx ms)),
     after_inference = (\<lambda>ctx ms. liftA (after_inference h ctx ms)),
     before_tool_execution = (\<lambda>ctx tc ms. liftA (before_tool_execution h ctx tc ms)),
     after_tool_execution = (\<lambda>ctx tc ms. liftA (after_tool_execution h ctx tc ms)),
     on_error = (\<lambda>ctx e ms. liftA (on_error h ctx e ms))\<rparr>"

definition plan_env :: "'w plan_state tool_executor \<Rightarrow> 'w env \<Rightarrow> 'w plan_state env" where
  "plan_env executor env = \<lparr>
     is_cancelled = (\<lambda>s. is_cancelled env (outer s)),
     reduce = reduce env,
     compact = (\<lambda>ms. liftA (compact env ms)),
     hooks = map lift_hook (hooks env),
     generate_turn = (\<lambda>ctx ms tools. liftA (generate_turn env ctx ms tools)),
     execute_tool_call = executor,
     sleep = (\<lambda>d s. s\<lparr>outer := sleep env d (outer s)\<rparr>),
     utc_now = (\<lambda>s. utc_now env (outer s)),
     parse_from_rfc2822 = parse_from_rfc2822 env,
     powi_f64 = powi_f64 env\<rparr>"

text \<open>
  The executor both modules have: a call that completes without error counts as a fix, an \<open>Err\<close>
  leaves the plan as it was.
\<close>

type_synonym fix_tool = "mapping_plan \<Rightarrow> proposed_tool_call \<Rightarrow> agent_error + tool_execution_result \<times> mapping_plan"

definition apply_counted :: "fix_tool \<Rightarrow> 'w plan_state tool_executor" where
  "apply_counted fix ctx tc s =
     (case fix (plan s) tc of
        Inl e \<Rightarrow> (Inl e, s)
      | Inr (outcome, plan') \<Rightarrow>
          (Inr outcome, s\<lparr>plan := plan',
             fix_count := (case outcome of Completed _ False \<Rightarrow> Suc (fix_count s) | _ \<Rightarrow> fix_count s)\<rparr>))"

lemma keepsA_liftA: "keepsA (\<lambda>s. P (plan s) (fix_count s)) (liftA m)"
  by (simp add: keepsA_def liftA_def split: prod.split)

lemma growsA_liftA: "growsA c n m \<Longrightarrow> growsA (\<lambda>s. c (outer s)) n (liftA m)"
  by (auto simp: growsA_def liftA_def split: prod.splits) (metis snd_conv)

lemma outer_apply_counted: "outer (snd (apply_counted fix ctx tc s)) = outer s"
  by (auto simp: apply_counted_def split: sum.split)

lemma counts_plan_env:
  "counts_llm c env \<Longrightarrow> counts_llm (\<lambda>s. c (outer s)) (plan_env (apply_counted fix) env)"
  by (auto simp: counts_llm_def plan_env_def lift_hook_def intro!: growsA_liftA)
    (simp add: growsA_def outer_apply_counted)

lemma plan_env_keeps:
  fixes env :: "'w env"
  assumes "\<And>ctx tc. keepsA (\<lambda>s :: 'w plan_state. P (plan s) (fix_count s)) (apply_counted fix ctx tc)"
  shows "env_keeps (\<lambda>s. P (plan s) (fix_count s)) (plan_env (apply_counted fix) env)"
  by (auto simp: env_keeps_def plan_env_def lift_hook_def keepsA_liftA assms)

text \<open>A call that does not count as a fix leaves the plan alone.\<close>

definition honest :: "fix_tool \<Rightarrow> bool" where
  "honest fix \<longleftrightarrow> (\<forall>p tc r p'. fix p tc = Inr (r, p') \<longrightarrow> (\<exists>t. r = Completed t False) \<or> p' = p)"

definition fixed_since :: "mapping_plan \<Rightarrow> nat \<Rightarrow> mapping_plan \<Rightarrow> nat \<Rightarrow> bool" where
  "fixed_since p n p' n' \<longleftrightarrow> n \<le> n' \<and> (n' = n \<longrightarrow> p' = p)"

lemma honest_keeps:
  assumes "honest fix"
  shows "keepsA (\<lambda>s. fixed_since p n (plan s) (fix_count s)) (apply_counted fix ctx tc)"
  using assms
  by (auto simp: keepsA_def apply_counted_def honest_def fixed_since_def
      split: sum.split tool_execution_result.split bool.split)

lemma unfixed_run_keeps_plan:
  assumes "honest fix"
    and "run_agent (plan_env (apply_counted fix) env) config ctx messages tools s = (r, s')"
  shows "fix_count s \<le> fix_count s' \<and> (fix_count s' = fix_count s \<longrightarrow> plan s' = plan s)"
proof -
  have "keepsA (\<lambda>x. fixed_since (plan s) (fix_count s) (plan x) (fix_count x))
      (run_agent (plan_env (apply_counted fix) env) config ctx messages tools)"
    by (intro keepsA_run_agent plan_env_keeps honest_keeps assms(1))
  with assms(2) show ?thesis by (auto simp: keepsA_def fixed_since_def dest!: spec [of _ s])
qed

lemma run_agent_shape:
  assumes "run_agent env config ctx messages tools w = (Inr res, w')"
  shows "result_shape config res"
proof -
  from assms have "run_turns env config ctx tools [1..<Suc (max_turns config)] messages 0 w = (Inr res, w')"
      "0 < max_turns config"
    by (auto simp: run_agent_def split: if_splits simp del: upt_Suc)
  then show ?thesis by (elim run_turns_result) auto
qed

section \<open>Reading arguments\<close>

definition string_arg :: "json \<Rightarrow> string \<Rightarrow> agent_error + string" where
  "string_arg args key =
     (case Option.bind (json_get args key) json_as_str of
        Some s \<Rightarrow> Inr s
      | None \<Rightarrow> Inl (ToolExecution (''missing or non-string argument: '' @ quoted key)))"

text \<open>\<open>Number::as_f64\<close>: a \<open>u64\<close> or \<open>i64\<close> is rounded to the nearest float.\<close>

fun number_as_f64 :: "json_number \<Rightarrow> f64" where
  "number_as_f64 (PosInt n) = f64_of_u64 n"
| "number_as_f64 (NegInt n) = f64_round True (nat (- sint n)) 1075"
| "number_as_f64 (Float f) = f"

fun json_value_to_attribute_value :: "json \<Rightarrow> agent_error + attribute_value"
  and json_items :: "json list \<Rightarrow> agent_error + attribute_value list"
  and json_fields :: "(string \<times> json) list \<Rightarrow> (string, attribute_value) btree
        \<Rightarrow> agent_error + (string, attribute_value) btree"
where
  "json_value_to_attribute_value (JString s) = Inr (AString s)"
| "json_value_to_attribute_value (JNumber n) = Inr (ANumber (number_as_f64 n))"
| "json_value_to_attribute_value (JBool b) = Inr (ABool b)"
| "json_value_to_attribute_value (JArray xs) = bindE (json_items xs) (\<lambda>vs. Inr (AList vs))"
| "json_value_to_attribute_value (JObject kvs) = bindE (json_fields kvs []) (\<lambda>m. Inr (AMap m))"
| "json_value_to_attribute_value JNull = Inl (ToolExecution ''null is not a valid attribute value'')"
| "json_items [] = Inr []"
| "json_items (x # xs) =
     bindE (json_value_to_attribute_value x) (\<lambda>v. bindE (json_items xs) (\<lambda>vs. Inr (v # vs)))"
| "json_fields [] m = Inr m"
| "json_fields ((k, x) # kvs) m =
     bindE (json_value_to_attribute_value x) (\<lambda>v. json_fields kvs (bt_insert k v m))"

section \<open>The loop's contract\<close>

locale refinement_loop =
  fixes loop :: "nat list \<Rightarrow> ('s, 'e, 'o) act"
    and evaluate :: "('s, 'e, 'r) act"
    and good :: "'r \<Rightarrow> bool"
    and success :: "nat \<Rightarrow> 'r \<Rightarrow> 's \<Rightarrow> 'o"
    and cycle :: "nat \<Rightarrow> 'r \<Rightarrow> ('s, 'e, 'o option) act"
    and exhausted :: "('s, 'e, 'o) act"
  assumes loop_Nil: "loop [] s = exhausted s"
    and loop_Cons: "loop (i # is) s = bindA evaluate (\<lambda>r s'.
       if good r then (Inr (success i r s'), s')
       else bindA (cycle i r) (\<lambda>x. case x of Some out \<Rightarrow> retA out | None \<Rightarrow> loop is) s') s"
begin

lemma loop_result:
  assumes "loop is s = (Inr out, s')"
  shows "(\<exists>i\<in>set is. \<exists>s0 r. evaluate s0 = (Inr r, s') \<and> good r \<and> out = success i r s')
    \<or> (\<exists>i\<in>set is. \<exists>s0 r s1. evaluate s0 = (Inr r, s1) \<and> \<not> good r \<and> cycle i r s1 = (Inr (Some out), s'))
    \<or> (\<exists>s0. exhausted s0 = (Inr out, s'))"
  using assms
proof (induction "is" arbitrary: s)
  case Nil
  then show ?case by (auto simp: loop_Nil)
next
  case (Cons i "is")
  from Cons.prems obtain r s1 where e: "evaluate s = (Inr r, s1)"
    and k: "(if good r then (Inr (success i r s1), s1)
       else bindA (cycle i r) (\<lambda>x. case x of Some out \<Rightarrow> retA out | None \<Rightarrow> loop is) s1) = (Inr out, s')"
    by (auto simp: loop_Cons bindA_eq_Inr)
  show ?case
  proof (cases "good r")
    case True
    with e k show ?thesis by auto
  next
    case False
    with k obtain x s2 where c: "cycle i r s1 = (Inr x, s2)"
      and x: "(case x of Some out \<Rightarrow> retA out | None \<Rightarrow> loop is) s2 = (Inr out, s')"
      by (auto simp: bindA_eq_Inr)
    show ?thesis
    proof (cases x)
      case None
      with x Cons.IH [of s2] show ?thesis by auto
    next
      case (Some y)
      with x c have "cycle i r s1 = (Inr (Some out), s')" by simp
      with e False show ?thesis by (meson list.set_intros(1))
    qed
  qed
qed

lemma loop_growsA:
  assumes "growsA c 0 evaluate" "\<And>i r. growsA c n (cycle i r)" "growsA c 0 exhausted"
  shows "growsA c (length is * n) (loop is)"
proof (induction "is")
  case Nil
  have "loop [] = exhausted" by (rule ext) (rule loop_Nil)
  with assms(3) show ?case by simp
next
  case (Cons i "is")
  have rest: "growsA c (n + length is * n)
      (bindA (cycle i r) (\<lambda>x. case x of Some out \<Rightarrow> retA out | None \<Rightarrow> loop is))" for r
    by (rule growsA_bind [OF assms(2)]) (auto intro: Cons.IH act_rules split: option.split)
  have "growsA c (0 + (n + length is * n)) (bindA evaluate (\<lambda>r s'.
       if good r then (Inr (success i r s'), s')
       else bindA (cycle i r) (\<lambda>x. case x of Some out \<Rightarrow> retA out | None \<Rightarrow> loop is) s'))"
    by (rule growsA_bind [OF assms(1)]) (use rest in \<open>auto simp: growsA_def\<close>)
  then show ?case by (simp add: growsA_def loop_Cons)
qed

lemma loop_keepsA:
  assumes "keepsA I evaluate" "\<And>i r. keepsA I (cycle i r)" "keepsA I exhausted"
  shows "keepsA I (loop is)"
proof (induction "is")
  case Nil
  have "loop [] = exhausted" by (rule ext) (rule loop_Nil)
  with assms(3) show ?case by simp
next
  case (Cons i "is")
  have rest: "keepsA I (bindA (cycle i r) (\<lambda>x. case x of Some out \<Rightarrow> retA out | None \<Rightarrow> loop is))" for r
    by (rule keepsA_bind [OF assms(2)]) (auto intro: Cons.IH act_rules split: option.split)
  have "keepsA I (bindA evaluate (\<lambda>r s'.
       if good r then (Inr (success i r s'), s')
       else bindA (cycle i r) (\<lambda>x. case x of Some out \<Rightarrow> retA out | None \<Rightarrow> loop is) s'))"
    by (rule keepsA_bind [OF assms(1)]) (use rest in \<open>auto simp: keepsA_def\<close>)
  then show ?case by (simp add: keepsA_def loop_Cons)
qed

end

end
