(* ===== verification/Recovery.thy ===== *)
theory Recovery
  imports Refinement
begin

text \<open>
  \<open>libs/engine/src/recovery/mod.rs\<close>: the agent that repairs a plan the validator rejects. Each outer
  iteration validates the plan, and if it fails hands the errors to the agent kernel, whose tool
  calls edit the plan. The lemmas show what each terminal outcome says about the returned plan, what
  an edit can change, and how many LLM calls a recovery can make.
\<close>

section \<open>Configuration and outcomes\<close>

record recovery_config =
  max_iterations :: nat
  agent_loop :: agent_loop_config

definition recovery_config_default :: recovery_config where
  "recovery_config_default = \<lparr>max_iterations = 5,
     agent_loop = agent_loop_config_default\<lparr>max_turns := 4, approval_policy := AcceptAll\<rparr>\<rparr>"

datatype recovery_error =
    ValidatorFailure schema_error
  | AgentKernel agent_error
  | RecoveryInvalidConfig string

datatype recovery_outcome =
    Success nat nat
  | MaxIterationsReached nat "validation_error list"
  | AgentGaveUp nat "validation_error list"
  | RecoveryWaiting nat "string list"

section \<open>The fix tools\<close>

definition addressed :: "string \<Rightarrow> mapped_resource \<Rightarrow> bool" where
  "addressed addr r \<longleftrightarrow> target_addr r = addr"

definition apply_set_attribute :: "mapping_plan \<Rightarrow> json \<Rightarrow> agent_error + tool_execution_result \<times> mapping_plan" where
  "apply_set_attribute p args =
     bindE (string_arg args ''target_addr'') (\<lambda>addr.
     bindE (string_arg args ''attribute'') (\<lambda>attribute.
     bindE (case json_get args ''value'' of
              Some v \<Rightarrow> Inr v
            | None \<Rightarrow> Inl (ToolExecution (''set_attribute: missing '' @ quoted ''value''))) (\<lambda>raw_value.
     bindE (json_value_to_attribute_value raw_value) (\<lambda>attr_value.
       case find (addressed addr) (resources p) of
         Some _ \<Rightarrow>
           Inr (Completed (''set_attribute: '' @ addr @ ''.'' @ attribute @ '' updated'') False,
                p\<lparr>resources := update_first (addressed addr)
                    (\<lambda>r. r\<lparr>attributes := bt_insert attribute attr_value (attributes r)\<rparr>) (resources p)\<rparr>)
       | None \<Rightarrow>
           Inr (Completed (''set_attribute: target_addr '' @ quoted addr @ '' not found in plan'') True, p)))))"

definition apply_change_target_type :: "mapping_plan \<Rightarrow> json \<Rightarrow> agent_error + tool_execution_result \<times> mapping_plan" where
  "apply_change_target_type p args =
     bindE (string_arg args ''target_addr'') (\<lambda>addr.
     bindE (string_arg args ''new_type'') (\<lambda>new_type.
       case find (addressed addr) (resources p) of
         Some res \<Rightarrow>
           (let new_addr = new_type @ ''.'' @ target_name res in
            Inr (Completed (''change_target_type: '' @ addr @ '' ('' @ target_type res @ '' '' @ right_arrow @ '' ''
                    @ new_type @ ''); new addr '' @ new_addr) False,
                 p\<lparr>resources := update_first (addressed addr)
                     (\<lambda>r. r\<lparr>target_type := new_type, target_addr := new_addr\<rparr>) (resources p)\<rparr>))
       | None \<Rightarrow>
           Inr (Completed (''change_target_type: target_addr '' @ quoted addr @ '' not found'') True, p)))"

definition apply_remove_resource :: "mapping_plan \<Rightarrow> json \<Rightarrow> agent_error + tool_execution_result \<times> mapping_plan" where
  "apply_remove_resource p args =
     bindE (string_arg args ''target_addr'') (\<lambda>addr.
       let kept = filter (\<lambda>r. target_addr r \<noteq> addr) (resources p) in
       if length kept < length (resources p) then
         Inr (Completed (''remove_resource: removed '' @ addr) False, p\<lparr>resources := kept\<rparr>)
       else
         Inr (Completed (''remove_resource: target_addr '' @ quoted addr @ '' not found'') True,
              p\<lparr>resources := kept\<rparr>))"

definition recovery_fix :: fix_tool where
  "recovery_fix p tc =
     (if tc_name tc = ''set_attribute'' then apply_set_attribute p (tc_arguments tc)
      else if tc_name tc = ''change_target_type'' then apply_change_target_type p (tc_arguments tc)
      else if tc_name tc = ''remove_resource'' then apply_remove_resource p (tc_arguments tc)
      else Inr (Completed (''unknown recovery tool: '' @ tc_name tc @ '' '' @ em_dash
                  @ '' no plan mutation occurred'') True, p))"

section \<open>Tool definitions and prompt\<close>

definition typed :: "string \<Rightarrow> string \<Rightarrow> json" where
  "typed ty description = JObject [(''type'', JString ty), (''description'', JString description)]"

definition object_schema :: "string list \<Rightarrow> (string \<times> json) list \<Rightarrow> json" where
  "object_schema required properties =
     JObject [(''type'', JString ''object''), (''required'', JArray (map JString required)),
              (''properties'', JObject properties)]"

definition recovery_tool_defs :: "agent_tool_def list" where
  "recovery_tool_defs =
     [\<lparr>td_name = ''set_attribute'',
       td_description = ''Set or replace an attribute value on a target resource. ''
         @ ''Use to fix UnknownAttribute (rename misspelled attr) and ''
         @ ''MissingRequiredAttribute (add a missing required value).'',
       td_schema = object_schema [''target_addr'', ''attribute'', ''value'']
         [(''target_addr'', typed ''string'' (''e.g., '' @ quoted ''azurerm_virtual_network.main'')),
          (''attribute'', typed ''string'' ''Attribute name in the target schema''),
          (''value'', JObject [(''description'',
             JString ''Attribute value (string / number / bool / list / map)'')])]\<rparr>,
      \<lparr>td_name = ''change_target_type'',
       td_description = ''Replace the target resource type for a planned resource. ''
         @ ''Use to fix UnknownResourceType (Mapper hallucinated a type).'',
       td_schema = object_schema [''target_addr'', ''new_type'']
         [(''target_addr'', JObject [(''type'', JString ''string'')]),
          (''new_type'', typed ''string'' ''Correct target_type from the target schema'')]\<rparr>,
      \<lparr>td_name = ''remove_resource'',
       td_description = ''Remove a planned resource entirely. Last-resort fix for ''
         @ ''hallucinations that have no valid target equivalent. Operator ''
         @ ''review recommended.'',
       td_schema = object_schema [''target_addr'']
         [(''target_addr'', JObject [(''type'', JString ''string'')])]\<rparr>]"

fun numbered :: "nat \<Rightarrow> validation_error list \<Rightarrow> string" where
  "numbered i [] = []"
| "numbered i (e # es) = writeln (nat_str i @ ''. '' @ show_validation_error e) @ numbered (Suc i) es"

definition build_recovery_prompt :: "validation_report \<Rightarrow> mapping_plan \<Rightarrow> string" where
  "build_recovery_prompt report p =
     writeln (''You are the Terrashift Recovery agent. The Validator rejected the migration plan ''
       @ ''with '' @ nat_str (length (errors report)) @ '' error(s). Your job: propose targeted fixes via the available tools ''
       @ ''until the Validator passes.'')
     @ writeln []
     @ writeln (writeln (''Source provider: '' @ source_provider p)
         @ writeln (''Target provider: '' @ target_provider p)
         @ writeln (''Resources in plan: '' @ nat_str (length (resources p))))
     @ writeln (writeln ''## Validator errors'')
     @ numbered 1 (errors report)
     @ writeln (writeln [] @ writeln ''## Available tools'')
     @ writeln (''- `set_attribute(target_addr, attribute, value)` '' @ em_dash
         @ '' fix UnknownAttribute / MissingRequiredAttribute'')
     @ writeln (''- `change_target_type(target_addr, new_type)` '' @ em_dash @ '' fix UnknownResourceType'')
     @ writeln (''- `remove_resource(target_addr)` '' @ em_dash @ '' last-resort for unrecoverable hallucinations'')
     @ writeln (writeln [] @ writeln ''## Constraints'')
     @ writeln ''- Only use the named tools. Do not invent new tools.''
     @ writeln ''- If you cannot fix an error, say so explicitly in your final answer; do not silently skip.''
     @ writeln ''- Each fix is auto-approved by the operator policy in this run.''"

section \<open>The loop\<close>

text \<open>\<open>fetch\<close> is \<open>KnowledgeService::fetch_schema\<close>; \<open>sid i\<close> the fresh session id of iteration \<open>i\<close>.\<close>

definition revalidate ::
  "(string \<Rightarrow> string \<Rightarrow> schema_error + provider_schema) \<Rightarrow> string
     \<Rightarrow> ('w plan_state, recovery_error, validation_report) act"
where
  "revalidate fetch target_version s =
     (case validate fetch (plan s) target_version of
        Inl e \<Rightarrow> (Inl (ValidatorFailure e), s)
      | Inr report \<Rightarrow> (Inr report, s))"

definition recovery_cycle ::
  "recovery_config \<Rightarrow> (string \<Rightarrow> string \<Rightarrow> schema_error + provider_schema) \<Rightarrow> string \<Rightarrow> 'w env \<Rightarrow> (nat \<Rightarrow> uuid)
     \<Rightarrow> nat \<Rightarrow> validation_report \<Rightarrow> ('w plan_state, recovery_error, (mapping_plan \<times> recovery_outcome) option) act"
where
  "recovery_cycle config fetch target_version env sid iteration report s =
     bindA (map_errA AgentKernel
         (run_agent (plan_env (apply_counted recovery_fix) env) (agent_loop config)
            \<lparr>ctx_run_id = plan_run_id (plan s), ctx_session_id = sid iteration\<rparr>
            [msg_user (build_recovery_prompt report (plan s))] recovery_tool_defs))
       (\<lambda>result s'.
          let fixes_this_iter = fix_count s' - fix_count s in
          if reason result = WaitingForApproval then
            (Inr (Some (plan s', RecoveryWaiting iteration (pending_tool_calls result))), s')
          else if reason result = FinalAnswerReached \<and> fixes_this_iter = 0 then
            bindA (revalidate fetch target_version)
              (\<lambda>final_report s''. (Inr (Some (plan s'', AgentGaveUp iteration (errors final_report))), s'')) s'
          else (Inr None, s')) s"

definition recovery_exhausted ::
  "recovery_config \<Rightarrow> (string \<Rightarrow> string \<Rightarrow> schema_error + provider_schema) \<Rightarrow> string
     \<Rightarrow> ('w plan_state, recovery_error, mapping_plan \<times> recovery_outcome) act"
where
  "recovery_exhausted config fetch target_version =
     bindA (revalidate fetch target_version)
       (\<lambda>final_report s. (Inr (plan s, MaxIterationsReached (max_iterations config) (errors final_report)), s))"

fun recovery_loop ::
  "recovery_config \<Rightarrow> (string \<Rightarrow> string \<Rightarrow> schema_error + provider_schema) \<Rightarrow> string \<Rightarrow> 'w env \<Rightarrow> (nat \<Rightarrow> uuid)
     \<Rightarrow> nat list \<Rightarrow> ('w plan_state, recovery_error, mapping_plan \<times> recovery_outcome) act"
where
  "recovery_loop config fetch target_version env sid [] s = recovery_exhausted config fetch target_version s"
| "recovery_loop config fetch target_version env sid (iteration # iterations) s =
     bindA (revalidate fetch target_version) (\<lambda>report s'.
       if passed report then (Inr (plan s', Success (iteration - 1) (fix_count s')), s')
       else bindA (recovery_cycle config fetch target_version env sid iteration report)
              (\<lambda>x. case x of
                     Some out \<Rightarrow> retA out
                   | None \<Rightarrow> recovery_loop config fetch target_version env sid iterations) s') s"

definition run_recovery ::
  "recovery_config \<Rightarrow> mapping_plan \<Rightarrow> (string \<Rightarrow> string \<Rightarrow> schema_error + provider_schema) \<Rightarrow> string \<Rightarrow> 'w env
     \<Rightarrow> (nat \<Rightarrow> uuid) \<Rightarrow> ('w, recovery_error, mapping_plan \<times> recovery_outcome) act"
where
  "run_recovery config p fetch target_version env sid w =
     (if max_iterations config = 0 then (Inl (RecoveryInvalidConfig ''max_iterations must be > 0''), w)
      else case recovery_loop config fetch target_version env sid [1 ..< Suc (max_iterations config)]
                  \<lparr>plan = p, fix_count = 0, outer = w\<rparr> of
             (r, s) \<Rightarrow> (r, outer s))"

interpretation recovery: refinement_loop
  "recovery_loop config fetch target_version env sid" "revalidate fetch target_version" passed
  "\<lambda>i r s. (plan s, Success (i - 1) (fix_count s))"
  "recovery_cycle config fetch target_version env sid" "recovery_exhausted config fetch target_version"
  for config fetch target_version env sid
  by unfold_locales simp_all

section \<open>What a fix can do\<close>


lemmas fix_defs = apply_set_attribute_def apply_change_target_type_def apply_remove_resource_def

lemma honest_recovery_fix: "honest recovery_fix"
proof -
  have "filter P xs = xs" if "\<not> length (filter P xs) < length xs" for P and xs :: "mapped_resource list"
    using that by (metis filter_id_conv length_filter_less)
  then show ?thesis
    by (auto simp: honest_def recovery_fix_def fix_defs bindE_eq_Inr Let_def split: if_splits option.splits)
qed

text \<open>What the edits keep of the plan.\<close>

definition derived_from :: "mapping_plan \<Rightarrow> mapping_plan \<Rightarrow> bool" where
  "derived_from p0 p \<longleftrightarrow> plan_run_id p = plan_run_id p0 \<and> source_provider p = source_provider p0
     \<and> target_provider p = target_provider p0
     \<and> subseq (map source_addr (resources p)) (map source_addr (resources p0))"

lemma recovery_fix_derived:
  assumes "recovery_fix p tc = Inr (r, p')"
  shows "derived_from p p'"
proof -
  have sub: "subseq (map source_addr (filter P rs)) (map source_addr rs)" for P rs
    by (intro subseq_map) simp
  have upd: "map source_addr (update_first P f rs) = map source_addr rs"
    if "\<And>x. source_addr (f x) = source_addr x" for P f rs
    using that by (rule update_first_map_same)
  show ?thesis using assms
    by (auto simp: recovery_fix_def fix_defs bindE_eq_Inr Let_def derived_from_def sub upd
        split: if_splits option.splits)
qed

lemma derived_trans: "derived_from p q \<Longrightarrow> derived_from q r \<Longrightarrow> derived_from p r"
  unfolding derived_from_def using subseq_order.trans by auto


definition outcome_sound ::
  "(mapping_plan \<Rightarrow> schema_error + validation_report) \<Rightarrow> nat \<Rightarrow> mapping_plan \<Rightarrow> recovery_outcome \<Rightarrow> bool"
where
  "outcome_sound check limit p out =
     (case out of
        Success i n \<Rightarrow> i < limit \<and> (\<exists>report. check p = Inr report \<and> passed report)
      | MaxIterationsReached i es \<Rightarrow> i = limit \<and> (\<exists>report. check p = Inr report \<and> es = errors report)
      | AgentGaveUp i es \<Rightarrow> 1 \<le> i \<and> i \<le> limit \<and> es \<noteq> [] \<and> (\<exists>report. check p = Inr report \<and> es = errors report)
      | RecoveryWaiting i ids \<Rightarrow> 1 \<le> i \<and> i \<le> limit \<and> ids \<noteq> [])"

lemma revalidate_Inr:
  "revalidate fetch v s = (Inr report, s') \<longleftrightarrow> s' = s \<and> validate fetch (plan s) v = Inr report"
  by (auto simp: revalidate_def split: sum.split)

lemma revalidate_state [simp]: "snd (revalidate fetch v s) = s"
  by (simp add: revalidate_def split: sum.split)

text \<open>A cycle moves the state by one run of the kernel and nothing else.\<close>

lemma recovery_cycle_state:
  "snd (recovery_cycle config fetch v env sid i report s) =
     snd (run_agent (plan_env (apply_counted recovery_fix) env) (agent_loop config)
            \<lparr>ctx_run_id = plan_run_id (plan s), ctx_session_id = sid i\<rparr>
            [msg_user (build_recovery_prompt report (plan s))] recovery_tool_defs s)"
    (is "_ = snd (?run s)")
proof -
  obtain r s1 where run: "?run s = (r, s1)" by force
  obtain r' where v: "revalidate fetch v s1 = (r', s1)" using revalidate_state [of fetch v s1] by (metis prod.collapse)
  from run v show ?thesis
    by (cases r; cases r') (simp_all add: recovery_cycle_def bindA_def map_errA_def Let_def)
qed

lemma recovery_exhausted_state [simp]: "snd (recovery_exhausted config fetch v s) = s"
  by (simp add: recovery_exhausted_def revalidate_def bindA_def split: sum.split)

lemma validate_failed_errors: "validate fetch p v = Inr report \<Longrightarrow> passed report \<longleftrightarrow> errors report = []"
  by (auto simp: validate_def simp del: validate_errors(1) split: sum.splits)

lemma recovery_cycle_outcome:
  assumes "recovery_cycle config fetch v env sid i report s = (Inr (Some (p, out)), s')"
    and "validate fetch (plan s) v = Inr report" "\<not> passed report" "1 \<le> i" "i \<le> max_iterations config"
  shows "outcome_sound (\<lambda>p. validate fetch p v) (max_iterations config) p out"
proof -
  from assms(1) obtain result s1 where
    run: "run_agent (plan_env (apply_counted recovery_fix) env) (agent_loop config)
            \<lparr>ctx_run_id = plan_run_id (plan s), ctx_session_id = sid i\<rparr>
            [msg_user (build_recovery_prompt report (plan s))] recovery_tool_defs s = (Inr result, s1)"
    and k: "(let fixes_this_iter = fix_count s1 - fix_count s in
          if reason result = WaitingForApproval then
            (Inr (Some (plan s1, RecoveryWaiting i (pending_tool_calls result))), s1)
          else if reason result = FinalAnswerReached \<and> fixes_this_iter = 0 then
            bindA (revalidate fetch v)
              (\<lambda>final_report s''. (Inr (Some (plan s'', AgentGaveUp i (errors final_report))), s'')) s1
          else (Inr None, s1)) = (Inr (Some (p, out)), s')"
    unfolding recovery_cycle_def by (auto simp: bindA_eq_Inr map_errA_def split: prod.splits sum.splits)
  note keep = unfixed_run_keeps_plan [OF honest_recovery_fix run]
  show ?thesis
  proof (cases "reason result = WaitingForApproval")
    case True
    with run_agent_shape [OF run] k assms(4,5) show ?thesis
      by (auto simp: result_shape_def outcome_sound_def)
  next
    case False
    with k have z: "fix_count s1 - fix_count s = 0"
      and b: "bindA (revalidate fetch v)
        (\<lambda>final_report s''. (Inr (Some (plan s'', AgentGaveUp i (errors final_report))), s'')) s1
         = (Inr (Some (p, out)), s')"
      by (auto simp: Let_def split: if_splits)
    from z keep have "plan s1 = plan s" by simp
    with b assms(2-5) validate_failed_errors [OF assms(2)] show ?thesis
      by (auto simp: bindA_eq_Inr revalidate_Inr outcome_sound_def)
  qed
qed

section \<open>Properties\<close>


text \<open>A recovery makes at most \<open>max_iterations * max_turns * max_attempts\<close> LLM calls.\<close>

theorem recovery_llm_calls_bounded:
  assumes "counts_llm c env"
  shows "c (snd (run_recovery config p fetch v env sid w))
    \<le> c w + max_iterations config * (max_turns (agent_loop config) * max_attempts (retry (agent_loop config)))"
proof -
  let ?n = "max_turns (agent_loop config) * max_attempts (retry (agent_loop config))"
  let ?c = "\<lambda>s. c (outer s)"
  have ev: "growsA ?c 0 (revalidate fetch v)"
    by (simp add: growsA_def)
  have cyc: "growsA ?c ?n (recovery_cycle config fetch v env sid i report)" for i report
    using growsA_run_agent [OF counts_plan_env [OF assms], of "agent_loop config"]
    by (simp add: growsA_def recovery_cycle_state)
  have ex: "growsA ?c 0 (recovery_exhausted config fetch v)"
    by (simp add: growsA_def)
  have "growsA ?c (max_iterations config * ?n)
      (recovery_loop config fetch v env sid [1 ..< Suc (max_iterations config)])"
    using recovery.loop_growsA [OF ev cyc ex, of "[1 ..< Suc (max_iterations config)]"]
    by (simp del: upt_Suc)
  then show ?thesis
    by (auto simp: growsA_def run_recovery_def split: prod.split simp del: upt_Suc
        dest!: spec [of _ "\<lparr>plan = p, fix_count = 0, outer = w\<rparr>"])
qed


lemma recovery_derived:
  assumes "run_recovery config p0 fetch v env sid w = (Inr (p, out), w')"
  shows "derived_from p0 p"
proof -
  let ?I = "\<lambda>s :: 'a plan_state. derived_from p0 (plan s)"
  from assms obtain s' where
    run: "recovery_loop config fetch v env sid [1 ..< Suc (max_iterations config)]
            \<lparr>plan = p0, fix_count = 0, outer = w\<rparr> = (Inr (p, out), s')"
    by (auto simp: run_recovery_def split: if_splits prod.splits simp del: upt_Suc)
  have "keepsA ?I (apply_counted recovery_fix ctx tc)" for ctx tc
    by (auto simp: keepsA_def apply_counted_def split: sum.split dest!: recovery_fix_derived intro: derived_trans)
  then have "env_keeps ?I (plan_env (apply_counted recovery_fix) env)"
    by (rule plan_env_keeps [of "\<lambda>p n. derived_from p0 p"])
  note agent = keepsA_run_agent [OF this]
  have ev: "keepsA ?I (revalidate fetch v)" by (simp add: keepsA_def)
  have cyc: "keepsA ?I (recovery_cycle config fetch v env sid i report)" for i report
    using agent by (simp add: keepsA_def recovery_cycle_state)
  have ex: "keepsA ?I (recovery_exhausted config fetch v)"
    by (simp add: keepsA_def)
  have "derived_from p0 p0" by (simp add: derived_from_def)
  with recovery.loop_keepsA [OF ev cyc ex] run have "?I s'"
    unfolding keepsA_def by (metis plan_state.select_convs(1) snd_conv)
  moreover have "p = plan s'"
    using recovery.loop_result [OF run]
    by (auto simp: revalidate_Inr recovery_exhausted_def bindA_eq_Inr recovery_cycle_def Let_def
        map_errA_def split: if_splits simp del: upt_Suc)
  ultimately show ?thesis by simp
qed

text \<open>C32. A recovery edits the plan but never invents: run id and providers stay, and the resources of
  the plan it returns come from the same source resources, in the same order, some of them dropped.\<close>

theorem recovery_never_invents:
  assumes "run_recovery config p0 fetch v env sid w = (Inr (p, out), w')"
  shows "derived_from p0 p"
  by (rule recovery_derived [OF assms])

text \<open>\<open>set_attribute\<close>, which the prompt offers as the fix for \<open>UnknownAttribute\<close>, never clears such an
  error: an attribute can be added or overwritten, but none is ever removed.\<close>

theorem set_attribute_keeps_unknown:
  assumes "apply_set_attribute p args = Inr (res, p')"
    and "UnknownAttribute addr a ty \<in> set (errors (validate_plan_against schema p))"
  shows "UnknownAttribute addr a ty \<in> set (errors (validate_plan_against schema p'))"
proof -
  have key: "\<exists>x\<in>set (bt_insert k v m). a = fst x" if "(a, b) \<in> set m"
    for k v b and m :: "(string, attribute_value) btree"
    using that fst_set_bt_insert [of k v m] by (metis fst_conv imageE image_eqI insertCI)
  have upd: "UnknownAttribute addr a ty \<in> set (fst (check_resource schema (r\<lparr>attributes := bt_insert k v (attributes r)\<rparr>)))"
    if "UnknownAttribute addr a ty \<in> set (fst (check_resource schema r))" for r k v
    using that
    by (auto simp: check_resource_def attribute_errors_def missing_errors_def image_iff
        intro: key split: option.splits)
  have anyr: "\<exists>r\<in>set (update_first P (\<lambda>r. r\<lparr>attributes := bt_insert k v (attributes r)\<rparr>) rs).
      UnknownAttribute addr a ty \<in> set (fst (check_resource schema r))"
    if "\<exists>r\<in>set rs. UnknownAttribute addr a ty \<in> set (fst (check_resource schema r))" for P k v rs
    using that by (induction rs) (auto intro: upd)
  show ?thesis
    using assms anyr [of "resources p"]
    by (auto simp: apply_set_attribute_def bindE_eq_Inr simp del: update_first.simps split: option.splits)
qed


section \<open>Witnesses\<close>

definition wit_vpc_of :: "string \<Rightarrow> string \<Rightarrow> string list \<Rightarrow> mapped_resource" where
  "wit_vpc_of ty src deps = \<lparr>source_addr = src, target_addr = ty @ ''.m'', target_type = ty, target_name = ''m'',
     attributes = [], dependencies = deps\<rparr>"

definition wit_broken :: mapping_plan where
  "wit_broken = wit_plan\<lparr>resources := [wit_vpc_of ''aws_vpc'' ''azurerm_virtual_network.m'' []]\<rparr>"

definition wit_fixed :: mapping_plan where
  "wit_fixed = wit_plan\<lparr>resources := [(wit_vpc_of ''aws_vpc'' ''azurerm_virtual_network.m'' [])
     \<lparr>attributes := [(''cidr_block'', AString ''10.0.0.0/16'')]\<rparr>]\<rparr>"

definition wit_fix_call :: proposed_tool_call where
  "wit_fix_call = \<lparr>tc_id = ''a'', tc_name = ''set_attribute'',
     tc_arguments = JObject [(''target_addr'', JString ''aws_vpc.m''), (''attribute'', JString ''cidr_block''),
        (''value'', JString ''10.0.0.0/16'')], tc_metadata = None\<rparr>"

definition wit_recovery_config :: recovery_config where
  "wit_recovery_config = recovery_config_default\<lparr>max_iterations := 1\<rparr>"

lemma wit_fix: "recovery_fix wit_broken wit_fix_call
    = Inr (Completed ''set_attribute: aws_vpc.m.cidr_block updated'' False, wit_fixed)"
  by (simp add: recovery_fix_def apply_set_attribute_def wit_fix_call_def wit_broken_def wit_fixed_def
      wit_vpc_of_def string_arg_def addressed_def)

lemma wit_validate:
  "validate (\<lambda>p v. Inr wit_schema) wit_broken ''5.30.0'' = Inr \<lparr>passed = False,
     errors = [MissingRequiredAttribute ''aws_vpc.m'' ''cidr_block'' ''aws_vpc''], warnings = []\<rparr>"
  "validate (\<lambda>p v. Inr wit_schema) wit_fixed ''5.30.0'' = Inr \<lparr>passed = True, errors = [], warnings = []\<rparr>"
  by (simp_all add: validate_def validate_plan_against_def report_new_def wit_broken_def wit_fixed_def
      wit_vpc_of_def wit_schema_def wit_plan_def check_resource_def attribute_errors_def missing_errors_def
      attribute_warnings_def wit_attr_def bt_has_def)

lemma wit_agent:
  "run_agent (plan_env (apply_counted recovery_fix) wit_env) (agent_loop wit_recovery_config) ctx [msg_user prompt] tools
     \<lparr>plan = wit_broken, fix_count = 0, outer = ([Inr (wit_final\<lparr>out_proposed_tool_calls := [wit_fix_call]\<rparr>), Inr wit_final], 0)\<rparr>
   = (Inr \<lparr>reason = FinalAnswerReached, final_text = ''ok'', turns_executed = 2, pending_tool_calls = []\<rparr>,
      \<lparr>plan = wit_fixed, fix_count = 1, outer = ([], 2)\<rparr>)"
  by (simp add: run_agent_def run_turn_def wit_eval plan_env_def liftA_def upt_rec
      wit_recovery_config_def recovery_config_default_def drain_new dispatch_call_def tool_result_content_def
      policy_decision_def call_action_def initial_state_def apply_counted_def wit_fix saturating_add64_def)

lemma wit_late_fix:
  "run_recovery wit_recovery_config wit_broken (\<lambda>p v. Inr wit_schema) ''5.30.0'' wit_env (\<lambda>_. 0)
      ([Inr (wit_final\<lparr>out_proposed_tool_calls := [wit_fix_call]\<rparr>), Inr wit_final], 0)
   = (Inr (wit_fixed, MaxIterationsReached 1 []), ([], 2))"
proof -
  have one: "max_iterations wit_recovery_config = 1"
    by (simp add: wit_recovery_config_def)
  show ?thesis
    by (simp add: run_recovery_def one revalidate_def wit_validate bindA_def recovery_cycle_def
        map_errA_def wit_agent [simplified] Let_def recovery_exhausted_def)
qed


theorem recovery_never_invents_witness:
  "derived_from wit_broken wit_fixed"
  using recovery_never_invents [OF wit_late_fix] .

theorem recovery_llm_calls_bounded_witness:
  "snd (snd (run_recovery wit_recovery_config wit_broken (\<lambda>p v. Inr wit_schema) ''5.30.0'' wit_env (\<lambda>_. 0) ([], 0))) \<le> 16"
  using recovery_llm_calls_bounded [OF counts_wit_env, of wit_recovery_config wit_broken
      "\<lambda>p v. Inr wit_schema" "''5.30.0''" "\<lambda>_. 0" "([], 0)"]
  by (simp add: wit_recovery_config_def recovery_config_default_def agent_loop_config_default_def
      retry_config_default_def)

theorem set_attribute_keeps_unknown_witness:
  "UnknownAttribute ''aws_vpc.m'' ''cidr_blocks'' ''aws_vpc'' \<in>
     set (errors (validate_plan_against wit_schema
       (case apply_set_attribute wit_plan (tc_arguments wit_fix_call) of Inr (_, p) \<Rightarrow> p)))"
proof -
  obtain p' where p': "apply_set_attribute wit_plan (tc_arguments wit_fix_call)
      = Inr (Completed ''set_attribute: aws_vpc.m.cidr_block updated'' False, p')"
    by (simp add: apply_set_attribute_def wit_fix_call_def wit_plan_def string_arg_def addressed_def)
  have "UnknownAttribute ''aws_vpc.m'' ''cidr_blocks'' ''aws_vpc''
      \<in> set (errors (validate_plan_against wit_schema wit_plan))"
    using wit_report by (simp add: validate_def del: validate_errors)
  from set_attribute_keeps_unknown [OF p' this] show ?thesis by (simp add: p' del: validate_errors)
qed

text \<open>A fix made in the last allowed iteration is never looked at: the recovery repairs the plan, the
  validator passes it with no errors, and the outcome is still \<open>MaxIterationsReached\<close>, with an empty
  list of unresolved errors.\<close>

theorem late_fix_reported_unresolved:
  "\<exists>w'. run_recovery wit_recovery_config wit_broken (\<lambda>p v. Inr wit_schema) ''5.30.0'' wit_env (\<lambda>_. 0)
      ([Inr (wit_final\<lparr>out_proposed_tool_calls := [wit_fix_call]\<rparr>), Inr wit_final], 0)
     = (Inr (wit_fixed, MaxIterationsReached 1 []), w')
   \<and> passed (validate_plan_against wit_schema wit_fixed)"
  using wit_late_fix wit_validate(2) by (auto simp: validate_def simp del: validate_errors)

text \<open>Changing a type can make two resources share an address, leaves the dependencies of the others on
  an address that no longer exists, and a later removal takes both resources out.\<close>

theorem retyping_collides:
  "\<exists>p1 r1 r2. apply_change_target_type
        (wit_plan\<lparr>resources := [wit_vpc_of ''aws_net'' ''s.a'' [], wit_vpc_of ''aws_vpc'' ''s.b'' [],
                                wit_vpc_of ''aws_subnet'' ''s.c'' [''aws_net.m'']]\<rparr>)
        (JObject [(''target_addr'', JString ''aws_net.m''), (''new_type'', JString ''aws_vpc'')]) = Inr (r1, p1)
     \<and> map target_addr (resources p1) = [''aws_vpc.m'', ''aws_vpc.m'', ''aws_subnet.m'']
     \<and> map dependencies (resources p1) = [[], [], [''aws_net.m'']]
     \<and> apply_remove_resource p1 (JObject [(''target_addr'', JString ''aws_vpc.m'')])
         = Inr (r2, wit_plan\<lparr>resources := [wit_vpc_of ''aws_subnet'' ''s.c'' [''aws_net.m'']]\<rparr>)"
  by (simp add: apply_change_target_type_def apply_remove_resource_def wit_vpc_of_def string_arg_def
      addressed_def wit_plan_def Let_def)

end
