(* ===== verification/Optimizer.thy ===== *)
theory Optimizer
  imports Recovery
begin

text \<open>
  \<open>libs/engine/src/cost_optimizer/mod.rs\<close>: the agent that edits a plan until its estimated monthly
  cost meets a target. It has the recovery agent's loop with a cost service in the validator's place,
  so it interprets the same locale. Costs are \<open>f64\<close> bit patterns; how a float is printed with two
  decimals is a parameter.
\<close>

section \<open>The cost service\<close>

record cost_estimate =
  monthly_usd :: f64
  per_resource_usd :: "(string, f64) btree"

datatype cost_service_error = Network string | Auth string | UnsupportedType string

type_synonym 'w cost_service = "mapping_plan \<Rightarrow> ('w, cost_service_error, cost_estimate) act"

record stub_cost_service =
  fixed_per_addr :: "string \<rightharpoonup> f64"
  default_per_resource_usd :: f64

definition stub_new :: stub_cost_service where
  "stub_new = \<lparr>fixed_per_addr = Map.empty, default_per_resource_usd = 0x4059000000000000\<rparr>"

definition with_cost :: "stub_cost_service \<Rightarrow> string \<Rightarrow> f64 \<Rightarrow> stub_cost_service" where
  "with_cost svc addr usd = svc\<lparr>fixed_per_addr := (fixed_per_addr svc)(addr \<mapsto> usd)\<rparr>"

definition with_default :: "stub_cost_service \<Rightarrow> f64 \<Rightarrow> stub_cost_service" where
  "with_default svc usd = svc\<lparr>default_per_resource_usd := usd\<rparr>"

definition stub_price :: "stub_cost_service \<Rightarrow> mapped_resource \<Rightarrow> f64" where
  "stub_price svc r =
     (case fixed_per_addr svc (target_addr r) of Some usd \<Rightarrow> usd | None \<Rightarrow> default_per_resource_usd svc)"

definition stub_estimate :: "stub_cost_service \<Rightarrow> 'w cost_service" where
  "stub_estimate svc p = retA \<lparr>
     monthly_usd = foldl (\<lambda>total r. f64_add total (stub_price svc r)) 0 (resources p),
     per_resource_usd = fold (\<lambda>r. bt_insert (target_addr r) (stub_price svc r)) (resources p) []\<rparr>"

section \<open>Configuration and outcomes\<close>

record optimizer_config =
  opt_max_iterations :: nat
  target_monthly_usd :: f64
  opt_agent_loop :: agent_loop_config

definition optimizer_config_default :: optimizer_config where
  "optimizer_config_default = \<lparr>opt_max_iterations = 4, target_monthly_usd = 0,
     opt_agent_loop = agent_loop_config_default\<lparr>max_turns := 4, approval_policy := AcceptAll\<rparr>\<rparr>"

datatype optimizer_error =
    Cost cost_service_error
  | OptAgentKernel agent_error
  | OptInvalidConfig string

datatype optimization_outcome =
    OptSuccess nat nat f64 f64
  | OptMaxIterationsReached nat f64 f64
  | OptAgentGaveUp nat f64 f64
  | OptWaiting nat "string list"

section \<open>The fix tools\<close>

definition opt_set_attribute :: "mapping_plan \<Rightarrow> json \<Rightarrow> agent_error + tool_execution_result \<times> mapping_plan" where
  "opt_set_attribute p args =
     bindE (string_arg args ''target_addr'') (\<lambda>addr.
     bindE (string_arg args ''attribute'') (\<lambda>attribute.
     bindE (case json_get args ''value'' of
              Some v \<Rightarrow> Inr v
            | None \<Rightarrow> Inl (ToolExecution (''set_attribute: missing '' @ quoted ''value''))) (\<lambda>raw_value.
     bindE (json_value_to_attribute_value raw_value) (\<lambda>attr_value.
       case find (addressed addr) (resources p) of
         Some _ \<Rightarrow>
           Inr (Completed (''set_attribute: '' @ addr @ ''.'' @ attribute @ '' updated'') False,
                p\<lparr>resources := update_first (addressed addr)
                    (\<lambda>r. r\<lparr>attributes := bt_insert attribute attr_value (attributes r)\<rparr>) (resources p)\<rparr>)
       | None \<Rightarrow>
           Inr (Completed (''set_attribute: target_addr '' @ quoted addr @ '' not found'') True, p)))))"

definition opt_remove_resource :: "mapping_plan \<Rightarrow> json \<Rightarrow> agent_error + tool_execution_result \<times> mapping_plan" where
  "opt_remove_resource p args =
     bindE (string_arg args ''target_addr'') (\<lambda>addr.
       let kept = filter (\<lambda>r. target_addr r \<noteq> addr) (resources p) in
       if length kept < length (resources p) then
         Inr (Completed (''remove_resource: removed '' @ addr) False, p\<lparr>resources := kept\<rparr>)
       else
         Inr (Completed (''remove_resource: target_addr '' @ quoted addr @ '' not found'') True,
              p\<lparr>resources := kept\<rparr>))"

definition optimizer_fix :: fix_tool where
  "optimizer_fix p tc =
     (if tc_name tc = ''set_attribute'' then opt_set_attribute p (tc_arguments tc)
      else if tc_name tc = ''remove_resource'' then opt_remove_resource p (tc_arguments tc)
      else Inr (Completed (''unknown optimizer tool: '' @ tc_name tc) True, p))"

section \<open>Tool definitions and prompt\<close>

definition optimizer_tool_defs :: "agent_tool_def list" where
  "optimizer_tool_defs =
     (let str = JObject [(''type'', JString ''string'')] in
     [\<lparr>td_name = ''set_attribute'',
       td_description = ''Set or replace an attribute value on a target resource. ''
         @ ''Use to right-size instances (e.g., instance_type='' @ quoted ''t3.large'' @ '' '' @ right_arrow
         @ '' '' @ quoted ''t3.medium'' @ ''), ''
         @ ''migrate to cheaper storage (e.g., type='' @ quoted ''gp2'' @ '' '' @ right_arrow @ '' '' @ quoted ''gp3''
         @ ''), or change architecture ''
         @ ''(e.g., instance_type='' @ quoted ''m5.large'' @ '' '' @ right_arrow @ '' '' @ quoted ''m6g.large''
         @ '' for Graviton).'',
       td_schema = object_schema [''target_addr'', ''attribute'', ''value'']
         [(''target_addr'', str), (''attribute'', str), (''value'', JObject [])]\<rparr>,
      \<lparr>td_name = ''remove_resource'',
       td_description = ''Remove a planned resource entirely. Last-resort optimization ''
         @ ''(e.g., redundant standby instance). Operator review strongly recommended.'',
       td_schema = object_schema [''target_addr''] [(''target_addr'', str)]\<rparr>])"

text \<open>The stable sort by descending cost that lists the entries, for costs that compare.\<close>

fun insert_by_cost :: "string \<times> f64 \<Rightarrow> (string \<times> f64) list \<Rightarrow> (string \<times> f64) list" where
  "insert_by_cost x [] = [x]"
| "insert_by_cost x (y # ys) =
     (if f64_less (snd x) (snd y) then y # insert_by_cost x ys else x # y # ys)"

definition costliest :: "cost_estimate \<Rightarrow> (string \<times> f64) list" where
  "costliest cost = take 10 (foldr insert_by_cost (per_resource_usd cost) [])"

definition build_optimizer_prompt :: "(f64 \<Rightarrow> string) \<Rightarrow> mapping_plan \<Rightarrow> cost_estimate \<Rightarrow> f64 \<Rightarrow> string" where
  "build_optimizer_prompt fmt2 p cost target_usd =
     writeln (''You are the Terrashift Cost Optimizer agent. The current plan estimates $'' @ fmt2 (monthly_usd cost)
       @ ''/month, but the operator'' @ [CHR 0x27] @ ''s target is $'' @ fmt2 target_usd
       @ ''/month. Your job: propose targeted optimizations via the available tools to bring the cost under target.'')
     @ writeln []
     @ writeln (writeln (''Source: '' @ source_provider p @ '' | Target: '' @ target_provider p
         @ '' | Resources: '' @ nat_str (length (resources p))))
     @ writeln (writeln ''## Per-resource monthly cost (USD)'')
     @ concat (map (\<lambda>(addr, usd). writeln (''- '' @ addr @ '': $'' @ fmt2 usd)) (costliest cost))
     @ writeln (writeln [] @ writeln ''## Available tools'')
     @ writeln (''- `set_attribute(target_addr, attribute, value)` '' @ em_dash @ '' change instance type, storage class, etc.'')
     @ writeln (''- `remove_resource(target_addr)` '' @ em_dash @ '' drop redundant resource (last-resort)'')
     @ writeln (writeln [] @ writeln ''## Optimization patterns to consider'')
     @ writeln (''- gp2 '' @ right_arrow @ '' gp3 storage (typically ~20% cheaper at same IOPS)'')
     @ writeln (''- x86 (m5/c5) '' @ right_arrow @ '' Graviton (m6g/c6g) (typically ~10-20% cheaper)'')
     @ writeln ''- Right-size oversized instances (instance_type)''
     @ writeln ''- Drop redundant standby resources where workload allows''
     @ writeln (writeln [] @ writeln ''## Constraints'')
     @ writeln ''- Only use the named tools.''
     @ writeln (''- Preserve correctness '' @ em_dash @ '' don'' @ [CHR 0x27] @ ''t propose changes that break the architecture ''
         @ ''(e.g., changing a primary instance to a much smaller one without considering load).'')
     @ writeln (''- Each optimization is auto-approved by the operator'' @ [CHR 0x27] @ ''s policy.'')"

section \<open>The loop\<close>

definition recost :: "'w cost_service \<Rightarrow> ('w plan_state, optimizer_error, cost_estimate) act" where
  "recost estimate s = map_errA Cost (liftA (estimate (plan s))) s"

definition optimizer_cycle ::
  "optimizer_config \<Rightarrow> (f64 \<Rightarrow> string) \<Rightarrow> 'w cost_service \<Rightarrow> 'w env \<Rightarrow> (nat \<Rightarrow> uuid) \<Rightarrow> f64
     \<Rightarrow> nat \<Rightarrow> cost_estimate \<Rightarrow> ('w plan_state, optimizer_error, (mapping_plan \<times> optimization_outcome) option) act"
where
  "optimizer_cycle config fmt2 estimate env sid starting_cost iteration cost s =
     bindA (map_errA OptAgentKernel
         (run_agent (plan_env (apply_counted optimizer_fix) env) (opt_agent_loop config)
            \<lparr>ctx_run_id = plan_run_id (plan s), ctx_session_id = sid iteration\<rparr>
            [msg_user (build_optimizer_prompt fmt2 (plan s) cost (target_monthly_usd config))]
            optimizer_tool_defs))
       (\<lambda>result s'.
          let fixes_this_iter = fix_count s' - fix_count s in
          if reason result = WaitingForApproval then
            (Inr (Some (plan s', OptWaiting iteration (pending_tool_calls result))), s')
          else if reason result = FinalAnswerReached \<and> fixes_this_iter = 0 then
            bindA (recost estimate) (\<lambda>final_cost s''.
              (Inr (Some (plan s'', OptAgentGaveUp iteration starting_cost (monthly_usd final_cost))), s'')) s'
          else (Inr None, s')) s"

definition optimizer_exhausted ::
  "optimizer_config \<Rightarrow> 'w cost_service \<Rightarrow> f64 \<Rightarrow> ('w plan_state, optimizer_error, mapping_plan \<times> optimization_outcome) act"
where
  "optimizer_exhausted config estimate starting_cost =
     bindA (recost estimate) (\<lambda>final_cost s.
       (Inr (plan s, OptMaxIterationsReached (opt_max_iterations config) starting_cost (monthly_usd final_cost)), s))"

fun optimizer_loop ::
  "optimizer_config \<Rightarrow> (f64 \<Rightarrow> string) \<Rightarrow> 'w cost_service \<Rightarrow> 'w env \<Rightarrow> (nat \<Rightarrow> uuid) \<Rightarrow> f64
     \<Rightarrow> nat list \<Rightarrow> ('w plan_state, optimizer_error, mapping_plan \<times> optimization_outcome) act"
where
  "optimizer_loop config fmt2 estimate env sid starting_cost [] s =
     optimizer_exhausted config estimate starting_cost s"
| "optimizer_loop config fmt2 estimate env sid starting_cost (iteration # iterations) s =
     bindA (recost estimate) (\<lambda>cost s'.
       if f64_le (monthly_usd cost) (target_monthly_usd config) then
         (Inr (plan s', OptSuccess (iteration - 1) (fix_count s') starting_cost (monthly_usd cost)), s')
       else bindA (optimizer_cycle config fmt2 estimate env sid starting_cost iteration cost)
              (\<lambda>x. case x of
                     Some out \<Rightarrow> retA out
                   | None \<Rightarrow> optimizer_loop config fmt2 estimate env sid starting_cost iterations) s') s"

definition run_optimizer ::
  "optimizer_config \<Rightarrow> (f64 \<Rightarrow> string) \<Rightarrow> mapping_plan \<Rightarrow> 'w cost_service \<Rightarrow> 'w env \<Rightarrow> (nat \<Rightarrow> uuid)
     \<Rightarrow> ('w, optimizer_error, mapping_plan \<times> optimization_outcome) act"
where
  "run_optimizer config fmt2 p estimate env sid w =
     (if opt_max_iterations config = 0 then (Inl (OptInvalidConfig ''max_iterations must be > 0''), w)
      else if f64_less (target_monthly_usd config) 0
      then (Inl (OptInvalidConfig ''target_monthly_usd must be non-negative''), w)
      else case bindA (recost estimate) (\<lambda>starting_cost s.
             if f64_le (monthly_usd starting_cost) (target_monthly_usd config) then
               (Inr (plan s, OptSuccess 0 0 (monthly_usd starting_cost) (monthly_usd starting_cost)), s)
             else optimizer_loop config fmt2 estimate env sid (monthly_usd starting_cost)
                    [1 ..< Suc (opt_max_iterations config)] s)
           \<lparr>plan = p, fix_count = 0, outer = w\<rparr> of
             (r, s) \<Rightarrow> (r, outer s))"

interpretation optimizer: refinement_loop
  "optimizer_loop config fmt2 estimate env sid c0" "recost estimate"
  "\<lambda>cost. f64_le (monthly_usd cost) (target_monthly_usd config)"
  "\<lambda>i cost s. (plan s, OptSuccess (i - 1) (fix_count s) c0 (monthly_usd cost))"
  "optimizer_cycle config fmt2 estimate env sid c0" "optimizer_exhausted config estimate c0"
  for config fmt2 estimate env sid c0
  by unfold_locales simp_all

section \<open>Outcomes\<close>

lemma honest_optimizer_fix: "honest optimizer_fix"
proof -
  have "filter P xs = xs" if "\<not> length (filter P xs) < length xs" for P and xs :: "mapped_resource list"
    using that by (metis filter_id_conv length_filter_less)
  then show ?thesis
    by (auto simp: honest_def optimizer_fix_def opt_set_attribute_def opt_remove_resource_def
        bindE_eq_Inr Let_def split: if_splits option.splits)
qed

text \<open>What an outcome says, for a cost service whose answer depends on the plan alone.\<close>

definition optimized_sound ::
  "(mapping_plan \<Rightarrow> cost_service_error + cost_estimate) \<Rightarrow> optimizer_config \<Rightarrow> mapping_plan \<Rightarrow> mapping_plan
     \<Rightarrow> optimization_outcome \<Rightarrow> bool"
where
  "optimized_sound price config p0 p out =
     (let costs = (\<lambda>p usd. \<exists>est. price p = Inr est \<and> monthly_usd est = usd);
          met = (\<lambda>usd. f64_le usd (target_monthly_usd config)) in
      case out of
        OptSuccess i n c0 c \<Rightarrow> i < opt_max_iterations config \<and> costs p0 c0 \<and> costs p c \<and> met c
      | OptMaxIterationsReached i c0 c \<Rightarrow> i = opt_max_iterations config \<and> costs p0 c0 \<and> costs p c \<and> \<not> met c0
      | OptAgentGaveUp i c0 c \<Rightarrow> 1 \<le> i \<and> i \<le> opt_max_iterations config \<and> costs p0 c0 \<and> costs p c \<and> \<not> met c
      | OptWaiting i ids \<Rightarrow> 1 \<le> i \<and> i \<le> opt_max_iterations config \<and> ids \<noteq> [])"

definition stateless :: "'w cost_service \<Rightarrow> (mapping_plan \<Rightarrow> cost_service_error + cost_estimate) \<Rightarrow> bool" where
  "stateless estimate price \<longleftrightarrow> (\<forall>p w. estimate p w = (price p, w))"

lemma recost_Inr:
  assumes "stateless estimate price"
  shows "recost estimate s = (Inr est, s') \<longleftrightarrow> s' = s \<and> price (plan s) = Inr est"
  using assms
  by (cases "price (plan s)") (auto simp: recost_def stateless_def map_errA_def liftA_def)

lemma optimizer_cycle_outcome:
  assumes "optimizer_cycle config fmt2 estimate env sid c0 i cost s = (Inr (Some (p, out)), s')"
    and "stateless estimate price" "price (plan s) = Inr cost"
    and "\<not> f64_le (monthly_usd cost) (target_monthly_usd config)"
    and "1 \<le> i" "i \<le> opt_max_iterations config" "price p0 = Inr est0" "monthly_usd est0 = c0"
  shows "optimized_sound price config p0 p out"
proof -
  from assms(1) obtain result s1 where
    run: "run_agent (plan_env (apply_counted optimizer_fix) env) (opt_agent_loop config)
            \<lparr>ctx_run_id = plan_run_id (plan s), ctx_session_id = sid i\<rparr>
            [msg_user (build_optimizer_prompt fmt2 (plan s) cost (target_monthly_usd config))]
            optimizer_tool_defs s = (Inr result, s1)"
    and k: "(let fixes_this_iter = fix_count s1 - fix_count s in
          if reason result = WaitingForApproval then
            (Inr (Some (plan s1, OptWaiting i (pending_tool_calls result))), s1)
          else if reason result = FinalAnswerReached \<and> fixes_this_iter = 0 then
            bindA (recost estimate) (\<lambda>final_cost s''.
              (Inr (Some (plan s'', OptAgentGaveUp i c0 (monthly_usd final_cost))), s'')) s1
          else (Inr None, s1)) = (Inr (Some (p, out)), s')"
    unfolding optimizer_cycle_def by (auto simp: bindA_eq_Inr map_errA_def split: prod.splits sum.splits)
  note keep = unfixed_run_keeps_plan [OF honest_optimizer_fix run]
  show ?thesis
  proof (cases "reason result = WaitingForApproval")
    case True
    with run_agent_shape [OF run] k assms(5,6) show ?thesis
      by (auto simp: result_shape_def optimized_sound_def)
  next
    case False
    with k have z: "fix_count s1 - fix_count s = 0"
      and b: "bindA (recost estimate) (\<lambda>final_cost s''.
              (Inr (Some (plan s'', OptAgentGaveUp i c0 (monthly_usd final_cost))), s'')) s1
         = (Inr (Some (p, out)), s')"
      by (auto simp: Let_def split: if_splits)
    from z keep have "plan s1 = plan s" by simp
    with b assms(3-8) show ?thesis
      by (auto simp: bindA_eq_Inr recost_Inr [OF assms(2)] optimized_sound_def Let_def)
  qed
qed

lemma run_optimizer_Inr:
  assumes "run_optimizer config fmt2 p0 estimate env sid w = (Inr (p, out), w')" "stateless estimate price"
  obtains est where "price p0 = Inr est" "f64_le (monthly_usd est) (target_monthly_usd config)" "p = p0"
      "out = OptSuccess 0 0 (monthly_usd est) (monthly_usd est)" "0 < opt_max_iterations config"
    | est s' where "price p0 = Inr est" "\<not> f64_le (monthly_usd est) (target_monthly_usd config)"
      "optimizer_loop config fmt2 estimate env sid (monthly_usd est) [1 ..< Suc (opt_max_iterations config)]
         \<lparr>plan = p0, fix_count = 0, outer = w\<rparr> = (Inr (p, out), s')"
  using assms(1) that
  by (auto simp: run_optimizer_def bindA_eq_Inr recost_Inr [OF assms(2)] simp del: upt_Suc
      split: if_splits prod.splits)

section \<open>Properties\<close>


text \<open>A NaN target passes the check for negative targets and then can never be met: no run reports
  success, whatever the plan costs.\<close>

theorem nan_target_never_met:
  assumes "f64_is_nan (target_monthly_usd config)"
    and "run_optimizer config fmt2 p0 estimate env sid w = (Inr (p, out), w')"
  shows "\<exists>i c0 c ids. out = OptMaxIterationsReached i c0 c \<or> out = OptAgentGaveUp i c0 c \<or> out = OptWaiting i ids"
proof -
  from assms obtain c0 s0 s' where
    run: "optimizer_loop config fmt2 estimate env sid c0 [1 ..< Suc (opt_max_iterations config)] s0 = (Inr (p, out), s')"
    by (auto simp: run_optimizer_def bindA_eq_Inr simp del: upt_Suc split: if_splits prod.splits)
  from optimizer.loop_result [OF run] assms(1) show ?thesis
    by (auto simp: optimizer_exhausted_def optimizer_cycle_def bindA_eq_Inr map_errA_def Let_def
        simp del: upt_Suc split: if_splits)
qed


section \<open>Witnesses\<close>

definition wit_remove_call :: proposed_tool_call where
  "wit_remove_call = \<lparr>tc_id = ''a'', tc_name = ''remove_resource'',
     tc_arguments = JObject [(''target_addr'', JString ''aws_vpc.m'')], tc_metadata = None\<rparr>"

definition wit_empty :: mapping_plan where
  "wit_empty = wit_plan\<lparr>resources := []\<rparr>"

definition wit_price :: "mapping_plan \<Rightarrow> cost_service_error + cost_estimate" where
  "wit_price p = fst (stub_estimate stub_new p ())"

lemma wit_remove: "optimizer_fix wit_broken wit_remove_call
    = Inr (Completed ''remove_resource: removed aws_vpc.m'' False, wit_empty)"
  by (simp add: optimizer_fix_def opt_remove_resource_def wit_remove_call_def wit_broken_def wit_empty_def
      wit_vpc_of_def string_arg_def)

lemma f64_add_hundred: "f64_add 0 0x4059000000000000 = 0x4059000000000000"
  by (simp add: f64_add_def f64_tests f64_infinity_bits_def)

lemma wit_stub_estimate:
  "stub_estimate stub_new wit_broken w = (Inr \<lparr>monthly_usd = 0x4059000000000000,
     per_resource_usd = [(''aws_vpc.m'', 0x4059000000000000)]\<rparr>, w)"
  "stub_estimate stub_new wit_empty w = (Inr \<lparr>monthly_usd = 0, per_resource_usd = []\<rparr>, w)"
  by (simp_all add: stub_estimate_def stub_new_def stub_price_def wit_broken_def wit_empty_def wit_vpc_of_def
      f64_add_hundred)

lemma wit_optimizer_agent:
  "run_agent (plan_env (apply_counted optimizer_fix) wit_env) (opt_agent_loop optimizer_config_default) ctx
       [msg_user prompt] tools
     \<lparr>plan = wit_broken, fix_count = 0, outer = ([Inr (wit_final\<lparr>out_proposed_tool_calls := [wit_remove_call]\<rparr>), Inr wit_final], 0)\<rparr>
   = (Inr \<lparr>reason = FinalAnswerReached, final_text = ''ok'', turns_executed = 2, pending_tool_calls = []\<rparr>,
      \<lparr>plan = wit_empty, fix_count = 1, outer = ([], 2)\<rparr>)"
  by (simp add: run_agent_def run_turn_def wit_eval plan_env_def liftA_def upt_rec
      optimizer_config_default_def drain_new dispatch_call_def tool_result_content_def
      policy_decision_def call_action_def initial_state_def apply_counted_def wit_remove saturating_add64_def)

lemma wit_optimized:
  "run_optimizer optimizer_config_default (\<lambda>_. []) wit_broken (stub_estimate stub_new) wit_env (\<lambda>_. 0)
      ([Inr (wit_final\<lparr>out_proposed_tool_calls := [wit_remove_call]\<rparr>), Inr wit_final], 0)
   = (Inr (wit_empty, OptSuccess 1 1 0x4059000000000000 0), ([], 2))"
proof -
  have config: "opt_max_iterations optimizer_config_default = 4" "target_monthly_usd optimizer_config_default = 0"
    by (simp_all add: optimizer_config_default_def)
  have le: "\<not> f64_le 0x4059000000000000 0" "f64_le 0 0" "\<not> f64_less 0 0"
    by (simp_all add: f64_le_def f64_less_def f64_key_def f64_tests)
  show ?thesis
    by (simp add: run_optimizer_def config le recost_def wit_stub_estimate liftA_def bindA_def upt_rec
        optimizer_cycle_def map_errA_def wit_optimizer_agent [simplified] Let_def)
qed


definition wit_nan_config :: optimizer_config where
  "wit_nan_config = optimizer_config_default\<lparr>target_monthly_usd := f64_nan\<rparr>"

lemma wit_nan_agent:
  "run_agent (plan_env (apply_counted optimizer_fix) wit_env) (opt_agent_loop wit_nan_config) ctx
       [msg_user prompt] tools \<lparr>plan = wit_empty, fix_count = 0, outer = ([Inr wit_final], 0)\<rparr>
   = (Inr \<lparr>reason = FinalAnswerReached, final_text = ''ok'', turns_executed = 1, pending_tool_calls = []\<rparr>,
      \<lparr>plan = wit_empty, fix_count = 0, outer = ([], 1)\<rparr>)"
  by (simp add: run_agent_def run_turn_def wit_eval plan_env_def liftA_def upt_rec
      wit_nan_config_def optimizer_config_default_def)

lemma wit_nan_run:
  "run_optimizer wit_nan_config (\<lambda>_. []) wit_empty (stub_estimate stub_new) wit_env (\<lambda>_. 0) ([Inr wit_final], 0)
   = (Inr (wit_empty, OptAgentGaveUp 1 0 0), ([], 1))"
proof -
  have config: "opt_max_iterations wit_nan_config = 4" "target_monthly_usd wit_nan_config = f64_nan"
    by (simp_all add: wit_nan_config_def optimizer_config_default_def)
  have nan: "f64_is_nan f64_nan" by (simp add: f64_tests f64_nan_def)
  show ?thesis
    by (simp add: run_optimizer_def config nan recost_def wit_stub_estimate liftA_def bindA_def upt_rec
        optimizer_cycle_def map_errA_def wit_nan_agent [simplified] Let_def)
qed

theorem nan_target_never_met_witness:
  "\<exists>i c0 c ids. OptAgentGaveUp 1 0 0 = OptMaxIterationsReached i c0 c \<or> OptAgentGaveUp 1 0 0 = OptAgentGaveUp i c0 c
     \<or> OptAgentGaveUp 1 0 0 = OptWaiting i ids"
  by (rule nan_target_never_met [OF _ wit_nan_run])
    (simp add: wit_nan_config_def f64_tests f64_nan_def)

end
