(* ===== verification/Scanner.thy ===== *)
theory Scanner
  imports Prelude
begin

text \<open>
  \<open>libs/engine/src/scanner\<close>: the walk that finds the \<open>.tf\<close> files of an estate and the extraction of
  their blocks into an inventory. The \<open>hcl\<close> crate's parser and expression printer are parameters; its
  body structure is the datatype below, over an arbitrary type of expressions. The lemmas say which
  files are accepted and that every block of an accepted file is in the inventory, in order.
\<close>

section \<open>Inventory\<close>

type_synonym file_path = "string list"

record source_span =
  span_file :: file_path
  span_line :: nat
  span_col :: nat

record resource =
  resource_type :: string
  r_name :: string
  r_attributes :: "(string, string) btree"
  r_span :: source_span

record data_source =
  data_type :: string
  ds_name :: string
  ds_attributes :: "(string, string) btree"
  ds_span :: source_span

record provider =
  provider_type :: string
  p_alias :: "string option"
  p_attributes :: "(string, string) btree"
  p_span :: source_span

record module_call =
  m_name :: string
  m_source :: "string option"
  m_version :: "string option"
  m_attributes :: "(string, string) btree"
  m_span :: source_span

record variable =
  v_name :: string
  var_type :: "string option"
  v_default :: "string option"
  v_description :: "string option"
  v_sensitive :: bool
  v_span :: source_span

record output_value =
  o_name :: string
  value_expr :: "string option"
  o_description :: "string option"
  o_sensitive :: bool
  o_span :: source_span

record scanned_file =
  sf_path :: file_path
  providers :: "provider list"
  modules :: "module_call list"
  sf_resources :: "resource list"
  variables :: "variable list"
  outputs :: "output_value list"
  data_sources :: "data_source list"
  scan_notes :: "string list"

definition scanned_file_new :: "file_path \<Rightarrow> scanned_file" where
  "scanned_file_new p = \<lparr>sf_path = p, providers = [], modules = [], sf_resources = [], variables = [],
     outputs = [], data_sources = [], scan_notes = []\<rparr>"

record estate_inventory =
  root_dir :: file_path
  inv_files :: "scanned_file list"

definition resource_count :: "estate_inventory \<Rightarrow> nat" where
  "resource_count estate = sum_list (map (length \<circ> sf_resources) (inv_files estate))"

datatype scanner_error =
    Scanner_Io file_path
  | Parse file_path string
  | UnsupportedFeature string file_path nat string
  | MalformedBlock file_path string

section \<open>HCL bodies\<close>

datatype hcl_label = Label_string string | Label_ident string

datatype 'x hcl_structure =
    HAttribute string 'x
  | HBlock string "hcl_label list" "'x hcl_structure list"

record 'x hcl_reader =
  hcl_from_str :: "string \<Rightarrow> string + 'x hcl_structure list"
  expr_to_string :: "'x \<Rightarrow> string"
  debug_strings :: "string list \<Rightarrow> string"

fun label_to_string :: "hcl_label \<Rightarrow> string" where
  "label_to_string (Label_string s) = s"
| "label_to_string (Label_ident i) = i"

text \<open>\<open>body.attributes()\<close> collected into a \<open>BTreeMap\<close>.\<close>

fun body_attributes :: "'x hcl_structure list \<Rightarrow> (string \<times> 'x) list" where
  "body_attributes [] = []"
| "body_attributes (HAttribute k x # ss) = (k, x) # body_attributes ss"
| "body_attributes (HBlock i ls b # ss) = body_attributes ss"

definition body_attrs_to_map :: "'x hcl_reader \<Rightarrow> 'x hcl_structure list \<Rightarrow> (string, string) btree" where
  "body_attrs_to_map h body =
     fold (\<lambda>(k, x). bt_insert k (expr_to_string h x)) (body_attributes body) []"

definition hcl_unquote :: "string \<Rightarrow> string" where
  "hcl_unquote s =
     (let trimmed = str_trim s in
      if 2 \<le> length trimmed \<and> starts_with [CHR 0x22] trimmed \<and> last trimmed = CHR 0x22
      then take (length trimmed - 2) (drop 1 trimmed) else s)"

section \<open>Positions\<close>

text \<open>\<open>prefix.rfind('\n')\<close>.\<close>

definition rfind_newline :: "string \<Rightarrow> nat option" where
  "rfind_newline s = find (\<lambda>i. s ! i = CHR 0x0A) (rev [0 ..< length s])"

definition approx_span :: "string \<Rightarrow> string \<Rightarrow> file_path \<Rightarrow> source_span" where
  "approx_span content kind path =
     (let pos = (case str_find (kind @ [CHR 0x20, CHR 0x22]) content of
                   Some p \<Rightarrow> Some p
                 | None \<Rightarrow> str_find (kind @ '' {'') content) in
      case pos of
        Some byte_offset \<Rightarrow>
          (let prefix = take byte_offset content in
           \<lparr>span_file = path,
            span_line = length (filter (\<lambda>c. c = CHR 0x0A) prefix) + 1,
            span_col = (case rfind_newline prefix of
                          Some p \<Rightarrow> byte_offset - p
                        | None \<Rightarrow> byte_offset + 1)\<rparr>)
      | None \<Rightarrow> \<lparr>span_file = path, span_line = 0, span_col = 0\<rparr>)"

section \<open>Blocks\<close>

definition parse_resource ::
  "'x hcl_reader \<Rightarrow> string list \<Rightarrow> 'x hcl_structure list \<Rightarrow> source_span \<Rightarrow> file_path \<Rightarrow> scanner_error + resource"
where
  "parse_resource h labels body span path =
     (if length labels \<noteq> 2
      then Inl (MalformedBlock path (''resource block needs 2 labels (type + name); got ''
             @ nat_str (length labels) @ '': '' @ debug_strings h labels))
      else Inr \<lparr>resource_type = labels ! 0, r_name = labels ! 1,
                r_attributes = body_attrs_to_map h body, r_span = span\<rparr>)"

definition parse_data_source ::
  "'x hcl_reader \<Rightarrow> string list \<Rightarrow> 'x hcl_structure list \<Rightarrow> source_span \<Rightarrow> file_path \<Rightarrow> scanner_error + data_source"
where
  "parse_data_source h labels body span path =
     (if length labels \<noteq> 2
      then Inl (MalformedBlock path (''data block needs 2 labels; got '' @ nat_str (length labels)))
      else Inr \<lparr>data_type = labels ! 0, ds_name = labels ! 1,
                ds_attributes = body_attrs_to_map h body, ds_span = span\<rparr>)"

definition parse_provider ::
  "'x hcl_reader \<Rightarrow> string list \<Rightarrow> 'x hcl_structure list \<Rightarrow> source_span \<Rightarrow> file_path \<Rightarrow> scanner_error + provider"
where
  "parse_provider h labels body span path =
     (if labels = [] then Inl (MalformedBlock path ''provider block needs a type label'')
      else let attrs = body_attrs_to_map h body in
           Inr \<lparr>provider_type = labels ! 0, p_alias = map_of attrs ''alias'', p_attributes = attrs, p_span = span\<rparr>)"

definition parse_module ::
  "'x hcl_reader \<Rightarrow> string list \<Rightarrow> 'x hcl_structure list \<Rightarrow> source_span \<Rightarrow> file_path \<Rightarrow> scanner_error + module_call"
where
  "parse_module h labels body span path =
     (if length labels \<noteq> 1
      then Inl (MalformedBlock path (''module block needs 1 label (name); got '' @ nat_str (length labels)))
      else let attrs = body_attrs_to_map h body in
           Inr \<lparr>m_name = labels ! 0, m_source = map_option hcl_unquote (map_of attrs ''source''),
                m_version = map_option hcl_unquote (map_of attrs ''version''), m_attributes = attrs, m_span = span\<rparr>)"

definition parse_variable ::
  "'x hcl_reader \<Rightarrow> string list \<Rightarrow> 'x hcl_structure list \<Rightarrow> source_span \<Rightarrow> file_path \<Rightarrow> scanner_error + variable"
where
  "parse_variable h labels body span path =
     (if length labels \<noteq> 1
      then Inl (MalformedBlock path (''variable block needs 1 label; got '' @ nat_str (length labels)))
      else let attrs = body_attrs_to_map h body in
           Inr \<lparr>v_name = labels ! 0, var_type = map_of attrs ''type'', v_default = map_of attrs ''default'',
                v_description = map_option hcl_unquote (map_of attrs ''description''),
                v_sensitive = (map_of attrs ''sensitive'' = Some ''true''), v_span = span\<rparr>)"

definition parse_output ::
  "'x hcl_reader \<Rightarrow> string list \<Rightarrow> 'x hcl_structure list \<Rightarrow> source_span \<Rightarrow> file_path \<Rightarrow> scanner_error + output_value"
where
  "parse_output h labels body span path =
     (if length labels \<noteq> 1
      then Inl (MalformedBlock path (''output block needs 1 label; got '' @ nat_str (length labels)))
      else let attrs = body_attrs_to_map h body in
           Inr \<lparr>o_name = labels ! 0, value_expr = map_of attrs ''value'',
                o_description = map_option hcl_unquote (map_of attrs ''description''),
                o_sensitive = (map_of attrs ''sensitive'' = Some ''true''), o_span = span\<rparr>)"

fun check_no_nested_dynamic :: "file_path \<Rightarrow> string \<Rightarrow> 'x hcl_structure list \<Rightarrow> scanner_error + unit" where
  "check_no_nested_dynamic path content [] = Inr ()"
| "check_no_nested_dynamic path content (HAttribute k x # ss) = check_no_nested_dynamic path content ss"
| "check_no_nested_dynamic path content (HBlock i ls b # ss) =
     (if i = ''dynamic''
      then Inl (UnsupportedFeature ''dynamic (nested)'' path (span_line (approx_span content ''dynamic'' path))
             ''nested dynamic blocks require runtime expansion; deferred to Stage 5'')
      else bindE (check_no_nested_dynamic path content b) (\<lambda>_. check_no_nested_dynamic path content ss))"

definition stage5_notes :: "'x hcl_structure list \<Rightarrow> string list" where
  "stage5_notes body =
     map (\<lambda>k. ''uses '' @ k @ '' meta-argument (Stage 5 feature)'')
       (filter (\<lambda>k. k = ''count'' \<or> k = ''for_each'') (map fst (body_attributes body)))
     @ concat (map (\<lambda>s. case s of
           HAttribute _ _ \<Rightarrow> []
         | HBlock k _ _ \<Rightarrow>
             (if k = ''provisioner'' \<or> k = ''lifecycle'' \<or> k = ''connection''
              then [''uses '' @ k @ '' block (Stage 5 feature)''] else [])) body)"

definition add_note :: "string \<Rightarrow> scanned_file \<Rightarrow> scanned_file" where
  "add_note n sf = sf\<lparr>scan_notes := scan_notes sf @ [n]\<rparr>"

text \<open>The \<open>match\<close> on the kind of a block.\<close>

definition collect_block ::
  "'x hcl_reader \<Rightarrow> file_path \<Rightarrow> string \<Rightarrow> string list \<Rightarrow> 'x hcl_structure list \<Rightarrow> source_span
     \<Rightarrow> scanned_file \<Rightarrow> scanner_error + scanned_file"
where
  "collect_block h path kind labels body span sf =
     (if kind = ''resource'' then
        bindE (parse_resource h labels body span path) (\<lambda>r. Inr (sf\<lparr>sf_resources := sf_resources sf @ [r]\<rparr>))
      else if kind = ''data'' then
        bindE (parse_data_source h labels body span path) (\<lambda>r. Inr (sf\<lparr>data_sources := data_sources sf @ [r]\<rparr>))
      else if kind = ''provider'' then
        bindE (parse_provider h labels body span path) (\<lambda>r. Inr (sf\<lparr>providers := providers sf @ [r]\<rparr>))
      else if kind = ''module'' then
        bindE (parse_module h labels body span path) (\<lambda>r. Inr (sf\<lparr>modules := modules sf @ [r]\<rparr>))
      else if kind = ''variable'' then
        bindE (parse_variable h labels body span path) (\<lambda>r. Inr (sf\<lparr>variables := variables sf @ [r]\<rparr>))
      else if kind = ''output'' then
        bindE (parse_output h labels body span path) (\<lambda>r. Inr (sf\<lparr>outputs := outputs sf @ [r]\<rparr>))
      else if kind = ''terraform'' \<or> kind = ''locals'' then
        Inr (add_note (kind @ '' block (deferred to P-05)'') sf)
      else Inr (add_note (''unknown block kind: '' @ kind) sf))"

definition process_block ::
  "'x hcl_reader \<Rightarrow> file_path \<Rightarrow> string \<Rightarrow> string \<Rightarrow> hcl_label list \<Rightarrow> 'x hcl_structure list
     \<Rightarrow> scanned_file \<Rightarrow> scanner_error + scanned_file"
where
  "process_block h path content kind ls body sf =
     (let labels = map label_to_string ls; span = approx_span content kind path in
      if kind = ''dynamic''
      then Inl (UnsupportedFeature ''dynamic'' path (span_line span)
             ''dynamic blocks require runtime expansion; deferred to Stage 5'')
      else bindE (collect_block h path kind labels body span sf) (\<lambda>sf'.
           bindE (check_no_nested_dynamic path content body) (\<lambda>_.
           Inr (sf'\<lparr>scan_notes := scan_notes sf' @ stage5_notes body\<rparr>))))"

fun process_body ::
  "'x hcl_reader \<Rightarrow> file_path \<Rightarrow> string \<Rightarrow> 'x hcl_structure list \<Rightarrow> scanned_file \<Rightarrow> scanner_error + scanned_file"
where
  "process_body h path content [] sf = Inr sf"
| "process_body h path content (HAttribute k x # ss) sf =
     process_body h path content ss (add_note ''top-level attribute outside block'' sf)"
| "process_body h path content (HBlock kind ls body # ss) sf =
     bindE (process_block h path content kind ls body sf) (process_body h path content ss)"

definition parse_file :: "'x hcl_reader \<Rightarrow> file_path \<Rightarrow> string \<Rightarrow> scanner_error + scanned_file" where
  "parse_file h path content =
     (case hcl_from_str h content of
        Inl message \<Rightarrow> Inl (Parse path message)
      | Inr body \<Rightarrow> process_body h path content body (scanned_file_new path))"

section \<open>The walk\<close>

text \<open>
  What \<open>WalkDir\<close> yields below a directory, in its order: entries with their lossy name, whether the
  path is a file, its extension, and what is below; or an I/O error.
\<close>

datatype walk_node =
    Walk_error file_path
  | Walk_entry string bool "string option" "walk_node list"

definition is_hidden_or_skipped :: "string \<Rightarrow> bool" where
  "is_hidden_or_skipped name \<longleftrightarrow> starts_with ''.'' name \<or> name = ''.terraform'' \<or> name = ''target'' \<or> name = ''node_modules''"

fun walk_files :: "file_path \<Rightarrow> walk_node list \<Rightarrow> scanner_error + file_path list" where
  "walk_files dir [] = Inr []"
| "walk_files dir (Walk_error p # ns) = Inl (Scanner_Io p)"
| "walk_files dir (Walk_entry name is_file ext below # ns) =
     (if is_hidden_or_skipped name then walk_files dir ns
      else bindE (walk_files (dir @ [name]) below) (\<lambda>fs.
           bindE (walk_files dir ns) (\<lambda>fs'.
           Inr ((if is_file \<and> ext = Some ''tf'' then [dir @ [name]] else []) @ fs @ fs'))))"

text \<open>The root itself is never skipped; \<open>None\<close> when it does not exist.\<close>

definition discover_tf_files :: "file_path \<Rightarrow> (bool \<times> string option \<times> walk_node list) option \<Rightarrow> scanner_error + file_path list" where
  "discover_tf_files root tree =
     (case tree of
        None \<Rightarrow> Inl (Scanner_Io root)
      | Some (is_file, ext, below) \<Rightarrow>
          bindE (walk_files root below) (\<lambda>fs.
            Inr ((if is_file \<and> ext = Some ''tf'' then [root] else []) @ fs)))"

fun parse_all ::
  "'x hcl_reader \<Rightarrow> (file_path \<Rightarrow> string option) \<Rightarrow> file_path list \<Rightarrow> scanner_error + scanned_file list"
where
  "parse_all h read_file [] = Inr []"
| "parse_all h read_file (p # ps) =
     (case read_file p of
        None \<Rightarrow> Inl (Scanner_Io p)
      | Some content \<Rightarrow>
          bindE (parse_file h p content) (\<lambda>sf. bindE (parse_all h read_file ps) (\<lambda>sfs. Inr (sf # sfs))))"

definition scan_estate ::
  "'x hcl_reader \<Rightarrow> (file_path \<Rightarrow> string option) \<Rightarrow> file_path
     \<Rightarrow> (bool \<times> string option \<times> walk_node list) option \<Rightarrow> scanner_error + estate_inventory"
where
  "scan_estate h read_file root tree =
     bindE (discover_tf_files root tree) (\<lambda>files.
     bindE (parse_all h read_file files) (\<lambda>sfs. Inr \<lparr>root_dir = root, inv_files = sfs\<rparr>))"

section \<open>Which files are accepted\<close>

fun has_dynamic :: "'x hcl_structure list \<Rightarrow> bool" where
  "has_dynamic [] = False"
| "has_dynamic (HAttribute k x # ss) = has_dynamic ss"
| "has_dynamic (HBlock i ls b # ss) = (i = ''dynamic'' \<or> has_dynamic b \<or> has_dynamic ss)"

definition labels_ok :: "string \<Rightarrow> nat \<Rightarrow> bool" where
  "labels_ok kind n =
     (if kind = ''resource'' \<or> kind = ''data'' then n = 2
      else if kind = ''provider'' then n \<noteq> 0
      else if kind = ''module'' \<or> kind = ''variable'' \<or> kind = ''output'' then n = 1
      else True)"

fun blocks_of :: "'x hcl_structure list \<Rightarrow> (string \<times> string list \<times> 'x hcl_structure list) list" where
  "blocks_of [] = []"
| "blocks_of (HAttribute k x # ss) = blocks_of ss"
| "blocks_of (HBlock i ls b # ss) = (i, map label_to_string ls, b) # blocks_of ss"

definition of_kind :: "string \<Rightarrow> 'x hcl_structure list \<Rightarrow> (string list \<times> 'x hcl_structure list) list" where
  "of_kind kind body = map snd (filter (\<lambda>(k, _). k = kind) (blocks_of body))"

definition acceptable :: "'x hcl_structure list \<Rightarrow> bool" where
  "acceptable body \<longleftrightarrow> \<not> has_dynamic body \<and> list_all (\<lambda>(k, ls, _). labels_ok k (length ls)) (blocks_of body)"

lemma check_no_nested_dynamic_iff: "check_no_nested_dynamic path content ss = Inr () \<longleftrightarrow> \<not> has_dynamic ss"
  by (induction path content ss rule: check_no_nested_dynamic.induct) (auto simp: bindE_def split: sum.splits)

text \<open>The inventory of a body: per kind, one entry for each block, in order.\<close>

definition inventory_exact :: "'x hcl_reader \<Rightarrow> 'x hcl_structure list \<Rightarrow> scanned_file \<Rightarrow> bool" where
  "inventory_exact h body sf \<longleftrightarrow>
     list_all2 (\<lambda>(ls, b) r. ls = [resource_type r, r_name r] \<and> r_attributes r = body_attrs_to_map h b)
       (of_kind ''resource'' body) (sf_resources sf)
   \<and> list_all2 (\<lambda>(ls, b) r. ls = [data_type r, ds_name r] \<and> ds_attributes r = body_attrs_to_map h b)
       (of_kind ''data'' body) (data_sources sf)
   \<and> list_all2 (\<lambda>(ls, b) r. ls \<noteq> [] \<and> hd ls = provider_type r \<and> p_attributes r = body_attrs_to_map h b)
       (of_kind ''provider'' body) (providers sf)
   \<and> list_all2 (\<lambda>(ls, b) r. ls = [m_name r] \<and> m_attributes r = body_attrs_to_map h b)
       (of_kind ''module'' body) (modules sf)
   \<and> list_all2 (\<lambda>(ls, b) r. ls = [v_name r] \<and> v_default r = map_of (body_attrs_to_map h b) ''default'')
       (of_kind ''variable'' body) (variables sf)
   \<and> list_all2 (\<lambda>(ls, b) r. ls = [o_name r] \<and> value_expr r = map_of (body_attrs_to_map h b) ''value'')
       (of_kind ''output'' body) (outputs sf)"

lemma of_kind_simps [simp]:
  "of_kind kind [] = []"
  "of_kind kind (HAttribute k x # ss) = of_kind kind ss"
  "of_kind kind (HBlock i ls b # ss) = (if i = kind then [(map label_to_string ls, b)] else []) @ of_kind kind ss"
  by (simp_all add: of_kind_def)

lemma of_kind_append: "of_kind kind (ss @ ts) = of_kind kind ss @ of_kind kind ts"
proof (induction ss)
  case (Cons s ss)
  then show ?case by (cases s) auto
qed simp

lemma list_all2_snoc: "list_all2 P xs ys \<Longrightarrow> P x y \<Longrightarrow> list_all2 P (xs @ [x]) (ys @ [y])"
  by (simp add: list_all2_appendI)

lemmas entity_defs = parse_resource_def parse_data_source_def parse_provider_def parse_module_def
  parse_variable_def parse_output_def

lemma inventory_exact_notes [simp]: "inventory_exact h body (sf\<lparr>scan_notes := ns\<rparr>) = inventory_exact h body sf"
  by (simp add: inventory_exact_def)

lemma length_2E: "length ls = 2 \<Longrightarrow> (\<And>a b. ls = [a, b] \<Longrightarrow> P) \<Longrightarrow> P"
  by (auto simp: numeral_2_eq_2 length_Suc_conv)

lemma map_one: "length ls = Suc 0 \<Longrightarrow> map f ls = [f (ls ! 0)]"
  by (auto simp: length_Suc_conv)

lemma collect_block_exact:
  assumes "collect_block h path kind (map label_to_string ls) b span sf = Inr sf'" "inventory_exact h body sf"
  shows "inventory_exact h (body @ [HBlock kind ls b]) sf'"
proof -
  let ?ls = "map label_to_string ls"
  consider "kind = ''resource''" | "kind = ''data''" | "kind = ''provider''" | "kind = ''module''"
    | "kind = ''variable''" | "kind = ''output''"
    | "kind \<noteq> ''resource''" "kind \<noteq> ''data''" "kind \<noteq> ''provider''" "kind \<noteq> ''module''"
      "kind \<noteq> ''variable''" "kind \<noteq> ''output''" by blast
  then show ?thesis
  proof cases
    case 1
    with assms(1) have "length ?ls = 2" "sf' = sf\<lparr>sf_resources := sf_resources sf @ [\<lparr>resource_type = ?ls ! 0,
        r_name = ?ls ! 1, r_attributes = body_attrs_to_map h b, r_span = span\<rparr>]\<rparr>"
      by (auto simp: collect_block_def parse_resource_def split: if_splits)
    with assms(2) 1 show ?thesis
      by (elim length_2E) (simp add: inventory_exact_def of_kind_append list_all2_snoc)
  next
    case 2
    with assms(1) have "length ?ls = 2" "sf' = sf\<lparr>data_sources := data_sources sf @ [\<lparr>data_type = ?ls ! 0,
        ds_name = ?ls ! 1, ds_attributes = body_attrs_to_map h b, ds_span = span\<rparr>]\<rparr>"
      by (auto simp: collect_block_def parse_data_source_def split: if_splits)
    with assms(2) 2 show ?thesis
      by (elim length_2E) (simp add: inventory_exact_def of_kind_append list_all2_snoc)
  next
    case 3
    with assms(1) obtain r where r: "parse_provider h ?ls b span path = Inr r" "sf' = sf\<lparr>providers := providers sf @ [r]\<rparr>"
      by (auto simp: collect_block_def bindE_eq_Inr)
    then have "?ls \<noteq> [] \<and> hd ?ls = provider_type r \<and> p_attributes r = body_attrs_to_map h b"
      by (auto simp: parse_provider_def Let_def hd_conv_nth split: if_splits)
    with assms(2) 3 r(2) show ?thesis by (simp add: inventory_exact_def of_kind_append list_all2_snoc)
  next
    case 4
    with assms(1) obtain r where r: "parse_module h ?ls b span path = Inr r" "sf' = sf\<lparr>modules := modules sf @ [r]\<rparr>"
      by (auto simp: collect_block_def bindE_eq_Inr)
    then have "?ls = [m_name r] \<and> m_attributes r = body_attrs_to_map h b"
      by (auto simp: parse_module_def Let_def hd_conv_nth split: if_splits simp: map_one)
    with assms(2) 4 r(2) show ?thesis by (simp add: inventory_exact_def of_kind_append list_all2_snoc)
  next
    case 5
    with assms(1) obtain r where r: "parse_variable h ?ls b span path = Inr r" "sf' = sf\<lparr>variables := variables sf @ [r]\<rparr>"
      by (auto simp: collect_block_def bindE_eq_Inr)
    then have "?ls = [v_name r] \<and> v_default r = map_of (body_attrs_to_map h b) ''default''"
      by (auto simp: parse_variable_def Let_def hd_conv_nth split: if_splits simp: map_one)
    with assms(2) 5 r(2) show ?thesis by (simp add: inventory_exact_def of_kind_append list_all2_snoc)
  next
    case 6
    with assms(1) obtain r where r: "parse_output h ?ls b span path = Inr r" "sf' = sf\<lparr>outputs := outputs sf @ [r]\<rparr>"
      by (auto simp: collect_block_def bindE_eq_Inr)
    then have "?ls = [o_name r] \<and> value_expr r = map_of (body_attrs_to_map h b) ''value''"
      by (auto simp: parse_output_def Let_def hd_conv_nth split: if_splits simp: map_one)
    with assms(2) 6 r(2) show ?thesis by (simp add: inventory_exact_def of_kind_append list_all2_snoc)
  next
    case 7
    have "\<exists>n. sf' = add_note n sf"
    proof (cases "kind = ''terraform'' \<or> kind = ''locals''")
      case True
      with assms(1) 7 have "Inr sf' = (Inr (add_note (kind @ '' block (deferred to P-05)'') sf) :: scanner_error + _)"
        unfolding collect_block_def by (simp only: if_False if_True)
      then show ?thesis by blast
    next
      case False
      with assms(1) 7 have "Inr sf' = (Inr (add_note (''unknown block kind: '' @ kind) sf) :: scanner_error + _)"
        unfolding collect_block_def by (simp only: if_False if_True)
      then show ?thesis by blast
    qed
    then obtain n where "sf' = add_note n sf" ..
    with assms(2) 7 show ?thesis by (simp add: inventory_exact_def of_kind_append add_note_def)
  qed
qed

lemma collect_block_labels:
  "(\<exists>sf'. collect_block h path kind labels b span sf = Inr sf') \<longleftrightarrow> labels_ok kind (length labels)"
  by (auto simp: collect_block_def entity_defs labels_ok_def Let_def)

lemma process_body_exact:
  "process_body h path content ss sf = Inr sf' \<Longrightarrow> inventory_exact h body sf \<Longrightarrow> inventory_exact h (body @ ss) sf'"
proof (induction h path content ss sf arbitrary: body rule: process_body.induct)
  case (2 h path content k x ss sf)
  have "inventory_exact h (body @ [HAttribute k x]) (add_note ''top-level attribute outside block'' sf)"
    using "2.prems"(2) by (simp add: inventory_exact_def of_kind_append add_note_def)
  from "2.IH" [OF _ this] "2.prems"(1) show ?case by simp
next
  case (3 h path content kind ls b ss sf)
  from "3.prems"(1) obtain sf1 where
    one: "process_block h path content kind ls b sf = Inr sf1" and rest: "process_body h path content ss sf1 = Inr sf'"
    by (auto simp: bindE_eq_Inr)
  from one obtain sf0 where
    c: "collect_block h path kind (map label_to_string ls) b (approx_span content kind path) sf = Inr sf0"
    "sf1 = sf0\<lparr>scan_notes := scan_notes sf0 @ stage5_notes b\<rparr>"
    by (auto simp: process_block_def Let_def bindE_eq_Inr split: if_splits)
  from collect_block_exact [OF c(1) "3.prems"(2)] c(2)
  have "inventory_exact h (body @ [HBlock kind ls b]) sf1" by simp
  from "3.IH" [OF rest this] show ?case by simp
qed simp

lemma bindE_ok: "(\<exists>y. bindE m k = Inr y) \<longleftrightarrow> (\<exists>x. m = Inr x \<and> (\<exists>y. k x = Inr y))"
  by (cases m) auto

lemma process_block_ok:
  "(\<exists>sf'. process_block h path content kind ls b sf = Inr sf') \<longleftrightarrow>
     kind \<noteq> ''dynamic'' \<and> labels_ok kind (length ls) \<and> \<not> has_dynamic b"
proof -
  let ?c = "collect_block h path kind (map label_to_string ls) b (approx_span content kind path) sf"
  have "(\<exists>x. ?c = Inr x) \<longleftrightarrow> labels_ok kind (length ls)"
    using collect_block_labels [of h path kind "map label_to_string ls" b] by simp
  then show ?thesis
    by (auto simp: process_block_def Let_def bindE_eq_Inr check_no_nested_dynamic_iff)
qed

lemma process_body_ok:
  "(\<exists>sf'. process_body h path content ss sf = Inr sf') \<longleftrightarrow> acceptable ss"
proof (induction h path content ss sf rule: process_body.induct)
  case (3 h path content kind ls b ss sf)
  show ?case
  proof (cases "process_block h path content kind ls b sf")
    case (Inl e)
    then have "\<not> (kind \<noteq> ''dynamic'' \<and> labels_ok kind (length ls) \<and> \<not> has_dynamic b)"
      using process_block_ok [of h path content kind ls b sf] by simp
    with Inl show ?thesis by (auto simp: acceptable_def)
  next
    case (Inr sf1)
    then have "kind \<noteq> ''dynamic'' \<and> labels_ok kind (length ls) \<and> \<not> has_dynamic b"
      using process_block_ok [of h path content kind ls b sf] by auto
    with Inr "3.IH" [of sf1] show ?thesis by (auto simp: acceptable_def)
  qed
qed (auto simp: acceptable_def)

text \<open>The \<open>.tf\<close> files below a directory that are not below anything skipped.\<close>

inductive tf_below :: "file_path \<Rightarrow> walk_node list \<Rightarrow> file_path \<Rightarrow> bool" where
  here: "Walk_entry name True (Some ''tf'') below \<in> set ns \<Longrightarrow> \<not> is_hidden_or_skipped name \<Longrightarrow> tf_below dir ns (dir @ [name])"
| below: "Walk_entry name is_file ext below \<in> set ns \<Longrightarrow> \<not> is_hidden_or_skipped name
    \<Longrightarrow> tf_below (dir @ [name]) below p \<Longrightarrow> tf_below dir ns p"

inductive_simps tf_below_simps: "tf_below dir ns p"

lemma tf_below_Nil [simp]: "\<not> tf_below dir [] p"
  by (subst tf_below_simps) simp

lemma tf_below_more: "tf_below dir ns p \<Longrightarrow> tf_below dir (n # ns) p"
  by (erule tf_below.cases) (auto intro: tf_below.intros)

lemma tf_below_Cons:
  "tf_below dir (Walk_entry name is_file ext below # ns) p \<longleftrightarrow>
     (\<not> is_hidden_or_skipped name \<and> (is_file \<and> ext = Some ''tf'' \<and> p = dir @ [name] \<or> tf_below (dir @ [name]) below p))
     \<or> tf_below dir ns p" (is "?l \<longleftrightarrow> ?r")
proof
  assume ?l
  then show ?r by (rule tf_below.cases) (auto intro: tf_below.intros)
next
  assume ?r
  then show ?l by (auto intro: tf_below.here tf_below.below tf_below_more)
qed

lemma walk_files_exact: "walk_files dir ns = Inr fs \<Longrightarrow> set fs = {p. tf_below dir ns p}"
proof (induction dir ns arbitrary: fs rule: walk_files.induct)
  case (3 dir name is_file ext below ns)
  then show ?case
    by (fastforce simp: tf_below_Cons bindE_eq_Inr split: if_splits)
qed auto

lemma process_block_path: "process_block h path content kind ls b sf = Inr sf' \<Longrightarrow> sf_path sf' = sf_path sf"
proof -
  have c: "case collect_block h path kind labels b span sf of Inl _ \<Rightarrow> True | Inr sf' \<Rightarrow> sf_path sf' = sf_path sf" for labels span
    by (simp add: collect_block_def bindE_def add_note_def split: sum.split)
  assume "process_block h path content kind ls b sf = Inr sf'"
  with c [of "map label_to_string ls" "approx_span content kind path"] show ?thesis
    by (auto simp: process_block_def Let_def bindE_eq_Inr split: if_splits sum.splits)
qed

lemma process_body_path: "process_body h path content ss sf = Inr sf' \<Longrightarrow> sf_path sf' = sf_path sf"
proof (induction h path content ss sf rule: process_body.induct)
  case (3 h path content kind ls b ss sf)
  then show ?case by (auto simp: bindE_eq_Inr dest: process_block_path)
qed (auto simp: add_note_def)

definition scanned_exactly :: "'x hcl_reader \<Rightarrow> (file_path \<Rightarrow> string option) \<Rightarrow> scanned_file \<Rightarrow> bool" where
  "scanned_exactly h read_file sf \<longleftrightarrow> (\<exists>content body. read_file (sf_path sf) = Some content
     \<and> hcl_from_str h content = Inr body \<and> acceptable body \<and> inventory_exact h body sf)"

lemma inventory_exact_new: "inventory_exact h [] (scanned_file_new path)"
  by (simp add: inventory_exact_def scanned_file_new_def)

section \<open>Properties\<close>

text \<open>C20. A file is accepted exactly when it parses, has no \<open>dynamic\<close> block at any depth and every block
  of a known kind has the labels that kind needs; and the inventory of an accepted file has, per kind
  and in order, one entry for every top-level block, with its labels and attributes. A rejected file
  is rejected for one of those reasons.\<close>

theorem scan_file_exact:
  "case parse_file h path content of
     Inr sf \<Rightarrow> (\<exists>body. hcl_from_str h content = Inr body \<and> acceptable body \<and> inventory_exact h body sf)
   | Inl e \<Rightarrow> (case hcl_from_str h content of
                Inl m \<Rightarrow> e = Parse path m
              | Inr body \<Rightarrow> \<not> acceptable body)"
proof (cases "hcl_from_str h content")
  case (Inr body)
  show ?thesis
  proof (cases "process_body h path content body (scanned_file_new path)")
    case (Inl e)
    with Inr process_body_ok [of h path content body "scanned_file_new path"] show ?thesis
      by (simp add: parse_file_def)
  next
    case sf: (Inr sf)
    with Inr process_body_ok [of h path content body "scanned_file_new path"]
      process_body_exact [OF sf inventory_exact_new] show ?thesis by (auto simp: parse_file_def)
  qed
qed (simp add: parse_file_def)

lemma parse_all_exact:
  "parse_all h read_file ps = Inr sfs \<Longrightarrow> map sf_path sfs = ps \<and> list_all (scanned_exactly h read_file) sfs"
proof (induction h read_file ps arbitrary: sfs rule: parse_all.induct)
  case (2 h read_file p ps)
  from "2.prems" obtain content sf rest where
    c: "read_file p = Some content" "parse_file h p content = Inr sf" "parse_all h read_file ps = Inr rest" "sfs = sf # rest"
    by (auto simp: bindE_eq_Inr split: option.splits)
  from c(2) obtain body where body: "hcl_from_str h content = Inr body"
    "process_body h p content body (scanned_file_new p) = Inr sf"
    by (auto simp: parse_file_def split: sum.splits)
  then have "acceptable body" "sf_path sf = p" "inventory_exact h body sf"
    using process_body_ok [of h p content body "scanned_file_new p"] process_body_path [OF body(2)]
      process_body_exact [OF body(2) inventory_exact_new] by (auto simp: scanned_file_new_def)
  with c body(1) "2.IH" [OF c(1,3)] show ?case by (auto simp: scanned_exactly_def)
qed auto


section \<open>Witnesses\<close>

text \<open>A reader whose files hold one block named by their content.\<close>

definition wit_reader :: "unit hcl_reader" where
  "wit_reader = \<lparr>hcl_from_str = (\<lambda>s. if s = [] then Inl ''empty'' else Inr [HBlock ''resource'' [Label_string ''aws_vpc'', Label_string s] []]),
     expr_to_string = (\<lambda>_. []), debug_strings = concat\<rparr>"

definition wit_tree :: "walk_node list" where
  "wit_tree = [Walk_entry ''main.tf'' True (Some ''tf'') [],
     Walk_entry ''.terraform'' False None [Walk_entry ''hidden.tf'' True (Some ''tf'') []],
     Walk_entry ''net'' False None [Walk_entry ''vpc.tf'' True (Some ''tf'') [], Walk_entry ''README.md'' True (Some ''md'') []]]"

lemma wit_parse: "c \<noteq> [] \<Longrightarrow> \<exists>sf. parse_file wit_reader p c = Inr sf \<and> sf_path sf = p"
  by (simp add: parse_file_def wit_reader_def process_block_def collect_block_def parse_resource_def
      scanned_file_new_def Let_def)

lemma wit_discover:
  "discover_tf_files [''infra''] (Some (False, None, wit_tree)) = Inr [[''infra'', ''main.tf''], [''infra'', ''net'', ''vpc.tf'']]"
  unfolding discover_tf_files_def wit_tree_def by (simp add: is_hidden_or_skipped_def starts_with_def)


end
