(* ===== verification/Knowledge.thy ===== *)
theory Knowledge
  imports Schema_Store "HOL-Library.Multiset"
begin

text \<open>
  \<open>libs/knowledge/src/knowledge_service.rs\<close>, \<open>vector_store.rs\<close> and the trait of \<open>embedding.rs\<close>: the
  retrieval layer. Schemas go into the schema store, one vector per resource type goes into the
  vector store, and a query comes back as the best-scoring resource types with their schemas. The
  embedding model and the registry are parameters; \<open>f32\<close> values are bit patterns whose comparison
  is computed and whose arithmetic is a parameter. The lemmas relate the two stores: what a row
  refers to is always cached, so retrieval never dangles.
\<close>

section \<open>Single-precision floats\<close>

type_synonym f32 = "32 word"

definition f32_magnitude :: "f32 \<Rightarrow> nat" where
  "f32_magnitude x = unat x mod 2 ^ 31"

definition f32_is_nan :: "f32 \<Rightarrow> bool" where
  "f32_is_nan x \<longleftrightarrow> 0x7F800000 < f32_magnitude x"

definition f32_key :: "f32 \<Rightarrow> int" where
  "f32_key x = (if 2 ^ 31 \<le> unat x then - int (f32_magnitude x) else int (f32_magnitude x))"

definition f32_less :: "f32 \<Rightarrow> f32 \<Rightarrow> bool" where
  "f32_less x y \<longleftrightarrow> \<not> f32_is_nan x \<and> \<not> f32_is_nan y \<and> f32_key x < f32_key y"

record fpu =
  f32_mul :: "f32 \<Rightarrow> f32 \<Rightarrow> f32"
  f32_sum :: "f32 list \<Rightarrow> f32"

section \<open>The vector store\<close>

datatype embedding_error = NotConfigured string | Embedding_Network string | Model string

datatype vector_store_error =
    DimensionMismatch nat nat
  | Embedding embedding_error
  | Vector_NotFound string

record vector_row =
  vr_id :: string
  vr_embedding :: "f32 list"
  vr_metadata :: "(string, string) btree"

record vector_hit =
  vh_id :: string
  vh_score :: f32
  vh_metadata :: "(string, string) btree"

record vector_store =
  vs_dim :: nat
  vs_rows :: "vector_row list"

definition vector_store_new :: "nat \<Rightarrow> vector_store" where
  "vector_store_new dim = \<lparr>vs_dim = dim, vs_rows = []\<rparr>"

definition put_row :: "vector_row \<Rightarrow> vector_row list \<Rightarrow> vector_row list" where
  "put_row new_row rows =
     (if find (\<lambda>r. vr_id r = vr_id new_row) rows \<noteq> None
      then update_first (\<lambda>r. vr_id r = vr_id new_row) (\<lambda>_. new_row) rows
      else rows @ [new_row])"

definition upsert :: "vector_row list \<Rightarrow> vector_store \<Rightarrow> vector_store_error + vector_store" where
  "upsert rows st =
     (case find (\<lambda>r. length (vr_embedding r) \<noteq> vs_dim st) rows of
        Some r \<Rightarrow> Inl (DimensionMismatch (vs_dim st) (length (vr_embedding r)))
      | None \<Rightarrow> Inr (st\<lparr>vs_rows := fold put_row rows (vs_rows st)\<rparr>))"

definition cosine_similarity :: "fpu \<Rightarrow> f32 list \<Rightarrow> f32 list \<Rightarrow> f32" where
  "cosine_similarity fpu a b = f32_sum fpu (map (\<lambda>(x, y). f32_mul fpu x y) (zip a b))"

text \<open>The stable sort by descending score, for scores that compare.\<close>

fun insert_hit :: "vector_hit \<Rightarrow> vector_hit list \<Rightarrow> vector_hit list" where
  "insert_hit h [] = [h]"
| "insert_hit h (x # xs) = (if f32_less (vh_score h) (vh_score x) then x # insert_hit h xs else h # x # xs)"

definition sort_hits :: "vector_hit list \<Rightarrow> vector_hit list" where
  "sort_hits hits = foldr insert_hit hits []"

definition score_row :: "fpu \<Rightarrow> f32 list \<Rightarrow> vector_row \<Rightarrow> vector_hit" where
  "score_row fpu query r =
     \<lparr>vh_id = vr_id r, vh_score = cosine_similarity fpu query (vr_embedding r), vh_metadata = vr_metadata r\<rparr>"

definition vector_search :: "fpu \<Rightarrow> f32 list \<Rightarrow> nat \<Rightarrow> vector_store \<Rightarrow> vector_store_error + vector_hit list" where
  "vector_search fpu query top_k st =
     (if length query \<noteq> vs_dim st then Inl (DimensionMismatch (vs_dim st) (length query))
      else Inr (take top_k (sort_hits (map (score_row fpu query) (vs_rows st)))))"

section \<open>The service\<close>

datatype registry_error =
    Registry_Http string
  | Registry_NotFound string string
  | SchemaFetch string
  | TerraformUnavailable string

datatype knowledge_error = Schema schema_error | Vector vector_store_error | Registry registry_error

text \<open>The services it is given: an embedding model and a schema fetcher, over an arbitrary world.\<close>

record 'w services =
  embed_batch :: "string list \<Rightarrow> ('w, embedding_error, f32 list list) act"
  fetch_registry :: "string \<Rightarrow> string \<Rightarrow> string \<Rightarrow> ('w, registry_error, provider_schema) act"
  float_unit :: fpu

definition embed :: "'w services \<Rightarrow> string \<Rightarrow> ('w, embedding_error, f32 list) act" where
  "embed svc text =
     bindA (embed_batch svc [text]) (\<lambda>v.
       if v = [] then throwA (Model ''embed_batch returned empty result'') else retA (last v))"

record 'w knowledge =
  schemas :: local_schema_store
  vectors :: vector_store
  world :: 'w

definition on_world :: "('w, 'e, 'a) act \<Rightarrow> ('w knowledge, 'e, 'a) act" where
  "on_world m k = (case m (world k) of (r, w) \<Rightarrow> (r, k\<lparr>world := w\<rparr>))"

definition store_schema :: "provider_schema \<Rightarrow> ('w knowledge, knowledge_error, bool) act" where
  "store_schema s k = (case cache_schema s (schemas k) of (b, st) \<Rightarrow> (Inr b, k\<lparr>schemas := st\<rparr>))"

definition upsert_rows :: "vector_row list \<Rightarrow> ('w knowledge, knowledge_error, unit) act" where
  "upsert_rows rows k =
     (case upsert rows (vectors k) of
        Inl e \<Rightarrow> (Inl (Vector e), k)
      | Inr st \<Rightarrow> (Inr (), k\<lparr>vectors := st\<rparr>))"

definition embedding_text :: "string \<times> resource_schema \<Rightarrow> string" where
  "embedding_text = (\<lambda>(rname, rs). rname @ '': '' @
     (case rs_description rs of Some d \<Rightarrow> d | None \<Rightarrow> ''(no description)''))"

definition row_id :: "provider_schema \<Rightarrow> string \<Rightarrow> string" where
  "row_id schema rname = ps_provider schema @ ''@'' @ ps_version schema @ ''::'' @ rname"

definition row_metadata :: "provider_schema \<Rightarrow> string \<Rightarrow> (string, string) btree" where
  "row_metadata schema rname =
     bt_insert ''resource_type'' rname (bt_insert ''version'' (ps_version schema)
       (bt_insert ''provider'' (ps_provider schema) []))"

definition schema_rows :: "provider_schema \<Rightarrow> f32 list list \<Rightarrow> vector_row list" where
  "schema_rows schema vecs =
     (let names = map fst (ps_resources schema); ids = map (row_id schema) names in
      map (\<lambda>((i, v), rname). \<lparr>vr_id = i, vr_embedding = v, vr_metadata = row_metadata schema rname\<rparr>)
        (zip (zip ids vecs) names))"

text \<open>What both \<open>sync_provider\<close> and \<open>seed_provider\<close> do with a schema.\<close>

definition index_schema :: "'w services \<Rightarrow> provider_schema \<Rightarrow> ('w knowledge, knowledge_error, nat) act" where
  "index_schema svc schema =
     bindA (store_schema schema) (\<lambda>_.
       let resource_count = length (ps_resources schema);
           texts = map embedding_text (ps_resources schema) in
       if texts = [] then retA 0
       else bindA (map_errA (Vector \<circ> Embedding) (on_world (embed_batch svc texts))) (\<lambda>vecs.
            bindA (upsert_rows (schema_rows schema vecs)) (\<lambda>_. retA resource_count)))"

definition sync_provider ::
  "'w services \<Rightarrow> string \<Rightarrow> string \<Rightarrow> string \<Rightarrow> ('w knowledge, knowledge_error, nat) act"
where
  "sync_provider svc namespace name version =
     bindA (map_errA Registry (on_world (fetch_registry svc namespace name version))) (index_schema svc)"

definition seed_provider :: "'w services \<Rightarrow> provider_schema \<Rightarrow> ('w knowledge, knowledge_error, nat) act" where
  "seed_provider svc schema = index_schema svc schema"

text \<open>
  The bundle directory as the walk sees it, in directory order. \<open>ve_schema\<close> is the parsed
  \<open>schema.json\<close>, \<open>None\<close> when it cannot be read or parsed; \<open>pe_versions\<close> is \<open>None\<close> when the provider
  directory cannot be read; \<open>pe_name\<close> is \<open>None\<close> when the name is not UTF-8.
\<close>

record version_entry =
  ve_is_dir :: bool
  ve_has_file :: bool
  ve_schema :: "provider_schema option"

record provider_entry =
  pe_is_dir :: bool
  pe_name :: "string option"
  pe_versions :: "version_entry list option"

datatype seed_bundle = No_dir | Unreadable_dir | Bundle "provider_entry list"

fun seed_versions ::
  "'w services \<Rightarrow> version_entry list \<Rightarrow> nat \<Rightarrow> ('w knowledge, knowledge_error, nat) act"
where
  "seed_versions svc [] total_count = retA total_count"
| "seed_versions svc (v # vs) total_count =
     (if \<not> ve_is_dir v \<or> \<not> ve_has_file v then seed_versions svc vs total_count
      else case ve_schema v of
             None \<Rightarrow> seed_versions svc vs total_count
           | Some schema \<Rightarrow> bindA (seed_provider svc schema) (\<lambda>n. seed_versions svc vs (total_count + n)))"

definition accepted_dir :: "provider_entry \<Rightarrow> bool" where
  "accepted_dir p \<longleftrightarrow> pe_is_dir p \<and>
     (case pe_name p of None \<Rightarrow> False | Some n \<Rightarrow> \<not> starts_with ''.'' n \<and> n \<noteq> ''scripts'')"

fun seed_providers ::
  "'w services \<Rightarrow> provider_entry list \<Rightarrow> nat \<Rightarrow> ('w knowledge, knowledge_error, nat) act"
where
  "seed_providers svc [] total_count = retA total_count"
| "seed_providers svc (p # ps) total_count =
     (if \<not> accepted_dir p then seed_providers svc ps total_count
      else case pe_versions p of
             None \<Rightarrow> seed_providers svc ps total_count
           | Some vs \<Rightarrow> bindA (seed_versions svc vs total_count) (seed_providers svc ps))"

fun seed_from_bundle :: "'w services \<Rightarrow> seed_bundle \<Rightarrow> ('w knowledge, knowledge_error, nat) act" where
  "seed_from_bundle svc No_dir = retA 0"
| "seed_from_bundle svc Unreadable_dir = throwA (Schema Schema_Storage)"
| "seed_from_bundle svc (Bundle ps) = seed_providers svc ps 0"

datatype fetch_outcome = AlreadyCached | Fetched | FetchFailed registry_error

type_synonym provider_report = "string \<times> string \<times> nat \<times> fetch_outcome"

record first_launch_report =
  seed_resource_count :: nat
  per_provider :: "provider_report list"

definition launch_one ::
  "'w services \<Rightarrow> string \<times> string \<times> string \<Rightarrow> ('w knowledge, knowledge_error, provider_report) act"
where
  "launch_one svc = (\<lambda>(namespace, name, version) k.
     case fetch_provider_schema (schemas k) name version of
       Inr _ \<Rightarrow> (Inr (name, version, 0, AlreadyCached), k)
     | Inl _ \<Rightarrow>
         (case on_world (fetch_registry svc namespace name version) k of
            (Inr schema, k') \<Rightarrow>
              bindA (seed_provider svc schema) (\<lambda>n. retA (name, version, n, Fetched)) k'
          | (Inl err, k') \<Rightarrow> (Inr (name, version, 0, FetchFailed err), k')))"

fun launch_all ::
  "'w services \<Rightarrow> (string \<times> string \<times> string) list \<Rightarrow> ('w knowledge, knowledge_error, provider_report list) act"
where
  "launch_all svc [] = retA []"
| "launch_all svc (p # ps) =
     bindA (launch_one svc p) (\<lambda>r. bindA (launch_all svc ps) (\<lambda>rs. retA (r # rs)))"

definition first_launch_sync ::
  "'w services \<Rightarrow> seed_bundle \<Rightarrow> (string \<times> string \<times> string) list \<Rightarrow> ('w knowledge, knowledge_error, first_launch_report) act"
where
  "first_launch_sync svc seed_dir providers_to_fetch =
     bindA (seed_from_bundle svc seed_dir) (\<lambda>seed_count.
     bindA (launch_all svc providers_to_fetch) (\<lambda>reports.
     retA \<lparr>seed_resource_count = seed_count, per_provider = reports\<rparr>))"

record resource_match =
  rm_provider :: string
  rm_provider_version :: string
  rm_resource_type :: string
  rm_schema :: resource_schema
  rm_similarity :: f32

definition metadata_or_empty :: "(string, string) btree \<Rightarrow> string \<Rightarrow> string" where
  "metadata_or_empty m key = (case map_of m key of Some v \<Rightarrow> v | None \<Rightarrow> [])"

fun resolve_hits ::
  "local_schema_store \<Rightarrow> vector_hit list \<Rightarrow> knowledge_error + resource_match list"
where
  "resolve_hits st [] = Inr []"
| "resolve_hits st (h # hs) =
     (let provider = metadata_or_empty (vh_metadata h) ''provider'';
          version = metadata_or_empty (vh_metadata h) ''version'';
          rtype = metadata_or_empty (vh_metadata h) ''resource_type'' in
      case fetch_provider_schema st provider version of
        Inl e \<Rightarrow> Inl (Schema e)
      | Inr schema \<Rightarrow>
          (case resolve_hits st hs of
             Inl e \<Rightarrow> Inl e
           | Inr ms \<Rightarrow>
               Inr (case map_of (ps_resources schema) rtype of
                      None \<Rightarrow> ms
                    | Some rs \<Rightarrow> \<lparr>rm_provider = provider, rm_provider_version = version,
                        rm_resource_type = rtype, rm_schema = rs, rm_similarity = vh_score h\<rparr> # ms)))"

definition find_similar_resources ::
  "'w services \<Rightarrow> string \<Rightarrow> nat \<Rightarrow> ('w knowledge, knowledge_error, resource_match list) act"
where
  "find_similar_resources svc query top_k =
     bindA (map_errA (Vector \<circ> Embedding) (on_world (embed svc query))) (\<lambda>qvec k.
       case vector_search (float_unit svc) qvec top_k (vectors k) of
         Inl e \<Rightarrow> (Inl (Vector e), k)
       | Inr hits \<Rightarrow> (resolve_hits (schemas k) hits, k))"

definition find_similar_in_provider ::
  "'w services \<Rightarrow> string \<Rightarrow> string \<Rightarrow> nat \<Rightarrow> ('w knowledge, knowledge_error, resource_match list) act"
where
  "find_similar_in_provider svc query target_provider top_k =
     bindA (find_similar_resources svc query (top_k * 4)) (\<lambda>raw.
       retA (take top_k (filter (\<lambda>m. rm_provider m = target_provider) raw)))"

definition search_curated_mappings ::
  "string \<Rightarrow> nat \<Rightarrow> ('w knowledge, knowledge_error, string list) act"
where
  "search_curated_mappings query top_k k = (Inr (store_search_mappings (schemas k) query top_k), k)"

definition fetch_schema :: "string \<Rightarrow> string \<Rightarrow> ('w knowledge, knowledge_error, provider_schema) act" where
  "fetch_schema provider version k =
     ((case fetch_provider_schema (schemas k) provider version of Inl e \<Rightarrow> Inl (Schema e) | Inr s \<Rightarrow> Inr s), k)"


section \<open>The rows\<close>

interpretation vector_rows: keyed_table vr_id put_row
proof
  have none: "find (\<lambda>r. vr_id r = i) rows = None \<longleftrightarrow> i \<notin> vr_id ` set rows" for i rows
    by (induction rows) auto
  fix x xs
  show "vr_id x \<notin> vr_id ` set xs \<Longrightarrow> put_row x xs = xs @ [x]" by (simp add: put_row_def none)
  show "vr_id x \<in> vr_id ` set xs \<Longrightarrow> put_row x xs = update_first (\<lambda>y. vr_id y = vr_id x) (\<lambda>_. x) xs"
    using none [of "vr_id x" xs] by (simp add: put_row_def)
qed

section \<open>Sorting\<close>

lemma mset_sort_hits: "mset (sort_hits hits) = mset hits"
proof -
  have "mset (insert_hit h hs) = add_mset h (mset hs)" for h hs by (induction hs) auto
  then show ?thesis unfolding sort_hits_def by (induction hits) simp_all
qed

definition descending :: "vector_hit list \<Rightarrow> bool" where
  "descending hits \<longleftrightarrow> sorted_wrt (\<lambda>a b. \<not> f32_less (vh_score a) (vh_score b)) hits"

lemma descending_sort_hits:
  assumes "\<And>h. h \<in> set hits \<Longrightarrow> \<not> f32_is_nan (vh_score h)"
  shows "descending (sort_hits hits)"
proof -
  have set_ins: "set (insert_hit h hs) = insert h (set hs)" for h hs by (induction hs) auto
  have ins: "sorted_wrt (\<lambda>a b. \<not> f32_less (vh_score a) (vh_score b)) (insert_hit h hs)"
    if "sorted_wrt (\<lambda>a b. \<not> f32_less (vh_score a) (vh_score b)) hs"
      "\<forall>x\<in>insert h (set hs). \<not> f32_is_nan (vh_score x)" for h hs
    using that
  proof (induction hs)
    case (Cons x hs)
    show ?case
    proof (cases "f32_less (vh_score h) (vh_score x)")
      case True
      with Cons show ?thesis by (auto simp: set_ins f32_less_def)
    next
      case False
      with Cons.prems show ?thesis by (force simp: f32_less_def)
    qed
  qed simp
  have "sorted_wrt (\<lambda>a b. \<not> f32_less (vh_score a) (vh_score b)) (sort_hits hits)
      \<and> set (sort_hits hits) = set hits"
    using assms unfolding sort_hits_def
    by (induction hits) (simp_all add: set_ins ins)
  then show ?thesis by (simp add: descending_def)
qed

section \<open>The two stores agree\<close>

definition row_resolves :: "local_schema_store \<Rightarrow> vector_row \<Rightarrow> bool" where
  "row_resolves st r \<longleftrightarrow> (\<exists>p v name. find_schema st p v \<noteq> None
     \<and> map_of (vr_metadata r) ''provider'' = Some p \<and> map_of (vr_metadata r) ''version'' = Some v
     \<and> map_of (vr_metadata r) ''resource_type'' = Some name)"

definition stores_agree :: "nat \<Rightarrow> 'w knowledge \<Rightarrow> bool" where
  "stores_agree dim k \<longleftrightarrow> vs_dim (vectors k) = dim \<and> distinct (map vr_id (vs_rows (vectors k)))
     \<and> list_all (\<lambda>r. length (vr_embedding r) = dim \<and> row_resolves (schemas k) r) (vs_rows (vectors k))"

lemma row_resolves_cache: "row_resolves st r \<Longrightarrow> row_resolves (snd (cache_schema s st)) r"
  unfolding row_resolves_def using local_store.pinned by fastforce

lemma map_of_row_metadata [simp]:
  "map_of (row_metadata s name) =
     [''provider'' \<mapsto> ps_provider s, ''version'' \<mapsto> ps_version s, ''resource_type'' \<mapsto> name]"
  by (simp add: row_metadata_def fun_upd_twist)

lemma schema_rows_resolve: "r \<in> set (schema_rows s vecs) \<Longrightarrow> row_resolves (snd (cache_schema s st)) r"
  using local_store.cached [of s st]
  by (auto simp: schema_rows_def Let_def row_resolves_def split: prod.splits)

lemma index_schema_state:
  obtains vs w where "snd (index_schema svc s k) = k\<lparr>schemas := snd (cache_schema s (schemas k)), vectors := vs, world := w\<rparr>"
    "vs = vectors k \<or> (\<exists>vecs. upsert (schema_rows s vecs) (vectors k) = Inr vs)"
proof (cases "ps_resources s = []")
  case True
  then show ?thesis
    using that [where vs = "vectors k" and w = "world k"]
    by (simp add: index_schema_def bindA_def store_schema_def split: prod.split)
next
  case False
  obtain r w where e: "embed_batch svc (map embedding_text (ps_resources s)) (world k) = (r, w)" by force
  show ?thesis
  proof (cases r)
    case (Inl err)
    with False e show ?thesis
      using that [where vs = "vectors k" and w = w]
      by (simp add: index_schema_def bindA_def store_schema_def map_errA_def on_world_def split: prod.split)
  next
    case (Inr vecs)
    show ?thesis
    proof (cases "upsert (schema_rows s vecs) (vectors k)")
      case (Inl err)
      with False e Inr show ?thesis
        using that [where vs = "vectors k" and w = w]
        by (simp add: index_schema_def bindA_def store_schema_def map_errA_def on_world_def upsert_rows_def
            split: prod.split)
    next
      case up: (Inr vs)
      with False e Inr show ?thesis
        using that [where vs = vs and w = w]
        by (auto simp: index_schema_def bindA_def store_schema_def map_errA_def on_world_def upsert_rows_def
            split: prod.split)
    qed
  qed
qed

lemma upsert_agree:
  assumes "upsert rows vs = Inr vs'" "vs_dim vs = dim" "distinct (map vr_id (vs_rows vs))"
    and "\<And>r. r \<in> set rows \<Longrightarrow> row_resolves st r"
    and "list_all (\<lambda>r. length (vr_embedding r) = dim \<and> row_resolves st r) (vs_rows vs)"
  shows "vs_dim vs' = dim \<and> distinct (map vr_id (vs_rows vs'))
    \<and> list_all (\<lambda>r. length (vr_embedding r) = dim \<and> row_resolves st r) (vs_rows vs')"
proof -
  from assms(1) have vs': "vs' = vs\<lparr>vs_rows := fold put_row rows (vs_rows vs)\<rparr>"
    and len: "\<And>r. r \<in> set rows \<Longrightarrow> length (vr_embedding r) = vs_dim vs"
    by (auto simp: upsert_def find_None_iff split: option.splits)
  with assms vector_rows.set_fold [of rows "vs_rows vs"] show ?thesis
    by (auto simp: vector_rows.distinct_fold list_all_iff)
qed

lemma stores_agree_world [simp]: "stores_agree dim (k\<lparr>world := w\<rparr>) = stores_agree dim k"
  by (simp add: stores_agree_def)

lemma keepsA_on_world [act_rules]: "keepsA (stores_agree dim) (on_world m)"
  by (simp add: keepsA_def on_world_def split: prod.split)

lemma keepsA_index_schema [act_rules]: "keepsA (stores_agree dim) (index_schema svc s)"
  unfolding keepsA_def
proof (intro allI impI)
  fix k :: "'a knowledge" assume k: "stores_agree dim k"
  let ?st = "snd (cache_schema s (schemas k))"
  from k have old: "list_all (\<lambda>r. length (vr_embedding r) = dim \<and> row_resolves ?st r) (vs_rows (vectors k))"
    by (auto simp: stores_agree_def list_all_iff intro: row_resolves_cache)
  obtain vs w where s: "snd (index_schema svc s k) = k\<lparr>schemas := ?st, vectors := vs, world := w\<rparr>"
    and vs: "vs = vectors k \<or> (\<exists>vecs. upsert (schema_rows s vecs) (vectors k) = Inr vs)"
    by (rule index_schema_state)
  from vs show "stores_agree dim (snd (index_schema svc s k))"
  proof
    assume "vs = vectors k"
    with k old show ?thesis by (simp add: s stores_agree_def)
  next
    assume "\<exists>vecs. upsert (schema_rows s vecs) (vectors k) = Inr vs"
    then obtain vecs where "upsert (schema_rows s vecs) (vectors k) = Inr vs" ..
    from upsert_agree [OF this _ _ _ old] k schema_rows_resolve [of _ s vecs] show ?thesis
      by (simp add: s stores_agree_def)
  qed
qed

lemma keepsA_sync [act_rules]: "keepsA (stores_agree dim) (sync_provider svc namespace name version)"
  by (simp add: sync_provider_def act_rules)

lemma keepsA_seed_versions [act_rules]: "keepsA (stores_agree dim) (seed_versions svc vs n)"
  by (induction svc vs n rule: seed_versions.induct)
    (auto simp: seed_provider_def intro!: act_rules split: option.split)

lemma keepsA_bundle [act_rules]: "keepsA (stores_agree dim) (seed_from_bundle svc b)"
proof -
  have "keepsA (stores_agree dim) (seed_providers svc ps n)" for ps n
    by (induction svc ps n rule: seed_providers.induct) (auto intro!: act_rules split: option.split)
  then show ?thesis by (cases b) (auto intro: act_rules)
qed

lemma keepsA_launch_one [act_rules]: "keepsA (stores_agree dim) (launch_one svc p)"
  unfolding keepsA_def
proof (intro allI impI)
  fix k :: "'a knowledge" assume k: "stores_agree dim k"
  obtain ns name version where p: "p = (ns, name, version)" by (cases p)
  obtain r k' where o: "on_world (fetch_registry svc ns name version) k = (r, k')" by force
  have k': "stores_agree dim k'"
    using keepsA_on_world [of dim "fetch_registry svc ns name version"] k o by (simp add: keepsA_def) (metis snd_conv)
  have "keepsA (stores_agree dim) (bindA (seed_provider svc s) (\<lambda>n. retA (name, version, n, Fetched)))" for s
    by (auto simp: seed_provider_def intro!: act_rules)
  with k k' o show "stores_agree dim (snd (launch_one svc p k))"
    by (auto simp: p launch_one_def keepsA_def split: sum.split)
qed

lemma keepsA_launch [act_rules]: "keepsA (stores_agree dim) (first_launch_sync svc b ps)"
proof -
  have "keepsA (stores_agree dim) (launch_all svc ps)"
    by (induction svc ps rule: launch_all.induct) (auto intro!: act_rules)
  then show ?thesis by (auto simp: first_launch_sync_def intro!: act_rules)
qed


text \<open>A schema that is cached stays cached, whatever the service does.\<close>

definition pinned_in :: "string \<Rightarrow> string \<Rightarrow> 'w knowledge \<Rightarrow> bool" where
  "pinned_in p v k \<longleftrightarrow> find_schema (schemas k) p v \<noteq> None"

lemma pinned_on_world: "keepsA (pinned_in p v) (on_world m)"
  by (simp add: keepsA_def on_world_def pinned_in_def split: prod.split)

lemma pinned_index_schema: "keepsA (pinned_in p v) (index_schema svc s)"
  unfolding keepsA_def
proof (intro allI impI)
  fix k :: "'a knowledge" assume "pinned_in p v k"
  then have "find_schema (snd (cache_schema s (schemas k))) p v \<noteq> None"
    using local_store.pinned by (fastforce simp: pinned_in_def)
  then show "pinned_in p v (snd (index_schema svc s k))"
    by (rule_tac index_schema_state [of svc s k]) (simp add: pinned_in_def)
qed

lemma index_schema_pins: "pinned_in (ps_provider s) (ps_version s) (snd (index_schema svc s k))"
  using local_store.cached [of s "schemas k"]
  by (rule_tac index_schema_state [of svc s k]) (simp add: pinned_in_def)

lemma launch_one_cases:
  "launch_one svc (ns, name, version) k = (Inr rep, k') \<Longrightarrow>
     rep = (name, version, 0, AlreadyCached) \<and> k' = k \<and> pinned_in name version k
     \<or> (\<exists>err. rep = (name, version, 0, FetchFailed err) \<and> k' = snd (on_world (fetch_registry svc ns name version) k))
     \<or> (\<exists>s k1 n. on_world (fetch_registry svc ns name version) k = (Inr s, k1)
          \<and> index_schema svc s k1 = (Inr n, k') \<and> rep = (name, version, n, Fetched))"
  by (auto simp: launch_one_def seed_provider_def fetch_provider_schema_def pinned_in_def bindA_eq_Inr
      split: sum.splits prod.splits option.splits)

lemma pinned_launch_one: "launch_one svc q k = (Inr rep, k') \<Longrightarrow> pinned_in p v k \<Longrightarrow> pinned_in p v k'"
proof -
  assume run: "launch_one svc q k = (Inr rep, k')" and pin: "pinned_in p v k"
  obtain ns name version where q: "q = (ns, name, version)" by (cases q)
  from pin have w: "pinned_in p v (snd (on_world m k))" for m :: "('a, 'b, 'c) act"
    using pinned_on_world [of p v m] by (simp add: keepsA_def)
  from launch_one_cases [OF run [unfolded q]] show ?thesis
  proof (elim disjE exE conjE)
    fix s k1 n
    assume "on_world (fetch_registry svc ns name version) k = (Inr s, k1)" "index_schema svc s k1 = (Inr n, k')"
    with w [of "fetch_registry svc ns name version"] pinned_index_schema [of p v svc s] show ?thesis
      by (auto simp: keepsA_def dest!: spec [of _ k1])
  qed (use pin w in auto)
qed

definition label_faithful :: "'w services \<Rightarrow> bool" where
  "label_faithful svc \<longleftrightarrow> (\<forall>ns name version w s w'. fetch_registry svc ns name version w = (Inr s, w') \<longrightarrow>
     ps_provider s = name \<and> ps_version s = version)"

definition covered :: "'w knowledge \<Rightarrow> string \<times> string \<times> string \<Rightarrow> provider_report \<Rightarrow> bool" where
  "covered k = (\<lambda>(ns, name, version) (name', version', n, outcome). name' = name \<and> version' = version
     \<and> ((\<exists>err. outcome = FetchFailed err) \<or> pinned_in name version k))"

lemma launch_one_covered:
  assumes "label_faithful svc" "launch_one svc p k = (Inr rep, k')"
  shows "covered k' p rep"
proof -
  obtain ns name version where p: "p = (ns, name, version)" by (cases p)
  from launch_one_cases [OF assms(2) [unfolded p]] show ?thesis
  proof (elim disjE exE conjE)
    fix s k1 n
    assume a: "on_world (fetch_registry svc ns name version) k = (Inr s, k1)" "index_schema svc s k1 = (Inr n, k')"
      "rep = (name, version, n, Fetched)"
    then obtain w' where "fetch_registry svc ns name version (world k) = (Inr s, w')"
      by (auto simp: on_world_def split: prod.splits)
    with assms(1) have "ps_provider s = name" "ps_version s = version"
      unfolding label_faithful_def by blast+
    with index_schema_pins [of s svc k1] a show ?thesis by (simp add: covered_def p)
  qed (auto simp: covered_def p)
qed

lemma launch_all_covered:
  assumes "label_faithful svc"
  shows "launch_all svc ps k = (Inr reps, k') \<Longrightarrow>
    list_all2 (covered k') ps reps \<and> (pinned_in p0 v0 k \<longrightarrow> pinned_in p0 v0 k')"
proof (induction ps arbitrary: k reps p0 v0)
  case (Cons p ps)
  from Cons.prems obtain r rs k1 where one: "launch_one svc p k = (Inr r, k1)"
    and rest: "launch_all svc ps k1 = (Inr rs, k')" and reps: "reps = r # rs"
    by (auto simp: bindA_eq_Inr)
  have later: "pinned_in q v k1 \<Longrightarrow> pinned_in q v k'" for q v using Cons.IH [OF rest, of q v] by blast
  have "covered k' p r"
    using launch_one_covered [OF assms one] later by (auto simp: covered_def)
  with Cons.IH [OF rest] pinned_launch_one [OF one] later reps show ?case by auto
qed simp

section \<open>Retrieval\<close>

definition match_faithful :: "local_schema_store \<Rightarrow> resource_match \<Rightarrow> bool" where
  "match_faithful st m \<longleftrightarrow> (\<exists>s. fetch_provider_schema st (rm_provider m) (rm_provider_version m) = Inr s
     \<and> map_of (ps_resources s) (rm_resource_type m) = Some (rm_schema m))"

lemma resolve_hits_ok:
  assumes "list_all (\<lambda>h. row_resolves st \<lparr>vr_id = vh_id h, vr_embedding = [], vr_metadata = vh_metadata h\<rparr>) hits"
  shows "\<exists>ms. resolve_hits st hits = Inr ms \<and> length ms \<le> length hits \<and> list_all (match_faithful st) ms"
  using assms
proof (induction hits)
  case (Cons h hits)
  then obtain ms p v name where ms: "resolve_hits st hits = Inr ms" "length ms \<le> length hits" "list_all (match_faithful st) ms"
    and r: "find_schema st p v \<noteq> None" "map_of (vh_metadata h) ''provider'' = Some p"
      "map_of (vh_metadata h) ''version'' = Some v"
    by (auto simp: row_resolves_def)
  from r obtain s where "fetch_provider_schema st p v = Inr s" by (auto simp: fetch_provider_schema_def)
  with ms r show ?case
    by (auto simp: metadata_or_empty_def match_faithful_def list_all_iff Let_def split: option.split)
qed simp

lemma row_resolves_meta:
  "vr_metadata r = vr_metadata r' \<Longrightarrow> row_resolves st r = row_resolves st r'"
  by (simp add: row_resolves_def)

lemma vector_search_hits:
  assumes "vector_search fpu q top_k st = Inr hits"
  shows "\<exists>rest. mset (map (score_row fpu q) (vs_rows st)) = mset (hits @ rest) \<and> length hits = min top_k (length (vs_rows st))
    \<and> sort_hits (map (score_row fpu q) (vs_rows st)) = hits @ rest"
proof -
  let ?s = "sort_hits (map (score_row fpu q) (vs_rows st))"
  from assms have h: "hits = take top_k ?s" by (simp add: vector_search_def split: if_splits)
  have "length ?s = length (vs_rows st)" using mset_sort_hits [of "map (score_row fpu q) (vs_rows st)"]
    by (metis length_map size_mset)
  then show ?thesis
    using h mset_sort_hits by (intro exI [of _ "drop top_k ?s"]) simp
qed

text \<open>What a client can do with the service.\<close>

datatype knowledge_op =
    Op_sync string string string
  | Op_seed provider_schema
  | Op_launch seed_bundle "(string \<times> string \<times> string) list"
  | Op_find string nat
  | Op_find_in string string nat

fun run_op :: "'w services \<Rightarrow> knowledge_op \<Rightarrow> 'w knowledge \<Rightarrow> 'w knowledge" where
  "run_op svc (Op_sync namespace name version) k = snd (sync_provider svc namespace name version k)"
| "run_op svc (Op_seed schema) k = snd (seed_provider svc schema k)"
| "run_op svc (Op_launch b ps) k = snd (first_launch_sync svc b ps k)"
| "run_op svc (Op_find query top_k) k = snd (find_similar_resources svc query top_k k)"
| "run_op svc (Op_find_in query p top_k) k = snd (find_similar_in_provider svc query p top_k k)"

lemma find_state: "snd (find_similar_resources svc query top_k k) = snd (on_world (embed svc query) k)"
  by (auto simp: find_similar_resources_def bindA_def map_errA_def split: prod.split sum.split)

lemma stores_agree_run_op: "stores_agree dim k \<Longrightarrow> stores_agree dim (run_op svc op k)"
proof (cases op)
  case (Op_find_in query p top_k)
  moreover have "snd (find_similar_in_provider svc query p top_k k) = snd (find_similar_resources svc query (top_k * 4) k)"
    by (auto simp: find_similar_in_provider_def bindA_def split: prod.split sum.split)
  moreover assume "stores_agree dim k"
  ultimately show ?thesis by (simp add: find_state on_world_def split: prod.split)
qed (auto simp: seed_provider_def find_state on_world_def split: prod.split
    intro: keepsA_D [OF keepsA_sync] keepsA_D [OF keepsA_index_schema] keepsA_D [OF keepsA_launch])

lemma stores_agree_reachable:
  "stores_agree dim (fold (run_op svc) ops \<lparr>schemas = st, vectors = vector_store_new dim, world = w\<rparr>)"
proof -
  have "stores_agree dim k \<Longrightarrow> stores_agree dim (fold (run_op svc) ops k)" for k
    by (induction ops arbitrary: k) (auto intro: stores_agree_run_op)
  then show ?thesis by (simp add: stores_agree_def vector_store_new_def)
qed


lemma retrieval_sound:
  assumes agree: "stores_agree dim k"
  shows "case fst (find_similar_resources svc query top_k k) of
     Inl e \<Rightarrow> (\<nexists>e'. e = Schema e')
   | Inr ms \<Rightarrow> length ms \<le> top_k \<and> list_all (match_faithful (schemas k)) ms"
proof -
  obtain r w' where "embed svc query (world k) = (r, w')" by force
  then have e: "on_world (embed svc query) k = (r, k\<lparr>world := w'\<rparr>)" by (simp add: on_world_def)
  show ?thesis
  proof (cases r)
    case (Inl err)
    with e show ?thesis by (simp add: find_similar_resources_def map_errA_def bindA_def)
  next
    case (Inr qvec)
    show ?thesis
    proof (cases "vector_search (float_unit svc) qvec top_k (vectors k)")
      case (Inl err)
      with e Inr show ?thesis by (simp add: find_similar_resources_def map_errA_def bindA_def)
    next
      case hits: (Inr hits)
      from vector_search_hits [OF hits] obtain rest where
        m: "mset (map (score_row (float_unit svc) qvec) (vs_rows (vectors k))) = mset (hits @ rest)"
          "length hits \<le> top_k" by auto
      have "row_resolves (schemas k) \<lparr>vr_id = vh_id h, vr_embedding = [], vr_metadata = vh_metadata h\<rparr>"
        if h: "h \<in> set hits" for h
      proof -
        from h mset_eq_setD [OF m(1)] have "h \<in> score_row (float_unit svc) qvec ` set (vs_rows (vectors k))"
          by simp
        then obtain r where "r \<in> set (vs_rows (vectors k))" "vh_metadata h = vr_metadata r"
          by (auto simp: score_row_def)
        with agree show ?thesis
          by (auto simp: stores_agree_def list_all_iff row_resolves_def)
      qed
      then have "list_all (\<lambda>h. row_resolves (schemas k) \<lparr>vr_id = vh_id h, vr_embedding = [], vr_metadata = vh_metadata h\<rparr>) hits"
        by (simp add: list_all_iff)
      from resolve_hits_ok [OF this] m(2) e Inr hits show ?thesis
        by (auto simp: find_similar_resources_def map_errA_def bindA_def)
    qed
  qed
qed

section \<open>Properties\<close>


text \<open>A search returns the best rows: the hits are \<open>min top_k n\<close> of the \<open>n\<close> scored rows, in descending
  score order, and no row that was left out scores higher than one that was returned (for scores
  that are not NaN).\<close>

theorem search_returns_best:
  assumes "vector_search fpu query top_k st = Inr hits"
    and "list_all (\<lambda>r. \<not> f32_is_nan (vh_score (score_row fpu query r))) (vs_rows st)"
  shows "\<exists>rest. mset (map (score_row fpu query) (vs_rows st)) = mset (hits @ rest)
    \<and> length hits = min top_k (length (vs_rows st)) \<and> descending (hits @ rest)"
proof -
  have "descending (sort_hits (map (score_row fpu query) (vs_rows st)))"
    by (rule descending_sort_hits) (use assms(2) in \<open>auto simp: list_all_iff\<close>)
  with vector_search_hits [OF assms(1)] show ?thesis by metis
qed

text \<open>The vector store is a map from ids to rows: an upsert of rows of the right dimension overwrites
  the map at their ids, the last row of an id winning, and keeps ids unique.\<close>

theorem upsert_refines_map:
  assumes "upsert rows st = Inr st'" "distinct (map vr_id (vs_rows st))"
  shows "table_of vr_id (vs_rows st') = fold (\<lambda>r m. m(vr_id r \<mapsto> r)) rows (table_of vr_id (vs_rows st))
    \<and> distinct (map vr_id (vs_rows st')) \<and> vs_dim st' = vs_dim st"
  using assms
  by (auto simp: upsert_def vector_rows.table_fold vector_rows.distinct_fold split: option.splits)

section \<open>Witnesses\<close>

text \<open>A registry whose answer for one version changes between calls: the world counts them.\<close>

definition wit_provider_schema :: "string list \<Rightarrow> provider_schema" where
  "wit_provider_schema names = \<lparr>ps_provider = ''aws'', ps_version = ''1'',
     ps_resources = map (\<lambda>n. (n, \<lparr>rs_name = n, rs_description = None, rs_attributes = []\<rparr>)) names,
     ps_data_sources = [], ps_fetched_at = 0\<rparr>"

definition wit_services :: "nat services" where
  "wit_services = \<lparr>embed_batch = (\<lambda>texts. retA (map (\<lambda>_. [0x3F800000]) texts)),
     fetch_registry = (\<lambda>ns name version n. (Inr ((wit_provider_schema (if n = 0 then [''a''] else [''b'']))
        \<lparr>ps_provider := name, ps_version := version\<rparr>), Suc n)),
     float_unit = \<lparr>f32_mul = (\<lambda>x y. x), f32_sum = (\<lambda>xs. if xs = [] then 0 else hd xs)\<rparr>\<rparr>"

definition wit_knowledge :: "nat knowledge" where
  "wit_knowledge = \<lparr>schemas = [], vectors = vector_store_new 1, world = 0\<rparr>"

lemmas wit_knowledge_eval = wit_services_def wit_knowledge_def wit_provider_schema_def sync_provider_def
  index_schema_def store_schema_def cache_schema_def find_schema_def same_key_def map_errA_def on_world_def
  bindA_def embedding_text_def upsert_rows_def upsert_def schema_rows_def put_row_def vector_store_new_def
  row_id_def row_metadata_def fetch_provider_schema_def

definition wit_rows :: "vector_row list" where
  "wit_rows = [\<lparr>vr_id = ''a'', vr_embedding = [0], vr_metadata = []\<rparr>,
     \<lparr>vr_id = ''b'', vr_embedding = [0x3F800000], vr_metadata = []\<rparr>]"

theorem search_returns_best_witness:
  "\<exists>rest. mset (map (score_row (float_unit wit_services) [0x3F800000]) wit_rows) =
      mset (take 1 (sort_hits (map (score_row (float_unit wit_services) [0x3F800000]) wit_rows)) @ rest)
    \<and> length (take 1 (sort_hits (map (score_row (float_unit wit_services) [0x3F800000]) wit_rows))) = 1
    \<and> descending (take 1 (sort_hits (map (score_row (float_unit wit_services) [0x3F800000]) wit_rows)) @ rest)"
proof -
  have "vector_search (float_unit wit_services) [0x3F800000] 1 \<lparr>vs_dim = 1, vs_rows = wit_rows\<rparr>
      = Inr (take 1 (sort_hits (map (score_row (float_unit wit_services) [0x3F800000]) wit_rows)))"
    by (simp add: vector_search_def)
  from search_returns_best [OF this] show ?thesis
    by (simp add: wit_rows_def score_row_def cosine_similarity_def wit_services_def f32_is_nan_def f32_magnitude_def)
qed

theorem upsert_refines_map_witness:
  "\<exists>st'. upsert wit_rows (vector_store_new 1) = Inr st' \<and> map_option vr_embedding (table_of vr_id (vs_rows st') ''b'') = Some [0x3F800000]"
proof -
  obtain st' where st': "upsert wit_rows (vector_store_new 1) = Inr st'"
    by (simp add: upsert_def wit_rows_def vector_store_new_def)
  from upsert_refines_map [OF this] have "table_of vr_id (vs_rows st') ''b'' = Some (wit_rows ! 1)"
    by (simp add: vector_store_new_def wit_rows_def)
  with st' show ?thesis by (simp add: wit_rows_def)
qed

text \<open>Syncing a pinned version again when the registry's answer has changed indexes a schema that is
  not stored: the second sync reports one resource, the stored schema is the first one, and a query
  for two matches returns one although the index has two rows.\<close>

theorem resync_indexes_unstored_schema:
  "\<exists>k1 k2 m. sync_provider wit_services ''hashicorp'' ''aws'' ''1'' wit_knowledge = (Inr 1, k1)
     \<and> sync_provider wit_services ''hashicorp'' ''aws'' ''1'' k1 = (Inr 1, k2)
     \<and> fetch_provider_schema (schemas k2) ''aws'' ''1'' = Inr (wit_provider_schema [''a''])
     \<and> length (vs_rows (vectors k2)) = 2
     \<and> fst (find_similar_resources wit_services ''q'' 2 k2) = Inr [m]"
  by (simp add: wit_knowledge_eval Let_def find_similar_resources_def embed_def vector_search_def
      sort_hits_def score_row_def cosine_similarity_def f32_less_def metadata_or_empty_def)

end
