(* ===== verification/Mapper.thy ===== *)
theory Mapper
  imports Scanner Knowledge Templates Agent_Types
begin

text \<open>
  \<open>libs/engine/src/mapper\<close>: one LLM call, between a cache in front and a validation behind, turns an
  inventory into a plan. JSON, SHA-256, the LLM client and the context reducer are parameters; the
  knowledge service is the model of \<open>Knowledge\<close>. The lemmas say what a returned plan can contain, when
  the LLM is not called, and how the sample in an error message is cut.
\<close>

section \<open>Errors and configuration\<close>

datatype 'e mapper_error =
    MalformedResponse string string
  | InventoryTooLarge nat nat
  | Llm 'e
  | Mapper_Knowledge knowledge_error
  | Serialize
  | EmptyTargetType string "string list"
  | UnsupportedTargetType string string "string list"

definition MAX_INVENTORY_BYTES :: nat where
  "MAX_INVENTORY_BYTES = 100000"

definition KNOWLEDGE_TOP_K :: nat where
  "KNOWLEDGE_TOP_K = 5"

record mapper =
  mp_source :: string
  mp_target :: string

text \<open>What the mapper is given: JSON encoding (\<open>None\<close> when the value cannot be encoded) and decoding,
  the digest in hexadecimal, the LLM at the tier \<open>Eco\<close>, the reducer, fresh run ids, and the services.\<close>

record ('w, 'e) mapper_env =
  estate_json :: "estate_inventory \<Rightarrow> string option"
  plan_of_json :: "string \<Rightarrow> string + mapping_plan"
  sha256_hex :: "string \<Rightarrow> string"
  complete_eco :: "string \<Rightarrow> ('w, 'e, string) act"
  context_reduce :: "message list \<Rightarrow> message list"
  new_run_id :: "'w \<Rightarrow> uuid"
  kn_services :: "'w services"

record 'w mapper_state =
  plan_cache :: "string \<rightharpoonup> mapping_plan"
  knowledge :: "'w knowledge"

definition estate_cache_key :: "('w, 'e) mapper_env \<Rightarrow> estate_inventory \<Rightarrow> 'e mapper_error + string" where
  "estate_cache_key env estate =
     (case estate_json env estate of None \<Rightarrow> Inl Serialize | Some bytes \<Rightarrow> Inr (sha256_hex env bytes))"

section \<open>Prompts\<close>

definition SYSTEM_PROMPT_HEADER :: string where
  "SYSTEM_PROMPT_HEADER =
     writeln ''Terrashift Mapper v2.''
     @ writeln ''You translate Terraform resources from one cloud provider to another.''
     @ writeln []
     @ writeln ''Rules:''
     @ writeln (''1. Output ONLY a single JSON object conforming to the MappingPlan schema below. ''
         @ ''No prose, no markdown fences, no commentary.'')
     @ writeln ''2. Every source resource MUST have exactly one MappedResource entry.''
     @ writeln (''3. For every required attribute on the target resource type, set a string, ''
         @ ''number, bool, or Reference value. Refer to the REQUIRED ATTRIBUTES section ''
         @ ''below for the per-target-type list. NEVER omit a required attribute.'')
     @ writeln (''4. References (e.g., aws_vpc.main.id) use {\"reference\": \"aws_vpc.main.id\"} '' @ em_dash
         @ '' NOT a quoted string.'')
     @ writeln (''5. CIDR ranges, AMI ids, regions are STRINGS '' @ em_dash @ '' wrap them with ''
         @ ''{\"string\": \"...\"}. Lists wrap with {\"list\": [...]}. Maps wrap with ''
         @ ''{\"map\": {...}}. Never emit a raw scalar where an AttributeValue is expected.'')
     @ writeln (''6. The `target_type` MUST be one of the names listed in the VALID TARGET ''
         @ ''TYPES section below. If a source resource has no listed equivalent, omit it ''
         @ ''entirely (NOT an entry with empty target_type '' @ em_dash @ '' the operator'' @ [CHR 0x27] @ ''s downstream ''
         @ ''report will surface the gap). Do NOT invent a hallucinated target type.'')
     @ writeln (''7. `source_addr`, `target_addr`, `target_type`, `target_name`, and entries ''
         @ ''inside `dependencies` are PLAIN JSON STRINGS, NOT envelope-tagged. ''
         @ ''For example: \"dependencies\": [\"azurerm_virtual_network.main.id\"] '' @ em_dash
         @ '' NOT [{\"reference\": \"azurerm_virtual_network.main.id\"}]. ''
         @ ''Only values inside `attributes` use the envelope tags.'')
     @ writeln []
     @ writeln ''MappingPlan schema (JSON):''
     @ writeln ''{''
     @ writeln ''\"run_id\": \"uuid-v4\",''
     @ writeln ''\"source_provider\": \"google|aws|azurerm\",''
     @ writeln ''\"target_provider\": \"google|aws|azurerm\",''
     @ writeln ''\"resources\": [''
     @ writeln ''{''
     @ writeln ''\"source_addr\": \"google_compute_network.main\",''
     @ writeln ''\"target_addr\": \"aws_vpc.main\",''
     @ writeln ''\"target_type\": \"aws_vpc\",''
     @ writeln ''\"target_name\": \"main\",''
     @ writeln ''\"attributes\": { \"cidr_block\": { \"string\": \"10.0.0.0/16\" } },''
     @ writeln ''\"dependencies\": [\"aws_vpc.main.id\"]''
     @ writeln ''}''
     @ writeln '']''
     @ writeln ''}''"

text \<open>The names of a type's required attributes, in order.\<close>

definition required_names :: "resource_schema \<Rightarrow> string list" where
  "required_names rs = sort (map fst (filter (\<lambda>(_, a). as_required a) (rs_attributes rs)))"

definition required_line :: "provider_schema \<Rightarrow> string \<Rightarrow> string" where
  "required_line schema t =
     (case map_of (ps_resources schema) t of
        None \<Rightarrow> []
      | Some rs \<Rightarrow>
          (if required_names rs = [] then []
           else writeln (t @ '': MUST set { '' @ str_join '', '' (required_names rs) @ '' }'')))"

definition build_system_prompt :: "string \<Rightarrow> provider_schema option \<Rightarrow> string list \<Rightarrow> string" where
  "build_system_prompt target target_schema supported_types =
     writeln SYSTEM_PROMPT_HEADER
     @ writeln (''=== VALID TARGET TYPES ('' @ target @ '') ==='')
     @ (if supported_types = []
        then writeln (''(no templates registered for this target provider '' @ em_dash @ '' Mapper will reject every output)'')
        else concat (map (\<lambda>t. writeln (''- '' @ t)) (sort supported_types)))
     @ writeln []
     @ (case target_schema of
          Some schema \<Rightarrow>
            writeln ''=== REQUIRED ATTRIBUTES (per target type) ===''
            @ concat (map (required_line schema) (sort supported_types))
            @ writeln []
        | None \<Rightarrow>
            writeln (writeln (''(REQUIRED ATTRIBUTES block omitted '' @ em_dash @ '' no target schema cached. ''
              @ ''Use general knowledge of the provider; Validator will catch ''
              @ ''missing required attributes downstream.)'')))"

definition build_user_prompt ::
  "string \<Rightarrow> string \<Rightarrow> estate_inventory \<Rightarrow> (string \<times> resource_match list) list \<Rightarrow> string"
where
  "build_user_prompt source target estate knowledge_hits =
     writeln (writeln (''Map the following Terraform estate from `'' @ source @ ''` to `'' @ target @ ''`.''))
     @ writeln ''=== SOURCE INVENTORY ===''
     @ concat (map (\<lambda>f. concat (map (\<lambda>r. writeln (''- '' @ resource_type r @ ''.'' @ r_name r)) (sf_resources f))) (inv_files estate))
     @ (if list_all (\<lambda>f. sf_resources f = []) (inv_files estate) then writeln ''(no resources)'' else [])
     @ writeln []
     @ writeln ''=== KNOWLEDGE HITS (top-K target candidates per source type) ===''
     @ (if knowledge_hits = []
        then writeln (''(no knowledge hits '' @ em_dash @ '' proceed with general knowledge of the target provider)'')
        else concat (map (\<lambda>(source_type, hits).
               if hits = [] then []
               else writeln (source_type @ '' '' @ right_arrow @ '' candidates: ''
                      @ str_join '', '' (map rm_resource_type hits))) knowledge_hits))
     @ writeln []
     @ writeln ''=== OUTPUT ===''
     @ writeln ''Return ONLY the MappingPlan JSON object.''"

fun role_tag :: "role \<Rightarrow> string" where
  "role_tag System = ''system''"
| "role_tag User = ''user''"
| "role_tag Assistant = ''assistant''"
| "role_tag Tool = ''tool''"

definition combined_prompt :: "message list \<Rightarrow> string" where
  "combined_prompt ms =
     str_join [CHR 0x0A, CHR 0x0A] (map (\<lambda>m. writeln (''['' @ role_tag (m_role m) @ '']'') @ m_content m) ms)"

section \<open>Validation behind the LLM\<close>

definition supported_types_for :: "string \<Rightarrow> string list" where
  "supported_types_for target = filter (starts_with (target @ ''_'')) registered_types"

definition lookup_target_schema :: "'w knowledge \<Rightarrow> string \<Rightarrow> provider_schema option" where
  "lookup_target_schema k target =
     (case list_versions (schemas k) target of
        [] \<Rightarrow> None
      | version # _ \<Rightarrow>
          (case fetch_provider_schema (schemas k) target version of Inl _ \<Rightarrow> None | Inr s \<Rightarrow> Some s))"

fun validate_resources :: "string list \<Rightarrow> mapped_resource list \<Rightarrow> 'e mapper_error + unit" where
  "validate_resources supported [] = Inr ()"
| "validate_resources supported (r # rs) =
     (if target_type r = [] then Inl (EmptyTargetType (source_addr r) supported)
      else if \<not> list_ex (\<lambda>t. t = target_type r) supported
      then Inl (UnsupportedTargetType (source_addr r) (target_type r) supported)
      else validate_resources supported rs)"

definition validate_plan :: "mapping_plan \<Rightarrow> string list \<Rightarrow> 'e mapper_error + unit" where
  "validate_plan p supported = validate_resources supported (resources p)"

text \<open>\<open>while end > 0 && !s.is_char_boundary(end) { end -= 1 }\<close>.\<close>

fun back_to_boundary :: "string \<Rightarrow> nat \<Rightarrow> nat" where
  "back_to_boundary s 0 = 0"
| "back_to_boundary s (Suc n) = (if is_char_boundary s (Suc n) then Suc n else back_to_boundary s n)"

definition truncate_utf8 :: "string \<Rightarrow> nat \<Rightarrow> string" where
  "truncate_utf8 s max_bytes =
     (if length s \<le> max_bytes then s else take (back_to_boundary s max_bytes) s)"

section \<open>Mapping\<close>

definition on_knowledge :: "('w knowledge, 'f, 'a) act \<Rightarrow> ('w mapper_state, 'f, 'a) act" where
  "on_knowledge m s = (case m (knowledge s) of (r, k) \<Rightarrow> (r, s\<lparr>knowledge := k\<rparr>))"

definition remember :: "string \<Rightarrow> mapping_plan \<Rightarrow> ('w mapper_state, 'f, mapping_plan) act" where
  "remember key p s = (Inr p, s\<lparr>plan_cache := (plan_cache s)(key \<mapsto> p)\<rparr>)"

definition unique_types :: "estate_inventory \<Rightarrow> string list" where
  "unique_types estate =
     sort (remdups (concat (map (\<lambda>f. map resource_type (sf_resources f)) (inv_files estate))))"

fun gather_hits ::
  "('w, 'e) mapper_env \<Rightarrow> mapper \<Rightarrow> string list
     \<Rightarrow> ('w mapper_state, 'e mapper_error, (string \<times> resource_match list) list) act"
where
  "gather_hits env m [] = retA []"
| "gather_hits env m (source_type # types) =
     bindA (map_errA Mapper_Knowledge (on_knowledge
        (find_similar_in_provider (kn_services env) (source_type @ '' '' @ mp_target m @ '' equivalent'')
           (mp_target m) KNOWLEDGE_TOP_K))) (\<lambda>hits.
     bindA (gather_hits env m types) (\<lambda>rest. retA ((source_type, hits) # rest)))"

definition parse_response :: "('w, 'e) mapper_env \<Rightarrow> string \<Rightarrow> 'e mapper_error + mapping_plan" where
  "parse_response env response =
     (case plan_of_json env response of
        Inl why \<Rightarrow> Inl (MalformedResponse why (truncate_utf8 response 500))
      | Inr p \<Rightarrow> Inr p)"

text \<open>The path behind a cache miss on a non-empty estate.\<close>

definition map_with_llm ::
  "('w, 'e) mapper_env \<Rightarrow> mapper \<Rightarrow> estate_inventory \<Rightarrow> string
     \<Rightarrow> ('w mapper_state, 'e mapper_error, mapping_plan) act"
where
  "map_with_llm env m estate key =
     bindA (gather_hits env m (unique_types estate)) (\<lambda>hits s.
       let supported = supported_types_for (mp_target m);
           target_schema = lookup_target_schema (knowledge s) (mp_target m);
           messages = [\<lparr>m_role = System, m_content = build_system_prompt (mp_target m) target_schema supported\<rparr>,
                       \<lparr>m_role = User, m_content = build_user_prompt (mp_source m) (mp_target m) estate hits\<rparr>];
           prompt = combined_prompt (context_reduce env messages) in
       bindA (map_errA Llm (on_knowledge (on_world (complete_eco env prompt)))) (\<lambda>response s'.
         case bindE (parse_response env response) (\<lambda>p. bindE (validate_plan p supported) (\<lambda>_. Inr p)) of
           Inl e \<Rightarrow> (Inl e, s')
         | Inr p \<Rightarrow> remember key p s') s)"

definition map_estate ::
  "('w, 'e) mapper_env \<Rightarrow> mapper \<Rightarrow> estate_inventory \<Rightarrow> ('w mapper_state, 'e mapper_error, mapping_plan) act"
where
  "map_estate env m estate s =
     (case estate_cache_key env estate of
        Inl e \<Rightarrow> (Inl e, s)
      | Inr key \<Rightarrow>
          (case plan_cache s key of
             Some p \<Rightarrow> (Inr p, s)
           | None \<Rightarrow>
               if sum_list (map (\<lambda>f. length (sf_resources f)) (inv_files estate)) = 0 then
                 remember key \<lparr>plan_run_id = new_run_id env (world (knowledge s)), source_provider = mp_source m,
                   target_provider = mp_target m, resources = []\<rparr> s
               else case estate_json env estate of
                      None \<Rightarrow> (Inl Serialize, s)
                    | Some bytes \<Rightarrow>
                        (if MAX_INVENTORY_BYTES < length bytes
                         then (Inl (InventoryTooLarge (length bytes) MAX_INVENTORY_BYTES), s)
                         else map_with_llm env m estate key s)))"


section \<open>What a plan can contain\<close>

definition plan_supported :: "string \<Rightarrow> mapping_plan \<Rightarrow> bool" where
  "plan_supported target p \<longleftrightarrow> list_all (\<lambda>r. starts_with (target @ ''_'') (target_type r)
     \<and> template_for (target_type r) \<noteq> None) (resources p)"

definition cache_supported :: "string \<Rightarrow> 'w mapper_state \<Rightarrow> bool" where
  "cache_supported target s \<longleftrightarrow> (\<forall>key p. plan_cache s key = Some p \<longrightarrow> plan_supported target p)"

lemma validate_resources_Inr:
  "validate_resources supported rs = Inr () \<longleftrightarrow> list_all (\<lambda>r. target_type r \<noteq> [] \<and> target_type r \<in> set supported) rs"
  by (induction supported rs rule: validate_resources.induct) (auto simp: list_ex_iff)

lemma supported_types_for:
  "t \<in> set (supported_types_for target) \<longleftrightarrow> starts_with (target @ ''_'') t \<and> template_for t \<noteq> None"
  by (auto simp: supported_types_for_def registered_types_def template_for_def map_of_eq_None_iff)

lemma validate_plan_Inr: "validate_plan p (supported_types_for target) = Inr () \<Longrightarrow> plan_supported target p"
  by (auto simp: validate_plan_def validate_resources_Inr plan_supported_def supported_types_for list_all_iff)

section \<open>What a call does to the cache\<close>

lemma on_knowledge_cache: "plan_cache (snd (on_knowledge m s)) = plan_cache s"
  by (simp add: on_knowledge_def split: prod.split)

lemma gather_hits_cache: "plan_cache (snd (gather_hits env m types s)) = plan_cache s"
proof -
  have "keepsA (\<lambda>t. plan_cache t = plan_cache s) (gather_hits env m types)"
  proof (induction types)
    case (Cons t types)
    have "keepsA (\<lambda>t. plan_cache t = plan_cache s) (on_knowledge act)" for act :: "('a knowledge, 'c, 'd) act"
      by (simp add: keepsA_def on_knowledge_cache)
    with Cons show ?case by (auto intro!: act_rules)
  qed (simp add: act_rules)
  from keepsA_D [OF this] show ?thesis by simp
qed

text \<open>Behind a miss the call either fails and leaves the cache alone, or it stores the plan it returns,
  and that plan passed the validation.\<close>

lemma map_with_llm_cases:
  obtains e s' where "map_with_llm env m estate key s = (Inl e, s')" "plan_cache s' = plan_cache s"
  | p s' where "map_with_llm env m estate key s = (Inr p, s')" "plan_cache s' = (plan_cache s)(key \<mapsto> p)"
      "plan_supported (mp_target m) p"
proof -
  obtain r s1 where g: "gather_hits env m (unique_types estate) s = (r, s1)" by force
  then have c1: "plan_cache s1 = plan_cache s" using gather_hits_cache [of env m "unique_types estate" s] by simp
  show ?thesis
  proof (cases r)
    case (Inl e)
    with g c1 that(1) show ?thesis by (simp add: map_with_llm_def)
  next
    case (Inr hits)
    define prompt where "prompt = combined_prompt (context_reduce env
       [\<lparr>m_role = System, m_content = build_system_prompt (mp_target m)
           (lookup_target_schema (knowledge s1) (mp_target m)) (supported_types_for (mp_target m))\<rparr>,
        \<lparr>m_role = User, m_content = build_user_prompt (mp_source m) (mp_target m) estate hits\<rparr>])"
    obtain l s2 where l: "map_errA Llm (on_knowledge (on_world (complete_eco env prompt))) s1 = (l, s2)" by force
    then have c2: "plan_cache s2 = plan_cache s"
      using on_knowledge_cache [of "on_world (complete_eco env prompt)" s1] c1
      by (auto simp: map_errA_def split: prod.splits sum.splits)
    show ?thesis
    proof (cases l)
      case (Inl e)
      with g l c2 Inr that(1) show ?thesis by (simp add: map_with_llm_def prompt_def Let_def)
    next
      case resp: (Inr response)
      show ?thesis
      proof (cases "bindE (parse_response env response)
          (\<lambda>p. bindE (validate_plan p (supported_types_for (mp_target m))) (\<lambda>_. Inr p))")
        case (Inl e)
        with g l c2 Inr resp that(1) show ?thesis by (simp add: map_with_llm_def prompt_def Let_def)
      next
        case p: (Inr p)
        then have "plan_supported (mp_target m) p"
          by (auto simp: bindE_eq_Inr intro: validate_plan_Inr)
        with g l c2 Inr resp p that(2) show ?thesis
          by (simp add: map_with_llm_def prompt_def Let_def remember_def)
      qed
    qed
  qed
qed

lemma map_estate_cases:
  obtains e s' where "map_estate env m estate s = (Inl e, s')" "plan_cache s' = plan_cache s"
  | key p where "estate_cache_key env estate = Inr key" "plan_cache s key = Some p"
      "map_estate env m estate s = (Inr p, s)"
  | key p s' where "estate_cache_key env estate = Inr key" "plan_cache s key = None"
      "map_estate env m estate s = (Inr p, s')" "plan_cache s' = (plan_cache s)(key \<mapsto> p)"
      "plan_supported (mp_target m) p"
proof (cases "estate_cache_key env estate")
  case (Inl e)
  with that(1) show ?thesis by (simp add: map_estate_def)
next
  case key: (Inr key)
  then obtain bytes where bytes: "estate_json env estate = Some bytes"
    by (auto simp: estate_cache_key_def split: option.splits)
  show ?thesis
  proof (cases "plan_cache s key")
    case (Some p)
    with key that(2) show ?thesis by (simp add: map_estate_def)
  next
    case None
    let ?n = "sum_list (map (\<lambda>f. length (sf_resources f)) (inv_files estate))"
    consider "?n = 0" | "?n \<noteq> 0" "MAX_INVENTORY_BYTES < length bytes" | "?n \<noteq> 0" "\<not> MAX_INVENTORY_BYTES < length bytes"
      by blast
    then show ?thesis
    proof cases
      case 1
      let ?p = "\<lparr>plan_run_id = new_run_id env (world (knowledge s)), source_provider = mp_source m,
         target_provider = mp_target m, resources = []\<rparr>"
      from key None 1 have "map_estate env m estate s = (Inr ?p, s\<lparr>plan_cache := (plan_cache s)(key \<mapsto> ?p)\<rparr>)"
        by (simp add: map_estate_def remember_def)
      then show ?thesis by (rule that(3) [OF key None]) (simp_all add: plan_supported_def)
    next
      case 2
      with key None bytes
      have "map_estate env m estate s = (Inl (InventoryTooLarge (length bytes) MAX_INVENTORY_BYTES), s)"
        by (auto simp: map_estate_def)
      then show ?thesis using that(1) by simp
    next
      case 3
      with key None bytes have run: "map_estate env m estate s = map_with_llm env m estate key s"
        by (auto simp: map_estate_def)
      show ?thesis
        by (rule map_with_llm_cases [of env m estate key s]) (use run that(1) that(3) [OF key None] in auto)
    qed
  qed
qed

text \<open>A sequence of calls of one mapper.\<close>

definition map_all :: "('w, 'e) mapper_env \<Rightarrow> mapper \<Rightarrow> estate_inventory list \<Rightarrow> 'w mapper_state \<Rightarrow> 'w mapper_state" where
  "map_all env m estates s = fold (\<lambda>estate s. snd (map_estate env m estate s)) estates s"

lemma cache_supported_map:
  assumes "cache_supported (mp_target m) s"
  shows "cache_supported (mp_target m) (snd (map_estate env m estate s))"
    and "map_estate env m estate s = (Inr p, s') \<Longrightarrow> plan_supported (mp_target m) p"
  using assms by (rule_tac map_estate_cases [of env m estate s]; auto simp: cache_supported_def)+

lemma cache_supported_map_all:
  "cache_supported (mp_target m) s \<Longrightarrow> cache_supported (mp_target m) (map_all env m estates s)"
  unfolding map_all_def by (induction estates arbitrary: s) (auto intro: cache_supported_map(1))

section \<open>Cutting the sample\<close>

lemma back_to_boundary:
  "back_to_boundary s n \<le> n \<and> is_char_boundary s (back_to_boundary s n)
   \<and> (\<forall>j. is_char_boundary s j \<longrightarrow> j \<le> n \<longrightarrow> j \<le> back_to_boundary s n)"
proof (induction s n rule: back_to_boundary.induct)
  case (2 s n)
  then show ?case by (auto simp: le_Suc_eq)
qed (simp add: is_char_boundary_def)

section \<open>Properties\<close>

text \<open>C14. A plan that a mapper returns, after any sequence of earlier calls with the same cache and
  whatever the LLM answered, contains only resource types of its target provider that the generator
  has a template for.\<close>

theorem mapped_plans_are_supported:
  assumes "map_estate env m estate (map_all env m estates \<lparr>plan_cache = (\<lambda>_. None), knowledge = k\<rparr>) = (Inr p, s')"
  shows "plan_supported (mp_target m) p"
proof -
  have "cache_supported (mp_target m) \<lparr>plan_cache = (\<lambda>_. None), knowledge = k\<rparr>"
    by (simp add: cache_supported_def)
  from cache_supported_map(2) [OF cache_supported_map_all [OF this] assms] show ?thesis .
qed

text \<open>Mapping is cached: mapping the same estate again returns the same plan and changes nothing, so
  the LLM is not called again; a failed call leaves the plan cache as it was.\<close>

theorem mapping_again_is_free:
  "(map_estate env m estate s = (Inr p, s') \<longrightarrow> map_estate env m estate s' = (Inr p, s'))
   \<and> (map_estate env m estate s = (Inl e, s') \<longrightarrow> plan_cache s' = plan_cache s)"
  by (rule map_estate_cases [of env m estate s]) (auto simp: map_estate_def)

text \<open>The sample quoted in the error for a malformed response is the longest prefix of the response
  of at most the given number of bytes that ends at a character boundary.\<close>

theorem truncated_at_boundary:
  "\<exists>n. truncate_utf8 s max_bytes = take n s \<and> n \<le> length s \<and> n \<le> max_bytes \<and> is_char_boundary s n
     \<and> (\<forall>j. is_char_boundary s j \<longrightarrow> j \<le> max_bytes \<longrightarrow> j \<le> n)"
proof (cases "length s \<le> max_bytes")
  case True
  then show ?thesis
    by (intro exI [of _ "length s"]) (auto simp: truncate_utf8_def is_char_boundary_def)
next
  case False
  with back_to_boundary [of s max_bytes] show ?thesis
    by (intro exI [of _ "back_to_boundary s max_bytes"]) (auto simp: truncate_utf8_def)
qed

section \<open>Witnesses\<close>

text \<open>An environment over worlds that count LLM calls; the LLM answers with a type name.\<close>

definition wit_mapped :: "string \<Rightarrow> mapped_resource" where
  "wit_mapped ty = \<lparr>source_addr = ''s.m'', target_addr = ty @ ''.m'', target_type = ty, target_name = ''m'',
     attributes = [], dependencies = []\<rparr>"

definition wit_env :: "string \<Rightarrow> (nat, string) mapper_env" where
  "wit_env answer = \<lparr>estate_json = (\<lambda>e. Some (concat (concat (map sf_path (inv_files e))))),
     plan_of_json = (\<lambda>s. if s = [] then Inl ''EOF'' else Inr \<lparr>plan_run_id = 7, source_provider = ''google'',
       target_provider = ''aws'', resources = [wit_mapped s]\<rparr>),
     sha256_hex = (\<lambda>s. s), complete_eco = (\<lambda>prompt n. (Inr answer, Suc n)), context_reduce = (\<lambda>ms. ms),
     new_run_id = of_nat, kn_services = wit_services\<rparr>"

definition wit_estate :: estate_inventory where
  "wit_estate = \<lparr>root_dir = [''e''], inv_files = [(scanned_file_new [''e'', ''main.tf''])
     \<lparr>sf_resources := [\<lparr>resource_type = ''google_storage_bucket'', r_name = ''m'', r_attributes = [],
        r_span = \<lparr>span_file = [''e'', ''main.tf''], span_line = 1, span_col = 1\<rparr>\<rparr>]\<rparr>]\<rparr>"

definition wit_mapper :: "string \<Rightarrow> mapper" where
  "wit_mapper target = \<lparr>mp_source = ''google'', mp_target = target\<rparr>"

definition wit_state :: "nat mapper_state" where
  "wit_state = \<lparr>plan_cache = (\<lambda>_. None), knowledge = wit_knowledge\<rparr>"

definition wit_plan :: mapping_plan where
  "wit_plan = \<lparr>plan_run_id = 7, source_provider = ''google'', target_provider = ''aws'', resources = [wit_mapped ''aws_vpc'']\<rparr>"

lemma wit_gather:
  "gather_hits (wit_env a) (wit_mapper target) [''google_storage_bucket''] wit_state
     = (Inr [(''google_storage_bucket'', [])], wit_state)"
  by (simp add: wit_env_def wit_mapper_def wit_state_def wit_knowledge_def wit_services_def on_knowledge_def map_errA_def bindA_def
      find_similar_in_provider_def find_similar_resources_def embed_def on_world_def vector_search_def
      vector_store_new_def sort_hits_def)

lemma wit_valid: "validate_plan wit_plan (supported_types_for ''aws'') = (Inr () :: string mapper_error + unit)"
proof -
  have "''aws_vpc'' \<in> set (supported_types_for ''aws'')"
    by (simp add: supported_types_for starts_with_def template_for_def stage1_registry_def)
  then show ?thesis by (simp add: validate_plan_def validate_resources_Inr wit_plan_def wit_mapped_def list_ex_iff)
qed

lemma wit_map:
  "map_estate (wit_env ''aws_vpc'') (wit_mapper ''aws'') wit_estate wit_state
     = (Inr wit_plan, \<lparr>plan_cache = [''emain.tf'' \<mapsto> wit_plan], knowledge = wit_knowledge\<lparr>world := 1\<rparr>\<rparr>)"
proof -
  have types: "unique_types wit_estate = [''google_storage_bucket'']"
    by (simp add: unique_types_def wit_estate_def)
  have parse: "parse_response (wit_env ''aws_vpc'') ''aws_vpc'' = Inr wit_plan"
    by (simp add: parse_response_def wit_env_def wit_plan_def)
  have target: "mp_target (wit_mapper ''aws'') = ''aws''" by (simp add: wit_mapper_def)
  have llm: "map_errA Llm (on_knowledge (on_world (complete_eco (wit_env ''aws_vpc'') prompt))) wit_state
      = (Inr ''aws_vpc'', wit_state\<lparr>knowledge := wit_knowledge\<lparr>world := 1\<rparr>\<rparr>)" for prompt
    by (simp add: wit_env_def wit_state_def wit_knowledge_def map_errA_def on_knowledge_def on_world_def)
  have "map_with_llm (wit_env ''aws_vpc'') (wit_mapper ''aws'') wit_estate ''emain.tf'' wit_state
     = (Inr wit_plan, \<lparr>plan_cache = [''emain.tf'' \<mapsto> wit_plan], knowledge = wit_knowledge\<lparr>world := 1\<rparr>\<rparr>)"
    by (simp only: map_with_llm_def types bindA_Inr [where m = "gather_hits e m ts" for e m ts, OF wit_gather] target Let_def)
      (simp add: bindA_Inr [where m = "map_errA g h" for g h, OF llm] parse wit_valid remember_def, simp add: wit_state_def)
  then show ?thesis
    by (simp add: map_estate_def estate_cache_key_def wit_env_def wit_state_def wit_estate_def MAX_INVENTORY_BYTES_def
        scanned_file_new_def)
qed

theorem mapped_plans_are_supported_witness: "plan_supported ''aws'' wit_plan \<and> resources wit_plan \<noteq> []"
  using mapped_plans_are_supported [of "wit_env ''aws_vpc''" "wit_mapper ''aws''" wit_estate "[]" wit_knowledge wit_plan]
    wit_map
  by (simp add: map_all_def wit_state_def wit_mapper_def) (simp add: wit_plan_def)

theorem mapping_again_is_free_witness:
  "\<exists>s'. map_estate (wit_env ''aws_vpc'') (wit_mapper ''aws'') wit_estate wit_state = (Inr wit_plan, s')
     \<and> map_estate (wit_env ''aws_vpc'') (wit_mapper ''aws'') wit_estate s' = (Inr wit_plan, s')"
  using mapping_again_is_free [of "wit_env ''aws_vpc''" "wit_mapper ''aws''" wit_estate wit_state wit_plan] wit_map
  by blast

theorem truncated_at_boundary_witness:
  "\<exists>n \<le> 2. take n (right_arrow @ ''x'') = truncate_utf8 (right_arrow @ ''x'') 2 \<and> n = 0"
  using truncated_at_boundary [of "right_arrow @ ''x''" 2]
  by (auto simp: truncate_utf8_def right_arrow_def is_char_boundary_def is_continuation_byte_def numeral_2_eq_2)

text \<open>The key of the plan cache is the estate alone: a second mapper with another target provider
  gets the first one's plan from a shared cache, with resource types its own validation rejects.\<close>

theorem cache_ignores_target:
  "\<exists>s'. map_estate (wit_env ''aws_vpc'') (wit_mapper ''aws'') wit_estate wit_state = (Inr wit_plan, s')
     \<and> map_estate (wit_env ''aws_vpc'') (wit_mapper ''azurerm'') wit_estate s' = (Inr wit_plan, s')
     \<and> \<not> plan_supported ''azurerm'' wit_plan"
  by (simp add: wit_map)
    (simp add: map_estate_def estate_cache_key_def wit_env_def wit_estate_def scanned_file_new_def
      plan_supported_def wit_plan_def wit_mapped_def starts_with_def)

end
