(* ===== verification/Llm_Router.thy ===== *)
theory Llm_Router
  imports Agent_Loop
begin

text \<open>
  \<open>libs/ai\<close>: the operator profile, the resolution of a model for a tier, the clients behind the trait
  \<open>LlmClient\<close> and the adapter \<open>JsonAgentLlmClient\<close> that lets a text completion serve the agent kernel.
  The TOML and JSON decoders and the stakai SDK are parameters. The lemmas show what a resolution can
  return, that fencing a reply does not matter, and what the kernel's retry loop does with the
  adapter's errors.
\<close>

section \<open>Tiers, profiles, errors\<close>

datatype tier = Eco | Smart

fun tier_as_str :: "tier \<Rightarrow> string" where
  "tier_as_str Eco = ''eco''"
| "tier_as_str Smart = ''smart''"

datatype 's ai_error =
    UnknownProvider string
  | UnsupportedProviderType string
  | MissingApiKey string string
  | EmptyPrompt
  | MalformedModelId string
  | TomlParse string
  | Ai_Io string
  | Stakai 's

fun show_ai_error :: "('s \<Rightarrow> string) \<Rightarrow> 's ai_error \<Rightarrow> string" where
  "show_ai_error show (UnknownProvider p) =
     ''unknown provider '' @ quoted p @ '': no [providers.'' @ p @ ''] block in profile''"
| "show_ai_error show (UnsupportedProviderType t) =
     ''unsupported provider type '' @ quoted t @ '': Stage 1 only supports '' @ quoted ''openai-compatible''
     @ '' (S2+ adds anthropic/openai/gemini/bedrock)''"
| "show_ai_error show (MissingApiKey env_var provider_key) =
     ''missing api key: env var '' @ quoted env_var @ '' is not set (referenced by provider '' @ quoted provider_key @ '')''"
| "show_ai_error show EmptyPrompt = ''empty prompt: cannot send a zero-length completion request''"
| "show_ai_error show (MalformedModelId m) =
     ''malformed model identifier '' @ quoted m @ '': expected '' @ quoted ''<provider_key>/<model_id>''
     @ '' (e.g., '' @ quoted ''groq/llama-3.3-70b-versatile'' @ '')''"
| "show_ai_error show (TomlParse e) = ''profile TOML parse: '' @ e"
| "show_ai_error show (Ai_Io e) = ''profile I/O: '' @ e"
| "show_ai_error show (Stakai e) = ''stakai SDK: '' @ show e"

record tiers =
  tier_eco :: string
  tier_smart :: "string option"

record provider_config =
  pc_type :: string
  api_endpoint :: string
  api_key_env :: string

datatype auto_update_cadence = Off | Weekly | Monthly

datatype auto_update_window = OffHours | Anytime

record pinned_schema =
  pin_provider :: string
  pin_version :: string

record schemas_config =
  pinned_schemas :: "pinned_schema list"
  auto_update :: auto_update_cadence
  auto_update_window :: auto_update_window

record profile =
  pf_model :: "string option"
  pf_tiers :: tiers
  pf_providers :: "(string, provider_config) btree"
  pf_schemas :: schemas_config

text \<open>Deserialisation of a bundle (\<open>None\<close> when the text is not one) and of a bare profile.\<close>

record toml_reader =
  toml_bundle :: "string \<Rightarrow> (string, profile) btree option"
  toml_profile :: "string \<Rightarrow> string + profile"

definition from_toml :: "toml_reader \<Rightarrow> string \<Rightarrow> 's ai_error + profile" where
  "from_toml t s =
     (case toml_bundle t s of
        Some bundle \<Rightarrow>
          (case map_of bundle ''default'' of None \<Rightarrow> Inl (UnknownProvider ''default'') | Some p \<Rightarrow> Inr p)
      | None \<Rightarrow> (case toml_profile t s of Inl e \<Rightarrow> Inl (TomlParse e) | Inr p \<Rightarrow> Inr p))"

fun model_for_tier :: "profile \<Rightarrow> tier \<Rightarrow> string" where
  "model_for_tier p Eco = tier_eco (pf_tiers p)"
| "model_for_tier p Smart = (case tier_smart (pf_tiers p) of Some m \<Rightarrow> m | None \<Rightarrow> tier_eco (pf_tiers p))"

definition split_model_id :: "string \<Rightarrow> 's ai_error + string \<times> string" where
  "split_model_id combined =
     (case split_once (CHR ''/'') combined of
        Some (p, m) \<Rightarrow> if p \<noteq> [] \<and> m \<noteq> [] then Inr (p, m) else Inl (MalformedModelId combined)
      | None \<Rightarrow> Inl (MalformedModelId combined))"

section \<open>Resolution\<close>

record resolved_model =
  rs_provider_key :: string
  rs_model_id :: string
  rs_provider_type :: string
  rs_api_endpoint :: string
  rs_api_key_env :: string
  rs_tier :: tier

definition resolve_for_tier ::
  "profile \<Rightarrow> string option \<Rightarrow> string option \<Rightarrow> tier \<Rightarrow> 's ai_error + resolved_model"
where
  "resolve_for_tier p cli_override call_override t =
     (let combined = (case call_override of Some c \<Rightarrow> c | None \<Rightarrow>
                       (case cli_override of Some c \<Rightarrow> c | None \<Rightarrow> model_for_tier p t)) in
      bindE (split_model_id combined) (\<lambda>(provider_key, model_id).
        case map_of (pf_providers p) provider_key of
          None \<Rightarrow> Inl (UnknownProvider provider_key)
        | Some provider \<Rightarrow>
            Inr \<lparr>rs_provider_key = provider_key, rs_model_id = model_id, rs_provider_type = pc_type provider,
              rs_api_endpoint = api_endpoint provider, rs_api_key_env = api_key_env provider, rs_tier = t\<rparr>))"

section \<open>Clients\<close>

record completion_metadata =
  md_provider :: string
  md_model_id :: string
  provider_endpoint :: string
  md_tier :: string
  input_tokens :: u32
  output_tokens :: u32
  cache_read_tokens :: u32
  cache_write_tokens :: u32
  cost_usd_micros :: u64
  latency_ms :: u32

definition metadata_stub :: "string \<Rightarrow> string \<Rightarrow> string \<Rightarrow> tier \<Rightarrow> completion_metadata" where
  "metadata_stub p m endpoint t = \<lparr>md_provider = p, md_model_id = m, provider_endpoint = endpoint,
     md_tier = tier_as_str t, input_tokens = 0, output_tokens = 0, cache_read_tokens = 0,
     cache_write_tokens = 0, cost_usd_micros = 0, latency_ms = 0\<rparr>"

text \<open>The trait \<open>LlmClient\<close>.\<close>

type_synonym ('w, 's) llm_client = "tier \<Rightarrow> string \<Rightarrow> ('w, 's ai_error, string \<times> completion_metadata) act"

text \<open>The canned answers are a \<open>HashMap\<close>: a list in iteration order.\<close>

record stub_client =
  canned :: "(string \<times> string) list"
  sc_default :: "string option"
  sc_provider :: string
  sc_model_id :: string

definition stub_client_new :: stub_client where
  "stub_client_new = \<lparr>canned = [], sc_default = None, sc_provider = ''stub'', sc_model_id = ''stub-v1''\<rparr>"

definition stub_complete :: "stub_client \<Rightarrow> ('w, 's) llm_client" where
  "stub_complete c t prompt =
     (if prompt = [] then throwA EmptyPrompt
      else retA
        (case find (\<lambda>(needle, _). str_find needle prompt \<noteq> None) (canned c) of
           Some (_, r) \<Rightarrow> r
         | None \<Rightarrow> (case sc_default c of Some d \<Rightarrow> d | None \<Rightarrow> ''STUB:NO_RESPONSE''),
         metadata_stub (sc_provider c) (sc_model_id c) ''stub://no-network'' t))"

text \<open>The SDK: \<open>sdk_generate key endpoint model provider prompt\<close>, with the clock and the environment.\<close>

record ('w, 's) sdk =
  env_var :: "'w \<Rightarrow> string \<Rightarrow> string option"
  with_config :: "string \<Rightarrow> string \<Rightarrow> 's option"
  sdk_generate :: "string \<Rightarrow> string \<Rightarrow> string \<Rightarrow> string \<Rightarrow> string \<Rightarrow> ('w, 's, string) act"
  elapsed_millis :: "'w \<Rightarrow> 'w \<Rightarrow> nat"

definition read_api_key :: "('w, 's) sdk \<Rightarrow> resolved_model \<Rightarrow> ('w, 's ai_error, string) act" where
  "read_api_key sdk m w =
     ((case env_var sdk w (rs_api_key_env m) of
         None \<Rightarrow> Inl (MissingApiKey (rs_api_key_env m) (rs_provider_key m))
       | Some key \<Rightarrow> Inr key), w)"

definition openai_complete :: "('w, 's) sdk \<Rightarrow> resolved_model \<Rightarrow> ('w, 's) llm_client" where
  "openai_complete sdk m t prompt =
     (if prompt = [] then throwA EmptyPrompt
      else bindA (read_api_key sdk m) (\<lambda>api_key.
        case with_config sdk api_key (rs_api_endpoint m) of
          Some e \<Rightarrow> throwA (Stakai e)
        | None \<Rightarrow> (\<lambda>w.
            bindA (map_errA Stakai (sdk_generate sdk api_key (rs_api_endpoint m) (rs_model_id m) ''openai'' prompt))
              (\<lambda>response w'. (Inr (response,
                 \<lparr>md_provider = rs_provider_key m, md_model_id = rs_model_id m, provider_endpoint = rs_api_endpoint m,
                  md_tier = tier_as_str t, input_tokens = 0, output_tokens = 0, cache_read_tokens = 0,
                  cache_write_tokens = 0, cost_usd_micros = 0,
                  latency_ms = (if elapsed_millis sdk w w' < 2 ^ 32 then of_nat (elapsed_millis sdk w w') else - 1)\<rparr>),
                w')) w)))"

definition build_provider :: "('w, 's) sdk \<Rightarrow> resolved_model \<Rightarrow> 's ai_error + ('w, 's) llm_client" where
  "build_provider sdk m =
     (if rs_provider_type m = ''openai-compatible'' then Inr (openai_complete sdk m)
      else if rs_provider_type m \<in> {''anthropic'', ''gemini'', ''bedrock''}
      then Inl (UnsupportedProviderType (rs_provider_type m))
      else Inl (UnsupportedProviderType (rs_provider_type m)))"

definition real_client_new :: "('w, 's) sdk \<Rightarrow> resolved_model \<Rightarrow> 's ai_error + ('w, 's) llm_client" where
  "real_client_new sdk m = build_provider sdk m"

section \<open>The prompt of the adapter\<close>

definition JSON_SCHEMA :: string where
  "JSON_SCHEMA =
     writeln ''{''
     @ writeln ''  \"thinking\": \"<your reasoning, optional>\",''
     @ writeln ''  \"final_text\": \"<your final answer when you have one; null when proposing tool calls>\",''
     @ writeln ''  \"tool_calls\": [''
     @ writeln (''    { \"id\": \"<unique within this turn, e.g., '' @ quoted ''tc_1''
         @ ''>\", \"name\": \"<tool_name>\", \"arguments\": { ... } }'')
     @ writeln ''  ]''
     @ ''}''"

fun role_label :: "role \<Rightarrow> string" where
  "role_label System = ''SYSTEM''"
| "role_label User = ''USER''"
| "role_label Assistant = ''ASSISTANT''"
| "role_label Tool = ''TOOL''"

text \<open>Encoding and decoding of JSON; \<open>reply_of_json\<close> decodes the reply struct.\<close>

record json_tool_call =
  jtc_id :: string
  jtc_name :: string
  jtc_arguments :: json

record agent_json_reply =
  thinking :: "string option"
  reply_final_text :: "string option"
  reply_tool_calls :: "json_tool_call list"

record serde =
  json_text :: "json \<Rightarrow> string"
  value_of_json :: "string \<Rightarrow> json option"
  reply_of_json :: "string \<Rightarrow> string + agent_json_reply"

definition tool_lines :: "serde \<Rightarrow> agent_tool_def \<Rightarrow> string" where
  "tool_lines js tool =
     writeln (''- name: \"'' @ td_name tool @ ''\"'')
     @ writeln (''  description: '' @ td_description tool)
     @ writeln (''  arguments_schema: '' @ json_text js (td_schema tool))"

definition call_line :: "serde \<Rightarrow> proposed_tool_call \<Rightarrow> string" where
  "call_line js tc =
     writeln (''  - id='' @ tc_id tc @ '' name='' @ tc_name tc @ '' args='' @ json_text js (tc_arguments tc))"

definition message_lines :: "serde \<Rightarrow> agent_message \<Rightarrow> string" where
  "message_lines js msg =
     writeln (''### '' @ role_label (role msg) @ '' ###'')
     @ writeln (content msg)
     @ (if tool_calls msg = [] then []
        else writeln ''(this assistant turn proposed:)'' @ concat (map (call_line js) (tool_calls msg)))
     @ (case tool_call_id msg of
          Some i \<Rightarrow> writeln (''(this is the result of tool_call_id='' @ i @ '')'')
        | None \<Rightarrow> [])
     @ writeln []"

definition build_json_prompt :: "serde \<Rightarrow> agent_message list \<Rightarrow> agent_tool_def list \<Rightarrow> string" where
  "build_json_prompt js messages tools =
     writeln ''You are a Terrashift agent. Reply with EXACTLY one JSON object, no prose, no markdown fences.''
     @ writeln ''Schema:''
     @ writeln JSON_SCHEMA
     @ writeln []
     @ (if tools = [] then []
        else writeln ''## Available tools'' @ concat (map (tool_lines js) tools) @ writeln [])
     @ writeln ''## Conversation''
     @ concat (map (message_lines js) messages)
     @ writeln ''## Your reply''
     @ writeln (''Output exactly one JSON object matching the schema. ''
         @ ''Use tool_calls when you need information or want to mutate state. ''
         @ ''Use final_text (and leave tool_calls empty) when done.'')"

section \<open>The reply\<close>

definition strip_code_fences :: "string \<Rightarrow> string" where
  "strip_code_fences text =
     (let trimmed = str_trim text in
      case (case strip_prefix ''```json'' trimmed of Some r \<Rightarrow> Some r | None \<Rightarrow> strip_prefix ''```'' trimmed) of
        None \<Rightarrow> trimmed
      | Some r \<Rightarrow>
          (let rest = (case strip_prefix [CHR 0x0A] r of Some r' \<Rightarrow> r' | None \<Rightarrow> r) in
           case strip_suffix ''```'' rest of
             Some inner \<Rightarrow> str_trim inner
           | None \<Rightarrow> str_trim rest))"

text \<open>\<open>char_indices\<close> gives the byte offset of each character.\<close>

definition char_indices :: "string \<Rightarrow> nat list" where
  "char_indices s = filter (\<lambda>i. \<not> is_continuation_byte (s ! i)) [0..<length s]"

definition first_chars :: "string \<Rightarrow> nat \<Rightarrow> string" where
  "first_chars s n = (if n < length (char_indices s) then take (char_indices s ! n) s else s)"

fun unwrap_stringified_json :: "serde \<Rightarrow> json \<Rightarrow> json" where
  "unwrap_stringified_json js (JString s) =
     (case value_of_json js s of Some parsed \<Rightarrow> parsed | None \<Rightarrow> JString s)"
| "unwrap_stringified_json js v = v"

definition proposed_call :: "serde \<Rightarrow> json_tool_call \<Rightarrow> proposed_tool_call" where
  "proposed_call js tc = \<lparr>tc_id = jtc_id tc, tc_name = jtc_name tc,
     tc_arguments = unwrap_stringified_json js (jtc_arguments tc), tc_metadata = None\<rparr>"

definition parse_json_response :: "serde \<Rightarrow> string \<Rightarrow> string + llm_turn_outcome" where
  "parse_json_response js text =
     (let candidate = strip_code_fences text in
      if candidate = [] then Inl ''LLM returned an empty response''
      else case reply_of_json js candidate of
             Inl err \<Rightarrow> Inl (''agent JSON parse failed: '' @ err @ ''; first 200 chars of response: ''
                          @ first_chars candidate 200)
           | Inr parsed \<Rightarrow>
               Inr \<lparr>out_final_text = reply_final_text parsed,
                 out_proposed_tool_calls = map (proposed_call js) (reply_tool_calls parsed),
                 usage_input_tokens = 0, usage_output_tokens = 0\<rparr>)"

fun is_stakai :: "'s ai_error \<Rightarrow> bool" where
  "is_stakai (Stakai e) = True"
| "is_stakai _ = False"

definition ai_error_to_turn_error :: "('s \<Rightarrow> string) \<Rightarrow> 's ai_error \<Rightarrow> llm_turn_error" where
  "ai_error_to_turn_error show err =
     \<lparr>err_message = show_ai_error show err, err_retryable = is_stakai err, err_headers = []\<rparr>"

definition json_generate_turn ::
  "serde \<Rightarrow> ('s \<Rightarrow> string) \<Rightarrow> ('w, 's) llm_client \<Rightarrow> tier \<Rightarrow> agent_run_context \<Rightarrow> agent_message list
     \<Rightarrow> agent_tool_def list \<Rightarrow> ('w, llm_turn_error, llm_turn_outcome) act"
where
  "json_generate_turn js show inner t ctx messages tools =
     bindA (map_errA (ai_error_to_turn_error show) (inner t (build_json_prompt js messages tools)))
       (\<lambda>(response_text, _) w.
          ((case parse_json_response js response_text of
              Inl err_msg \<Rightarrow> Inl \<lparr>err_message = err_msg, err_retryable = False, err_headers = []\<rparr>
            | Inr outcome \<Rightarrow> Inr outcome), w))"


section \<open>Trimming\<close>

lemma white_space_chars: "white_space =
     [[CHR 0x09], [CHR 0x0A], [CHR 0x0B], [CHR 0x0C], [CHR 0x0D], [CHR 0x20], [CHR 0xC2, CHR 0x85],
      [CHR 0xC2, CHR 0xA0], [CHR 0xE1, CHR 0x9A, CHR 0x80], [CHR 0xE2, CHR 0x80, CHR 0x80],
      [CHR 0xE2, CHR 0x80, CHR 0x81], [CHR 0xE2, CHR 0x80, CHR 0x82], [CHR 0xE2, CHR 0x80, CHR 0x83],
      [CHR 0xE2, CHR 0x80, CHR 0x84], [CHR 0xE2, CHR 0x80, CHR 0x85], [CHR 0xE2, CHR 0x80, CHR 0x86],
      [CHR 0xE2, CHR 0x80, CHR 0x87], [CHR 0xE2, CHR 0x80, CHR 0x88], [CHR 0xE2, CHR 0x80, CHR 0x89],
      [CHR 0xE2, CHR 0x80, CHR 0x8A], [CHR 0xE2, CHR 0x80, CHR 0xA8], [CHR 0xE2, CHR 0x80, CHR 0xA9],
      [CHR 0xE2, CHR 0x80, CHR 0xAF], [CHR 0xE2, CHR 0x81, CHR 0x9F], [CHR 0xE3, CHR 0x80, CHR 0x80]]"
  by code_simp

definition unspaced :: "string list \<Rightarrow> string \<Rightarrow> bool" where
  "unspaced ws s \<longleftrightarrow> list_all (\<lambda>w. w \<noteq> [] \<longrightarrow> \<not> starts_with w s) ws"

lemma trim_start_unspaced: "unspaced ws s \<Longrightarrow> trim_start ws s = s"
  by (subst trim_start.simps) (auto simp: unspaced_def list_all_iff find_Some_iff split: option.split)

lemma trim_start_suffix: "length (trim_start ws s) \<le> length s \<and> (length (trim_start ws s) = length s \<longrightarrow> unspaced ws s)"
proof (induction ws s rule: trim_start.induct)
  case (1 ws s)
  show ?case
  proof (cases "find (\<lambda>w. w \<noteq> [] \<and> starts_with w s) ws")
    case None
    then have "unspaced ws s" by (auto simp: unspaced_def list_all_iff find_None_iff)
    then show ?thesis by (simp add: trim_start_unspaced)
  next
    case (Some w)
    then have "w \<noteq> []" "starts_with w s" by (auto simp: find_Some_iff)
    then have "length (drop (length w) s) < length s" by (auto simp: starts_with_iff)
    with 1 [OF Some] Some show ?thesis by (simp add: trim_start.simps [of ws s])
  qed
qed

lemma str_trim_fixed: "str_trim s = s \<longleftrightarrow> unspaced white_space s \<and> unspaced (map rev white_space) (rev s)"
proof
  assume s: "str_trim s = s"
  have a: "length s \<le> length (trim_start white_space s)"
    using trim_start_suffix [of "map rev white_space" "rev (trim_start white_space s)"] s
    by (simp add: str_trim_def) (metis length_rev)
  with trim_start_suffix [of white_space s] have u: "unspaced white_space s" by simp
  then have "trim_start white_space s = s" by (rule trim_start_unspaced)
  with s have "trim_start (map rev white_space) (rev s) = rev s" by (metis str_trim_def rev_swap)
  with trim_start_suffix [of "map rev white_space" "rev s"] u
  show "unspaced white_space s \<and> unspaced (map rev white_space) (rev s)" by simp
qed (simp add: str_trim_def trim_start_unspaced)

lemma newline_space: "w \<in> set white_space \<Longrightarrow> CHR 0x0A \<in> set w \<Longrightarrow> w = [CHR 0x0A]"
  by (auto simp: white_space_chars)

lemma str_trim_newline:
  assumes s: "str_trim s = s" "s \<noteq> []"
  shows "str_trim (s @ [CHR 0x0A]) = s"
proof -
  from s have u: "unspaced white_space s" "unspaced (map rev white_space) (rev s)" by (simp_all add: str_trim_fixed)
  have "unspaced white_space (s @ [CHR 0x0A])"
    unfolding unspaced_def list_all_iff
  proof (intro ballI impI notI)
    fix w assume w: "w \<in> set white_space" "w \<noteq> []" "starts_with w (s @ [CHR 0x0A])"
    then obtain r where r: "s @ [CHR 0x0A] = w @ r" by (auto simp: starts_with_iff)
    show False
    proof (cases r rule: rev_cases)
      case Nil
      with r have "w = s @ [CHR 0x0A]" by simp
      with newline_space [OF w(1)] s(2) show False by simp
    next
      case (snoc r' x)
      with r have "s = w @ r'" by simp
      with u(1) w show False by (auto simp: unspaced_def list_all_iff)
    qed
  qed
  then have t: "trim_start white_space (s @ [CHR 0x0A]) = s @ [CHR 0x0A]" by (rule trim_start_unspaced)
  have first: "find (\<lambda>w. w \<noteq> [] \<and> starts_with w (CHR 0x0A # x)) (map rev white_space) = Some [CHR 0x0A]" for x
    by (simp add: white_space_chars starts_with_def)
  have "trim_start (map rev white_space) (CHR 0x0A # rev s) = rev s"
    by (subst trim_start.simps) (simp add: first trim_start_unspaced u)
  with t show ?thesis by (simp add: str_trim_def)
qed

lemma fence_unspaced: "str_trim (''```'' @ x @ ''```'') = ''```'' @ x @ ''```''"
  by (simp add: str_trim_fixed unspaced_def white_space_chars starts_with_def)

lemma strip_fences_fenced:
  assumes b: "str_trim b = b" "b \<noteq> []" and l: "l = ''json'' \<or> l = []"
  shows "strip_code_fences (''```'' @ l @ [CHR 0x0A] @ b @ [CHR 0x0A] @ ''```'') = b"
proof -
  have suf: "strip_suffix ''```'' (x @ ''```'') = Some x" for x
    by (simp add: strip_suffix_def strip_prefix_def starts_with_def)
  have t: "str_trim (''```'' @ l @ [CHR 0x0A] @ b @ [CHR 0x0A] @ ''```'') = ''```'' @ l @ [CHR 0x0A] @ b @ [CHR 0x0A] @ ''```''"
    using fence_unspaced [of "l @ [CHR 0x0A] @ b @ [CHR 0x0A]"] by simp
  have s: "strip_suffix ''```'' (b @ [CHR 0x0A] @ ''```'') = Some (b @ [CHR 0x0A])"
    using suf [of "b @ [CHR 0x0A]"] by simp
  have p: "(case strip_prefix ''```json'' (''```'' @ l @ [CHR 0x0A] @ b @ [CHR 0x0A] @ ''```'') of Some r \<Rightarrow> Some r
      | None \<Rightarrow> strip_prefix ''```'' (''```'' @ l @ [CHR 0x0A] @ b @ [CHR 0x0A] @ ''```''))
      = Some ([CHR 0x0A] @ b @ [CHR 0x0A] @ ''```'')"
    using l by (auto simp: strip_prefix_def starts_with_def)
  have n: "strip_prefix [CHR 0x0A] ([CHR 0x0A] @ x) = Some x" for x
    by (simp add: strip_prefix_def starts_with_def)
  show ?thesis
    unfolding strip_code_fences_def Let_def t p
    by (simp only: option.case n s str_trim_newline [OF b])
qed

lemma strip_fences_plain:
  assumes "str_trim b = b" "\<not> starts_with ''```'' b"
  shows "strip_code_fences b = b"
proof -
  from assms(2) have "\<not> starts_with ''```json'' b" by (auto simp: starts_with_iff)
  with assms show ?thesis by (simp add: strip_code_fences_def strip_prefix_def Let_def)
qed

section \<open>Resolution characterised\<close>

lemma split_model_id_Inr:
  "split_model_id s = Inr (pk, mid) \<longleftrightarrow> s = pk @ ''/'' @ mid \<and> CHR ''/'' \<notin> set pk \<and> pk \<noteq> [] \<and> mid \<noteq> []"
proof -
  have "s = pk @ ''/'' @ mid \<and> CHR ''/'' \<notin> set pk \<longleftrightarrow> split_once (CHR ''/'') s = Some (pk, mid)"
    by (simp add: split_once_Some)
  then show ?thesis by (auto simp: split_model_id_def split: option.splits if_splits)
qed

definition resolved_with :: "provider_config \<Rightarrow> string \<Rightarrow> string \<Rightarrow> tier \<Rightarrow> resolved_model" where
  "resolved_with prov pk mid t = \<lparr>rs_provider_key = pk, rs_model_id = mid, rs_provider_type = pc_type prov,
     rs_api_endpoint = api_endpoint prov, rs_api_key_env = api_key_env prov, rs_tier = t\<rparr>"

definition winning_identifier :: "profile \<Rightarrow> string option \<Rightarrow> string option \<Rightarrow> tier \<Rightarrow> string" where
  "winning_identifier p cli call t =
     (case call of Some c \<Rightarrow> c | None \<Rightarrow> (case cli of Some c \<Rightarrow> c | None \<Rightarrow> model_for_tier p t))"

lemma resolve_for_tier_Inr:
  "resolve_for_tier p cli call t = (Inr m :: 's ai_error + resolved_model) \<longleftrightarrow>
     (\<exists>pk mid prov. split_model_id (winning_identifier p cli call t) = (Inr (pk, mid) :: 's ai_error + _)
        \<and> map_of (pf_providers p) pk = Some prov \<and> m = resolved_with prov pk mid t)"
proof -
  have "(resolve_for_tier p cli call t :: 's ai_error + _) = bindE (split_model_id (winning_identifier p cli call t) :: 's ai_error + _)
      (\<lambda>(pk, mid). case map_of (pf_providers p) pk of
         None \<Rightarrow> Inl (UnknownProvider pk) | Some prov \<Rightarrow> Inr (resolved_with prov pk mid t))"
    unfolding resolve_for_tier_def winning_identifier_def resolved_with_def Let_def ..
  then show ?thesis by (auto simp: bindE_eq_Inr split: option.splits)
qed

section \<open>Properties\<close>

text \<open>A model resolves exactly when the identifier that wins (per-call over command line over the
  profile's tier, where \<open>smart\<close> falls back to \<open>eco\<close>) is a provider key and a model id around its
  first slash and the profile has that provider, and the result carries that provider's type,
  endpoint and key variable; the profile's default \<open>model\<close> plays no part.\<close>

theorem resolution_exact:
  "(resolve_for_tier p cli call t = (Inr m :: 's ai_error + resolved_model) \<longleftrightarrow>
     (\<exists>pk mid prov. winning_identifier p cli call t = pk @ ''/'' @ mid
        \<and> CHR ''/'' \<notin> set pk \<and> pk \<noteq> [] \<and> mid \<noteq> [] \<and> map_of (pf_providers p) pk = Some prov
        \<and> m = resolved_with prov pk mid t))
   \<and> resolve_for_tier (p\<lparr>pf_model := d\<rparr>) cli call t = (resolve_for_tier p cli call t :: 's ai_error + resolved_model)"
proof -
  have "model_for_tier (p\<lparr>pf_model := d\<rparr>) t = model_for_tier p t"
    by (cases t) (simp_all split: option.split)
  then have "resolve_for_tier (p\<lparr>pf_model := d\<rparr>) cli call t = (resolve_for_tier p cli call t :: 's ai_error + _)"
    by (auto simp: resolve_for_tier_def split: option.split)
  then show ?thesis by (simp add: resolve_for_tier_Inr split_model_id_Inr)
qed

text \<open>Markdown fences around a reply make no difference: a trimmed, non-empty reply that does not
  itself start with a fence parses the same bare, in a \<open>json\<close> fence and in an unlabelled one.\<close>

theorem fences_do_not_matter:
  assumes "str_trim b = b" "b \<noteq> []" "\<not> starts_with ''```'' b"
  shows "parse_json_response js (''```json'' @ [CHR 0x0A] @ b @ [CHR 0x0A] @ ''```'') = parse_json_response js b
    \<and> parse_json_response js (''```'' @ [CHR 0x0A] @ b @ [CHR 0x0A] @ ''```'') = parse_json_response js b"
  using strip_fences_fenced [OF assms(1,2), of "''json''"] strip_fences_fenced [OF assms(1,2), of "[]"]
    strip_fences_plain [OF assms(1,3)]
  by (simp_all add: parse_json_response_def)

text \<open>Behind the adapter the kernel's retry loop retries SDK errors only: a reply ends it, parsed into
  the outcome or, when it does not parse, into a failure with the parser's message; any other client
  error ends it with that error's text. In all these cases the client was called once.\<close>

theorem only_sdk_errors_retried:
  assumes "generate_turn env = json_generate_turn js show inner t" "0 < max_attempts cfg"
    and "inner t (build_json_prompt js messages tools) w = (r, w')"
  shows "case r of
      Inr (response, md) \<Rightarrow> call_llm_with_retry env ctx messages tools cfg w =
        ((case parse_json_response js response of
            Inl msg \<Rightarrow> Inl (LlmRetryExhausted (max_attempts cfg) msg) | Inr outcome \<Rightarrow> Inr outcome), w')
    | Inl err \<Rightarrow> is_stakai err \<or> call_llm_with_retry env ctx messages tools cfg w =
        (Inl (LlmRetryExhausted (max_attempts cfg) (show_ai_error show err)), w')"
proof -
  obtain k where k: "max_attempts cfg = Suc k" using assms(2) by (cases "max_attempts cfg") auto
  show ?thesis
  proof (cases r)
    case (Inl err)
    with assms k show ?thesis
      by (simp add: call_llm_with_retry_def Let_def json_generate_turn_def map_errA_def bindA_def
          ai_error_to_turn_error_def)
  next
    case (Inr p)
    obtain response md where p: "p = (response, md)" by (cases p)
    show ?thesis
      by (cases "parse_json_response js response")
        (use assms k Inr p in \<open>simp_all add: call_llm_with_retry_def Let_def json_generate_turn_def
          map_errA_def bindA_def\<close>)
  qed
qed

section \<open>Witnesses\<close>

definition wit_serde :: serde where
  "wit_serde = \<lparr>json_text = (\<lambda>_. ''{}''), value_of_json = (\<lambda>_. None),
     reply_of_json = (\<lambda>s. if s = ''{}'' then Inr \<lparr>thinking = None, reply_final_text = None, reply_tool_calls = []\<rparr>
       else Inl ''expected value'')\<rparr>"

theorem fences_do_not_matter_witness:
  "parse_json_response wit_serde (''```json'' @ [CHR 0x0A] @ ''{}'' @ [CHR 0x0A] @ ''```'') =
     Inr \<lparr>out_final_text = None, out_proposed_tool_calls = [], usage_input_tokens = 0, usage_output_tokens = 0\<rparr>"
proof -
  have t: "str_trim ''{}'' = ''{}''"
    by (simp add: str_trim_fixed unspaced_def white_space_chars starts_with_def)
  have f: "\<not> starts_with ''```'' ''{}''" by (simp add: starts_with_def)
  have "parse_json_response wit_serde ''{}'' =
     Inr \<lparr>out_final_text = None, out_proposed_tool_calls = [], usage_input_tokens = 0, usage_output_tokens = 0\<rparr>"
    by (simp add: parse_json_response_def strip_fences_plain [OF t f] wit_serde_def)
  with fences_do_not_matter [OF t _ f, of wit_serde] show ?thesis by simp
qed

text \<open>Clients over worlds that count calls: one answers prose, one has no key.\<close>

definition wit_kernel :: "(nat, string) llm_client \<Rightarrow> nat env" where
  "wit_kernel client = \<lparr>is_cancelled = (\<lambda>_. False), reduce = passthrough_reduce,
     compact = (\<lambda>ms. throwA (Compaction [])), hooks = [],
     generate_turn = json_generate_turn wit_serde (\<lambda>s. s) client Eco,
     execute_tool_call = (\<lambda>ctx tc. retA Cancelled_result), sleep = (\<lambda>d n. n), utc_now = (\<lambda>_. 0),
     parse_from_rfc2822 = (\<lambda>_. None), powi_f64 = (\<lambda>x n. x)\<rparr>"

definition wit_prose :: "(nat, string) llm_client" where
  "wit_prose t prompt n = (Inr (''Sure!'', metadata_stub ''stub'' ''m'' ''e'' t), Suc n)"

theorem only_sdk_errors_retried_witness:
  "\<exists>msg. call_llm_with_retry (wit_kernel wit_prose) \<lparr>ctx_run_id = 0, ctx_session_id = 0\<rparr> [] [] retry_config_default 0
     = (Inl (LlmRetryExhausted 4 msg), 1)"
proof -
  have t: "str_trim ''Sure!'' = ''Sure!''"
    by (simp add: str_trim_fixed unspaced_def white_space_chars starts_with_def)
  have f: "\<not> starts_with ''```'' ''Sure!''" by (simp add: starts_with_def)
  obtain msg where "parse_json_response wit_serde ''Sure!'' = Inl msg"
    by (simp add: parse_json_response_def strip_fences_plain [OF t f] wit_serde_def)
  with only_sdk_errors_retried [of "wit_kernel wit_prose" wit_serde "\<lambda>s. s" wit_prose Eco retry_config_default "[]" "[]" 0
      "Inr (''Sure!'', metadata_stub ''stub'' ''m'' ''e'' Eco)" 1]
  show ?thesis by (simp add: wit_kernel_def wit_prose_def retry_config_default_def)
qed

end
