(* ===== verification/Migrate.thy ===== *)
theory Migrate
  imports Mapper Recovery Generator Llm_Router
begin

text \<open>
  \<open>src/cli/src/commands/migrate.rs\<close> and \<open>util.rs\<close>: the pipeline behind \<open>terrashift migrate\<close>. It scans, maps,
  validates, repairs, validates again and emits one resource at a time, appending to the files of the
  output directory. What it prints is reduced to the summary it ends with. The lemmas show that no
  rejected resource is emitted and what exactly the output files hold.
\<close>

section \<open>Arguments, results, surroundings\<close>

record migrate_args =
  arg_source :: path
  arg_output :: "path option"
  from_provider :: string
  to_provider :: string
  dry_run :: bool
  arg_tier :: string

datatype skip_reason = By_validator "validation_error option" | By_generator generator_error

record summary =
  sm_total_resources :: nat
  sm_plan :: mapping_plan
  sm_output_dir :: path
  sm_emitted :: "path list"
  sm_skipped :: "(string \<times> skip_reason) list"

text \<open>The ways \<open>run\<close> returns \<open>Ok(())\<close>.\<close>

datatype migrate_end =
    Nothing_to_migrate
  | Validator_unavailable schema_error
  | Dry_run_done mapping_plan
  | Migrated summary

datatype 's migrate_error =
    No_home
  | Profile_unreadable path
  | Migrate_Ai "'s ai_error"
  | Invalid_tier string
  | Seeding knowledge_error
  | Scanning scanner_error
  | Mapping "'s ai_error mapper_error"
  | Output_dir path
  | No_temp_dir

text \<open>
  The surroundings: the environment variables, path conversion, TOML, the LLM SDK, JSON and digests, the
  embedding model and registry, the bundle that \<open>locate_seed_dir\<close> finds, the HCL reader and writer,
  the directory tree, temporary directories, and the clock and timers of the agent kernel.
\<close>

record ('w, 's, 'x) surroundings =
  path_of :: "string \<Rightarrow> path"
  var_os :: "'w \<Rightarrow> string \<Rightarrow> string option"
  toml :: toml_reader
  sdk_of :: "('w, 's) sdk"
  show_sdk_error :: "'s \<Rightarrow> string"
  json_of :: serde
  estate_to_json :: "estate_inventory \<Rightarrow> string option"
  plan_from_json :: "string \<Rightarrow> string + mapping_plan"
  sha256 :: "string \<Rightarrow> string"
  fresh_run_id :: "'w \<Rightarrow> uuid"
  fresh_session_id :: "nat \<Rightarrow> uuid"
  knowledge_services :: "'w services"
  current_exe :: "path option"
  current_dir :: "path option"
  bundle_at :: "fs \<Rightarrow> path \<Rightarrow> seed_bundle"
  reader :: "'x hcl_reader"
  hcl_of :: hcl
  os :: io
  tree_at :: "fs \<Rightarrow> path \<Rightarrow> (bool \<times> string option \<times> walk_node list) option"
  temp_dir :: "fs \<Rightarrow> path option"
  cancelled_in :: "'w \<Rightarrow> bool"
  sleep_in :: "u64 \<Rightarrow> 'w \<Rightarrow> 'w"
  clock_in :: "'w \<Rightarrow> int"
  rfc2822 :: "string \<Rightarrow> int option"
  powi_of :: "f64 \<Rightarrow> nat \<Rightarrow> f64"

record 'w machine =
  disk :: fs
  around :: 'w

definition on_disk :: "(fs, 'e, 'a) act \<Rightarrow> ('w machine, 'e, 'a) act" where
  "on_disk m s = (case m (disk s) of (r, d) \<Rightarrow> (r, s\<lparr>disk := d\<rparr>))"

definition on_around :: "('w, 'e, 'a) act \<Rightarrow> ('w machine, 'e, 'a) act" where
  "on_around m s = (case m (around s) of (r, w) \<Rightarrow> (r, s\<lparr>around := w\<rparr>))"

section \<open>Setting up\<close>

definition home_dir :: "('w, 's, 'x) surroundings \<Rightarrow> 'w \<Rightarrow> path option" where
  "home_dir sr w =
     map_option (path_of sr) (case var_os sr w ''USERPROFILE'' of Some h \<Rightarrow> Some h | None \<Rightarrow> var_os sr w ''HOME'')"

definition resolve_profile_path ::
  "('w, 's, 'x) surroundings \<Rightarrow> path option \<Rightarrow> ('w machine, 's migrate_error, path) act"
where
  "resolve_profile_path sr explicit s =
     ((case explicit of
         Some p \<Rightarrow> Inr p
       | None \<Rightarrow>
           (case env_var (sdk_of sr) (around s) ''TERRASHIFT_PROFILE'' of
              Some p \<Rightarrow> Inr (path_of sr p)
            | None \<Rightarrow>
                (case home_dir sr (around s) of
                   None \<Rightarrow> Inl No_home
                 | Some home \<Rightarrow> Inr (home @ [''.terrashift'', ''profile.toml''])))), s)"

definition load_profile ::
  "('w, 's, 'x) surroundings \<Rightarrow> path \<Rightarrow> ('w machine, 's migrate_error, profile) act"
where
  "load_profile sr p s =
     ((case read_to_string (disk s) p of
         None \<Rightarrow> Inl (Profile_unreadable p)
       | Some t \<Rightarrow> (case from_toml (toml sr) t of Inl e \<Rightarrow> Inl (Migrate_Ai e) | Inr pf \<Rightarrow> Inr pf)), s)"

definition parse_tier :: "string \<Rightarrow> 's migrate_error + tier" where
  "parse_tier s =
     (if map to_ascii_lower s = ''eco'' then Inr Eco
      else if map to_ascii_lower s = ''smart'' then Inr Smart
      else Inl (Invalid_tier (map to_ascii_lower s)))"

definition build_llm_client ::
  "('w, 's, 'x) surroundings \<Rightarrow> profile \<Rightarrow> tier \<Rightarrow> 's migrate_error + ('w, 's) llm_client"
where
  "build_llm_client sr pf t =
     (case bindE (resolve_for_tier pf None None t) (real_client_new (sdk_of sr)) of
        Inl e \<Rightarrow> Inl (Migrate_Ai e) | Inr c \<Rightarrow> Inr c)"

definition VECTOR_DIM :: nat where
  "VECTOR_DIM = 384"

definition locate_seed_dir :: "('w, 's, 'x) surroundings \<Rightarrow> fs \<Rightarrow> path option" where
  "locate_seed_dir sr s =
     find (dirs s)
       ((case current_exe sr of
           None \<Rightarrow> []
         | Some exe \<Rightarrow>
             (if exe = [] then []
              else map (\<lambda>below. butlast exe @ below)
                [[''..'', ''share'', ''terrashift'', ''seed''],
                 [''..'', ''..'', ''libs'', ''knowledge'', ''seed''],
                 [''..'', ''..'', ''..'', ''libs'', ''knowledge'', ''seed'']]))
        @ (case current_dir sr of
             None \<Rightarrow> []
           | Some cwd \<Rightarrow> [cwd @ [''libs'', ''knowledge'', ''seed''], cwd @ [''seed'']]))"

text \<open>When no seed directory is found, nothing is seeded and the call goes on.\<close>

definition build_knowledge_service ::
  "('w, 's, 'x) surroundings \<Rightarrow> ('w machine, 's migrate_error, 'w knowledge) act"
where
  "build_knowledge_service sr s =
     (case seed_from_bundle (knowledge_services sr)
             (case locate_seed_dir sr (disk s) of Some d \<Rightarrow> bundle_at sr (disk s) d | None \<Rightarrow> No_dir)
             \<lparr>schemas = [], vectors = vector_store_new VECTOR_DIM, world = around s\<rparr> of
        (Inl e, k) \<Rightarrow> (Inl (Seeding e), s\<lparr>around := world k\<rparr>)
      | (Inr _, k) \<Rightarrow> (Inr k, s\<lparr>around := world k\<rparr>))"

text \<open>A relative path may start with the component \<open>.\<close>, an absolute one starts with \<open>/\<close>.\<close>

definition default_output_for :: "path \<Rightarrow> string \<Rightarrow> path" where
  "default_output_for src target =
     (if src \<noteq> [] \<and> last src \<notin> {[], ''.'', ''..'', ''/''} \<and> valid_utf8 (last src)
      then (if butlast src = [] then [''.''] else butlast src) @ [last src @ ''-'' @ target]
      else [''.'', ''terrashift-output-'' @ target])"

section \<open>The gate\<close>

definition target_version_of :: "'w knowledge \<Rightarrow> string \<Rightarrow> string option" where
  "target_version_of k target = (case list_versions (schemas k) target of [] \<Rightarrow> None | v # _ \<Rightarrow> Some v)"

type_synonym errors_by_addr = "string \<rightharpoonup> validation_error list"

definition group_errors :: "validation_error list \<Rightarrow> errors_by_addr" where
  "group_errors es =
     fold (\<lambda>e m. m(ve_addr e \<mapsto> (case m (ve_addr e) of None \<Rightarrow> [] | Some xs \<Rightarrow> xs) @ [e])) es Map.empty"

definition recovery_env ::
  "('w, 's, 'x) surroundings \<Rightarrow> ('w, 's) llm_client \<Rightarrow> tier \<Rightarrow> 'w env"
where
  "recovery_env sr llm t = \<lparr>is_cancelled = cancelled_in sr, reduce = passthrough_reduce,
     compact = passthrough_compact, hooks = [],
     generate_turn = json_generate_turn (json_of sr) (show_sdk_error sr) llm t,
     execute_tool_call = (\<lambda>ctx tc. retA Cancelled_result), sleep = sleep_in sr, utc_now = clock_in sr,
     parse_from_rfc2822 = rfc2822 sr, powi_f64 = powi_of sr\<rparr>"

text \<open>Steps 4b.i and 4b.ii: the first validation and, when it finds errors, the recovery; a recovery that
  fails leaves the mapper's plan. \<open>Inl\<close> is the early return.\<close>

definition repair_plan ::
  "('w, 's, 'x) surroundings \<Rightarrow> ('w, 's) llm_client \<Rightarrow> tier \<Rightarrow> 'w knowledge \<Rightarrow> string \<Rightarrow> mapping_plan
     \<Rightarrow> ('w machine, schema_error, mapping_plan) act"
where
  "repair_plan sr llm t k ver p s =
     (let fetch = fetch_provider_schema (schemas k) in
      case validate fetch p ver of
        Inl e \<Rightarrow> (Inl e, s)
      | Inr initial_report \<Rightarrow>
          (if errors initial_report = [] then (Inr p, s)
           else
             (case run_recovery recovery_config_default p fetch ver (recovery_env sr llm t)
                     (fresh_session_id sr) (around s) of
                (Inr (updated_plan, outcome), w) \<Rightarrow> (Inr updated_plan, s\<lparr>around := w\<rparr>)
              | (Inl e, w) \<Rightarrow> (Inr p, s\<lparr>around := w\<rparr>))))"

text \<open>Step 4b as a whole: the plan to emit and the errors of its resources.\<close>

definition final_errors :: "'w knowledge \<Rightarrow> string \<Rightarrow> mapping_plan \<Rightarrow> errors_by_addr" where
  "final_errors k ver p =
     (case validate (fetch_provider_schema (schemas k)) p ver of
        Inr report \<Rightarrow> group_errors (errors report)
      | Inl e \<Rightarrow> Map.empty)"

definition article_iii_gate ::
  "('w, 's, 'x) surroundings \<Rightarrow> ('w, 's) llm_client \<Rightarrow> tier \<Rightarrow> 'w knowledge \<Rightarrow> string \<Rightarrow> mapping_plan
     \<Rightarrow> ('w machine, schema_error, mapping_plan \<times> errors_by_addr) act"
where
  "article_iii_gate sr llm t k target p =
     (case target_version_of k target of
        None \<Rightarrow> retA (p, Map.empty)
      | Some ver \<Rightarrow> bindA (repair_plan sr llm t k ver p) (\<lambda>p'. retA (p', final_errors k ver p')))"

section \<open>Emission\<close>

text \<open>\<open>TempDir::new()\<close>, and its removal when it goes out of scope.\<close>

definition with_temp_dir ::
  "('w, 's, 'x) surroundings \<Rightarrow> (path \<Rightarrow> (fs, 's migrate_error, 'a) act) \<Rightarrow> (fs, 's migrate_error, 'a) act"
where
  "with_temp_dir sr body s =
     (case temp_dir sr s of
        None \<Rightarrow> (Inl No_temp_dir, s)
      | Some d \<Rightarrow> (case body d (create_dir_all d s) of (r, s') \<Rightarrow> (r, remove_tree d s')))"

text \<open>One generated file appended to the output directory; a failed write is ignored.\<close>

definition append_file :: "io \<Rightarrow> path \<Rightarrow> path \<Rightarrow> path list \<times> fs \<Rightarrow> path list \<times> fs" where
  "append_file io output_dir src = (\<lambda>(emitted, s).
     let dst = output_dir @ [last src] in
     case read_to_string s src of
       None \<Rightarrow> (emitted, s)
     | Some text \<Rightarrow>
         (let existing = (case read_to_string s dst of Some e \<Rightarrow> e | None \<Rightarrow> []);
              combined = (if existing = [] then text else existing @ [CHR 0x0A] @ text) in
          (if dst \<in> set emitted then emitted else emitted @ [dst], snd (write_file io dst combined s))))"

record progress =
  pg_emitted :: "path list"
  pg_skipped :: "(string \<times> skip_reason) list"

definition emit_one ::
  "('w, 's, 'x) surroundings \<Rightarrow> path \<Rightarrow> path \<Rightarrow> mapping_plan \<Rightarrow> errors_by_addr \<Rightarrow> mapped_resource \<Rightarrow> progress
     \<Rightarrow> (fs, 's migrate_error, progress) act"
where
  "emit_one sr cwd out p by_addr r pg =
     (case by_addr (target_addr r) of
        Some errs \<Rightarrow> retA (pg\<lparr>pg_skipped := pg_skipped pg
          @ [(target_addr r, By_validator (case errs of [] \<Rightarrow> None | e # _ \<Rightarrow> Some e))]\<rparr>)
      | None \<Rightarrow>
          with_temp_dir sr (\<lambda>single_out s.
            case generate (os sr) (hcl_of sr) cwd single_out (p\<lparr>resources := [r]\<rparr>) s of
              (Inr art, s') \<Rightarrow>
                (case fold (append_file (os sr) out) (ga_files art) (pg_emitted pg, s') of
                   (emitted, s'') \<Rightarrow> (Inr (pg\<lparr>pg_emitted := emitted\<rparr>), s''))
            | (Inl err, s') \<Rightarrow>
                (Inr (pg\<lparr>pg_skipped := pg_skipped pg @ [(target_addr r, By_generator err)]\<rparr>), s')))"

fun emit_resources ::
  "('w, 's, 'x) surroundings \<Rightarrow> path \<Rightarrow> path \<Rightarrow> mapping_plan \<Rightarrow> errors_by_addr \<Rightarrow> mapped_resource list \<Rightarrow> progress
     \<Rightarrow> (fs, 's migrate_error, progress) act"
where
  "emit_resources sr cwd out p by_addr [] pg = retA pg"
| "emit_resources sr cwd out p by_addr (r # rs) pg =
     bindA (emit_one sr cwd out p by_addr r pg) (emit_resources sr cwd out p by_addr rs)"

definition prepare_output ::
  "('w, 's, 'x) surroundings \<Rightarrow> migrate_args \<Rightarrow> (fs, 's migrate_error, path) act"
where
  "prepare_output sr args s =
     (let out = (case arg_output args of Some p \<Rightarrow> p
                 | None \<Rightarrow> default_output_for (arg_source args) (to_provider args)) in
      if mkdir_fault (os sr) out then (Inl (Output_dir out), s) else (Inr out, create_dir_all out s))"

definition emit_plan ::
  "('w, 's, 'x) surroundings \<Rightarrow> migrate_args \<Rightarrow> nat \<Rightarrow> mapping_plan \<Rightarrow> errors_by_addr
     \<Rightarrow> (fs, 's migrate_error, migrate_end) act"
where
  "emit_plan sr args total_resources p by_addr =
     bindA (prepare_output sr args) (\<lambda>out.
     with_temp_dir sr (\<lambda>cwd.
       bindA (emit_resources sr cwd out p by_addr (resources p) \<lparr>pg_emitted = [], pg_skipped = []\<rparr>) (\<lambda>pg.
         retA (Migrated \<lparr>sm_total_resources = total_resources, sm_plan = p, sm_output_dir = out,
           sm_emitted = pg_emitted pg, sm_skipped = pg_skipped pg\<rparr>))))"

section \<open>The command\<close>

definition scan_source ::
  "('w, 's, 'x) surroundings \<Rightarrow> path \<Rightarrow> ('w machine, 's migrate_error, estate_inventory) act"
where
  "scan_source sr root s =
     ((case scan_estate (reader sr) (read_to_string (disk s)) root (tree_at sr (disk s) root) of
         Inl e \<Rightarrow> Inl (Scanning e) | Inr estate \<Rightarrow> Inr estate), s)"

definition mapping_env ::
  "('w, 's, 'x) surroundings \<Rightarrow> ('w, 's) llm_client \<Rightarrow> ('w, 's ai_error) mapper_env"
where
  "mapping_env sr llm = \<lparr>estate_json = estate_to_json sr, plan_of_json = plan_from_json sr, sha256_hex = sha256 sr,
     complete_eco = (\<lambda>prompt. bindA (llm Eco prompt) (\<lambda>(response, _). retA response)),
     context_reduce = passthrough_reduce, new_run_id = fresh_run_id sr, kn_services = knowledge_services sr\<rparr>"

text \<open>Step 4, with a fresh cache.\<close>

definition map_source ::
  "('w, 's, 'x) surroundings \<Rightarrow> ('w, 's) llm_client \<Rightarrow> migrate_args \<Rightarrow> 'w knowledge \<Rightarrow> estate_inventory
     \<Rightarrow> ('w machine, 's migrate_error, mapping_plan) act"
where
  "map_source sr llm args k estate s =
     (case map_estate (mapping_env sr llm) \<lparr>mp_source = from_provider args, mp_target = to_provider args\<rparr> estate
             \<lparr>plan_cache = Map.empty, knowledge = k\<lparr>world := around s\<rparr>\<rparr> of
        (Inl e, m) \<Rightarrow> (Inl (Mapping e), s\<lparr>around := world (knowledge m)\<rparr>)
      | (Inr p, m) \<Rightarrow> (Inr p, s\<lparr>around := world (knowledge m)\<rparr>))"

definition migrate_plan ::
  "('w, 's, 'x) surroundings \<Rightarrow> ('w, 's) llm_client \<Rightarrow> tier \<Rightarrow> migrate_args \<Rightarrow> 'w knowledge \<Rightarrow> nat \<Rightarrow> mapping_plan
     \<Rightarrow> ('w machine, 's migrate_error, migrate_end) act"
where
  "migrate_plan sr llm t args k total_resources p s =
     (case article_iii_gate sr llm t k (to_provider args) p s of
        (Inl e, s') \<Rightarrow> (Inr (Validator_unavailable e), s')
      | (Inr (p', by_addr), s') \<Rightarrow>
          (if dry_run args then (Inr (Dry_run_done p'), s')
           else on_disk (emit_plan sr args total_resources p' by_addr) s'))"

definition migrate ::
  "('w, 's, 'x) surroundings \<Rightarrow> path option \<Rightarrow> migrate_args \<Rightarrow> ('w machine, 's migrate_error, migrate_end) act"
where
  "migrate sr profile_path args =
     bindA (resolve_profile_path sr profile_path) (\<lambda>pp.
     bindA (load_profile sr pp) (\<lambda>pf.
     bindA (Pair (parse_tier (arg_tier args))) (\<lambda>t.
     bindA (Pair (build_llm_client sr pf t)) (\<lambda>llm.
     bindA (build_knowledge_service sr) (\<lambda>k.
     bindA (scan_source sr (arg_source args)) (\<lambda>estate.
       if resource_count estate = 0 then retA Nothing_to_migrate
       else bindA (map_source sr llm args k estate)
              (migrate_plan sr llm t args k (resource_count estate))))))))"

section \<open>The gate lets only conforming resources through\<close>

lemma group_errors_Nil [simp]: "group_errors [] = Map.empty"
  by (simp add: group_errors_def)

lemma group_errors_snoc:
  "group_errors (es @ [e]) =
     (group_errors es)(ve_addr e \<mapsto> (case group_errors es (ve_addr e) of None \<Rightarrow> [] | Some xs \<Rightarrow> xs) @ [e])"
  by (simp add: group_errors_def)

lemma group_errors:
  "group_errors es a =
     (if filter (\<lambda>e. ve_addr e = a) es = [] then None else Some (filter (\<lambda>e. ve_addr e = a) es))"
  by (induction es rule: rev_induct) (auto simp: group_errors_snoc)

lemma check_resource_addr: "e \<in> set (fst (check_resource schema r)) \<Longrightarrow> ve_addr e = target_addr r"
  by (auto simp: check_resource_def attribute_errors_def missing_errors_def split: option.splits)

lemma final_errors_conform:
  assumes "fetch_provider_schema (schemas k) (target_provider p) ver = Inr schema" "r \<in> set (resources p)"
    "final_errors k ver p (target_addr r) = None"
  shows "conforms schema r"
proof -
  from assms(1,3) have "\<forall>e\<in>set (errors (validate_plan_against schema p)). ve_addr e \<noteq> target_addr r"
    by (auto simp: final_errors_def validate_def group_errors filter_empty_conv simp del: validate_errors split: if_splits)
  with assms(2) check_resource_addr [of _ schema r] have "fst (check_resource schema r) = []"
    by (cases "fst (check_resource schema r)") fastforce+
  then show ?thesis by (simp add: check_resource_errors)
qed

lemma repair_plan_derived:
  assumes "repair_plan sr llm t k ver p s = (Inr p', s')"
  shows "target_provider p' = target_provider p"
    and "\<exists>schema. fetch_provider_schema (schemas k) (target_provider p) ver = Inr schema"
    and "disk s' = disk s"
proof -
  from assms(1) obtain report where v: "validate (fetch_provider_schema (schemas k)) p ver = Inr report"
    by (auto simp: repair_plan_def Let_def split: sum.splits)
  then show "\<exists>schema. fetch_provider_schema (schemas k) (target_provider p) ver = Inr schema"
    by (auto simp: validate_def split: sum.splits)
  from assms(1) v show "disk s' = disk s"
    by (auto simp: repair_plan_def Let_def split: sum.splits prod.splits if_splits)
  from assms(1) v show "target_provider p' = target_provider p"
    by (auto simp: repair_plan_def Let_def derived_from_def split: sum.splits prod.splits if_splits
        dest!: recovery_derived)
qed

section \<open>Emission\<close>

definition temp_ok :: "('w, 's, 'x) surroundings \<Rightarrow> path \<Rightarrow> bool" where
  "temp_ok sr out \<longleftrightarrow> (\<forall>s d. temp_dir sr s = Some d \<longrightarrow>
     \<not> prefix out d \<and> \<not> prefix d out \<and> (\<forall>p. prefix d p \<longrightarrow> \<not> path_exists s p))"

definition writes_text :: "hcl \<Rightarrow> bool" where
  "writes_text h \<longleftrightarrow> (\<forall>bs c. hcl_to_string h bs = Inr c \<longrightarrow> valid_utf8 c)"

lemma generate_single:
  assumes "no_faults io" "dirs s d" "\<not> path_exists s (target_path d (target_type r))"
  shows "generate io h cwd d (p\<lparr>resources := [r]\<rparr>) s =
     (case render_one h r of
        Inl e \<Rightarrow> (Inl e, s)
      | Inr c \<Rightarrow> (Inr \<lparr>ga_files = [target_path d (target_type r)], ga_backups = [], ga_backups_created = 0,
                     ga_emitted = [\<lparr>ef_path = target_path d (target_type r), ef_backup_path = None, ef_overwrote = False\<rparr>]\<rparr>,
                 s\<lparr>files := (files s)(target_path d (target_type r) \<mapsto> c)\<rparr>))"
proof -
  have g: "group_by_target_type (sort_resources [r]) = [(target_type r, [r])]"
    by (simp add: group_by_target_type_def sort_resources_def)
  show ?thesis
  proof (cases "render_one h r")
    case (Inl e)
    with assms g show ?thesis
      by (simp add: generate_def emit_def emit_group_def render_one_def bindA_def)
  next
    case (Inr c)
    with assms g show ?thesis
      by (simp add: generate_def emit_def emit_group_def render_one_def bindA_def Let_def write_file_def no_faults_def
          map_filter_simps)
  qed
qed

lemma render_one_text: "writes_text h \<Longrightarrow> render_one h r = Inr c \<Longrightarrow> valid_utf8 c"
  by (auto simp: writes_text_def render_one_def render_group_def split: option.splits sum.splits)

text \<open>What a file holds after a text was appended to it.\<close>

definition join_text :: "string \<Rightarrow> string \<Rightarrow> string" where
  "join_text existing c = (if existing = [] then c else existing @ [CHR 0x0A] @ c)"

definition readable :: "string option \<Rightarrow> string" where
  "readable old = (case old of Some e \<Rightarrow> if valid_utf8 e then e else [] | None \<Rightarrow> [])"

lemma read_to_string_readable: "(case read_to_string s p of Some e \<Rightarrow> e | None \<Rightarrow> []) = readable (files s p)"
  by (simp add: read_to_string_def readable_def split: option.split)

definition note_path :: "path \<Rightarrow> path list \<Rightarrow> path list" where
  "note_path p ps = (if p \<in> set ps then ps else ps @ [p])"

lemma append_file:
  assumes "no_faults io" "files s src = Some c" "valid_utf8 c" "src \<noteq> []"
  shows "append_file io out src (ps, s) =
     (note_path (out @ [last src]) ps,
      s\<lparr>files := (files s)(out @ [last src] \<mapsto> join_text (readable (files s (out @ [last src]))) c)\<rparr>)"
proof -
  have "read_to_string s src = Some c" using assms by (simp add: read_to_string_def)
  with assms show ?thesis
    by (simp add: append_file_def Let_def read_to_string_readable note_path_def join_text_def write_file_def no_faults_def)
qed

text \<open>What one resource does to the progress and to the files.\<close>

definition verdict :: "hcl \<Rightarrow> errors_by_addr \<Rightarrow> mapped_resource \<Rightarrow> skip_reason + string" where
  "verdict h by_addr r =
     (case by_addr (target_addr r) of
        Some errs \<Rightarrow> Inl (By_validator (case errs of [] \<Rightarrow> None | e # _ \<Rightarrow> Some e))
      | None \<Rightarrow> (case render_one h r of Inl e \<Rightarrow> Inl (By_generator e) | Inr c \<Rightarrow> Inr c))"

definition progress_after :: "hcl \<Rightarrow> errors_by_addr \<Rightarrow> path \<Rightarrow> mapped_resource \<Rightarrow> progress \<Rightarrow> progress" where
  "progress_after h by_addr out r pg =
     (case verdict h by_addr r of
        Inl why \<Rightarrow> pg\<lparr>pg_skipped := pg_skipped pg @ [(target_addr r, why)]\<rparr>
      | Inr c \<Rightarrow> pg\<lparr>pg_emitted := note_path (target_path out (target_type r)) (pg_emitted pg)\<rparr>)"

definition files_after :: "hcl \<Rightarrow> errors_by_addr \<Rightarrow> path \<Rightarrow> mapped_resource \<Rightarrow> (path \<rightharpoonup> string) \<Rightarrow> (path \<rightharpoonup> string)" where
  "files_after h by_addr out r f =
     (case verdict h by_addr r of
        Inl why \<Rightarrow> f
      | Inr c \<Rightarrow> f(target_path out (target_type r) \<mapsto> join_text (readable (f (target_path out (target_type r)))) c))"

lemma no_temp_files:
  assumes "temp_ok sr out" "temp_dir sr s = Some d" "\<And>p. \<not> prefix d p \<Longrightarrow> files s' p = files s p"
  shows "files (remove_tree d s') = files s"
  using assms by (fastforce simp: remove_tree_def temp_ok_def path_exists_def)

lemma emit_one_exact:
  assumes ok: "no_faults (os sr)" "temp_ok sr out" "writes_text (hcl_of sr)"
    and run: "emit_one sr cwd out p by_addr r pg s = (res, s')"
  shows "res = Inl No_temp_dir \<or>
     res = Inr (progress_after (hcl_of sr) by_addr out r pg) \<and> files s' = files_after (hcl_of sr) by_addr out r (files s)"
proof (cases "by_addr (target_addr r)")
  case (Some errs)
  with run show ?thesis by (auto simp: emit_one_def progress_after_def files_after_def verdict_def)
next
  case None
  show ?thesis
  proof (cases "temp_dir sr s")
    case None': None
    with run None show ?thesis by (simp add: emit_one_def with_temp_dir_def)
  next
    case (Some d)
    let ?s = "create_dir_all d s" and ?src = "target_path d (target_type r)" and ?dst = "target_path out (target_type r)"
    from ok(2) Some have out: "\<not> prefix out d" "\<not> prefix d out" and fresh: "\<And>p. prefix d p \<Longrightarrow> \<not> path_exists s p"
      by (auto simp: temp_ok_def)
    then have "\<not> path_exists ?s ?src" by (auto simp: path_exists_def create_dir_all_def target_path_def prefix_def)
    note gen = generate_single [OF ok(1) _ this, of "hcl_of sr" cwd p]
    have dst: "\<not> prefix d ?dst" "?src \<noteq> ?dst"
      using out by (auto simp: target_path_def prefix_snoc)
    show ?thesis
    proof (cases "render_one (hcl_of sr) r")
      case (Inl e)
      have "files (remove_tree d ?s) = files s"
        using no_temp_files [OF ok(2) Some] by (simp add: create_dir_all_def)
      with run None Some gen Inl show ?thesis
        by (auto simp: emit_one_def with_temp_dir_def progress_after_def files_after_def verdict_def create_dir_all_def)
    next
      case (Inr c)
      let ?s1 = "?s\<lparr>files := (files ?s)(?src \<mapsto> c)\<rparr>"
      have src: "last ?src = target_type r @ ''.tf''" "?src \<noteq> []" by (simp_all add: target_path_def)
      have app: "append_file (os sr) out ?src (pg_emitted pg, ?s1) =
          (note_path ?dst (pg_emitted pg), ?s1\<lparr>files := (files ?s1)(?dst \<mapsto> join_text (readable (files s ?dst)) c)\<rparr>)"
        using append_file [OF ok(1), of ?s1 ?src c out "pg_emitted pg"] render_one_text [OF ok(3) Inr] src dst
        by (simp add: target_path_def create_dir_all_def)
      have "files (remove_tree d (?s1\<lparr>files := (files ?s1)(?dst \<mapsto> x)\<rparr>)) = (files s)(?dst \<mapsto> x)" for x
        using fresh dst by (auto simp: remove_tree_def create_dir_all_def target_path_def path_exists_def fun_eq_iff)
      with run None Some gen Inr app show ?thesis
        by (auto simp: emit_one_def with_temp_dir_def progress_after_def files_after_def verdict_def create_dir_all_def)
    qed
  qed
qed

lemma emit_resources_exact:
  assumes "no_faults (os sr)" "temp_ok sr out" "writes_text (hcl_of sr)"
  shows "emit_resources sr cwd out p by_addr rs pg s = (res, s') \<Longrightarrow>
     res = Inl No_temp_dir \<or>
     res = Inr (fold (progress_after (hcl_of sr) by_addr out) rs pg)
     \<and> files s' = fold (files_after (hcl_of sr) by_addr out) rs (files s)"
proof (induction rs arbitrary: pg s)
  case (Cons r rs)
  obtain res1 s1 where one: "emit_one sr cwd out p by_addr r pg s = (res1, s1)" by force
  with emit_one_exact [OF assms one] Cons show ?case by (auto simp: bindA_def)
qed simp

lemma valid_join_text: "valid_utf8 a \<Longrightarrow> valid_utf8 c \<Longrightarrow> valid_utf8 (join_text a c)"
proof -
  have "valid_utf8 [CHR 0x0A]" by (simp add: valid_utf8.simps [of "[CHR 0x0A]"] utf8_unit_def in_range_def)
  then show "valid_utf8 a \<Longrightarrow> valid_utf8 c \<Longrightarrow> valid_utf8 (join_text a c)"
    using valid_utf8_append [of "[CHR 0x0A]" c] by (auto simp: join_text_def intro: valid_utf8_append)
qed

definition join_all :: "string list \<Rightarrow> string \<Rightarrow> string" where
  "join_all cs old = fold (\<lambda>c acc. join_text acc c) cs old"

lemma readable_valid [simp]: "valid_utf8 (readable old)"
  by (simp add: readable_def split: option.split)

lemma valid_join_all: "valid_utf8 old \<Longrightarrow> list_all valid_utf8 cs \<Longrightarrow> valid_utf8 (join_all cs old)"
  unfolding join_all_def by (induction cs arbitrary: old) (auto intro: valid_join_text)

section \<open>The output, file by file\<close>

definition accepted_texts :: "hcl \<Rightarrow> errors_by_addr \<Rightarrow> string \<Rightarrow> mapped_resource list \<Rightarrow> string list" where
  "accepted_texts h by_addr ty rs = List.map_filter
     (\<lambda>r. if target_type r = ty then (case verdict h by_addr r of Inr c \<Rightarrow> Some c | Inl _ \<Rightarrow> None) else None) rs"

definition rejections :: "hcl \<Rightarrow> errors_by_addr \<Rightarrow> mapped_resource list \<Rightarrow> (string \<times> skip_reason) list" where
  "rejections h by_addr rs = List.map_filter
     (\<lambda>r. case verdict h by_addr r of Inl why \<Rightarrow> Some (target_addr r, why) | Inr c \<Rightarrow> None) rs"

lemma accepted_texts_valid: "writes_text h \<Longrightarrow> list_all valid_utf8 (accepted_texts h by_addr ty rs)"
  by (induction rs)
    (auto simp: accepted_texts_def map_filter_simps verdict_def intro: render_one_text split: option.splits sum.splits)

lemma files_after_all:
  assumes h: "writes_text h"
  shows "fold (files_after h by_addr out) rs f (target_path out ty) =
     (if accepted_texts h by_addr ty rs = [] then f (target_path out ty)
      else Some (join_all (accepted_texts h by_addr ty rs) (readable (f (target_path out ty)))))"
proof (induction rs arbitrary: f)
  case (Cons r rs)
  show ?case
  proof (cases "verdict h by_addr r")
    case (Inr c)
    then have "valid_utf8 c" using h by (auto simp: verdict_def intro: render_one_text split: option.splits sum.splits)
    then have "readable (Some (join_text (readable x) c)) = join_text (readable x) c" for x
      by (simp add: readable_def [of "Some _"] valid_join_text)
    with Cons Inr show ?thesis
      by (auto simp: files_after_def accepted_texts_def map_filter_simps join_all_def)
  qed (use Cons in \<open>simp add: files_after_def accepted_texts_def map_filter_simps\<close>)
qed (simp add: accepted_texts_def map_filter_simps)

lemma files_after_other:
  "(\<And>ty. q \<noteq> target_path out ty) \<Longrightarrow> fold (files_after h by_addr out) rs f q = f q"
  by (induction rs arbitrary: f) (auto simp: files_after_def split: sum.split)

lemma skipped_after_all:
  "pg_skipped (fold (progress_after h by_addr out) rs pg) = pg_skipped pg @ rejections h by_addr rs"
  by (induction rs arbitrary: pg) (auto simp: progress_after_def rejections_def map_filter_simps split: sum.split)

lemma emit_plan_Migrated:
  assumes "emit_plan sr args n p by_addr s = (Inr (Migrated sm), s')"
  obtains out d pg s1 where
    "out = (case arg_output args of Some p \<Rightarrow> p | None \<Rightarrow> default_output_for (arg_source args) (to_provider args))"
    "temp_dir sr (create_dir_all out s) = Some d"
    "emit_resources sr d out p by_addr (resources p) \<lparr>pg_emitted = [], pg_skipped = []\<rparr>
       (create_dir_all d (create_dir_all out s)) = (Inr pg, s1)"
    "sm = \<lparr>sm_total_resources = n, sm_plan = p, sm_output_dir = out, sm_emitted = pg_emitted pg,
       sm_skipped = pg_skipped pg\<rparr>"
    "s' = remove_tree d s1"
  using assms
  by (auto simp: emit_plan_def prepare_output_def with_temp_dir_def bindA_eq_Inr Let_def
      split: if_splits option.splits prod.splits)

lemma emit_plan_exact:
  assumes ok: "no_faults (os sr)" "temp_ok sr (sm_output_dir sm)" "writes_text (hcl_of sr)"
    and run: "emit_plan sr args n p by_addr s = (Inr (Migrated sm), s')"
  shows "files s' = fold (files_after (hcl_of sr) by_addr (sm_output_dir sm)) (resources p) (files s)"
    and "sm_skipped sm = rejections (hcl_of sr) by_addr (resources p)" and "sm_plan sm = p"
proof -
  from run obtain out d pg s1 where
    d: "temp_dir sr (create_dir_all out s) = Some d"
    and em: "emit_resources sr d out p by_addr (resources p) \<lparr>pg_emitted = [], pg_skipped = []\<rparr>
         (create_dir_all d (create_dir_all out s)) = (Inr pg, s1)"
    and sm: "sm = \<lparr>sm_total_resources = n, sm_plan = p, sm_output_dir = out, sm_emitted = pg_emitted pg,
         sm_skipped = pg_skipped pg\<rparr>" and s': "s' = remove_tree d s1"
    by (rule emit_plan_Migrated)
  let ?s = "create_dir_all out s" and ?pg = "\<lparr>pg_emitted = [], pg_skipped = []\<rparr>"
  from sm have o: "sm_output_dir sm = out" by simp
  note ok = ok [unfolded o]
  from emit_resources_exact [OF ok em]
  have pg: "pg = fold (progress_after (hcl_of sr) by_addr out) (resources p) ?pg"
    and s1: "files s1 = fold (files_after (hcl_of sr) by_addr out) (resources p) (files s)"
    by (simp_all add: create_dir_all_def)
  show "sm_skipped sm = rejections (hcl_of sr) by_addr (resources p)" "sm_plan sm = p"
    by (simp_all add: sm pg skipped_after_all)
  have "files (remove_tree d s1) = files s1"
  proof -
    have "files s1 q = None" if q: "prefix d q" for q
    proof -
      from ok(2) d have "\<not> prefix out d" "\<not> prefix d out" "\<not> path_exists ?s q" using q by (auto simp: temp_ok_def)
      then have "\<And>ty. q \<noteq> target_path out ty" "files s q = None"
        using q by (auto simp: target_path_def prefix_snoc path_exists_def create_dir_all_def)
      then show ?thesis by (simp add: s1 files_after_other)
    qed
    then show ?thesis by (auto simp: remove_tree_def fun_eq_iff)
  qed
  with s1 o show "files s' = fold (files_after (hcl_of sr) by_addr (sm_output_dir sm)) (resources p) (files s)"
    by (simp add: s')
qed

section \<open>Nothing that was rejected is emitted\<close>

lemma emit_one_skips:
  assumes "emit_one sr cwd out p by_addr r pg s = (Inr pg', s')"
  shows "set (pg_skipped pg) \<subseteq> set (pg_skipped pg')"
    and "by_addr (target_addr r) \<noteq> None \<Longrightarrow> target_addr r \<in> fst ` set (pg_skipped pg')"
  using assms
  by (auto simp: emit_one_def with_temp_dir_def split: option.splits prod.splits sum.splits)

lemma emit_resources_skips:
  "emit_resources sr cwd out p by_addr rs pg s = (Inr pg', s') \<Longrightarrow>
     set (pg_skipped pg) \<subseteq> set (pg_skipped pg')
     \<and> (\<forall>r\<in>set rs. by_addr (target_addr r) \<noteq> None \<longrightarrow> target_addr r \<in> fst ` set (pg_skipped pg'))"
proof (induction rs arbitrary: pg s)
  case (Cons r rs)
  then obtain pg1 s1 where one: "emit_one sr cwd out p by_addr r pg s = (Inr pg1, s1)"
    and rest: "emit_resources sr cwd out p by_addr rs pg1 s1 = (Inr pg', s')"
    by (auto simp: bindA_eq_Inr)
  from Cons.IH [OF rest] emit_one_skips [OF one] show ?case by (auto 0 3)
qed simp

lemma emit_plan_skips:
  assumes "emit_plan sr args n p by_addr s = (Inr (Migrated sm), s')"
  shows "sm_plan sm = p"
    and "r \<in> set (resources p) \<Longrightarrow> by_addr (target_addr r) \<noteq> None \<Longrightarrow> target_addr r \<in> fst ` set (sm_skipped sm)"
proof -
  from assms obtain d out s1 pg s2 where
    em: "emit_resources sr d out p by_addr (resources p) \<lparr>pg_emitted = [], pg_skipped = []\<rparr> s1 = (Inr pg, s2)"
    and sm: "sm_plan sm = p" "sm_skipped sm = pg_skipped pg"
    by (rule emit_plan_Migrated) simp
  from emit_resources_skips [OF em] sm show "sm_plan sm = p"
    and "r \<in> set (resources p) \<Longrightarrow> by_addr (target_addr r) \<noteq> None \<Longrightarrow> target_addr r \<in> fst ` set (sm_skipped sm)"
    by auto
qed

lemma migrate_plan_gated:
  assumes "migrate_plan sr llm t args k n p s = (Inr (Migrated sm), s')"
    and ver: "target_version_of k (to_provider args) = Some ver"
  shows "\<exists>schema. fetch_provider_schema (schemas k) (target_provider (sm_plan sm)) ver = Inr schema
     \<and> (\<forall>r\<in>set (resources (sm_plan sm)). target_addr r \<notin> fst ` set (sm_skipped sm) \<longrightarrow> conforms schema r)"
proof -
  from assms obtain p' s1 s2 where rep: "repair_plan sr llm t k ver p s = (Inr p', s1)"
    and em: "emit_plan sr args n p' (final_errors k ver p') (disk s1) = (Inr (Migrated sm), s2)"
    by (auto simp: migrate_plan_def article_iii_gate_def bindA_def on_disk_def
        split: prod.splits sum.splits if_splits option.splits)
  from repair_plan_derived [OF rep] obtain schema where
    schema: "fetch_provider_schema (schemas k) (target_provider p') ver = Inr schema" by auto
  have "conforms schema r" if "r \<in> set (resources p')" "target_addr r \<notin> fst ` set (sm_skipped sm)" for r
    using emit_plan_skips(2) [OF em that(1)] that final_errors_conform [OF schema that(1)] by blast
  with schema emit_plan_skips(1) [OF em] show ?thesis by auto
qed

section \<open>Properties\<close>


text \<open>C25. Mapper and generator agree on what exists: whatever the LLM answers, generating a plan the mapper
  returned never fails for want of a template.\<close>

theorem mapped_plan_has_templates:
  assumes "map_estate env m estate (map_all env m estates \<lparr>plan_cache = Map.empty, knowledge = k\<rparr>) = (Inr p, ms)"
  shows "fst (generate io h cwd out p s) \<noteq> Inl (TemplateMiss ty)"
proof -
  have "cache_supported (mp_target m) \<lparr>plan_cache = Map.empty, knowledge = k\<rparr>"
    by (simp add: cache_supported_def)
  from cache_supported_map(2) [OF cache_supported_map_all [OF this] assms]
  have "list_all (\<lambda>r. template_for (target_type r) \<noteq> None) (resources p)"
    by (auto simp: plan_supported_def list_all_iff)
  from generate_has_templates [OF this] show ?thesis .
qed

text \<open>C11. The output is exactly the accepted resources: without I/O faults and with temporary directories
  that are new and apart from the output directory, the file of each type holds what it held before
  followed by the text of each accepted resource of that type, in plan order; no other file changes,
  and the summary lists every other resource with the reason it was left out.\<close>

theorem migration_output_exact:
  assumes "no_faults (os sr)" "temp_ok sr (sm_output_dir sm)" "writes_text (hcl_of sr)"
    and "emit_plan sr args n p by_addr s = (Inr (Migrated sm), s')"
  shows "files s' (target_path (sm_output_dir sm) ty) =
      (let texts = accepted_texts (hcl_of sr) by_addr ty (resources p);
           old = files s (target_path (sm_output_dir sm) ty) in
       if texts = [] then old else Some (join_all texts (readable old)))
    \<and> (\<forall>q. (\<forall>ty. q \<noteq> target_path (sm_output_dir sm) ty) \<longrightarrow> files s' q = files s q)
    \<and> sm_skipped sm = rejections (hcl_of sr) by_addr (resources p)"
  using emit_plan_exact [OF assms] by (simp add: files_after_all [OF assms(3)] files_after_other Let_def)

text \<open>Migrating again does not replace the output: a second run of the same plan into the same
  directory appends every accepted text a second time, without a backup.\<close>

theorem second_run_appends:
  assumes "no_faults (os sr)" "temp_ok sr (sm_output_dir sm)" "temp_ok sr (sm_output_dir sm')" "writes_text (hcl_of sr)"
    and "emit_plan sr args n p by_addr s = (Inr (Migrated sm), s1)"
    and "emit_plan sr args n p by_addr s1 = (Inr (Migrated sm'), s2)"
    and "accepted_texts (hcl_of sr) by_addr ty (resources p) \<noteq> []"
  shows "sm_output_dir sm' = sm_output_dir sm \<and> files s2 (target_path (sm_output_dir sm) ty) =
     (let texts = accepted_texts (hcl_of sr) by_addr ty (resources p) in
      Some (join_all (texts @ texts) (readable (files s (target_path (sm_output_dir sm) ty)))))"
proof -
  have same: "sm_output_dir sm' = sm_output_dir sm"
    by (rule emit_plan_Migrated [OF assms(5)], rule emit_plan_Migrated [OF assms(6)]) simp
  let ?q = "target_path (sm_output_dir sm) ty" and ?texts = "accepted_texts (hcl_of sr) by_addr ty (resources p)"
  have one: "files s1 ?q = Some (join_all ?texts (readable (files s ?q)))"
    using emit_plan_exact(1) [OF assms(1,2,4,5)] assms(7) by (simp add: files_after_all [OF assms(4)])
  have "valid_utf8 (join_all ?texts (readable (files s ?q)))"
    by (intro valid_join_all readable_valid accepted_texts_valid assms)
  then have "readable (files s1 ?q) = join_all ?texts (readable (files s ?q))"
    by (simp add: one readable_def [of "Some _"])
  then show ?thesis
    using emit_plan_exact(1) [OF assms(1,3,4,6)] assms(7) same
    by (simp add: files_after_all [OF assms(4)] join_all_def Let_def)
qed

end
