(* ===== verification/Migrate_Examples.thy ===== *)
theory Migrate_Examples
  imports Migrate
begin

text \<open>
  Concrete runs of the pipeline of \<open>Migrate\<close>: the machine, profile, model answer and schema of a
  one-resource migration, evaluated step by step, and the witnesses of the pipeline's properties.
\<close>

section \<open>The surroundings\<close>

definition ex_profile :: profile where
  "ex_profile = \<lparr>pf_model = None, pf_tiers = \<lparr>tier_eco = ''groq/llama'', tier_smart = None\<rparr>,
     pf_providers = [(''groq'', \<lparr>pc_type = ''openai-compatible'', api_endpoint = ''https://groq'', api_key_env = ''KEY''\<rparr>)],
     pf_schemas = \<lparr>pinned_schemas = [], auto_update = Off, auto_update_window = OffHours\<rparr>\<rparr>"

definition ex_sdk :: "(nat, string) sdk" where
  "ex_sdk = \<lparr>env_var = (\<lambda>_ _. Some ''k''), with_config = (\<lambda>_ _. None),
     sdk_generate = (\<lambda>key endpoint model provider prompt n. (Inr ''plan'', Suc n)), elapsed_millis = (\<lambda>_ _. 7)\<rparr>"

definition ex_resource :: mapped_resource where
  "ex_resource = \<lparr>source_addr = ''google_compute_network.m'', target_addr = ''aws_vpc.m'', target_type = ''aws_vpc'',
     target_name = ''m'', attributes = [(''cidr_block'', AString ''10.0.0.0/16'')], dependencies = []\<rparr>"

definition ex_plan :: mapping_plan where
  "ex_plan = \<lparr>plan_run_id = 1, source_provider = ''google'', target_provider = ''aws'', resources = [ex_resource]\<rparr>"

definition ex_schema :: provider_schema where
  "ex_schema = \<lparr>ps_provider = ''aws'', ps_version = ''1'',
     ps_resources = [(''aws_vpc'', \<lparr>rs_name = ''aws_vpc'', rs_description = None,
       rs_attributes = [(''cidr_block'', \<lparr>as_name = ''cidr_block'', as_attribute_type = ''string'', as_required = True,
         as_optional = False, as_computed = False, as_sensitive = False, as_deprecated = None, as_description = None\<rparr>)]\<rparr>)],
     ps_data_sources = [], ps_fetched_at = 0\<rparr>"

text \<open>A fresh directory for a temporary one, where there is one.\<close>

definition ex_temp :: "fs \<Rightarrow> path option" where
  "ex_temp s = find (\<lambda>d. \<forall>p. prefix d p \<longrightarrow> \<not> path_exists s p) [[''tmp1''], [''tmp2'']]"

definition ex_hcl :: hcl where
  "ex_hcl = \<lparr>valid_ident = (\<lambda>s. s \<noteq> []), sanitized = (\<lambda>s. s), hcl_to_string = (\<lambda>bs. Inr ''block'')\<rparr>"

definition ex_surroundings :: "(nat, string, unit) surroundings" where
  "ex_surroundings = \<lparr>path_of = (\<lambda>s. [s]), var_os = (\<lambda>_ _. None),
     toml = \<lparr>toml_bundle = (\<lambda>_. Some [(''default'', ex_profile)]), toml_profile = (\<lambda>_. Inl [])\<rparr>,
     sdk_of = ex_sdk, show_sdk_error = (\<lambda>s. s), json_of = wit_serde, estate_to_json = (\<lambda>_. Some ''{}''),
     plan_from_json = (\<lambda>_. Inr ex_plan), sha256 = (\<lambda>s. s), fresh_run_id = (\<lambda>_. 0), fresh_session_id = (\<lambda>_. 0),
     knowledge_services = \<lparr>embed_batch = (\<lambda>texts. retA (map (\<lambda>_. replicate 384 0) texts)),
       fetch_registry = (\<lambda>_ _ _. throwA (Registry_Http [])), float_unit = \<lparr>f32_mul = (\<lambda>x y. x), f32_sum = (\<lambda>_. 0)\<rparr>\<rparr>,
     current_exe = None, current_dir = Some [''work''],
     bundle_at = (\<lambda>_ _. Bundle [\<lparr>pe_is_dir = True, pe_name = Some ''aws'',
       pe_versions = Some [\<lparr>ve_is_dir = True, ve_has_file = True, ve_schema = Some ex_schema\<rparr>]\<rparr>]),
     reader = wit_reader, hcl_of = ex_hcl,
     os = \<lparr>mkdir_fault = (\<lambda>_. False), rename_fault = (\<lambda>_ _. None), copy_fault = (\<lambda>_ _. None), remove_fault = (\<lambda>_. False),
       write_fault = (\<lambda>_. None), new_op_uuid = last, show_uuid = (\<lambda>_. [])\<rparr>,
     tree_at = (\<lambda>_ _. Some (True, Some ''tf'', [])), temp_dir = ex_temp,
     cancelled_in = (\<lambda>_. False), sleep_in = (\<lambda>_ n. n), clock_in = (\<lambda>_. 0), rfc2822 = (\<lambda>_. None), powi_of = (\<lambda>x _. x)\<rparr>"

definition ex_args :: migrate_args where
  "ex_args = \<lparr>arg_source = [''main.tf''], arg_output = Some [''out''], from_provider = ''google'', to_provider = ''aws'',
     dry_run = False, arg_tier = ''ECO''\<rparr>"

definition ex_disk :: fs where
  "ex_disk = \<lparr>files = [[''main.tf''] \<mapsto> ''m'', [''profile.toml''] \<mapsto> ''t''], dirs = (\<lambda>p. p = [''work'', ''seed''])\<rparr>"

definition ex_machine :: "nat machine" where
  "ex_machine = \<lparr>disk = ex_disk, around = 0\<rparr>"

section \<open>Emission\<close>

lemma ascii_valid: "valid_utf8 ''block''" "valid_utf8 ''m''" "valid_utf8 ''t''"
  by (simp_all add: valid_utf8.simps utf8_unit_def in_range_def)

lemma ex_ok: "no_faults (os ex_surroundings)" "writes_text (hcl_of ex_surroundings)"
  by (simp_all add: no_faults_def writes_text_def ascii_valid ex_surroundings_def ex_hcl_def)

lemma ex_temp_ok: "temp_ok ex_surroundings [''out'']"
  by (auto simp: temp_ok_def ex_surroundings_def ex_temp_def find_Some_iff split: if_splits)

lemma ex_text: "render_one (hcl_of ex_surroundings) ex_resource = Inr ''block''"
  by (simp add: render_one_def render_group_def template_for_def stage1_registry_def template_aws_vpc_def tmpl_def
      ex_resource_def ex_surroundings_def ex_hcl_def apply_template_def build_resource_block_def add_tags_def
      optional_map_def)

definition no_temp :: "path \<Rightarrow> fs \<Rightarrow> bool" where
  "no_temp d s \<longleftrightarrow> (\<forall>p. prefix d p \<longrightarrow> \<not> path_exists s p)"

lemma no_temp_remove: "no_temp d (remove_tree d s)" "no_temp d s \<Longrightarrow> no_temp d (remove_tree d' s)"
  by (auto simp: no_temp_def remove_tree_def path_exists_def split: if_splits)

lemma no_temp_create: "\<not> prefix d d' \<Longrightarrow> no_temp d (create_dir_all d' s) \<longleftrightarrow> no_temp d s"
  by (auto simp: no_temp_def create_dir_all_def path_exists_def dest: prefix_order.trans)

lemma ex_emit:
  assumes "no_temp [''tmp1''] s" "no_temp [''tmp2''] s"
  shows "\<exists>sm s'. emit_plan ex_surroundings ex_args n ex_plan Map.empty s = (Inr (Migrated sm), s')
     \<and> sm_output_dir sm = [''out''] \<and> sm_plan sm = ex_plan \<and> no_temp [''tmp1''] s' \<and> no_temp [''tmp2''] s'"
proof -
  let ?s1 = "create_dir_all [''out''] s" and ?pg = "\<lparr>pg_emitted = [], pg_skipped = []\<rparr>"
  let ?s2 = "create_dir_all [''tmp1''] ?s1"
  have t1: "ex_temp ?s1 = Some [''tmp1'']"
    using assms by (simp add: ex_temp_def no_temp_create flip: no_temp_def)
  have "path_exists ?s2 [''tmp1'']" by (simp add: path_exists_def create_dir_all_def)
  then have "\<not> no_temp [''tmp1''] ?s2" by (auto simp: no_temp_def)
  then have t2: "ex_temp ?s2 = Some [''tmp2'']"
    using assms by (simp add: ex_temp_def no_temp_create flip: no_temp_def)
  obtain res s3 where one: "emit_one ex_surroundings [''tmp1''] [''out''] ex_plan Map.empty ex_resource ?pg ?s2 = (res, s3)"
    by force
  have sr: "temp_dir ex_surroundings = ex_temp" by (simp add: ex_surroundings_def)
  from one have s3: "res \<noteq> Inl No_temp_dir" "\<exists>x. s3 = remove_tree [''tmp2''] x"
    by (auto simp: emit_one_def with_temp_dir_def sr t2 split: prod.splits sum.splits)
  with emit_one_exact [OF ex_ok(1) ex_temp_ok ex_ok(2) one] obtain pg where "res = Inr pg" by auto
  then have em: "emit_resources ex_surroundings [''tmp1''] [''out''] ex_plan Map.empty (resources ex_plan) ?pg ?s2 = (Inr pg, s3)"
    using one by (simp add: ex_plan_def bindA_def)
  have "no_temp [''tmp2''] s3" using s3(2) no_temp_remove(1) by auto
  moreover have "prepare_output ex_surroundings ex_args s = (Inr [''out''], ?s1)"
    by (simp add: prepare_output_def ex_args_def Let_def ex_surroundings_def)
  ultimately show ?thesis
    using em by (simp add: emit_plan_def with_temp_dir_def sr t1 bindA_def no_temp_remove)
qed

lemma ex_emitted: "accepted_texts (hcl_of ex_surroundings) Map.empty ''aws_vpc'' (resources ex_plan) = [''block'']"
  using ex_text by (simp add: accepted_texts_def map_filter_simps ex_plan_def verdict_def) (simp add: ex_resource_def)

lemma ex_clean: "no_temp [''tmp1''] ex_disk" "no_temp [''tmp2''] ex_disk"
  by (auto simp: no_temp_def ex_disk_def path_exists_def)

theorem migration_output_exact_witness:
  "\<exists>sm s'. emit_plan ex_surroundings ex_args 1 ex_plan Map.empty ex_disk = (Inr (Migrated sm), s')
     \<and> files s' (target_path [''out''] ''aws_vpc'') = Some ''block''"
proof -
  obtain sm s' where run: "emit_plan ex_surroundings ex_args 1 ex_plan Map.empty ex_disk = (Inr (Migrated sm), s')"
    and out: "sm_output_dir sm = [''out'']"
    using ex_emit [OF ex_clean] by blast
  from migration_output_exact [OF ex_ok(1) _ ex_ok(2) run, of "''aws_vpc''"] ex_temp_ok out
  have "files s' (target_path [''out''] ''aws_vpc'') = Some ''block''"
    by (simp add: ex_emitted Let_def join_all_def join_text_def)
      (simp add: readable_def ex_disk_def target_path_def)
  with run show ?thesis by blast
qed

theorem second_run_appends_witness:
  "\<exists>sm s1 sm' s2. emit_plan ex_surroundings ex_args 1 ex_plan Map.empty ex_disk = (Inr (Migrated sm), s1)
     \<and> emit_plan ex_surroundings ex_args 1 ex_plan Map.empty s1 = (Inr (Migrated sm'), s2)
     \<and> files s2 (target_path [''out''] ''aws_vpc'') = Some (''block'' @ [CHR 0x0A] @ ''block'')"
proof -
  obtain sm s1 where run: "emit_plan ex_surroundings ex_args 1 ex_plan Map.empty ex_disk = (Inr (Migrated sm), s1)"
    and out: "sm_output_dir sm = [''out'']" and clean: "no_temp [''tmp1''] s1" "no_temp [''tmp2''] s1"
    using ex_emit [OF ex_clean] by blast
  obtain sm' s2 where run': "emit_plan ex_surroundings ex_args 1 ex_plan Map.empty s1 = (Inr (Migrated sm'), s2)"
    and out': "sm_output_dir sm' = [''out'']"
    using ex_emit [OF clean] by blast
  from second_run_appends [OF ex_ok(1) _ _ ex_ok(2) run run', of "''aws_vpc''"] ex_temp_ok out out'
  have "files s2 (target_path [''out''] ''aws_vpc'') = Some (''block'' @ [CHR 0x0A] @ ''block'')"
    by (simp add: ex_emitted Let_def join_all_def join_text_def)
      (simp add: readable_def ex_disk_def target_path_def)
  with run run' show ?thesis by blast
qed

section \<open>The whole command\<close>

definition ex_model :: resolved_model where
  "ex_model = \<lparr>rs_provider_key = ''groq'', rs_model_id = ''llama'', rs_provider_type = ''openai-compatible'',
     rs_api_endpoint = ''https://groq'', rs_api_key_env = ''KEY'', rs_tier = Eco\<rparr>"

definition ex_knowledge :: "nat knowledge" where
  "ex_knowledge = \<lparr>schemas = [ex_schema], vectors = \<lparr>vs_dim = 384,
     vs_rows = [\<lparr>vr_id = ''aws@1::aws_vpc'', vr_embedding = replicate 384 0, vr_metadata = row_metadata ex_schema ''aws_vpc''\<rparr>]\<rparr>,
     world = 0\<rparr>"

lemma ex_lower: "map to_ascii_lower ''ECO'' = ''eco''"
  by code_simp

lemma ex_setup:
  "resolve_profile_path ex_surroundings (Some [''profile.toml'']) ex_machine = (Inr [''profile.toml''], ex_machine)"
  "load_profile ex_surroundings [''profile.toml''] ex_machine = (Inr ex_profile, ex_machine)"
  "parse_tier ''ECO'' = Inr Eco"
  by (simp_all add: resolve_profile_path_def load_profile_def ex_machine_def ex_disk_def read_to_string_def ascii_valid
      from_toml_def ex_surroundings_def parse_tier_def ex_lower del: list.map)

lemma ex_client: "build_llm_client ex_surroundings ex_profile Eco = Inr (openai_complete ex_sdk ex_model)"
  by (simp add: build_llm_client_def resolve_for_tier_def ex_profile_def split_model_id_def real_client_new_def
      build_provider_def ex_surroundings_def ex_model_def)

lemma ex_seed: "build_knowledge_service ex_surroundings ex_machine = (Inr ex_knowledge, ex_machine)"
  by (simp add: build_knowledge_service_def locate_seed_dir_def ex_machine_def ex_disk_def ex_surroundings_def
      accepted_dir_def starts_with_def seed_provider_def index_schema_def store_schema_def cache_schema_def
      find_schema_def bindA_def map_errA_def on_world_def upsert_rows_def upsert_def vector_store_new_def
      VECTOR_DIM_def schema_rows_def ex_schema_def row_id_def put_row_def ex_knowledge_def Let_def)

definition ex_file :: scanned_file where
  "ex_file = (case parse_file wit_reader [''main.tf''] ''m'' of Inr sf \<Rightarrow> sf)"

definition ex_estate :: estate_inventory where
  "ex_estate = \<lparr>root_dir = [''main.tf''], inv_files = [ex_file]\<rparr>"

lemma ex_file: "parse_file wit_reader [''main.tf''] ''m'' = Inr ex_file" "map resource_type (sf_resources ex_file) = [''aws_vpc'']"
  by (simp_all add: ex_file_def parse_file_def wit_reader_def process_block_def collect_block_def parse_resource_def
      scanned_file_new_def Let_def)

lemma ex_scan: "scan_source ex_surroundings [''main.tf''] ex_machine = (Inr ex_estate, ex_machine)"
  by (simp add: scan_source_def scan_estate_def discover_tf_files_def read_to_string_def ex_machine_def ex_disk_def
      ex_surroundings_def ascii_valid ex_file ex_estate_def)

lemma ex_gather:
  "gather_hits (mapping_env ex_surroundings llm) \<lparr>mp_source = ''google'', mp_target = ''aws''\<rparr> [''aws_vpc'']
      \<lparr>plan_cache = Map.empty, knowledge = ex_knowledge\<rparr>
     = (Inr [(''aws_vpc'', [\<lparr>rm_provider = ''aws'', rm_provider_version = ''1'', rm_resource_type = ''aws_vpc'',
          rm_schema = snd (hd (ps_resources ex_schema)), rm_similarity = 0\<rparr>])],
        \<lparr>plan_cache = Map.empty, knowledge = ex_knowledge\<rparr>)"
  by (simp add: mapping_env_def ex_surroundings_def ex_knowledge_def on_knowledge_def map_errA_def bindA_def
      find_similar_in_provider_def find_similar_resources_def embed_def on_world_def vector_search_def sort_hits_def
      score_row_def cosine_similarity_def metadata_or_empty_def ex_schema_def fetch_provider_schema_def find_schema_def
      same_key_def KNOWLEDGE_TOP_K_def Let_def)

lemma ex_llm: "openai_complete ex_sdk ex_model Eco prompt n = (Inr (''plan'', \<lparr>md_provider = ''groq'', md_model_id = ''llama'',
    provider_endpoint = ''https://groq'', md_tier = ''eco'', input_tokens = 0, output_tokens = 0, cache_read_tokens = 0,
    cache_write_tokens = 0, cost_usd_micros = 0, latency_ms = 7\<rparr>), Suc n)" if "prompt \<noteq> []"
  using that by (simp add: openai_complete_def read_api_key_def ex_sdk_def ex_model_def bindA_def map_errA_def)

lemma ex_valid: "validate_plan ex_plan (supported_types_for ''aws'') = (Inr () :: string ai_error mapper_error + unit)"
proof -
  have "''aws_vpc'' \<in> set (supported_types_for ''aws'')"
    by (simp add: supported_types_for starts_with_def template_for_def stage1_registry_def)
  then show ?thesis by (simp add: validate_plan_def validate_resources_Inr ex_plan_def ex_resource_def list_ex_iff)
qed

lemma combined_prompt_not_empty: "combined_prompt (passthrough_reduce (m # ms)) \<noteq> []"
  by (cases ms) (simp_all add: combined_prompt_def passthrough_reduce_def writeln_def)

lemma ex_map:
  "map_source ex_surroundings (openai_complete ex_sdk ex_model) ex_args ex_knowledge ex_estate ex_machine
     = (Inr ex_plan, ex_machine\<lparr>around := 1\<rparr>)"
proof -
  let ?env = "mapping_env ex_surroundings (openai_complete ex_sdk ex_model)"
  let ?m = "\<lparr>mp_source = ''google'', mp_target = ''aws''\<rparr>" and ?s = "\<lparr>plan_cache = Map.empty, knowledge = ex_knowledge\<rparr>"
  have types: "unique_types ex_estate = [''aws_vpc'']"
    using ex_file(2) by (simp add: unique_types_def ex_estate_def)
  have files: "sf_resources ex_file \<noteq> []" using ex_file(2) by auto
  have llm: "map_errA Llm (on_knowledge (on_world (complete_eco ?env (combined_prompt (context_reduce ?env (m # ms)))))) ?s
      = (Inr ''plan'', ?s\<lparr>knowledge := ex_knowledge\<lparr>world := 1\<rparr>\<rparr>)" for m ms
    using combined_prompt_not_empty [of m ms] ex_llm
    by (simp add: mapping_env_def map_errA_def on_knowledge_def on_world_def bindA_def) (simp add: ex_knowledge_def)
  have parse: "parse_response ?env ''plan'' = Inr ex_plan"
    by (simp add: parse_response_def mapping_env_def ex_surroundings_def)
  have "map_with_llm ?env ?m ex_estate ''{}'' ?s
     = (Inr ex_plan, \<lparr>plan_cache = [''{}'' \<mapsto> ex_plan], knowledge = ex_knowledge\<lparr>world := 1\<rparr>\<rparr>)"
    by (simp only: map_with_llm_def types bindA_Inr [where m = "gather_hits e m ts" for e m ts, OF ex_gather]
        mapper.select_convs Let_def bindA_Inr [where m = "map_errA g h" for g h, OF llm])
      (simp add: parse ex_valid remember_def)
  then have "map_estate ?env ?m ex_estate ?s
     = (Inr ex_plan, \<lparr>plan_cache = [''{}'' \<mapsto> ex_plan], knowledge = ex_knowledge\<lparr>world := 1\<rparr>\<rparr>)"
    using files by (simp add: map_estate_def estate_cache_key_def mapping_env_def ex_surroundings_def ex_estate_def
        MAX_INVENTORY_BYTES_def)
  moreover have "ex_knowledge\<lparr>world := around ex_machine\<rparr> = ex_knowledge"
    by (simp add: ex_knowledge_def ex_machine_def)
  ultimately show ?thesis by (simp add: map_source_def ex_args_def)
qed

lemma ex_gate:
  "article_iii_gate ex_surroundings llm t ex_knowledge ''aws'' ex_plan s = (Inr (ex_plan, Map.empty), s)"
proof -
  have v: "validate (fetch_provider_schema [ex_schema]) ex_plan ''1'' = Inr (report_new [] [])"
    by (simp add: validate_def validate_plan_against_def fetch_provider_schema_def find_schema_def same_key_def
        ex_schema_def ex_plan_def check_resource_def ex_resource_def attribute_errors_def missing_errors_def
        attribute_warnings_def bt_has_def)
  have k: "schemas ex_knowledge = [ex_schema]" by (simp add: ex_knowledge_def)
  have "target_version_of ex_knowledge ''aws'' = Some ''1''"
    by (simp add: target_version_of_def k list_versions_def ex_schema_def)
  then show ?thesis
    by (simp add: article_iii_gate_def repair_plan_def k v final_errors_def report_new_def Let_def)
qed

lemma ex_migrate:
  "\<exists>sm s'. migrate ex_surroundings (Some [''profile.toml'']) ex_args ex_machine = (Inr (Migrated sm), s') \<and> sm_plan sm = ex_plan"
proof -
  obtain sm s' where em: "emit_plan ex_surroundings ex_args 1 ex_plan Map.empty ex_disk = (Inr (Migrated sm), s')"
    and p: "sm_plan sm = ex_plan" using ex_emit [OF ex_clean] by blast
  have n: "resource_count ex_estate = 1"
    using ex_file(2) by (simp add: resource_count_def ex_estate_def) (metis length_map list.size(3,4) One_nat_def add.commute plus_1_eq_Suc)
  have args: "arg_tier ex_args = ''ECO''" "arg_source ex_args = [''main.tf'']" "to_provider ex_args = ''aws''" "\<not> dry_run ex_args"
    by (simp_all add: ex_args_def)
  have "migrate ex_surroundings (Some [''profile.toml'']) ex_args ex_machine
      = (Inr (Migrated sm), ex_machine\<lparr>around := 1, disk := s'\<rparr>)"
    using em by (simp add: migrate_def bindA_def ex_setup args ex_client ex_seed ex_scan n ex_map migrate_plan_def ex_gate on_disk_def)
      (simp add: ex_machine_def)
  with p show ?thesis by blast
qed


theorem mapped_plan_has_templates_witness:
  "fst (generate (os ex_surroundings) ex_hcl [] [''out''] Mapper.wit_plan ex_disk) \<noteq> Inl (TemplateMiss ''aws_vpc'')"
  using mapped_plan_has_templates [of "Mapper.wit_env ''aws_vpc''" "wit_mapper ''aws''" wit_estate "[]" wit_knowledge Mapper.wit_plan]
    wit_map
  by (simp add: map_all_def wit_state_def)

end
