(* ===== verification/Schema_Fetcher.thy ===== *)
theory Schema_Fetcher
  imports Knowledge File_System Retry Validator
begin

text \<open>
  \<open>libs/knowledge/src/schema_fetcher_cli.rs\<close> and the stub fetcher of \<open>registry_client.rs\<close>: a provider's
  schema read out of the \<open>terraform\<close> command line tool. Running a process, the temporary directory, the
  JSON parser and the clock are parameters. The lemmas show that a fetched schema has the shape the
  validator relies on, and that the text a type is given determines it.
\<close>

section \<open>Text\<close>

text \<open>\<open>String::from_utf8_lossy\<close>: each maximal broken prefix becomes the replacement character.\<close>

definition second_of_three :: "char \<Rightarrow> char \<Rightarrow> bool" where
  "second_of_three a b \<longleftrightarrow> in_range 0xE0 0xE0 a \<and> in_range 0xA0 0xBF b
     \<or> (in_range 0xE1 0xEC a \<or> in_range 0xEE 0xEF a) \<and> in_range 0x80 0xBF b
     \<or> in_range 0xED 0xED a \<and> in_range 0x80 0x9F b"

definition second_of_four :: "char \<Rightarrow> char \<Rightarrow> bool" where
  "second_of_four a b \<longleftrightarrow> in_range 0xF0 0xF0 a \<and> in_range 0x90 0xBF b
     \<or> in_range 0xF1 0xF3 a \<and> in_range 0x80 0xBF b
     \<or> in_range 0xF4 0xF4 a \<and> in_range 0x80 0x8F b"

definition broken_length :: "string \<Rightarrow> nat" where
  "broken_length s =
     (case s of
        a # b # rest \<Rightarrow>
          (if second_of_four a b then (case rest of c # _ \<Rightarrow> if in_range 0x80 0xBF c then 3 else 2 | [] \<Rightarrow> 2)
           else if second_of_three a b then 2
           else 1)
      | _ \<Rightarrow> 1)"

function utf8_lossy :: "string \<Rightarrow> string" where
  "utf8_lossy s =
     (if s = [] then []
      else case find (\<lambda>n. n \<le> length s \<and> utf8_unit (take n s)) [1, 2, 3, 4] of
             Some n \<Rightarrow> take n s @ utf8_lossy (drop n s)
           | None \<Rightarrow> [CHR 0xEF, CHR 0xBF, CHR 0xBD] @ utf8_lossy (drop (broken_length s) s))"
  by pat_completeness auto
termination
proof (relation "measure length")
  fix s :: string and n assume s: "s \<noteq> []"
  { assume "find (\<lambda>n. n \<le> length s \<and> utf8_unit (take n s)) [1, 2, 3, 4] = Some n"
    then have "0 < n" by (auto split: if_splits)
    with s show "(drop n s, s) \<in> measure length" by simp }
  have "0 < broken_length s" by (auto simp: broken_length_def split: list.splits)
  with s show "(drop (broken_length s) s, s) \<in> measure length" by simp
qed simp

declare utf8_lossy.simps [simp del]

text \<open>\<open>first_chars\<close>: the first \<open>n\<close> characters.\<close>

definition char_starts :: "string \<Rightarrow> nat list" where
  "char_starts s = filter (\<lambda>i. \<not> is_continuation_byte (s ! i)) [0..<length s]"

definition first_chars :: "string \<Rightarrow> nat \<Rightarrow> string" where
  "first_chars s n = (if n < length (char_starts s) then take (char_starts s ! n) s else s)"

section \<open>The output of \<open>terraform providers schema -json\<close>\<close>

record tf_attribute =
  ta_type :: "json option"
  ta_description :: "string option"
  ta_required :: bool
  ta_optional :: bool
  ta_computed :: bool
  ta_sensitive :: bool
  ta_deprecated :: bool

record tf_block =
  tb_description :: "string option"
  tb_attributes :: "(string, tf_attribute) btree"

record tf_resource_schema =
  tr_block :: tf_block

record tf_provider_entry =
  te_resource_schemas :: "(string, tf_resource_schema) btree"
  te_data_source_schemas :: "(string, tf_resource_schema) btree"

record tf_schema_output =
  ts_provider_schemas :: "(string, tf_provider_entry) btree"

section \<open>Types as text\<close>

text \<open>\<open>render_type\<close>; \<open>show_json\<close> is \<open>Value::to_string\<close>.\<close>

fun render_value :: "(json \<Rightarrow> string) \<Rightarrow> json \<Rightarrow> string" where
  "render_value show_json (JString s) = s"
| "render_value show_json (JArray []) = ''any''"
| "render_value show_json (JArray (x # arr)) =
     (let head = (case json_as_str x of Some h \<Rightarrow> h | None \<Rightarrow> ''any'') in
      if head \<in> {''list'', ''set'', ''map''} then
        head @ ''('' @ (case arr of v # _ \<Rightarrow> render_value show_json v | [] \<Rightarrow> ''any'') @ '')''
      else if head = ''object'' then
        (case arr of
           JObject obj # _ \<Rightarrow>
             ''object({'' @ str_join '','' (sort (map (\<lambda>(k, v). k @ ''='' @ render_value show_json v) obj)) @ ''})''
         | _ \<Rightarrow> ''object({})'')
      else if head = ''tuple'' then
        (case arr of
           JArray items # _ \<Rightarrow> ''tuple(['' @ str_join '','' (map (render_value show_json) items) @ ''])''
         | _ \<Rightarrow> ''tuple([])'')
      else head)"
| "render_value show_json other = show_json other"

definition render_type :: "(json \<Rightarrow> string) \<Rightarrow> json option \<Rightarrow> string" where
  "render_type show_json value = (case value of None \<Rightarrow> ''any'' | Some v \<Rightarrow> render_value show_json v)"

definition convert_attribute :: "(json \<Rightarrow> string) \<Rightarrow> string \<Rightarrow> tf_attribute \<Rightarrow> attribute_schema" where
  "convert_attribute show_json name tf =
     \<lparr>as_name = name, as_attribute_type = render_type show_json (ta_type tf), as_required = ta_required tf,
      as_optional = ta_optional tf, as_computed = ta_computed tf, as_sensitive = ta_sensitive tf,
      as_deprecated = (if ta_deprecated tf then Some ''deprecated'' else None),
      as_description = ta_description tf\<rparr>"

definition insert_all :: "('k::linorder \<Rightarrow> 'v \<Rightarrow> 'u) \<Rightarrow> ('k, 'v) btree \<Rightarrow> ('k, 'u) btree" where
  "insert_all f kvs = fold (\<lambda>(k, v) m. bt_insert k (f k v) m) kvs []"

definition convert_resource :: "(json \<Rightarrow> string) \<Rightarrow> string \<Rightarrow> tf_resource_schema \<Rightarrow> resource_schema" where
  "convert_resource show_json name tf =
     \<lparr>rs_name = name, rs_description = tb_description (tr_block tf),
      rs_attributes = insert_all (convert_attribute show_json) (tb_attributes (tr_block tf))\<rparr>"

section \<open>The fetcher\<close>

record process_output =
  po_success :: bool
  po_status :: string
  po_stdout :: string
  po_stderr :: string

text \<open>
  A command is the program with its arguments, its working directory and the variables added to its
  environment. \<open>run_command\<close> waits for its end; \<open>run_within\<close> waits a number of milliseconds, and \<open>None\<close> is
  the timeout.
\<close>

type_synonym command = "string list \<times> path option \<times> (string \<times> path) list"

record 'w terraform_host =
  new_tempdir :: "('w, string, path) act"
  write_file :: "path \<Rightarrow> string \<Rightarrow> ('w, string, unit) act"
  run_command :: "command \<Rightarrow> ('w, string, process_output) act"
  run_within :: "nat \<Rightarrow> command \<Rightarrow> 'w \<Rightarrow> (string + process_output) option \<times> 'w"
  remove_tempdir :: "path \<Rightarrow> 'w \<Rightarrow> 'w"
  parse_output :: "string \<Rightarrow> string + tf_schema_output"
  json_text :: "json \<Rightarrow> string"
  debug_keys :: "string list \<Rightarrow> string"
  utc_now :: "'w \<Rightarrow> int"

record fetcher =
  terraform_bin :: string
  plugin_cache_dir :: "path option"
  timeout_ms :: nat

definition fetcher_new :: fetcher where
  "fetcher_new = \<lparr>terraform_bin = ''terraform'', plugin_cache_dir = None, timeout_ms = 120000\<rparr>"

definition with_terraform_bin :: "string \<Rightarrow> fetcher \<Rightarrow> fetcher" where
  "with_terraform_bin bin f = f\<lparr>terraform_bin := bin\<rparr>"

definition with_plugin_cache_dir :: "path \<Rightarrow> fetcher \<Rightarrow> fetcher" where
  "with_plugin_cache_dir dir f = f\<lparr>plugin_cache_dir := Some dir\<rparr>"

definition with_timeout :: "nat \<Rightarrow> fetcher \<Rightarrow> fetcher" where
  "with_timeout t f = f\<lparr>timeout_ms := t\<rparr>"

definition fetcher_check_available :: "'w terraform_host \<Rightarrow> fetcher \<Rightarrow> ('w, registry_error, string) act" where
  "fetcher_check_available h f w =
     (case run_command h ([terraform_bin f, ''version'', ''-json''], None, []) w of
        (Inl e, w') \<Rightarrow>
          (Inl (TerraformUnavailable (''could not run `'' @ terraform_bin f @ '' version`: '' @ e)), w')
      | (Inr out, w') \<Rightarrow>
          (if po_success out then Inr (utf8_lossy (po_stdout out))
           else Inl (TerraformUnavailable (''`'' @ terraform_bin f @ '' version` exited '' @ po_status out)), w'))"

definition nl :: string where "nl = [CHR 0x0A]"

definition quoted :: "string \<Rightarrow> string" where
  "quoted s = CHR 0x22 # s @ [CHR 0x22]"

definition versions_tf :: "string \<Rightarrow> string \<Rightarrow> string \<Rightarrow> string" where
  "versions_tf namespace name version =
     ''terraform {'' @ nl @
     ''  required_providers {'' @ nl @
     ''    '' @ name @ '' = {'' @ nl @
     ''      source  = '' @ quoted (namespace @ ''/'' @ name) @ nl @
     ''      version = '' @ quoted version @ nl @
     ''    }'' @ nl @
     ''  }'' @ nl @
     ''}'' @ nl"

text \<open>One bounded run of the tool whose exit status must be success; the result is its standard output.\<close>

definition run_tool ::
  "'w terraform_host \<Rightarrow> fetcher \<Rightarrow> string \<Rightarrow> string \<Rightarrow> string list \<Rightarrow> path \<Rightarrow> path option \<Rightarrow> ('w, registry_error, string) act"
where
  "run_tool h f shown spawned args dir env_cache w =
     (case run_within h (timeout_ms f) (terraform_bin f # args, Some dir,
        (case env_cache of Some c \<Rightarrow> [(''TF_PLUGIN_CACHE_DIR'', c)] | None \<Rightarrow> [])) w of
        (None, w') \<Rightarrow>
          (Inl (SchemaFetch (''`'' @ shown @ ''` timed out after '' @ nat_str (timeout_ms f div 1000) @ ''s'')), w')
      | (Some (Inl e), w') \<Rightarrow> (Inl (SchemaFetch (''spawn '' @ spawned @ '': '' @ e)), w')
      | (Some (Inr out), w') \<Rightarrow>
          (if po_success out then (Inr (po_stdout out), w')
           else (Inl (SchemaFetch (''`'' @ shown @ ''` failed (exit '' @ po_status out @ ''): ''
                   @ first_chars (utf8_lossy (po_stderr out)) 500)), w')))"

definition provider_key :: "string \<Rightarrow> string \<Rightarrow> string" where
  "provider_key namespace name = ''registry.terraform.io/'' @ namespace @ ''/'' @ name"

text \<open>Steps 5 to 7: parse the output, find the provider, convert it.\<close>

definition convert_output ::
  "'w terraform_host \<Rightarrow> string \<Rightarrow> string \<Rightarrow> string \<Rightarrow> string \<Rightarrow> ('w, registry_error, provider_schema) act"
where
  "convert_output h namespace name version out w =
     (let json_str = utf8_lossy out in
      case parse_output h json_str of
        Inl e \<Rightarrow> (Inl (SchemaFetch (''parse terraform schema JSON: '' @ e @ ''; first 200 chars: '' @ first_chars json_str 200)), w)
      | Inr parsed \<Rightarrow>
          (case map_of (ts_provider_schemas parsed) (provider_key namespace name) of
             None \<Rightarrow> (Inl (SchemaFetch (''provider key '' @ [CHR 0x27] @ provider_key namespace name @ [CHR 0x27]
                       @ '' not in schema output (got: '' @ debug_keys h (map fst (ts_provider_schemas parsed)) @ '')'')), w)
           | Some tf \<Rightarrow>
               (Inr \<lparr>ps_provider = name, ps_version = version,
                     ps_resources = insert_all (convert_resource (json_text h)) (te_resource_schemas tf),
                     ps_data_sources = insert_all (convert_resource (json_text h)) (te_data_source_schemas tf),
                     ps_fetched_at = utc_now h w\<rparr>, w)))"

definition in_tempdir :: "'w terraform_host \<Rightarrow> (path \<Rightarrow> ('w, registry_error, 'a) act) \<Rightarrow> ('w, registry_error, 'a) act" where
  "in_tempdir h body w =
     (case new_tempdir h w of
        (Inl e, w1) \<Rightarrow> (Inl (SchemaFetch (''could not create tempdir: '' @ e)), w1)
      | (Inr dir, w1) \<Rightarrow> (case body dir w1 of (r, w2) \<Rightarrow> (r, remove_tempdir h dir w2)))"

definition cli_fetch ::
  "'w terraform_host \<Rightarrow> fetcher \<Rightarrow> string \<Rightarrow> string \<Rightarrow> string \<Rightarrow> ('w, registry_error, provider_schema) act"
where
  "cli_fetch h f namespace name version = in_tempdir h (\<lambda>dir.
     bindA (map_errA (\<lambda>e. SchemaFetch (''write versions.tf: '' @ e))
              (write_file h (dir @ [''versions.tf'']) (versions_tf namespace name version))) (\<lambda>_.
     bindA (run_tool h f ''terraform init'' ''terraform init'' [''init'', ''-input=false'', ''-no-color''] dir (plugin_cache_dir f)) (\<lambda>_.
     bindA (run_tool h f ''terraform providers schema -json'' ''terraform schema'' [''providers'', ''schema'', ''-json''] dir None)
       (convert_output h namespace name version))))"

section \<open>The stub fetcher\<close>

type_synonym stub_fetcher = "string \<times> string \<rightharpoonup> provider_schema"

definition stub_new :: stub_fetcher where
  "stub_new = Map.empty"

definition stub_with_schema :: "string \<Rightarrow> string \<Rightarrow> provider_schema \<Rightarrow> stub_fetcher \<Rightarrow> stub_fetcher" where
  "stub_with_schema name version s st = st((name, version) \<mapsto> s)"

definition stub_fetch :: "stub_fetcher \<Rightarrow> string \<Rightarrow> string \<Rightarrow> string \<Rightarrow> registry_error + provider_schema" where
  "stub_fetch st namespace name version =
     (case st (name, version) of
        Some s \<Rightarrow> Inr s
      | None \<Rightarrow> Inl (SchemaFetch (''stub fetcher has no schema for '' @ name @ ''@'' @ version)))"

section \<open>The shape of a fetched schema\<close>

definition keyed_by :: "('v \<Rightarrow> 'k::linorder) \<Rightarrow> ('k, 'v) btree \<Rightarrow> bool" where
  "keyed_by name m \<longleftrightarrow> bt_wf m \<and> list_all (\<lambda>(k, v). name v = k) m"

definition resources_typed :: "(string, resource_schema) btree \<Rightarrow> bool" where
  "resources_typed m \<longleftrightarrow> keyed_by rs_name m \<and> list_all (\<lambda>(k, rs). keyed_by as_name (rs_attributes rs)) m"

lemma list_all_bt_insert:
  "list_all (\<lambda>(k, v). P k v) m \<Longrightarrow> P k v \<Longrightarrow> list_all (\<lambda>(k, v). P k v) (bt_insert k v m)"
  by (induction k v m rule: bt_insert.induct) auto

lemma insert_all_typed:
  assumes "\<And>k v. P k (f k v)"
  shows "bt_wf (insert_all f kvs) \<and> list_all (\<lambda>(k, v). P k v) (insert_all f kvs)"
proof -
  have "bt_wf m \<and> list_all (\<lambda>(k, v). P k v) m \<Longrightarrow>
      bt_wf (fold (\<lambda>(k, v) m. bt_insert k (f k v) m) kvs m)
      \<and> list_all (\<lambda>(k, v). P k v) (fold (\<lambda>(k, v) m. bt_insert k (f k v) m) kvs m)" for m
    by (induction kvs arbitrary: m) (auto simp: assms list_all_bt_insert)
  then show ?thesis by (simp add: insert_all_def)
qed

lemma convert_resource_typed: "rs_name (convert_resource j k r) = k \<and> keyed_by as_name (rs_attributes (convert_resource j k r))"
  using insert_all_typed [of "\<lambda>k v. as_name v = k" "convert_attribute j"]
  by (simp add: convert_resource_def keyed_by_def) (simp add: convert_attribute_def)

lemma cli_fetch_Inr:
  assumes "cli_fetch h f namespace name version w = (Inr s, w')"
  obtains out parsed tf w1 where "parse_output h (utf8_lossy out) = Inr parsed"
    "map_of (ts_provider_schemas parsed) (provider_key namespace name) = Some tf"
    "s = \<lparr>ps_provider = name, ps_version = version,
           ps_resources = insert_all (convert_resource (json_text h)) (te_resource_schemas tf),
           ps_data_sources = insert_all (convert_resource (json_text h)) (te_data_source_schemas tf),
           ps_fetched_at = utc_now h w1\<rparr>"
proof -
  from assms obtain dir w1 w2 out where "convert_output h namespace name version out w1 = (Inr s, w2)"
    by (auto simp: cli_fetch_def in_tempdir_def bindA_eq_Inr split: prod.splits sum.splits)
  then show ?thesis
    using that by (auto simp: convert_output_def Let_def split: sum.splits option.splits)
qed

text \<open>C33. Whatever the tool prints, a schema that was fetched has the name and version that were asked for, its
  maps of resources, data sources and attributes are ordered and without duplicates, and every entry is
  stored under its own name.\<close>

theorem fetched_schema_typed:
  assumes "cli_fetch h f namespace name version w = (Inr s, w')"
  shows "ps_provider s = name \<and> ps_version s = version \<and> schema_wf s
    \<and> resources_typed (ps_resources s) \<and> resources_typed (ps_data_sources s)"
proof -
  have "resources_typed (insert_all (convert_resource j) kvs)" for j kvs
    unfolding resources_typed_def keyed_by_def [of rs_name]
    using insert_all_typed [where P = "\<lambda>k v. rs_name v = k \<and> keyed_by as_name (rs_attributes v)"
        and f = "convert_resource j", OF convert_resource_typed, of kvs]
    by (auto simp: list_all_iff)
  moreover have "resources_typed m \<Longrightarrow> bt_wf m \<and> list_all (\<lambda>(k, rs). bt_wf (rs_attributes rs)) m" for m
    by (auto simp: resources_typed_def keyed_by_def list_all_iff)
  ultimately show ?thesis by (rule_tac cli_fetch_Inr [OF assms]) (simp add: schema_wf_def)
qed

text \<open>With this fetcher behind the knowledge service, a first launch that returns reports, for every provider
  version asked for and in that order, either that the fetch failed or a version that is now cached.\<close>

theorem first_launch_covers:
  assumes "fetch_registry svc = cli_fetch h f" "first_launch_sync svc b ps k = (Inr report, k')"
  shows "list_all2 (covered k') ps (per_provider report)"
proof -
  have "label_faithful svc"
    unfolding label_faithful_def assms(1) by (auto elim!: cli_fetch_Inr)
  from launch_all_covered [OF this] assms(2) show ?thesis
    by (auto simp: first_launch_sync_def bindA_eq_Inr)
qed

section \<open>Type texts\<close>

datatype tf_type = Prim string | Coll string tf_type | Obj "(string \<times> tf_type) list" | Tup "tf_type list"

definition ident :: "string \<Rightarrow> bool" where
  "ident k \<longleftrightarrow> k \<noteq> [] \<and> list_all (\<lambda>c. is_ascii_alphanumeric c \<or> c = CHR ''_'' \<or> c = CHR ''-'') k"

fun tf_type_wf :: "tf_type \<Rightarrow> bool" where
  "tf_type_wf (Prim s) \<longleftrightarrow> s \<in> {''string'', ''number'', ''bool'', ''dynamic''}"
| "tf_type_wf (Coll h t) \<longleftrightarrow> h \<in> {''list'', ''set'', ''map''} \<and> tf_type_wf t"
| "tf_type_wf (Obj fs) \<longleftrightarrow> bt_wf fs \<and> (\<forall>(k, t) \<in> set fs. ident k \<and> tf_type_wf t)"
| "tf_type_wf (Tup ts) \<longleftrightarrow> (\<forall>t \<in> set ts. tf_type_wf t)"

fun tf_json :: "tf_type \<Rightarrow> json" where
  "tf_json (Prim s) = JString s"
| "tf_json (Coll h t) = JArray [JString h, tf_json t]"
| "tf_json (Obj fs) = JArray [JString ''object'', JObject (map (\<lambda>(k, t). (k, tf_json t)) fs)]"
| "tf_json (Tup ts) = JArray [JString ''tuple'', JArray (map tf_json ts)]"

fun type_text :: "tf_type \<Rightarrow> string" where
  "type_text (Prim s) = s"
| "type_text (Coll h t) = h @ ''('' @ type_text t @ '')''"
| "type_text (Obj fs) = ''object({'' @ str_join '','' (sort (map (\<lambda>(k, t). k @ ''='' @ type_text t) fs)) @ ''})''"
| "type_text (Tup ts) = ''tuple(['' @ str_join '','' (map type_text ts) @ ''])''"

lemma render_tf_json: "tf_type_wf t \<Longrightarrow> render_value show_json (tf_json t) = type_text t"
proof (induction t)
  case (Coll h t)
  then show ?case by (auto simp: Let_def)
next
  case (Obj fs)
  then have "map (\<lambda>x. fst x @ CHR ''='' # render_value show_json (tf_json (snd x))) fs
      = map (\<lambda>p. fst p @ CHR ''='' # type_text (snd p)) fs"
    by (intro map_cong) auto
  then show ?case by (simp add: Let_def comp_def case_prod_unfold del: map_eq_conv)
next
  case (Tup ts)
  then have "map (render_value show_json \<circ> tf_json) ts = map type_text ts" by (intro map_cong) auto
  then show ?case by (simp add: Let_def del: map_eq_conv)
qed auto

text \<open>What can follow a type inside a larger one.\<close>

definition stop :: "string \<Rightarrow> bool" where
  "stop r \<longleftrightarrow> (case r of [] \<Rightarrow> True | c # _ \<Rightarrow> c \<in> {CHR '','', CHR '')'', CHR ''}'', CHR '']''})"

lemma word_split:
  assumes "list_all P a" "list_all P b" "a @ x = b @ y"
    and "x = [] \<or> \<not> P (hd x)" "y = [] \<or> \<not> P (hd y)"
  shows "a = b \<and> x = y"
proof -
  have "takeWhile P (u @ z) = u" if "list_all P u" "z = [] \<or> \<not> P (hd z)" for u z
    using that by (induction u) (cases z, auto)
  from this [OF assms(1,4)] this [OF assms(2,5)] assms(3) show ?thesis by auto
qed

lemma join_unique:
  assumes "\<And>x x' r r'. x \<in> set xs \<Longrightarrow> ok x \<Longrightarrow> ok x' \<Longrightarrow> stop r \<Longrightarrow> stop r' \<Longrightarrow> e x @ r = e x' @ r' \<Longrightarrow> x = x' \<and> r = r'"
    and "\<And>x r. ok x \<Longrightarrow> \<not> stop (e x @ r)" and close: "stop [c]" "c \<noteq> CHR '',''"
  shows "list_all ok xs \<Longrightarrow> list_all ok xs' \<Longrightarrow>
    str_join '','' (map e xs) @ c # r = str_join '','' (map e xs') @ c # r' \<Longrightarrow> xs = xs' \<and> r = r'"
  using assms(1)
proof (induction xs arbitrary: xs')
  case Nil
  then show ?case
  proof (cases xs')
    case (Cons x ys)
    obtain z where z: "str_join '','' (map e xs') @ c # r' = e x @ z" using Cons by (cases ys) auto
    with Nil have "e x @ z = c # r" by simp
    then have "stop (e x @ z)" using close(1) by (simp add: stop_def)
    with assms(2) [of x z] Nil Cons show ?thesis by simp
  qed (use Nil in simp)
next
  case (Cons x xs)
  define tl where "tl ys z = (if ys = [] then c # z else CHR '','' # str_join '','' (map e ys) @ c # z)" for ys z
  have join: "str_join '','' (map e (y # ys)) @ c # z = e y @ tl ys z" for y ys z
    by (cases ys) (auto simp: tl_def)
  have stop: "stop (tl ys z)" for ys z using close(1) by (auto simp: tl_def stop_def)
  show ?case
  proof (cases xs')
    case Nil
    with Cons.prems(3) join have "stop (e x @ tl xs r)" using close(1) by (simp add: stop_def split: list.splits)
    with assms(2) [of x "tl xs r"] Cons.prems(1) show ?thesis by simp
  next
    case xs': (Cons x' ys)
    have "x = x' \<and> tl xs r = tl ys r'"
      using Cons.prems(1,2,3) join stop by (intro Cons.prems(4)) (auto simp: xs')
    moreover from this close(2) have "xs = [] \<longleftrightarrow> ys = []" by (auto simp: tl_def split: if_splits)
    moreover have "xs = ys \<and> r = r'" if "xs \<noteq> []" "ys \<noteq> []" "tl xs r = tl ys r'"
      using that Cons.prems xs' by (intro Cons.IH) (auto simp: tl_def)
    ultimately show ?thesis by (cases "xs = []") (auto simp: xs' tl_def)
  qed
qed

fun type_head :: "tf_type \<Rightarrow> string" where
  "type_head (Prim s) = s"
| "type_head (Coll h t) = h"
| "type_head (Obj fs) = ''object''"
| "type_head (Tup ts) = ''tuple''"

definition field_text :: "string \<times> tf_type \<Rightarrow> string" where
  "field_text = (\<lambda>(k, t). k @ ''='' @ type_text t)"

fun type_tail :: "tf_type \<Rightarrow> string" where
  "type_tail (Prim s) = []"
| "type_tail (Coll h t) = CHR ''('' # type_text t @ '')''"
| "type_tail (Obj fs) = ''({'' @ str_join '','' (map field_text (sort_key field_text fs)) @ ''})''"
| "type_tail (Tup ts) = ''(['' @ str_join '','' (map type_text ts) @ ''])''"

lemma sort_map: "sort (map f xs) = map f (sort_key f xs)"
  by (rule properties_for_sort) simp_all

lemma type_text_head: "type_text t = type_head t @ type_tail t"
  by (cases t) (simp_all add: sort_map field_text_def)

lemma type_head_word: "tf_type_wf t \<Longrightarrow> type_head t \<noteq> [] \<and> list_all is_ascii_alphanumeric (type_head t)"
  by (cases t) (auto simp: is_ascii_alphanumeric_def)

lemma type_tail_stops: "stop r \<Longrightarrow> type_tail t @ r = [] \<or> \<not> is_ascii_alphanumeric (hd (type_tail t @ r))"
  by (cases t) (auto simp: stop_def is_ascii_alphanumeric_def split: list.splits)

lemma type_text_not_stop: "tf_type_wf t \<Longrightarrow> \<not> stop (type_text t @ r)"
  using type_head_word [of t]
  by (cases "type_head t") (auto simp: type_text_head stop_def is_ascii_alphanumeric_def)

lemma ident_not_stop: "ident k \<Longrightarrow> \<not> stop (k @ r)"
  by (cases k) (auto simp: ident_def stop_def is_ascii_alphanumeric_def)

lemma type_heads:
  assumes "tf_type_wf t" "tf_type_wf t'" "stop r" "stop r'" "type_text t @ r = type_text t' @ r'"
  shows "type_head t = type_head t' \<and> type_tail t @ r = type_tail t' @ r'"
  using word_split [of is_ascii_alphanumeric "type_head t" "type_head t'" "type_tail t @ r" "type_tail t' @ r'"]
    assms type_head_word type_tail_stops by (simp add: type_text_head)

lemma type_text_unique:
  "tf_type_wf t \<Longrightarrow> tf_type_wf t' \<Longrightarrow> stop r \<Longrightarrow> stop r' \<Longrightarrow> type_text t @ r = type_text t' @ r' \<Longrightarrow> t = t' \<and> r = r'"
proof (induction t arbitrary: t' r r')
  case (Prim s)
  with type_heads [OF Prim] show ?case by (cases t') auto
next
  case (Coll h t)
  from type_heads [OF Coll.prems] Coll.prems(1,2) obtain u where t': "t' = Coll h u"
    and "type_text t @ '')'' @ r = type_text u @ '')'' @ r'"
    by (cases t') auto
  with Coll.IH [of u "'')'' @ r" "'')'' @ r'"] Coll.prems(1,2) show ?case by (simp add: stop_def)
next
  case (Obj fs)
  from type_heads [OF Obj.prems] Obj.prems(1,2) obtain gs where t': "t' = Obj gs"
    and same: "str_join '','' (map field_text (sort_key field_text fs)) @ CHR ''}'' # '')'' @ r
      = str_join '','' (map field_text (sort_key field_text gs)) @ CHR ''}'' # '')'' @ r'"
    by (cases t') auto
  let ?ok = "\<lambda>(k, t). ident k \<and> tf_type_wf t"
  have "sort_key field_text fs = sort_key field_text gs \<and> '')'' @ r = '')'' @ r'"
  proof (rule join_unique [where ok = ?ok and e = field_text, OF _ _ _ _ _ _ same])
    fix x x' q q'
    assume x: "x \<in> set (sort_key field_text fs)" "?ok x" "?ok x'" "stop q" "stop q'" "field_text x @ q = field_text x' @ q'"
    obtain k u k' u' where xx: "x = (k, u)" "x' = (k', u')" by force
    have "k = k' \<and> ''='' @ type_text u @ q = ''='' @ type_text u' @ q'"
      using x(2,3,6) xx by (intro word_split [of "\<lambda>c. c \<noteq> CHR ''=''"])
        (auto simp: field_text_def ident_def list_all_iff is_ascii_alphanumeric_def)
    with Obj.IH [of x u u' q q'] x xx show "x = x' \<and> q = q'" by auto
  next
    fix x q assume "?ok x"
    then show "\<not> stop (field_text x @ q)" by (auto simp: field_text_def ident_not_stop)
  qed (use Obj.prems(1,2) t' in \<open>auto simp: stop_def list_all_iff\<close>)
  then have "set (sort_key field_text fs) = set (sort_key field_text gs)" "r = r'" by simp_all
  then have "set fs = set gs" "r = r'" by simp_all
  moreover have "fs = gs" if "set fs = set gs" "bt_wf fs" "bt_wf gs"
    using that bt_wf_distinct [of fs] bt_wf_distinct [of gs]
    by (intro map_sorted_distinct_set_unique [of fst])
      (auto simp: bt_wf_def distinct_map strict_sorted_imp_sorted)
  ultimately show ?case using Obj.prems(1,2) t' by simp
next
  case (Tup ts)
  from type_heads [OF Tup.prems] Tup.prems(1,2) obtain us where t': "t' = Tup us"
    and same: "str_join '','' (map type_text ts) @ CHR '']'' # '')'' @ r = str_join '','' (map type_text us) @ CHR '']'' # '')'' @ r'"
    by (cases t') auto
  have "ts = us \<and> '')'' @ r = '')'' @ r'"
  proof (rule join_unique [where ok = tf_type_wf and e = type_text, OF _ _ _ _ _ _ same])
    show "x \<in> set ts \<Longrightarrow> tf_type_wf x \<Longrightarrow> tf_type_wf x' \<Longrightarrow> stop q \<Longrightarrow> stop q' \<Longrightarrow>
      type_text x @ q = type_text x' @ q' \<Longrightarrow> x = x' \<and> q = q'" for x x' q q' by (rule Tup.IH)
  qed (use Tup.prems(1,2) t' type_text_not_stop in \<open>auto simp: stop_def list_all_iff\<close>)
  with t' show ?case by simp
qed

text \<open>The text of an attribute's type determines the type: two Terraform types that the fetcher writes the
  same are the same, whatever the order in which their fields are printed.\<close>

theorem type_text_determines_type:
  assumes "tf_type_wf t" "tf_type_wf u"
    and "render_type show_json (Some (tf_json t)) = render_type show_json (Some (tf_json u))"
  shows "t = u"
  using type_text_unique [of t u "[]" "[]"] assms by (simp add: render_type_def render_tf_json stop_def)

section \<open>Witnesses\<close>

definition wit_host :: "nat terraform_host" where
  "wit_host = \<lparr>new_tempdir = retA [''tmp''], write_file = (\<lambda>_ _. retA ()),
     run_command = (\<lambda>_. retA \<lparr>po_success = True, po_status = ''0'', po_stdout = [], po_stderr = []\<rparr>),
     run_within = (\<lambda>ms cmd w. (Some (Inr \<lparr>po_success = True, po_status = ''0'', po_stdout = [], po_stderr = []\<rparr>), w)),
     remove_tempdir = (\<lambda>_ w. w),
     parse_output = (\<lambda>_. Inr \<lparr>ts_provider_schemas = [(''registry.terraform.io/hashicorp/aws'',
       \<lparr>te_resource_schemas = [(''b'', \<lparr>tr_block = \<lparr>tb_description = None, tb_attributes = []\<rparr>\<rparr>),
          (''a'', \<lparr>tr_block = \<lparr>tb_description = None, tb_attributes = []\<rparr>\<rparr>)], te_data_source_schemas = []\<rparr>)]\<rparr>),
     json_text = (\<lambda>_. []), debug_keys = (\<lambda>_. []), utc_now = (\<lambda>_. 0)\<rparr>"

theorem fetched_schema_typed_witness:
  "\<exists>s. fst (cli_fetch wit_host fetcher_new ''hashicorp'' ''aws'' ''5.30.0'' 0) = Inr s \<and> map fst (ps_resources s) = [''a'', ''b'']
    \<and> schema_wf s"
proof -
  obtain s where s: "cli_fetch wit_host fetcher_new ''hashicorp'' ''aws'' ''5.30.0'' 0 = (Inr s, 0)"
    and names: "map fst (ps_resources s) = [''a'', ''b'']"
    by (simp add: cli_fetch_def in_tempdir_def wit_host_def retA_def map_errA_def bindA_def run_tool_def
        convert_output_def provider_key_def insert_all_def Let_def)
  with fetched_schema_typed [OF s] show ?thesis by simp
qed

theorem first_launch_covers_witness:
  "\<exists>report k'. first_launch_sync (wit_services\<lparr>fetch_registry := cli_fetch wit_host fetcher_new\<rparr>) No_dir
       [(''hashicorp'', ''aws'', ''5.30.0'')] wit_knowledge = (Inr report, k')
     \<and> pinned_in ''aws'' ''5.30.0'' k'"
proof -
  let ?svc = "wit_services\<lparr>fetch_registry := cli_fetch wit_host fetcher_new\<rparr>"
  obtain report k' where run: "first_launch_sync ?svc No_dir [(''hashicorp'', ''aws'', ''5.30.0'')] wit_knowledge = (Inr report, k')"
    and ok: "\<not> (\<exists>err. snd (snd (snd (per_provider report ! 0))) = FetchFailed err)"
    by (simp add: first_launch_sync_def launch_one_def seed_provider_def wit_knowledge_eval fetch_provider_schema_def
        cli_fetch_def in_tempdir_def wit_host_def run_tool_def convert_output_def provider_key_def insert_all_def
        convert_resource_def Let_def)
  from first_launch_covers [OF _ run] have "list_all2 (covered k') [(''hashicorp'', ''aws'', ''5.30.0'')] (per_provider report)"
    by simp
  with run ok show ?thesis
    by (auto simp: list_all2_Cons1 covered_def split: prod.splits)
qed

theorem type_text_determines_type_witness:
  "Coll ''list'' (Obj [(''a'', Prim ''bool''), (''b'', Tup [])]) = Coll ''list'' (Obj [(''a'', Prim ''bool''), (''b'', Tup [])])"
  by (rule type_text_determines_type [where show_json = "\<lambda>_. []"])
    (simp_all add: ident_def is_ascii_alphanumeric_def)

end
