(* ===== verification/Schema_Cache.thy ===== *)
theory Schema_Cache
  imports Schema_Fetcher Audit_Store
begin

text \<open>
  \<open>libs/knowledge/src/manifest.rs\<close> and \<open>cache.rs\<close>, and the commands \<open>src/cli/src/commands/schema\<close>: the
  on-disk cache of provider schemas, its manifest, the in-memory cache of parsed schemas, and
  \<open>schema update\<close>, \<open>verify\<close>, \<open>gc\<close> and \<open>show\<close>. JSON, SHA-256, the \<open>terraform\<close> process and the clock are
  parameters. The lemmas show that updates and collections keep the manifest true of the disk, so
  that \<open>verify\<close> passes, and what a collection keeps.
\<close>

section \<open>The manifest\<close>

definition SCHEMA_VERSION :: u32 where
  "SCHEMA_VERSION = 1"

record manifest_entry =
  me_provider :: string
  me_source :: string
  me_version :: string
  me_version_constraint :: string
  me_captured_at :: int
  me_captured_by :: string
  me_terraform_version :: string
  me_sha256 :: string
  me_size_bytes :: u64
  me_schema_path :: string

record manifest =
  schema_version :: u32
  entries :: "manifest_entry list"
  last_auto_check :: "int option"

definition manifest_empty :: manifest where
  "manifest_empty = \<lparr>schema_version = SCHEMA_VERSION, entries = [], last_auto_check = None\<rparr>"

definition me_key :: "manifest_entry \<Rightarrow> string \<times> string" where
  "me_key e = (me_provider e, me_version e)"

definition manifest_find :: "manifest \<Rightarrow> string \<Rightarrow> string \<Rightarrow> manifest_entry option" where
  "manifest_find m p v = find (\<lambda>e. me_provider e = p \<and> me_version e = v) (entries m)"

definition put_entry :: "manifest_entry \<Rightarrow> manifest_entry list \<Rightarrow> manifest_entry list" where
  "put_entry entry es =
     (if find (\<lambda>e. me_provider e = me_provider entry \<and> me_version e = me_version entry) es \<noteq> None
      then update_first (\<lambda>e. me_provider e = me_provider entry \<and> me_version e = me_version entry) (\<lambda>_. entry) es
      else es @ [entry])"

definition manifest_upsert :: "manifest_entry \<Rightarrow> manifest \<Rightarrow> manifest" where
  "manifest_upsert entry m = m\<lparr>entries := put_entry entry (entries m)\<rparr>"

definition manifest_remove :: "string \<Rightarrow> string \<Rightarrow> manifest \<Rightarrow> bool \<times> manifest" where
  "manifest_remove p v m =
     (let kept = filter (\<lambda>e. \<not> (me_provider e = p \<and> me_version e = v)) (entries m) in
      (length kept \<noteq> length (entries m), m\<lparr>entries := kept\<rparr>))"

text \<open>\<open>sort_by\<close> on the version, descending, is stable.\<close>

definition sort_desc :: "('a \<Rightarrow> 'b::linorder) \<Rightarrow> 'a list \<Rightarrow> 'a list" where
  "sort_desc f xs = rev (sort_key f (rev xs))"

definition cached_pairs :: "manifest \<Rightarrow> (string \<times> string) list" where
  "cached_pairs m = sort_key fst (sort_desc snd (map me_key (entries m)))"

section \<open>Surroundings\<close>

record 'w tools =
  manifest_of_json :: "string \<Rightarrow> manifest option"
  manifest_to_json :: "manifest \<Rightarrow> string option"
  schema_of_json :: "string \<Rightarrow> provider_schema option"
  schema_to_json :: "provider_schema \<Rightarrow> string option"
  sha_digest :: "string \<Rightarrow> string"
  tool_io :: io
  read_fault :: "path \<Rightarrow> bool"
  rmdir_fault :: "path \<Rightarrow> bool"
  home :: "path option"
  tf_host :: "'w terraform_host"
  terraform_version_output :: "'w \<Rightarrow> (bool \<times> string) option"
  user_env :: "string \<Rightarrow> string option"
  fresh_uuid :: "'w \<Rightarrow> uuid \<times> 'w"
  now_of :: "'w \<Rightarrow> int"
  millis_between :: "'w \<Rightarrow> 'w \<Rightarrow> nat"
  new_signer :: "'w \<Rightarrow> session_signer"
  crypto_of :: crypto
  unicode_word :: "string \<Rightarrow> bool"
  audit_opens :: bool

record 'w cli =
  cli_disk :: fs
  cli_audit :: audit_store
  cli_world :: 'w

datatype cli_error =
    Cli_Schema schema_error
  | No_cache_root
  | Create_dir path
  | Write_schema path
  | Encode_schema
  | Terraform_missing
  | Missing_flag string
  | Audit_open
  | Cli_audit append_failure
  | Captures_failed nat
  | Verification_failed nat nat
  | Invalid_spec string
  | Not_cached string string

definition join :: "path \<Rightarrow> string \<Rightarrow> path" where
  "join p s = p @ split_on (CHR ''/'') s"

definition resolve_cache_root :: "'w tools \<Rightarrow> path option \<Rightarrow> cli_error + path" where
  "resolve_cache_root t explicit =
     (case explicit of
        Some p \<Rightarrow> Inr p
      | None \<Rightarrow> (case home t of None \<Rightarrow> Inl No_cache_root | Some h \<Rightarrow> Inr (h @ [''.terrashift'', ''schemas''])))"

definition manifest_path :: "path \<Rightarrow> path" where
  "manifest_path root = root @ [''manifest.json'']"

text \<open>\<open>RuntimeManifest::load\<close> and \<open>save\<close>, with \<open>Path::with_extension\<close>.\<close>

definition manifest_load :: "'w tools \<Rightarrow> path \<Rightarrow> fs \<Rightarrow> schema_error + manifest" where
  "manifest_load t p s =
     (if read_fault t p then Inl (ManifestIo (last p))
      else if \<not> path_exists s p then Inr manifest_empty
      else case read_to_string s p of
             None \<Rightarrow> Inl (ManifestIo (last p))
           | Some text \<Rightarrow> (case manifest_of_json t text of None \<Rightarrow> Inl Schema_Serialize | Some m \<Rightarrow> Inr m))"

definition file_stem :: "string \<Rightarrow> string" where
  "file_stem s = (let r = dropWhile (\<lambda>c. c \<noteq> CHR ''.'') (rev s) in if r = [] \<or> tl r = [] then s else rev (tl r))"

definition with_extension :: "path \<Rightarrow> string \<Rightarrow> path" where
  "with_extension p ext = butlast p @ [file_stem (last p) @ ''.'' @ ext]"

definition manifest_save :: "'w tools \<Rightarrow> path \<Rightarrow> manifest \<Rightarrow> (fs, schema_error, unit) act" where
  "manifest_save t p m s =
     (let io = tool_io t; parent = butlast p; tmp = with_extension p ''tmp'' in
      if p \<noteq> [] \<and> mkdir_fault io parent then (Inl (ManifestIo (last p)), s)
      else
        let s1 = (if p = [] then s else create_dir_all parent s) in
        case manifest_to_json t m of
          None \<Rightarrow> (Inl Schema_Serialize, s1)
        | Some json \<Rightarrow>
            (case write_fault io tmp of
               Some left \<Rightarrow> (Inl (ManifestIo (last p)), s1\<lparr>files := (files s1)(tmp := left)\<rparr>)
             | None \<Rightarrow>
                 let s2 = s1\<lparr>files := (files s1)(tmp \<mapsto> json)\<rparr> in
                 (case rename_error io s2 tmp p of
                    Some code \<Rightarrow> (Inl (ManifestIo (last p)), s2)
                  | None \<Rightarrow> (Inr (), move_file tmp p s2))))"

text \<open>Lower-case hexadecimal of a digest.\<close>

definition hex_digit :: "nat \<Rightarrow> char" where
  "hex_digit n = ''0123456789abcdef'' ! n"

definition hex_lower :: "string \<Rightarrow> string" where
  "hex_lower bytes = concat (map (\<lambda>b. [hex_digit (of_char b div 16), hex_digit (of_char b mod 16)]) bytes)"

definition sha_hex :: "'w tools \<Rightarrow> string \<Rightarrow> string" where
  "sha_hex t bytes = hex_lower (sha_digest t bytes)"

section \<open>The cache of parsed schemas\<close>

record runtime_schema_cache =
  cache_root :: path
  parsed :: "string \<times> string \<rightharpoonup> provider_schema"

definition runtime_cache_new :: "path \<Rightarrow> runtime_schema_cache" where
  "runtime_cache_new root = \<lparr>cache_root = root, parsed = Map.empty\<rparr>"

definition cache_load ::
  "'w tools \<Rightarrow> fs \<Rightarrow> string \<Rightarrow> string \<Rightarrow> (runtime_schema_cache, schema_error, provider_schema) act"
where
  "cache_load t s p v c =
     (case parsed c (p, v) of
        Some hit \<Rightarrow> (Inr hit, c)
      | None \<Rightarrow>
          (let f = join (join (join (cache_root c) p) v) ''schema.json'' in
           if read_fault t f then (Inl (ManifestIo (last f)), c)
           else case files s f of
                  None \<Rightarrow> (Inl (ManifestIo (last f)), c)
                | Some bytes \<Rightarrow>
                    (case schema_of_json t bytes of
                       None \<Rightarrow> (Inl Schema_Serialize, c)
                     | Some schema \<Rightarrow> (Inr schema, c\<lparr>parsed := (parsed c)((p, v) \<mapsto> schema)\<rparr>))))"

definition cache_invalidate :: "string \<Rightarrow> string \<Rightarrow> runtime_schema_cache \<Rightarrow> runtime_schema_cache" where
  "cache_invalidate p v c = c\<lparr>parsed := (parsed c)((p, v) := None)\<rparr>"

section \<open>\<open>schema verify\<close>\<close>

fun verify_entries ::
  "'w tools \<Rightarrow> path \<Rightarrow> fs \<Rightarrow> manifest_entry list \<Rightarrow> nat \<Rightarrow> nat \<Rightarrow> nat \<times> nat"
where
  "verify_entries t root s [] drift missing = (drift, missing)"
| "verify_entries t root s (e # es) drift missing =
     (let f = join root (me_schema_path e) in
      if read_fault t f then verify_entries t root s es (drift + 1) missing
      else case files s f of
             Some bytes \<Rightarrow>
               (if sha_hex t bytes \<noteq> me_sha256 e then verify_entries t root s es (drift + 1) missing
                else verify_entries t root s es drift missing)
           | None \<Rightarrow>
               (if path_exists s f then verify_entries t root s es (drift + 1) missing
                else verify_entries t root s es drift (missing + 1)))"

definition schema_verify :: "'w tools \<Rightarrow> path option \<Rightarrow> fs \<Rightarrow> cli_error + unit" where
  "schema_verify t cache s =
     bindE (resolve_cache_root t cache) (\<lambda>root.
       case manifest_load t (manifest_path root) s of
         Inl e \<Rightarrow> Inl (Cli_Schema e)
       | Inr m \<Rightarrow>
           (if entries m = [] then Inr ()
            else case verify_entries t root s (entries m) 0 0 of
                   (drift, missing) \<Rightarrow>
                     (if drift = 0 \<and> missing = 0 then Inr () else Inl (Verification_failed drift missing))))"

section \<open>\<open>schema update\<close>\<close>

record update_args =
  up_provider :: "string option"
  up_version :: "string option"
  up_namespace :: string
  up_all :: bool
  up_cache :: "path option"

text \<open>\<open>lines().next()\<close>.\<close>

definition first_line :: "string \<Rightarrow> string option" where
  "first_line s =
     (if s = [] then None
      else let l = takeWhile (\<lambda>c. c \<noteq> CHR 0x0A) s in
           Some (case strip_suffix [CHR 0x0D] l of Some l' \<Rightarrow> if length l < length s then l' else l | None \<Rightarrow> l))"

definition detect_terraform_version :: "'w tools \<Rightarrow> 'w \<Rightarrow> string option" where
  "detect_terraform_version t w =
     (case terraform_version_output t w of
        None \<Rightarrow> None
      | Some (success, out) \<Rightarrow>
          (if \<not> success then None
           else case first_line (utf8_lossy out) of
                  None \<Rightarrow> None
                | Some l \<Rightarrow> map_option str_trim (strip_prefix ''Terraform v'' l)))"

definition whoami_or_unknown :: "'w tools \<Rightarrow> string" where
  "whoami_or_unknown t =
     (case user_env t ''USERNAME'' of
        Some u \<Rightarrow> u
      | None \<Rightarrow> (case user_env t ''USER'' of Some u \<Rightarrow> u | None \<Rightarrow> ''unknown''))"

definition tf_version :: "'w tools \<Rightarrow> 'w \<Rightarrow> string" where
  "tf_version t w = (case detect_terraform_version t w of Some v \<Rightarrow> v | None \<Rightarrow> ''unknown'')"

definition capture_targets :: "update_args \<Rightarrow> manifest \<Rightarrow> cli_error + (string \<times> string \<times> string) list" where
  "capture_targets args m =
     (if up_all args then Inr (map (\<lambda>(p, v). (up_namespace args, p, v)) (cached_pairs m))
      else case up_provider args of
             None \<Rightarrow> Inl (Missing_flag ''--provider is required (or use --all)'')
           | Some p \<Rightarrow>
               (case up_version args of
                  None \<Rightarrow> Inl (Missing_flag ''--version is required (or use --all)'')
                | Some v \<Rightarrow> Inr [(up_namespace args, p, v)]))"

definition captured_entry ::
  "'w tools \<Rightarrow> string \<Rightarrow> string \<Rightarrow> string \<Rightarrow> string \<Rightarrow> 'w \<Rightarrow> manifest_entry"
where
  "captured_entry t ns p v json w =
     \<lparr>me_provider = p, me_source = ns @ ''/'' @ p, me_version = v, me_version_constraint = ''= '' @ v,
      me_captured_at = now_of t w, me_captured_by = ''schema_update_command'',
      me_terraform_version = tf_version t w, me_sha256 = sha_hex t json, me_size_bytes = of_nat (length json),
      me_schema_path = p @ ''/'' @ v @ ''/schema.json''\<rparr>"

definition millis32 :: "nat \<Rightarrow> u32" where
  "millis32 n = of_nat (min n (2 ^ 32 - 1))"

text \<open>The audit entry of a capture; its id and its time come from the world.\<close>

definition audit_capture ::
  "'w tools \<Rightarrow> session_signer \<Rightarrow> uuid \<Rightarrow> string \<Rightarrow> string \<Rightarrow> string \<Rightarrow> string \<Rightarrow> u32 \<Rightarrow> ('w cli, cli_error, unit) act"
where
  "audit_capture t signer run_id ns p v hex duration s =
     (case fresh_uuid t (cli_world s) of
        (i, w) \<Rightarrow>
          (let e = audit_entry_new i (now_of t w) run_id (Actor_User (whoami_or_unknown t)) ''schema.capture'' Outcome_Ok
                     (SchemaCapture p (ns @ ''/'' @ p) (''= '' @ v) v (tf_version t w) UserCommand hex duration) in
           case audit_append (crypto_of t) (unicode_word t) signer e (cli_audit s) of
             (Inl err, st) \<Rightarrow> (Inl (Cli_audit err), s\<lparr>cli_audit := st, cli_world := w\<rparr>)
           | (Inr _, st) \<Rightarrow> (Inr (), s\<lparr>cli_audit := st, cli_world := w\<rparr>)))"

text \<open>The directory and the file of a captured schema.\<close>

definition store_capture ::
  "'w tools \<Rightarrow> path \<Rightarrow> string \<Rightarrow> string \<Rightarrow> string \<Rightarrow> (fs, cli_error, unit) act"
where
  "store_capture t root p v json s =
     (let io = tool_io t; dir = join (join root p) v; f = join dir ''schema.json'' in
      if mkdir_fault io dir then (Inl (Create_dir dir), s)
      else
        let s1 = create_dir_all dir s in
        case write_fault io f of
          Some left \<Rightarrow> (Inl (Write_schema f), s1\<lparr>files := (files s1)(f := left)\<rparr>)
        | None \<Rightarrow> (Inr (), s1\<lparr>files := (files s1)(f \<mapsto> json)\<rparr>))"

definition on_cli_disk :: "(fs, 'e, 'a) act \<Rightarrow> ('w cli, 'e, 'a) act" where
  "on_cli_disk m s = (case m (cli_disk s) of (r, d) \<Rightarrow> (r, s\<lparr>cli_disk := d\<rparr>))"

definition capture_one ::
  "'w tools \<Rightarrow> path \<Rightarrow> session_signer \<Rightarrow> uuid \<Rightarrow> string \<times> string \<times> string \<Rightarrow> manifest
     \<Rightarrow> ('w cli, cli_error, manifest option) act"
where
  "capture_one t root signer run_id = (\<lambda>(ns, p, v) m s.
     case cli_fetch (tf_host t) fetcher_new ns p v (cli_world s) of
       (Inl e, w) \<Rightarrow> (Inr None, s\<lparr>cli_world := w\<rparr>)
     | (Inr schema, w) \<Rightarrow>
         (case schema_to_json t schema of
            None \<Rightarrow> (Inl Encode_schema, s\<lparr>cli_world := w\<rparr>)
          | Some json \<Rightarrow>
              bindA (on_cli_disk (store_capture t root p v json)) (\<lambda>_.
              bindA (audit_capture t signer run_id ns p v (sha_hex t json) (millis32 (millis_between t (cli_world s) w)))
                (\<lambda>_. retA (Some (manifest_upsert (captured_entry t ns p v json w) m))))
                (s\<lparr>cli_world := w\<rparr>)))"

fun capture_all ::
  "'w tools \<Rightarrow> path \<Rightarrow> session_signer \<Rightarrow> uuid \<Rightarrow> (string \<times> string \<times> string) list \<Rightarrow> manifest \<Rightarrow> nat
     \<Rightarrow> ('w cli, cli_error, manifest \<times> nat) act"
where
  "capture_all t root signer run_id [] m failed = retA (m, failed)"
| "capture_all t root signer run_id (x # xs) m failed =
     bindA (capture_one t root signer run_id x m) (\<lambda>r.
       case r of
         Some m' \<Rightarrow> capture_all t root signer run_id xs m' failed
       | None \<Rightarrow> capture_all t root signer run_id xs m (failed + 1))"

definition save_to :: "'w tools \<Rightarrow> path \<Rightarrow> manifest \<Rightarrow> ('w cli, cli_error, unit) act" where
  "save_to t root m = on_cli_disk (map_errA Cli_Schema (manifest_save t (manifest_path root) m))"

definition with_audit_store ::
  "'w tools \<Rightarrow> (session_signer \<Rightarrow> uuid \<Rightarrow> ('w cli, cli_error, 'a) act) \<Rightarrow> ('w cli, cli_error, 'a) act"
where
  "with_audit_store t body s =
     (if \<not> audit_opens t then (Inl Audit_open, s)
      else case fresh_uuid t (cli_world s) of
             (run_id, w) \<Rightarrow>
               (let signer = new_signer t (cli_world s) in
                body signer run_id (s\<lparr>cli_world := w,
                  cli_audit := register_run run_id (verify_key_bytes (crypto_of t) signer) (reopen (cli_audit s))\<rparr>)))"

definition schema_update :: "'w tools \<Rightarrow> update_args \<Rightarrow> ('w cli, cli_error, unit) act" where
  "schema_update t args s =
     (case resolve_cache_root t (up_cache args) of
        Inl e \<Rightarrow> (Inl e, s)
      | Inr root \<Rightarrow>
          (if mkdir_fault (tool_io t) root then (Inl (Create_dir root), s)
           else
             let s1 = s\<lparr>cli_disk := create_dir_all root (cli_disk s)\<rparr> in
             case manifest_load t (manifest_path root) (cli_disk s1) of
               Inl e \<Rightarrow> (Inl (Cli_Schema e), s1)
             | Inr m \<Rightarrow>
                 (case fetcher_check_available (tf_host t) fetcher_new (cli_world s1) of
                    (Inl e, w) \<Rightarrow> (Inl Terraform_missing, s1\<lparr>cli_world := w\<rparr>)
                  | (Inr _, w) \<Rightarrow>
                      (case capture_targets args m of
                         Inl e \<Rightarrow> (Inl e, s1\<lparr>cli_world := w\<rparr>)
                       | Inr [] \<Rightarrow> (Inr (), s1\<lparr>cli_world := w\<rparr>)
                       | Inr targets \<Rightarrow>
                           with_audit_store t (\<lambda>signer run_id.
                             bindA (capture_all t root signer run_id targets m 0) (\<lambda>(m', failed).
                             bindA (save_to t root m') (\<lambda>_.
                               if 0 < failed then throwA (Captures_failed failed) else retA ())))
                             (s1\<lparr>cli_world := w\<rparr>)))))"

section \<open>\<open>schema gc\<close>\<close>

definition providers_of :: "manifest \<Rightarrow> string list" where
  "providers_of m = sort (remdups (map me_provider (entries m)))"

definition to_delete :: "nat \<Rightarrow> manifest \<Rightarrow> manifest_entry list" where
  "to_delete keep_versions m = concat (map (\<lambda>p.
     drop keep_versions (sort_desc me_version (filter (\<lambda>e. me_provider e = p) (entries m)))) (providers_of m))"

text \<open>\<open>remove_dir_all\<close>: \<open>None\<close> is success, \<open>Some True\<close> that it is not there, \<open>Some False\<close> another error.\<close>

definition remove_dir_all :: "'w tools \<Rightarrow> path \<Rightarrow> fs \<Rightarrow> bool option \<times> fs" where
  "remove_dir_all t d s =
     (if rmdir_fault t d then (Some False, s)
      else if \<not> path_exists s d then (Some True, s)
      else (None, remove_tree d s))"

fun gc_entries :: "'w tools \<Rightarrow> path \<Rightarrow> manifest_entry list \<Rightarrow> manifest \<times> fs \<Rightarrow> manifest \<times> fs" where
  "gc_entries t root [] ms = ms"
| "gc_entries t root (e # es) (m, s) =
     (let p = me_provider e; v = me_version e in
      case remove_dir_all t (join (join root p) v) s of
        (Some False, s') \<Rightarrow> gc_entries t root es (m, s')
      | (_, s') \<Rightarrow> gc_entries t root es (snd (manifest_remove p v m), s'))"

definition schema_gc :: "'w tools \<Rightarrow> path option \<Rightarrow> nat \<Rightarrow> bool \<Rightarrow> (fs, cli_error, unit) act" where
  "schema_gc t cache keep_versions dry s =
     (case resolve_cache_root t cache of
        Inl e \<Rightarrow> (Inl e, s)
      | Inr root \<Rightarrow>
          (case manifest_load t (manifest_path root) s of
             Inl e \<Rightarrow> (Inl (Cli_Schema e), s)
           | Inr m \<Rightarrow>
               (if entries m = [] \<or> to_delete keep_versions m = [] \<or> dry then (Inr (), s)
                else case gc_entries t root (to_delete keep_versions m) (m, s) of
                       (m', s') \<Rightarrow> map_errA Cli_Schema (manifest_save t (manifest_path root) m') s')))"

section \<open>\<open>schema show\<close>\<close>

definition parse_spec :: "string \<Rightarrow> cli_error + string \<times> string" where
  "parse_spec spec =
     (case split_once (CHR ''@'') spec of
        None \<Rightarrow> Inl (Invalid_spec spec)
      | Some (p, v) \<Rightarrow> if p = [] \<or> v = [] then Inl (Invalid_spec spec) else Inr (p, v))"

text \<open>The lines a pipe receives.\<close>

definition schema_show :: "'w tools \<Rightarrow> path option \<Rightarrow> string \<Rightarrow> string option \<Rightarrow> fs \<Rightarrow> cli_error + string list" where
  "schema_show t cache spec flt s =
     bindE (resolve_cache_root t cache) (\<lambda>root.
     bindE (parse_spec spec) (\<lambda>(p, v).
       case fst (cache_load t s p v (runtime_cache_new root)) of
         Inl e \<Rightarrow> Inl (Not_cached p v)
       | Inr schema \<Rightarrow>
           Inr (filter (\<lambda>r. case flt of None \<Rightarrow> True | Some f \<Rightarrow> starts_with f r)
                  (sort (map fst (ps_resources schema))))))"

section \<open>Paths\<close>

definition plain_name :: "string \<Rightarrow> bool" where
  "plain_name s \<longleftrightarrow> s \<noteq> [] \<and> CHR ''/'' \<notin> set s \<and> s \<noteq> ''.'' \<and> s \<noteq> ''..''"

definition schema_file :: "path \<Rightarrow> string \<Rightarrow> string \<Rightarrow> path" where
  "schema_file root p v = root @ [p, v, ''schema.json'']"

lemma join_plain [simp]: "plain_name s \<Longrightarrow> join r s = r @ [s]"
  by (simp add: join_def plain_name_def split_on_plain)

lemma plain_schema_json [simp]: "plain_name ''schema.json''"
  by (simp add: plain_name_def)

lemma join_schema_path:
  assumes "plain_name p" "plain_name v"
  shows "join root (p @ CHR ''/'' # v @ ''/schema.json'') = schema_file root p v"
proof -
  have "split_on (CHR ''/'') (p @ CHR ''/'' # v @ CHR ''/'' # ''schema.json'') = [p, v, ''schema.json'']"
    using assms by (simp add: split_on_append split_on_plain plain_name_def)
  then show ?thesis by (simp add: join_def schema_file_def)
qed

lemma with_extension_manifest: "with_extension (root @ [''manifest.json'']) ''tmp'' = root @ [''manifest.tmp'']"
  by (simp add: with_extension_def file_stem_def)

section \<open>The manifest is a map\<close>

interpretation manifest_rows: keyed_table me_key put_entry
proof
  have none: "find (\<lambda>e. me_provider e = p \<and> me_version e = v) es = None \<longleftrightarrow> (p, v) \<notin> me_key ` set es" for p v es
    by (induction es) (auto simp: me_key_def)
  fix x xs
  show "me_key x \<notin> me_key ` set xs \<Longrightarrow> put_entry x xs = xs @ [x]"
    using none [of "me_provider x" "me_version x" xs] by (simp add: put_entry_def me_key_def)
  show "me_key x \<in> me_key ` set xs \<Longrightarrow> put_entry x xs = update_first (\<lambda>y. me_key y = me_key x) (\<lambda>_. x) xs"
    using none [of "me_provider x" "me_version x" xs] by (simp add: put_entry_def me_key_def)
qed

section \<open>Saving and loading\<close>

definition tools_ok :: "'w tools \<Rightarrow> bool" where
  "tools_ok t \<longleftrightarrow> no_disk_faults (tool_io t) \<and> (\<forall>p. \<not> read_fault t p)
     \<and> (\<forall>m j. manifest_to_json t m = Some j \<longrightarrow> manifest_of_json t j = Some m \<and> valid_utf8 j)"

lemma manifest_save_load:
  assumes ok: "tools_ok t" and save: "manifest_save t (manifest_path root) m s = (Inr (), s')"
  shows "manifest_load t (manifest_path root) s' = Inr m"
    "\<And>q. length root + 1 < length q \<Longrightarrow> files s' q = files s q"
proof -
  from save obtain j where json: "manifest_to_json t m = Some j"
    by (auto simp: manifest_save_def Let_def split: if_splits option.splits)
  with ok have j: "manifest_of_json t j = Some m" "valid_utf8 j" by (auto simp: tools_ok_def)
  let ?tmp = "root @ [''manifest.tmp'']"
  let ?s2 = "create_dir_all root s\<lparr>files := (files s)(?tmp \<mapsto> j)\<rparr>"
  have s': "s' = move_file ?tmp (manifest_path root) ?s2"
    using save ok json by (auto simp: manifest_save_def manifest_path_def with_extension_manifest tools_ok_def
        no_disk_faults_def Let_def rename_error_def create_dir_all_def split: option.splits if_splits)
  then have "files s' (manifest_path root) = Some j"
    by (simp add: move_file_def manifest_path_def)
  with ok j show "manifest_load t (manifest_path root) s' = Inr m"
    by (simp add: manifest_load_def tools_ok_def path_exists_def read_to_string_def)
  show "files s' q = files s q" if "length root + 1 < length q" for q
    using that s' by (auto simp: move_file_def manifest_path_def create_dir_all_def)
qed

lemma manifest_save_ok:
  assumes "tools_ok t" "manifest_to_json t m = Some j"
  shows "fst (manifest_save t (manifest_path root) m s) = Inr ()"
  using assms by (simp add: manifest_save_def manifest_path_def with_extension_manifest tools_ok_def
      no_disk_faults_def Let_def rename_error_def)

section \<open>The manifest is true of the disk\<close>

definition entry_true :: "'w tools \<Rightarrow> path \<Rightarrow> fs \<Rightarrow> manifest_entry \<Rightarrow> bool" where
  "entry_true t root s e \<longleftrightarrow> plain_name (me_provider e) \<and> plain_name (me_version e)
     \<and> me_schema_path e = me_provider e @ ''/'' @ me_version e @ ''/schema.json''
     \<and> (\<exists>bytes. files s (schema_file root (me_provider e) (me_version e)) = Some bytes
          \<and> sha_hex t bytes = me_sha256 e \<and> me_size_bytes e = of_nat (length bytes))"

definition manifest_true :: "'w tools \<Rightarrow> path \<Rightarrow> fs \<Rightarrow> manifest \<Rightarrow> bool" where
  "manifest_true t root s m \<longleftrightarrow> distinct (map me_key (entries m)) \<and> list_all (entry_true t root s) (entries m)"

lemma entry_true_frame:
  assumes "entry_true t root s e" "\<And>q. prefix (root @ [me_provider e, me_version e]) q \<Longrightarrow> files s' q = files s q"
  shows "entry_true t root s' e"
  using assms by (simp add: entry_true_def schema_file_def)

lemma manifest_true_same:
  "manifest_true t root s m \<Longrightarrow> (\<And>q. length root + 1 < length q \<Longrightarrow> files s' q = files s q) \<Longrightarrow> manifest_true t root s' m"
  by (auto simp: manifest_true_def list_all_iff entry_true_def schema_file_def)

lemma store_capture_effect:
  assumes ok: "tools_ok t" and plain: "plain_name p" "plain_name v"
  shows "\<exists>s'. store_capture t root p v json s = (Inr (), s') \<and> files s' = (files s)(schema_file root p v \<mapsto> json)"
  using ok plain
  by (simp add: store_capture_def tools_ok_def no_disk_faults_def Let_def schema_file_def create_dir_all_def)

lemma manifest_true_capture:
  assumes m: "manifest_true t root s m" and plain: "plain_name p" "plain_name v"
    and s': "files s' = (files s)(schema_file root p v \<mapsto> json)"
  shows "manifest_true t root s' (manifest_upsert (captured_entry t ns p v json w) m)"
proof -
  let ?e = "captured_entry t ns p v json w"
  have key: "me_key ?e = (p, v)" by (simp add: captured_entry_def me_key_def)
  have new: "entry_true t root s' ?e"
    using plain s' by (simp add: entry_true_def captured_entry_def)
  have "entry_true t root s' e" if e: "e \<in> set (put_entry ?e (entries m))" for e
  proof (cases "me_key e = (p, v)")
    case True
    have "table_of me_key (put_entry ?e (entries m)) (p, v) = Some ?e"
      by (simp add: manifest_rows.table_put key)
    moreover have "distinct (map me_key (put_entry ?e (entries m)))"
      using m by (simp add: manifest_true_def manifest_rows.distinct_put)
    then have "table_of me_key (put_entry ?e (entries m)) (p, v) = Some e"
      using e True table_of_find [of me_key] find_unique [of me_key _ e] by metis
    ultimately show ?thesis using new by simp
  next
    case False
    with e manifest_rows.set_put [of ?e "entries m"] key have "e \<in> set (entries m)" by auto
    with m have t: "entry_true t root s e" by (auto simp: manifest_true_def list_all_iff)
    show ?thesis
    proof (rule entry_true_frame [OF t])
      fix q assume "prefix (root @ [me_provider e, me_version e]) q"
      with False have "q \<noteq> schema_file root p v" by (auto simp: schema_file_def me_key_def prefix_def)
      with s' show "files s' q = files s q" by simp
    qed
  qed
  with m show ?thesis
    by (auto simp: manifest_true_def manifest_upsert_def list_all_iff intro: manifest_rows.distinct_put)
qed

lemma capture_one_true:
  assumes ok: "tools_ok t" and plain: "plain_name p" "plain_name v"
    and m: "manifest_true t root (cli_disk s) m" and run: "capture_one t root signer run_id (ns, p, v) m s = (Inr r, s')"
  shows "manifest_true t root (cli_disk s') (case r of Some m' \<Rightarrow> m' | None \<Rightarrow> m)"
proof -
  obtain f w where fetch: "cli_fetch (tf_host t) fetcher_new ns p v (cli_world s) = (f, w)" by force
  show ?thesis
  proof (cases f)
    case (Inl e)
    with run fetch m show ?thesis by (auto simp: capture_one_def)
  next
    case (Inr schema)
    with run fetch obtain json where json: "schema_to_json t schema = Some json"
      by (cases "schema_to_json t schema") (auto simp: capture_one_def)
    obtain d where d: "store_capture t root p v json (cli_disk s) = (Inr (), d)"
      and files: "files d = (files (cli_disk s))(schema_file root p v \<mapsto> json)"
      using store_capture_effect [OF ok plain, of root json "cli_disk s"] by blast
    from run fetch Inr json d have "cli_disk s' = d" "r = Some (manifest_upsert (captured_entry t ns p v json w) m)"
      by (auto simp: capture_one_def on_cli_disk_def bindA_eq_Inr audit_capture_def Let_def split: prod.splits sum.splits)
    with manifest_true_capture [OF m plain files] show ?thesis by simp
  qed
qed

lemma capture_all_true:
  assumes ok: "tools_ok t"
  shows "list_all (\<lambda>(ns, p, v). plain_name p \<and> plain_name v) targets \<Longrightarrow> manifest_true t root (cli_disk s) m \<Longrightarrow>
     capture_all t root signer run_id targets m failed s = (Inr (m', n), s') \<Longrightarrow> manifest_true t root (cli_disk s') m'"
proof (induction targets arbitrary: m failed s)
  case (Cons x targets)
  obtain ns p v where x: "x = (ns, p, v)" by (cases x)
  with Cons.prems(3) obtain r s1 where one: "capture_one t root signer run_id (ns, p, v) m s = (Inr r, s1)"
    and rest: "(case r of Some m1 \<Rightarrow> capture_all t root signer run_id targets m1 failed
        | None \<Rightarrow> capture_all t root signer run_id targets m (Suc failed)) s1 = (Inr (m', n), s')"
    by (auto simp: bindA_eq_Inr)
  have "manifest_true t root (cli_disk s1) (case r of Some m1 \<Rightarrow> m1 | None \<Rightarrow> m)"
    using capture_one_true [OF ok _ _ Cons.prems(2) one] Cons.prems(1) x by simp
  with Cons.IH Cons.prems(1) rest show ?case by (cases r) auto
qed auto

lemma gc_entries_true:
  assumes "\<And>e. e \<in> set es \<Longrightarrow> plain_name (me_provider e) \<and> plain_name (me_version e)"
  shows "manifest_true t root s m \<Longrightarrow> gc_entries t root es (m, s) = (m', s') \<Longrightarrow> manifest_true t root s' m'"
  using assms
proof (induction es arbitrary: m s)
  case (Cons e es)
  let ?p = "me_provider e" and ?v = "me_version e" and ?d = "root @ [me_provider e, me_version e]"
  have plain: "plain_name ?p" "plain_name ?v" using Cons.prems(3) by auto
  obtain r s1 where rm: "remove_dir_all t ?d s = (r, s1)" by force
  show ?case
  proof (cases "r = Some False")
    case True
    with rm Cons plain show ?thesis by (auto simp: remove_dir_all_def split: if_splits)
  next
    case False
    let ?m = "snd (manifest_remove ?p ?v m)"
    have "entry_true t root s1 x" if x: "x \<in> set (entries ?m)" for x
    proof -
      from x have "x \<in> set (entries m)" "me_key x \<noteq> (?p, ?v)" by (auto simp: manifest_remove_def Let_def me_key_def)
      with Cons.prems(1) have t: "entry_true t root s x" by (auto simp: manifest_true_def list_all_iff)
      show ?thesis
      proof (rule entry_true_frame [OF t])
        fix q assume "prefix (root @ [me_provider x, me_version x]) q"
        with \<open>me_key x \<noteq> (?p, ?v)\<close> have "\<not> prefix ?d q" by (auto simp: prefix_def me_key_def)
        with rm show "files s1 q = files s q" by (auto simp: remove_dir_all_def remove_tree_def split: if_splits)
      qed
    qed
    then have "manifest_true t root s1 ?m"
      using Cons.prems(1) by (auto simp: manifest_true_def manifest_remove_def Let_def list_all_iff distinct_map_filter)
    moreover from False rm have "r = None \<or> r = Some True" by (auto simp: remove_dir_all_def split: if_splits)
    ultimately show ?thesis
      using Cons.IH [of s1 ?m] Cons.prems(2,3) rm plain by auto
  qed
qed auto

lemma verify_entries_true:
  assumes "\<And>p. \<not> read_fault t p"
  shows "list_all (entry_true t root s) es \<Longrightarrow> verify_entries t root s es d n = (d, n)"
  by (induction es) (auto simp: entry_true_def join_schema_path assms Let_def)

section \<open>Sequences of updates and collections\<close>

definition completed :: "cli_error + unit \<Rightarrow> bool" where
  "completed r \<longleftrightarrow> (case r of
     Inr _ \<Rightarrow> True
   | Inl (Captures_failed _) \<Rightarrow> True
   | Inl Terraform_missing \<Rightarrow> True
   | Inl (Missing_flag _) \<Rightarrow> True
   | Inl Audit_open \<Rightarrow> True
   | _ \<Rightarrow> False)"

inductive cache_step :: "'w tools \<Rightarrow> path \<Rightarrow> 'w cli \<Rightarrow> 'w cli \<Rightarrow> bool" for t root where
  step_update: "up_cache args = Some root \<Longrightarrow> pred_option plain_name (up_provider args) \<Longrightarrow>
     pred_option plain_name (up_version args) \<Longrightarrow> schema_update t args s = (r, s') \<Longrightarrow> completed r \<Longrightarrow>
     cache_step t root s s'"
| step_gc: "schema_gc t (Some root) keep dry (cli_disk s) = (Inr (), d) \<Longrightarrow>
     cache_step t root s (s\<lparr>cli_disk := d\<rparr>)"

definition cache_good :: "'w tools \<Rightarrow> path \<Rightarrow> fs \<Rightarrow> bool" where
  "cache_good t root d \<longleftrightarrow> (\<exists>m. manifest_load t (manifest_path root) d = Inr m \<and> manifest_true t root d m)"

lemma cache_goodI:
  "tools_ok t \<Longrightarrow> manifest_save t (manifest_path root) m s = (Inr (), s') \<Longrightarrow> manifest_true t root s m \<Longrightarrow>
   cache_good t root s'"
  using manifest_save_load [of t root m s s'] manifest_true_same [of t root s m s']
  by (auto simp: cache_good_def)

lemma manifest_load_create_root [simp]:
  "manifest_load t (manifest_path root) (create_dir_all root s) = manifest_load t (manifest_path root) s"
  by (simp add: manifest_load_def path_exists_def create_dir_all_def manifest_path_def read_to_string_def)

lemma cache_good_create_root: "cache_good t root s \<Longrightarrow> cache_good t root (create_dir_all root s)"
  using manifest_true_same [of t root s _ "create_dir_all root s"]
  by (auto simp: cache_good_def) (auto simp: create_dir_all_def)

lemma plain_targets:
  assumes "manifest_true t root s m" "capture_targets args m = Inr targets"
    "pred_option plain_name (up_provider args)" "pred_option plain_name (up_version args)"
  shows "list_all (\<lambda>(ns, p, v). plain_name p \<and> plain_name v) targets"
proof (cases "up_all args")
  case True
  have "set (cached_pairs m) = me_key ` set (entries m)"
    by (simp add: cached_pairs_def sort_desc_def)
  with True assms(1,2) show ?thesis
    by (auto simp: capture_targets_def manifest_true_def list_all_iff entry_true_def me_key_def)
next
  case False
  with assms(2-4) show ?thesis by (auto simp: capture_targets_def split: option.splits)
qed

lemma capture_one_aborts: "capture_one t root signer run_id x m s = (Inl e, s') \<Longrightarrow> \<not> completed (Inl e)"
  by (auto simp: capture_one_def on_cli_disk_def bindA_def store_capture_def audit_capture_def completed_def Let_def
      retA_def split: prod.splits sum.splits option.splits if_splits)

lemma capture_all_aborts: "capture_all t root signer run_id targets m n s = (Inl e, s') \<Longrightarrow> \<not> completed (Inl e)"
  by (induction targets arbitrary: m n s) (auto simp: bindA_eq_Inl split: option.splits dest: capture_one_aborts)

lemma update_body_completed:
  assumes "bindA (capture_all t root signer run_id targets m n) (\<lambda>(m', failed).
      bindA (save_to t root m') (\<lambda>_. if 0 < failed then throwA (Captures_failed failed) else retA ())) s = (r, s')"
    and "completed r"
  shows "\<exists>m' k s2. capture_all t root signer run_id targets m n s = (Inr (m', k), s2)
    \<and> manifest_save t (manifest_path root) m' (cli_disk s2) = (Inr (), cli_disk s')"
proof -
  obtain q s2 where q: "capture_all t root signer run_id targets m n s = (q, s2)" by force
  with assms capture_all_aborts [of t root signer run_id targets m n s _ s2] obtain m' k where "q = Inr (m', k)" by (cases q) auto
  with q assms show ?thesis
    by (cases "save_to t root m' s2")
      (auto simp: save_to_def on_cli_disk_def map_errA_def bindA_def completed_def split: prod.splits sum.splits if_splits)
qed

lemma update_keeps_good:
  assumes ok: "tools_ok t" and good: "cache_good t root (cli_disk s)" and cache: "up_cache args = Some root"
    and plain: "pred_option plain_name (up_provider args)" "pred_option plain_name (up_version args)"
    and run: "schema_update t args s = (r, s')" and r: "completed r"
  shows "cache_good t root (cli_disk s')"
proof -
  let ?d = "create_dir_all root (cli_disk s)"
  have good: "cache_good t root ?d" by (rule cache_good_create_root [OF good])
  then obtain m where load: "manifest_load t (manifest_path root) ?d = Inr m" and m: "manifest_true t root ?d m"
    by (auto simp: cache_good_def)
  have root: "resolve_cache_root t (up_cache args) = Inr root" "\<not> mkdir_fault (tool_io t) root"
    using ok cache by (simp_all add: resolve_cache_root_def tools_ok_def no_disk_faults_def)
  let ?s1 = "s\<lparr>cli_disk := ?d\<rparr>"
  obtain a w where check: "fetcher_check_available (tf_host t) fetcher_new (cli_world s) = (a, w)" by force
  let ?s2 = "?s1\<lparr>cli_world := w\<rparr>"
  show ?thesis
  proof (cases "\<exists>u targets. a = Inr u \<and> capture_targets args m = Inr targets \<and> targets \<noteq> [] \<and> audit_opens t")
    case False
    have "s' = ?s2"
      using run root load check False
      by (cases a; cases "capture_targets args m")
        (auto simp: schema_update_def Let_def with_audit_store_def split: list.splits)
    with good show ?thesis by simp
  next
    case True
    then obtain u x xs where a: "a = Inr u" and tg: "capture_targets args m = Inr (x # xs)" and opens: "audit_opens t"
      by (auto simp: neq_Nil_conv)
    obtain run_id w' where id: "fresh_uuid t w = (run_id, w')" by force
    let ?signer = "new_signer t w"
    let ?s3 = "?s2\<lparr>cli_world := w', cli_audit :=
      register_run run_id (verify_key_bytes (crypto_of t) ?signer) (reopen (cli_audit s))\<rparr>"
    have "bindA (capture_all t root ?signer run_id (x # xs) m 0) (\<lambda>(m', failed).
        bindA (save_to t root m') (\<lambda>_. if 0 < failed then throwA (Captures_failed failed) else retA ())) ?s3 = (r, s')"
      using run root load check a tg opens id by (simp add: schema_update_def Let_def with_audit_store_def)
    from update_body_completed [OF this r] obtain m' k s4
      where all: "capture_all t root ?signer run_id (x # xs) m 0 ?s3 = (Inr (m', k), s4)"
        and save: "manifest_save t (manifest_path root) m' (cli_disk s4) = (Inr (), cli_disk s')" by blast
    have "manifest_true t root (cli_disk s4) m'"
      using capture_all_true [OF ok plain_targets [OF m tg plain] _ all] m by simp
    with cache_goodI [OF ok save] show ?thesis .
  qed
qed

lemma gc_keeps_good:
  assumes ok: "tools_ok t" and good: "cache_good t root s" and run: "schema_gc t (Some root) keep dry s = (Inr (), s')"
  shows "cache_good t root s'"
proof -
  from good obtain m where load: "manifest_load t (manifest_path root) s = Inr m" and m: "manifest_true t root s m"
    by (auto simp: cache_good_def)
  show ?thesis
  proof (cases "entries m = [] \<or> to_delete keep m = [] \<or> dry")
    case True
    with run load good show ?thesis by (auto simp: schema_gc_def resolve_cache_root_def)
  next
    case False
    obtain m' s1 where gc: "gc_entries t root (to_delete keep m) (m, s) = (m', s1)" by force
    with run load False have save: "manifest_save t (manifest_path root) m' s1 = (Inr (), s')"
      by (auto simp: schema_gc_def resolve_cache_root_def map_errA_def split: prod.splits sum.splits)
    have "set (to_delete keep m) \<subseteq> set (entries m)"
      by (auto simp: to_delete_def sort_desc_def dest!: in_set_dropD)
    with m have "plain_name (me_provider e) \<and> plain_name (me_version e)" if "e \<in> set (to_delete keep m)" for e
      using that by (auto simp: manifest_true_def list_all_iff entry_true_def)
    from gc_entries_true [OF this m gc] cache_goodI [OF ok save] show ?thesis by blast
  qed
qed

lemma cache_step_good: "cache_step t root s s' \<Longrightarrow> tools_ok t \<Longrightarrow> cache_good t root (cli_disk s) \<Longrightarrow> cache_good t root (cli_disk s')"
  by (induction rule: cache_step.induct) (auto intro: update_keeps_good gc_keeps_good)

lemma cache_steps_good:
  assumes "(cache_step t root)\<^sup>*\<^sup>* s s'" "tools_ok t" "cache_good t root (cli_disk s)"
  shows "cache_good t root (cli_disk s')"
  using assms by (induction rule: rtranclp_induct) (auto intro: cache_step_good)

lemma no_manifest_good:
  assumes "tools_ok t" "\<not> path_exists s (manifest_path root)"
  shows "cache_good t root s"
  using assms by (simp add: cache_good_def manifest_load_def tools_ok_def manifest_true_def manifest_empty_def)


section \<open>What a collection keeps\<close>

definition newer_versions :: "manifest_entry list \<Rightarrow> manifest_entry \<Rightarrow> manifest_entry list" where
  "newer_versions es e = filter (\<lambda>x. me_provider x = me_provider e \<and> me_version e < me_version x) es"

lemma mset_sort_desc [simp]: "mset (sort_desc f xs) = mset xs"
  by (simp add: sort_desc_def)

lemma set_sort_desc [simp]: "set (sort_desc f xs) = set xs"
  by (simp add: sort_desc_def)

lemma sorted_sort_desc: "sorted_wrt (\<ge>) (map f (sort_desc f xs))"
  using sorted_sort_key [of f "rev xs"] by (simp add: sort_desc_def rev_map [symmetric] sorted_wrt_rev)

lemma larger_before:
  fixes f :: "'a \<Rightarrow> 'b::linorder"
  assumes "sorted_wrt (>) (map f ys)" "i < length ys"
  shows "length (filter (\<lambda>y. f (ys ! i) < f y) ys) = i"
proof -
  have lt: "f (ys ! k) < f (ys ! j)" if "j < k" "k < length ys" for j k
    using assms(1) that by (simp add: sorted_wrt_iff_nth_less)
  have "{j. j < length ys \<and> f (ys ! i) < f (ys ! j)} = {..<i}"
  proof (rule set_eqI)
    fix j
    show "j \<in> {j. j < length ys \<and> f (ys ! i) < f (ys ! j)} \<longleftrightarrow> j \<in> {..<i}"
      using lt [of j i] lt [of i j] assms(2) by (cases j i rule: linorder_cases) auto
  qed
  then show ?thesis by (simp add: length_filter_conv_card)
qed

lemma dropped_iff:
  fixes f :: "'a \<Rightarrow> 'b::linorder"
  assumes "distinct (map f xs)" "x \<in> set xs"
  shows "x \<in> set (drop k (sort_desc f xs)) \<longleftrightarrow> k \<le> length (filter (\<lambda>y. f x < f y) xs)"
proof -
  let ?ys = "sort_desc f xs"
  have "distinct (map f ?ys)"
    using assms(1) by (metis mset_sort_desc mset_map mset_eq_imp_distinct_iff)
  with sorted_sort_desc [of f xs] have s: "sorted_wrt (>) (map f ?ys)"
    by (auto simp: sorted_wrt_iff_nth_less distinct_conv_nth order.order_iff_strict)
  have len: "length (filter (\<lambda>y. f x < f y) xs) = length (filter (\<lambda>y. f x < f y) ?ys)"
    by (metis mset_filter mset_sort_desc size_mset)
  from assms(2) obtain i where i: "i < length ?ys" "?ys ! i = x"
    by (metis in_set_conv_nth set_sort_desc)
  have "x \<in> set (drop k ?ys) \<longleftrightarrow> k \<le> i"
  proof
    assume "x \<in> set (drop k ?ys)"
    then obtain j where "j < length ?ys - k" "?ys ! (k + j) = x" by (auto simp: in_set_conv_nth)
    then have "k + j < length ?ys" "?ys ! (k + j) = x" by simp_all
    with i \<open>distinct (map f ?ys)\<close> have "k + j = i"
      by (metis distinct_map nth_eq_iff_index_eq)
    then show "k \<le> i" by simp
  next
    assume "k \<le> i"
    with i show "x \<in> set (drop k ?ys)" by (auto simp: in_set_conv_nth intro!: exI [of _ "i - k"])
  qed
  with larger_before [OF s i(1)] i(2) len show ?thesis by simp
qed

lemma to_delete_iff:
  assumes "distinct (map me_key (entries m))"
  shows "e \<in> set (to_delete k m) \<longleftrightarrow> e \<in> set (entries m) \<and> k \<le> length (newer_versions (entries m) e)"
proof (cases "e \<in> set (entries m)")
  case False
  then show ?thesis by (auto simp: to_delete_def dest!: in_set_dropD)
next
  case True
  let ?own = "\<lambda>p. filter (\<lambda>x. me_provider x = p) (entries m)"
  have "distinct (map me_version (?own p))" for p
    using assms by (induction "entries m" arbitrary: m rule: rev_induct) (auto simp: me_key_def distinct_map inj_on_def)
  moreover have "e \<in> set (to_delete k m) \<longleftrightarrow> e \<in> set (drop k (sort_desc me_version (?own (me_provider e))))"
  proof -
    have "e \<in> set (drop k (sort_desc me_version (?own p))) \<Longrightarrow> p = me_provider e" for p
      by (auto dest!: in_set_dropD)
    with True show ?thesis by (auto simp: to_delete_def providers_of_def)
  qed
  ultimately show ?thesis
    using True dropped_iff [of me_version "?own (me_provider e)" e k]
    by (simp add: newer_versions_def conj_commute)
qed

lemma gc_entries_removes:
  assumes "\<And>d. \<not> rmdir_fault t d"
  shows "gc_entries t root es (m, s) = (m', s') \<Longrightarrow>
    m' = m\<lparr>entries := filter (\<lambda>e. me_key e \<notin> me_key ` set es) (entries m)\<rparr>"
proof (induction es arbitrary: m s)
  case (Cons e es)
  from Cons.prems obtain s1 where "gc_entries t root es (snd (manifest_remove (me_provider e) (me_version e) m), s1) = (m', s')"
    by (auto simp: remove_dir_all_def assms Let_def split: if_splits)
  from Cons.IH [OF this] show ?case
    by (auto simp: manifest_remove_def Let_def me_key_def intro!: filter_cong)
qed simp

text \<open>After a \<open>schema gc\<close> that may delete, the manifest has exactly the entries for which fewer than
  \<open>keep\<close> versions of the same provider are larger as text, in their order.\<close>

theorem gc_keeps_largest_versions:
  assumes "tools_ok t" "\<And>d. \<not> rmdir_fault t d"
    and "manifest_load t (manifest_path root) s = Inr m" "manifest_true t root s m"
    and "schema_gc t (Some root) keep False s = (Inr (), s')"
  shows "manifest_load t (manifest_path root) s' =
    Inr (m\<lparr>entries := filter (\<lambda>e. length (newer_versions (entries m) e) < keep) (entries m)\<rparr>)"
proof -
  have keys: "distinct (map me_key (entries m))" using assms(4) by (simp add: manifest_true_def)
  then have del: "me_key e \<in> me_key ` set (to_delete keep m) \<longleftrightarrow> keep \<le> length (newer_versions (entries m) e)"
    if "e \<in> set (entries m)" for e
    using that keys to_delete_iff [OF keys, of _ keep]
      inj_on_image_mem_iff [of me_key "set (entries m)" e "set (to_delete keep m)"]
    by (simp add: distinct_map subset_iff)
  then have kept: "m\<lparr>entries := filter (\<lambda>e. me_key e \<notin> me_key ` set (to_delete keep m)) (entries m)\<rparr>
      = m\<lparr>entries := filter (\<lambda>e. length (newer_versions (entries m) e) < keep) (entries m)\<rparr>"
    by (simp add: not_le cong: filter_cong)
  show ?thesis
  proof (cases "entries m = [] \<or> to_delete keep m = []")
    case True
    with assms(3,5) have "s' = s" by (auto simp: schema_gc_def resolve_cache_root_def)
    moreover have "filter (\<lambda>e. me_key e \<notin> me_key ` set (to_delete keep m)) (entries m) = entries m"
      using True by auto
    ultimately show ?thesis using assms(3) kept by simp
  next
    case False
    obtain m' s1 where gc: "gc_entries t root (to_delete keep m) (m, s) = (m', s1)" by force
    with assms(3,5) False have save: "manifest_save t (manifest_path root) m' s1 = (Inr (), s')"
      by (auto simp: schema_gc_def resolve_cache_root_def map_errA_def split: prod.splits sum.splits)
    from manifest_save_load(1) [OF assms(1) save] gc_entries_removes [OF assms(2) gc] kept show ?thesis by simp
  qed
qed

section \<open>The cache of parsed schemas is transparent\<close>

fun cache_loads ::
  "'w tools \<Rightarrow> fs \<Rightarrow> (string \<times> string) list \<Rightarrow> runtime_schema_cache \<Rightarrow> (schema_error + provider_schema) list"
where
  "cache_loads t s [] c = []"
| "cache_loads t s ((p, v) # ks) c = (case cache_load t s p v c of (r, c') \<Rightarrow> r # cache_loads t s ks c')"

definition cold_load :: "'w tools \<Rightarrow> fs \<Rightarrow> path \<Rightarrow> string \<times> string \<Rightarrow> schema_error + provider_schema" where
  "cold_load t s root k = fst (cache_load t s (fst k) (snd k) (runtime_cache_new root))"

definition coherent :: "'w tools \<Rightarrow> fs \<Rightarrow> runtime_schema_cache \<Rightarrow> bool" where
  "coherent t s c \<longleftrightarrow> (\<forall>k hit. parsed c k = Some hit \<longrightarrow> cold_load t s (cache_root c) k = Inr hit)"

lemma cache_load_eq:
  "cache_load t s p v c = (case parsed c (p, v) of
     Some hit \<Rightarrow> (Inr hit, c)
   | None \<Rightarrow> (case cold_load t s (cache_root c) (p, v) of
               Inl e \<Rightarrow> (Inl e, c)
             | Inr schema \<Rightarrow> (Inr schema, c\<lparr>parsed := (parsed c)((p, v) \<mapsto> schema)\<rparr>)))"
  by (simp add: cache_load_def cold_load_def runtime_cache_new_def Let_def split: option.split)

lemma cache_load_coherent:
  assumes "coherent t s c" "cache_load t s p v c = (r, c')"
  shows "r = cold_load t s (cache_root c) (p, v)" "coherent t s c'" "cache_root c' = cache_root c"
  using assms by (auto simp: cache_load_eq coherent_def split: option.splits sum.splits if_splits)

lemma cache_loads_coherent: "coherent t s c \<Longrightarrow> cache_loads t s ks c = map (cold_load t s (cache_root c)) ks"
proof (induction ks arbitrary: c)
  case (Cons k ks)
  obtain p v where k: "k = (p, v)" by (cases k)
  obtain r c' where load: "cache_load t s p v c = (r, c')" by force
  from cache_load_coherent [OF Cons.prems load] Cons.IH k load show ?case by simp
qed simp

text \<open>C36. While the disk does not change, the cache is transparent: any sequence of loads through one cache gives
  what reading and parsing each file afresh gives.\<close>

theorem schema_cache_transparent:
  "cache_loads t s ks (runtime_cache_new root) = map (cold_load t s root) ks"
  using cache_loads_coherent [of t s "runtime_cache_new root" ks] by (simp add: coherent_def runtime_cache_new_def)

section \<open>An aborted update\<close>

lemma verify_entries_drift:
  assumes "\<And>p. \<not> read_fault t p" "plain_name p" "plain_name v"
    and "files s (schema_file root p v) = Some bytes"
  shows "distinct (map me_key es) \<Longrightarrow>
    (\<And>x. x \<in> set es \<Longrightarrow> me_key x \<noteq> (p, v) \<Longrightarrow> entry_true t root s x) \<Longrightarrow>
    (\<And>x. x \<in> set es \<Longrightarrow> me_key x = (p, v) \<Longrightarrow>
       me_schema_path x = p @ CHR ''/'' # v @ ''/schema.json'' \<and> me_sha256 x \<noteq> sha_hex t bytes) \<Longrightarrow>
    verify_entries t root s es d n = ((if (p, v) \<in> me_key ` set es then Suc d else d), n)"
proof (induction es arbitrary: d)
  case (Cons e es)
  then have IH: "verify_entries t root s es d n = ((if (p, v) \<in> me_key ` set es then Suc d else d), n)" for d by auto
  show ?case
  proof (cases "me_key e = (p, v)")
    case True
    with Cons.prems(1) have "(p, v) \<notin> me_key ` set es" by auto
    with True Cons.prems(3) [of e] assms IH [of "Suc d"] show ?thesis by (auto simp: Let_def join_schema_path)
  next
    case False
    with Cons.prems(2) [of e] assms(1) IH show ?thesis by (auto simp: Let_def join_schema_path entry_true_def)
  qed
qed simp

lemma manifest_load_same:
  "manifest_load t p s = Inr m \<Longrightarrow> entries m \<noteq> [] \<Longrightarrow> files s' p = files s p \<Longrightarrow> manifest_load t p s' = Inr m"
  by (auto simp: manifest_load_def manifest_empty_def path_exists_def read_to_string_def split: if_splits option.splits)

lemma capture_one_audit_failure:
  assumes ok: "tools_ok t" and plain: "plain_name p" "plain_name v"
    and run: "capture_one t root signer run_id (ns, p, v) m s = (Inl (Cli_audit e), s')"
  shows "\<exists>w w' schema json. cli_fetch (tf_host t) fetcher_new ns p v w = (Inr schema, w') \<and> schema_to_json t schema = Some json
    \<and> files (cli_disk s') = (files (cli_disk s))(schema_file root p v \<mapsto> json)"
proof -
  obtain f w where fetch: "cli_fetch (tf_host t) fetcher_new ns p v (cli_world s) = (f, w)" by force
  with run obtain schema json where f: "f = Inr schema" and json: "schema_to_json t schema = Some json"
    by (cases f) (auto simp: capture_one_def split: option.splits)
  obtain d where d: "store_capture t root p v json (cli_disk s) = (Inr (), d)"
    and files: "files d = (files (cli_disk s))(schema_file root p v \<mapsto> json)"
    using store_capture_effect [OF ok plain, of root json "cli_disk s"] by blast
  from run fetch f json d have "cli_disk s' = d"
    by (auto simp: capture_one_def on_cli_disk_def bindA_def retA_def audit_capture_def Let_def
        split: prod.splits sum.splits)
  with files fetch f json show ?thesis by blast
qed

lemma update_audit_failure:
  assumes ok: "tools_ok t" and plain: "plain_name p" "plain_name v"
    and args: "up_cache args = Some root" "\<not> up_all args" "up_provider args = Some p" "up_version args = Some v"
    and m: "manifest_load t (manifest_path root) (cli_disk s) = Inr m"
    and run: "schema_update t args s = (Inl (Cli_audit e), s')"
  shows "\<exists>w w' schema json. cli_fetch (tf_host t) fetcher_new (up_namespace args) p v w = (Inr schema, w') \<and> schema_to_json t schema = Some json
    \<and> files (cli_disk s') = (files (cli_disk s))(schema_file root p v \<mapsto> json)"
proof -
  have root: "resolve_cache_root t (up_cache args) = Inr root" "\<not> mkdir_fault (tool_io t) root"
    using ok args by (simp_all add: resolve_cache_root_def tools_ok_def no_disk_faults_def)
  obtain a w where check: "fetcher_check_available (tf_host t) fetcher_new (cli_world s) = (a, w)" by force
  have tg: "capture_targets args m = Inr [(up_namespace args, p, v)]"
    using args by (simp add: capture_targets_def)
  from run root m check have a: "\<exists>u. a = Inr u" by (cases a) (auto simp: schema_update_def Let_def)
  have opens: "audit_opens t"
    using run root m check a tg by (auto simp: schema_update_def Let_def with_audit_store_def split: if_splits)
  obtain run_id w' where id: "fresh_uuid t w = (run_id, w')" by force
  let ?signer = "new_signer t w"
  let ?s1 = "s\<lparr>cli_disk := create_dir_all root (cli_disk s), cli_world := w', cli_audit :=
      register_run run_id (verify_key_bytes (crypto_of t) ?signer) (reopen (cli_audit s))\<rparr>"
  have s1: "files (cli_disk ?s1) = files (cli_disk s)" by (simp add: create_dir_all_def)
  have body: "bindA (capture_all t root ?signer run_id [(up_namespace args, p, v)] m 0) (\<lambda>(m', failed).
        bindA (save_to t root m') (\<lambda>_. if 0 < failed then throwA (Captures_failed failed) else retA ())) ?s1
      = (Inl (Cli_audit e), s')"
    using run root m check a tg opens id
    by (auto simp: schema_update_def Let_def with_audit_store_def)
  have saves: "\<And>k st. save_to t root m' st \<noteq> (Inl (Cli_audit e), k)" for m'
    by (auto simp: save_to_def on_cli_disk_def map_errA_def split: prod.splits sum.splits)
  have "capture_one t root ?signer run_id (up_namespace args, p, v) m ?s1 = (Inl (Cli_audit e), s')"
    using body saves by (auto simp: bindA_eq_Inl split: option.splits if_splits)
  from capture_one_audit_failure [OF ok plain this] s1 show ?thesis by simp
qed

text \<open>When the audit entry of a capture cannot be appended, \<open>schema update\<close> stops after it has overwritten the
  schema file and before it saves the manifest: if the new schema differs, the next \<open>schema verify\<close>
  reports the cache as drifted.\<close>

theorem aborted_update_drifts:
  assumes "tools_ok t" "plain_name p" "plain_name v"
    and "up_cache args = Some root" "\<not> up_all args" "up_provider args = Some p" "up_version args = Some v"
    and "manifest_load t (manifest_path root) (cli_disk s) = Inr m" "manifest_true t root (cli_disk s) m"
    and "manifest_find m p v = Some entry"
    and "\<And>w w' schema json. cli_fetch (tf_host t) fetcher_new (up_namespace args) p v w = (Inr schema, w') \<Longrightarrow>
           schema_to_json t schema = Some json \<Longrightarrow> sha_hex t json \<noteq> me_sha256 entry"
    and "schema_update t args s = (Inl (Cli_audit e), s')"
  shows "schema_verify t (Some root) (cli_disk s') = Inl (Verification_failed 1 0)"
proof -
  obtain json where sha: "sha_hex t json \<noteq> me_sha256 entry"
    and files: "files (cli_disk s') = (files (cli_disk s))(schema_file root p v \<mapsto> json)"
    using update_audit_failure [OF assms(1-8,12)] assms(11) by blast
  from assms(10) have entry: "entry \<in> set (entries m)" "me_key entry = (p, v)"
    by (auto simp: manifest_find_def find_Some_iff me_key_def)
  have keys: "distinct (map me_key (entries m))" using assms(9) by (simp add: manifest_true_def)
  have "verify_entries t root (cli_disk s') (entries m) 0 0 =
      ((if (p, v) \<in> me_key ` set (entries m) then Suc 0 else 0), 0)"
  proof (rule verify_entries_drift [OF _ assms(2,3)])
    show "files (cli_disk s') (schema_file root p v) = Some json" using files by simp
    fix x assume x: "x \<in> set (entries m)"
    with assms(9) have t: "entry_true t root (cli_disk s) x" by (auto simp: manifest_true_def list_all_iff)
    { assume "me_key x \<noteq> (p, v)"
      then show "entry_true t root (cli_disk s') x"
        using t files by (auto intro!: entry_true_frame [OF t] simp: schema_file_def me_key_def prefix_def) }
    { assume k: "me_key x = (p, v)"
      with x entry keys have "x = entry" by (metis distinct_map inj_onD)
      with t k sha show "me_schema_path x = p @ CHR ''/'' # v @ ''/schema.json'' \<and> me_sha256 x \<noteq> sha_hex t json"
        by (simp add: entry_true_def me_key_def) }
  qed (use keys assms(1) in \<open>auto simp: tools_ok_def\<close>)
  moreover have "manifest_load t (manifest_path root) (cli_disk s') = Inr m"
    by (rule manifest_load_same [OF assms(8)]) (use entry files in \<open>auto simp: schema_file_def manifest_path_def\<close>)
  ultimately show ?thesis
    using image_eqI [where f = me_key, OF entry(2) [symmetric] entry(1)] by (auto simp: schema_verify_def resolve_cache_root_def)
qed

section \<open>Witnesses\<close>

definition wit_row :: "string \<Rightarrow> manifest_entry" where
  "wit_row v = \<lparr>me_provider = ''aws'', me_source = ''hashicorp/aws'', me_version = v, me_version_constraint = ''= '' @ v,
     me_captured_at = 0, me_captured_by = ''schema_update_command'', me_terraform_version = ''1.7.5'',
     me_sha256 = hex_lower ''old'', me_size_bytes = 3, me_schema_path = ''aws/'' @ v @ ''/schema.json''\<rparr>"

definition wit_new :: manifest_entry where
  "wit_new = (wit_row ''1'')\<lparr>me_sha256 := hex_lower ''new''\<rparr>"

definition wit_two :: manifest where
  "wit_two = manifest_empty\<lparr>entries := [wit_row ''5.9.0'', wit_row ''5.10.0'']\<rparr>"

text \<open>A digest that is the text itself, and an encoding of the manifests the witnesses meet.\<close>

definition wit_manifests :: "(string \<times> manifest) list" where
  "wit_manifests = [(''0'', manifest_empty), (''1'', manifest_empty\<lparr>entries := [wit_new]\<rparr>), (''2'', wit_two),
     (''3'', wit_two\<lparr>entries := [wit_row ''5.9.0'']\<rparr>)]"

definition wit_tools :: "nat tools" where
  "wit_tools = \<lparr>manifest_of_json = map_of wit_manifests,
     manifest_to_json = map_of (map (\<lambda>(a, b). (b, a)) wit_manifests),
     schema_of_json = (\<lambda>_. None), schema_to_json = (\<lambda>_. Some ''new''), sha_digest = (\<lambda>s. s),
     tool_io = \<lparr>mkdir_fault = (\<lambda>_. False), rename_fault = (\<lambda>_ _. None), copy_fault = (\<lambda>_ _. None),
       remove_fault = (\<lambda>_. False), write_fault = (\<lambda>_. None), new_op_uuid = (\<lambda>_. []),
       show_uuid = (\<lambda>_. [])\<rparr>,
     read_fault = (\<lambda>_. False), rmdir_fault = (\<lambda>_. False), home = None, tf_host = wit_host,
     terraform_version_output = (\<lambda>_. Some (True, ''Terraform v1.7.5'')), user_env = (\<lambda>_. None),
     fresh_uuid = (\<lambda>n. (of_nat n, n + 1)), now_of = (\<lambda>_. 0), millis_between = (\<lambda>_ _. 0),
     new_signer = (\<lambda>_. wit_signer), crypto_of = wit_crypto, unicode_word = (\<lambda>_. False), audit_opens = True\<rparr>"

definition wit_args :: "string \<Rightarrow> update_args" where
  "wit_args v = \<lparr>up_provider = Some ''aws'', up_version = Some v, up_namespace = ''hashicorp'', up_all = False,
     up_cache = Some [''c'']\<rparr>"

definition wit_disk :: fs where
  "wit_disk = \<lparr>files = [[''c'', ''manifest.json''] \<mapsto> ''2'', [''c'', ''aws'', ''5.9.0'', ''schema.json''] \<mapsto> ''old'',
       [''c'', ''aws'', ''5.10.0'', ''schema.json''] \<mapsto> ''old''],
     dirs = (\<lambda>d. d \<in> {[''c''], [''c'', ''aws''], [''c'', ''aws'', ''5.9.0''], [''c'', ''aws'', ''5.10.0'']})\<rparr>"

lemma wit_manifests_differ: "wit_row ''5.9.0'' \<noteq> wit_new" "wit_new \<noteq> wit_row ''5.9.0''"
  by (simp_all add: wit_new_def wit_row_def)

lemma wit_utf8 [simp]: "valid_utf8 ''0''" "valid_utf8 ''1''" "valid_utf8 ''2''" "valid_utf8 ''3''"
  by (simp_all add: valid_utf8.simps utf8_unit_def in_range_def)

lemma wit_tools_ok: "tools_ok wit_tools"
proof -
  have "manifest_to_json wit_tools m = Some j \<Longrightarrow> manifest_of_json wit_tools j = Some m \<and> valid_utf8 j" for m j
    by (auto simp: wit_tools_def wit_manifests_def split: if_splits)
  then show ?thesis by (simp add: tools_ok_def wit_tools_def no_disk_faults_def)
qed

lemma wit_disk_load: "manifest_load wit_tools (manifest_path [''c'']) wit_disk = Inr wit_two"
  by (simp add: manifest_load_def manifest_path_def path_exists_def wit_disk_def wit_tools_def wit_manifests_def
      read_to_string_def)

lemma wit_disk_true: "manifest_true wit_tools [''c''] wit_disk wit_two"
  by (simp add: manifest_true_def wit_two_def wit_row_def wit_disk_def me_key_def entry_true_def plain_name_def
      schema_file_def sha_hex_def wit_tools_def)

theorem gc_keeps_largest_versions_witness:
  "\<exists>s'. schema_gc wit_tools (Some [''c'']) 1 False wit_disk = (Inr (), s')
     \<and> manifest_load wit_tools (manifest_path [''c'']) s' = Inr (wit_two\<lparr>entries := [wit_row ''5.9.0'']\<rparr>)"
proof -
  have "fst (schema_gc wit_tools (Some [''c'']) 1 False wit_disk) = Inr ()"
  proof -
    obtain m' s1 where gc: "gc_entries wit_tools [''c''] [wit_row ''5.10.0''] (wit_two, wit_disk) = (m', s1)" by force
    have "m' = wit_two\<lparr>entries := [wit_row ''5.9.0'']\<rparr>"
      using gc_entries_removes [OF _ gc] by (simp add: wit_tools_def wit_two_def wit_row_def me_key_def)
    then have "manifest_to_json wit_tools m' = Some ''3''"
      by (simp add: wit_tools_def wit_manifests_def wit_two_def manifest_empty_def wit_manifests_differ)
    then have "fst (manifest_save wit_tools (manifest_path [''c'']) m' s1) = Inr ()"
      by (rule manifest_save_ok [OF wit_tools_ok])
    moreover have "to_delete 1 wit_two = [wit_row ''5.10.0'']" "entries wit_two \<noteq> []" by code_simp+
    ultimately show ?thesis
      using gc by (auto simp: schema_gc_def resolve_cache_root_def wit_disk_load map_errA_def
          simp del: gc_entries.simps split: prod.splits sum.splits)
  qed
  then obtain s' where gc: "schema_gc wit_tools (Some [''c'']) 1 False wit_disk = (Inr (), s')" by (metis prod.collapse)
  from gc_keeps_largest_versions [OF wit_tools_ok _ wit_disk_load wit_disk_true gc]
  have "manifest_load wit_tools (manifest_path [''c'']) s' = Inr (wit_two\<lparr>entries := [wit_row ''5.9.0'']\<rparr>)"
    by (simp add: wit_tools_def wit_two_def newer_versions_def wit_row_def less_list_code)
  with gc show ?thesis by blast
qed

definition wit_cli :: "nat cli" where
  "wit_cli = \<lparr>cli_disk = \<lparr>files = Map.empty, dirs = (\<lambda>_. False)\<rparr>, cli_audit = in_memory, cli_world = 1\<rparr>"

lemma wit_tools_fields [simp]:
  "tool_io wit_tools = \<lparr>mkdir_fault = (\<lambda>_. False), rename_fault = (\<lambda>_ _. None), copy_fault = (\<lambda>_ _. None),
       remove_fault = (\<lambda>_. False), write_fault = (\<lambda>_. None), new_op_uuid = (\<lambda>_. []), show_uuid = (\<lambda>_. [])\<rparr>"
  "tf_host wit_tools = wit_host"
  "schema_to_json wit_tools x = Some ''new''" "sha_hex wit_tools y = hex_lower y"
  "fresh_uuid wit_tools n = (of_nat n, n + 1)" "now_of wit_tools n = 0" "millis_between wit_tools a b = 0"
  "new_signer wit_tools n = wit_signer" "crypto_of wit_tools = wit_crypto" "unicode_word wit_tools = (\<lambda>_. False)"
  "audit_opens wit_tools" "whoami_or_unknown wit_tools = ''unknown''"
  by (simp_all add: wit_tools_def sha_hex_def whoami_or_unknown_def)

lemma wit_available [simp]: "fetcher_check_available wit_host fetcher_new n = (Inr [], n)"
  by (simp add: fetcher_check_available_def wit_host_def fetcher_new_def utf8_lossy.simps)

lemma wit_fetched: "\<exists>x. cli_fetch wit_host fetcher_new ''hashicorp'' ''aws'' v n = (Inr x, n)"
  by (simp add: cli_fetch_def in_tempdir_def wit_host_def map_errA_def bindA_def run_tool_def convert_output_def
      provider_key_def Let_def)

lemma wit_tf_version [simp]: "tf_version wit_tools n = ''1.7.5''"
proof -
  have "str_trim ''1.7.5'' = ''1.7.5''" "utf8_lossy ''Terraform v1.7.5'' = ''Terraform v1.7.5''" by code_simp+
  then show ?thesis
    by (simp add: tf_version_def detect_terraform_version_def wit_tools_def first_line_def strip_prefix_def
        strip_suffix_def starts_with_def)
qed

definition wit_audit_entry :: "string \<Rightarrow> audit_entry" where
  "wit_audit_entry v = audit_entry_new 2 0 1 (Actor_User ''unknown'') ''schema.capture'' Outcome_Ok
     (SchemaCapture ''aws'' ''hashicorp/aws'' (''= '' @ v) v ''1.7.5'' UserCommand (hex_lower ''new'') 0)"

lemma wit_capture_scrub:
  "scrub_or_panic (\<lambda>_. False) (wit_audit_entry ''1'') = None" "scrub_or_panic (\<lambda>_. False) (wit_audit_entry ''5.9.0'') = None"
proof -
  have "hex_lower ''new'' = ''6e6577''" by code_simp
  then show "scrub_or_panic (\<lambda>_. False) (wit_audit_entry ''1'') = None"
      "scrub_or_panic (\<lambda>_. False) (wit_audit_entry ''5.9.0'') = None"
    by (simp_all add: wit_audit_entry_def scrub_or_panic_def checked_fields_def audit_entry_new_def scan_def
        patterns_def fixed_at_def private_key_at_def starts_with_def high_entropy_def)
qed

lemma wit_append:
  "scrub_or_panic (\<lambda>_. False) (wit_audit_entry v) = None \<Longrightarrow>
   \<exists>q st'. audit_append wit_crypto (\<lambda>_. False) wit_signer (wit_audit_entry v) st = (q, st')
     \<and> (if 2 \<in> (ae_id \<circ> fst) ` set (audit_rows st) then q = Inl (Failed Storage) else \<exists>e'. q = Inr e')"
  by (force simp: audit_append_def Let_def link_entry_def insert_row_def sign_def wit_audit_entry_def audit_entry_new_def
      image_iff)

lemma wit_captured: "captured_entry wit_tools ''hashicorp'' ''aws'' ''1'' ''new'' n = wit_new"
  by (simp add: captured_entry_def wit_new_def wit_row_def)

lemma wit_save: "fst (manifest_save wit_tools (manifest_path root) (manifest_upsert wit_new manifest_empty) s) = Inr ()"
  by (rule manifest_save_ok [OF wit_tools_ok, of _ "''1''"])
    (simp add: manifest_upsert_def put_entry_def wit_tools_def wit_manifests_def manifest_empty_def)

lemma wit_capture:
  assumes "cli_world s = 2" "plain_name v" "scrub_or_panic (\<lambda>_. False) (wit_audit_entry v) = None"
  shows "\<exists>q s'. capture_one wit_tools [''c''] wit_signer 1 (''hashicorp'', ''aws'', v) m s = (q, s')
    \<and> q = (if 2 \<in> (ae_id \<circ> fst) ` set (audit_rows (cli_audit s)) then Inl (Cli_audit (Failed Storage))
         else Inr (Some (manifest_upsert (captured_entry wit_tools ''hashicorp'' ''aws'' v ''new'' 2) m)))"
proof -
  have plain: "plain_name ''aws''" by (simp add: plain_name_def)
  obtain d where d: "store_capture wit_tools [''c''] ''aws'' v ''new'' (cli_disk s) = (Inr (), d)"
    using store_capture_effect [OF wit_tools_ok plain assms(2), of "[''c'']" "''new''" "cli_disk s"] by blast
  obtain x where fetched: "cli_fetch wit_host fetcher_new ''hashicorp'' ''aws'' v 2 = (Inr x, 2)"
    using wit_fetched by blast
  from wit_append [OF assms(3)] obtain q st'
    where "audit_append wit_crypto (\<lambda>_. False) wit_signer (wit_audit_entry v) (cli_audit s) = (q, st')"
      and "if 2 \<in> (ae_id \<circ> fst) ` set (audit_rows (cli_audit s)) then q = Inl (Failed Storage) else \<exists>e'. q = Inr e'"
    by metis
  with d fetched show ?thesis
    using assms(1) by (auto simp: capture_one_def on_cli_disk_def bindA_def retA_def audit_capture_def
      Let_def millis32_def wit_audit_entry_def split: if_splits)
qed


theorem aborted_update_drifts_witness:
  "\<exists>s s'. schema_update wit_tools (wit_args ''5.9.0'') s = (Inl (Cli_audit (Failed Storage)), s')
     \<and> schema_verify wit_tools (Some [''c'']) (cli_disk s) = Inr ()
     \<and> schema_verify wit_tools (Some [''c'']) (cli_disk s') = Inl (Verification_failed 1 0)"
proof -
  let ?start = "wit_cli\<lparr>cli_disk := wit_disk, cli_audit := in_memory\<lparr>audit_rows := [(wit_entry 2, 1)]\<rparr>\<rparr>"
  let ?s = "wit_cli\<lparr>cli_disk := create_dir_all [''c''] wit_disk, cli_world := 2,
      cli_audit := register_run 1 (verify_key_bytes wit_crypto wit_signer) (reopen (cli_audit ?start))\<rparr>"
  have "2 \<in> (ae_id \<circ> fst) ` set (audit_rows (cli_audit ?s))"
    by (simp add: register_run_def reopen_def open_store_def)
  then obtain s1 where one: "capture_one wit_tools [''c''] wit_signer 1 (''hashicorp'', ''aws'', ''5.9.0'') wit_two ?s
        = (Inl (Cli_audit (Failed Storage)), s1)"
    using wit_capture [of ?s "''5.9.0''" wit_two] wit_capture_scrub by (auto simp: plain_name_def)
  have update: "schema_update wit_tools (wit_args ''5.9.0'') ?start = (Inl (Cli_audit (Failed Storage)), s1)"
    using one wit_disk_load
    by (simp add: schema_update_def resolve_cache_root_def wit_args_def wit_cli_def Let_def with_audit_store_def
        capture_targets_def bindA_def retA_def numeral_2_eq_2)
  have "hex_lower ''new'' \<noteq> hex_lower ''old''" by code_simp
  then have "schema_verify wit_tools (Some [''c'']) (cli_disk s1) = Inl (Verification_failed 1 0)"
    by (intro aborted_update_drifts [where p = "''aws''" and v = "''5.9.0''" and root = "[''c'']" and m = wit_two
          and entry = "wit_row ''5.9.0''", OF wit_tools_ok _ _ _ _ _ _ _ _ _ _ update])
      (use wit_disk_true in \<open>auto simp: plain_name_def wit_args_def wit_disk_load manifest_find_def wit_two_def wit_row_def\<close>)
  moreover have "schema_verify wit_tools (Some [''c'']) wit_disk = Inr ()"
  proof -
    have "verify_entries wit_tools [''c''] wit_disk (entries wit_two) 0 0 = (0, 0)"
      using wit_disk_true wit_tools_ok by (intro verify_entries_true) (auto simp: manifest_true_def tools_ok_def)
    then show ?thesis by (simp add: schema_verify_def resolve_cache_root_def wit_disk_load)
  qed
  ultimately show ?thesis using update by (intro exI [of _ ?start] exI [of _ s1]) simp
qed

end

