(* ===== verification/Creds.thy ===== *)
theory Creds
  imports Audit_Store
begin

text \<open>
  \<open>libs/creds/src\<close>: the credential broker contract with its in-memory implementation, the substitution of
  \<open>{{secret:NAME}}\<close> references and its reverse, the outbound scrubber and the federated stub. The clock and
  the random ids come from the environment; the audit store is the model of \<open>libs/audit\<close>. The lemmas show
  what a substitution puts where, what it leaves in the audit log, and when the reverse restores the text.
\<close>

section \<open>Brokers\<close>

datatype creds_error =
    UnknownReference string
  | MalformedReference string
  | SecretsDetected (detected_pattern: string) (detected_path: string)
  | NotImplementedYet string string
  | Creds_Audit append_failure
  | ResolutionError string string

record credential =
  cred_value :: string
  cred_method :: string
  cred_expires_at :: int

definition credential_new :: "string \<Rightarrow> string \<Rightarrow> int \<Rightarrow> credential" where
  "credential_new value method expires = \<lparr>cred_value = value, cred_method = method, cred_expires_at = expires\<rparr>"

definition expose :: "credential \<Rightarrow> string" where
  "expose c = cred_value c"

definition byte_len :: "credential \<Rightarrow> nat" where
  "byte_len c = length (cred_value c)"

text \<open>An hour and a minute in nanoseconds.\<close>

definition minutes :: "int \<Rightarrow> int" where
  "minutes n = n * 60 * 1000000000"

record 'w cred_env =
  ce_uuid :: "'w \<Rightarrow> uuid \<times> 'w"
  ce_now :: "'w \<Rightarrow> int"
  ce_crypto :: crypto
  ce_unicode :: "string \<Rightarrow> bool"

record 'w cred_state =
  cs_audit :: audit_store
  cs_world :: 'w

record audit_config =
  ac_run_id :: uuid
  ac_signer :: session_signer

record stub_broker =
  sb_canned :: "string \<rightharpoonup> string"
  sb_audit :: "audit_config option"

definition stub_broker_new :: stub_broker where
  "stub_broker_new = \<lparr>sb_canned = Map.empty, sb_audit = None\<rparr>"

definition with_secret :: "string \<Rightarrow> string \<Rightarrow> stub_broker \<Rightarrow> stub_broker" where
  "with_secret name value b = b\<lparr>sb_canned := (sb_canned b)(name \<mapsto> value)\<rparr>"

definition with_audit :: "uuid \<Rightarrow> session_signer \<Rightarrow> stub_broker \<Rightarrow> stub_broker" where
  "with_audit run_id signer b = b\<lparr>sb_audit := Some \<lparr>ac_run_id = run_id, ac_signer = signer\<rparr>\<rparr>"

definition resolution_entry :: "uuid \<Rightarrow> int \<Rightarrow> uuid \<Rightarrow> string \<Rightarrow> string \<Rightarrow> audit_entry" where
  "resolution_entry new_id now run_id cred_ref method =
     audit_entry_new new_id now run_id Actor_System ''creds.resolve'' Outcome_Ok
       (CredentialResolution cred_ref method (now + minutes 60))"

text \<open>\<open>audit_fetch\<close>; a scrubber panic ends the call like an error.\<close>

definition audit_fetch ::
  "'w cred_env \<Rightarrow> stub_broker \<Rightarrow> string \<Rightarrow> string \<Rightarrow> ('w cred_state, creds_error, unit) act"
where
  "audit_fetch env b cred_ref method s =
     (case sb_audit b of
        None \<Rightarrow> (Inr (), s)
      | Some cfg \<Rightarrow>
          (case ce_uuid env (cs_world s) of
             (i, w) \<Rightarrow>
               (case audit_append (ce_crypto env) (ce_unicode env) (ac_signer cfg)
                       (resolution_entry i (ce_now env w) (ac_run_id cfg) cred_ref method) (cs_audit s) of
                  (Inl e, st) \<Rightarrow> (Inl (Creds_Audit e), s\<lparr>cs_audit := st, cs_world := w\<rparr>)
                | (Inr _, st) \<Rightarrow> (Inr (), s\<lparr>cs_audit := st, cs_world := w\<rparr>))))"

definition reference :: "string \<Rightarrow> string" where
  "reference name = ''{{secret:'' @ name @ ''}}''"

definition stub_resolve ::
  "'w cred_env \<Rightarrow> stub_broker \<Rightarrow> string \<Rightarrow> ('w cred_state, creds_error, credential) act"
where
  "stub_resolve env b name =
     (case sb_canned b name of
        None \<Rightarrow> throwA (UnknownReference name)
      | Some value \<Rightarrow>
          bindA (audit_fetch env b (reference name) ''stub'') (\<lambda>_ s.
            (Inr (credential_new value ''stub'' (ce_now env (cs_world s) + minutes 60)), s)))"

text \<open>\<open>fetch_aws\<close>, \<open>fetch_gcp\<close> and \<open>fetch_azure\<close> of the stub are its \<open>resolve\<close>; the cloud brokers refuse.\<close>

datatype cloud = Aws | Gcp | Azure

datatype request = Resolve string | Fetch cloud string

fun aws_broker_call :: "request \<Rightarrow> ('w, creds_error, credential) act" where
  "aws_broker_call (Resolve n) = throwA (NotImplementedYet ''aws_resolve_via_sts'' ''S5'')"
| "aws_broker_call (Fetch Aws n) = throwA (NotImplementedYet ''aws_sts_assume_role'' ''S5'')"
| "aws_broker_call (Fetch Gcp n) = throwA (NotImplementedYet ''aws_broker_called_for_gcp'' ''S5'')"
| "aws_broker_call (Fetch Azure n) = throwA (NotImplementedYet ''aws_broker_called_for_azure'' ''S5'')"

fun gcp_broker_call :: "request \<Rightarrow> ('w, creds_error, credential) act" where
  "gcp_broker_call (Resolve n) = throwA (NotImplementedYet ''gcp_resolve_via_adc'' ''S5'')"
| "gcp_broker_call (Fetch Aws n) = throwA (NotImplementedYet ''gcp_broker_called_for_aws'' ''S5'')"
| "gcp_broker_call (Fetch Gcp n) = throwA (NotImplementedYet ''gcp_adc_workload_identity_federation'' ''S5'')"
| "gcp_broker_call (Fetch Azure n) = throwA (NotImplementedYet ''gcp_broker_called_for_azure'' ''S5'')"

fun azure_broker_call :: "request \<Rightarrow> ('w, creds_error, credential) act" where
  "azure_broker_call (Resolve n) = throwA (NotImplementedYet ''azure_resolve_via_managed_identity'' ''S5'')"
| "azure_broker_call (Fetch Aws n) = throwA (NotImplementedYet ''azure_broker_called_for_aws'' ''S5'')"
| "azure_broker_call (Fetch Gcp n) = throwA (NotImplementedYet ''azure_broker_called_for_gcp'' ''S5'')"
| "azure_broker_call (Fetch Azure n) = throwA (NotImplementedYet ''azure_managed_identity'' ''S5'')"

fun stub_broker_call :: "'w cred_env \<Rightarrow> stub_broker \<Rightarrow> request \<Rightarrow> ('w cred_state, creds_error, credential) act" where
  "stub_broker_call env b (Resolve name) = stub_resolve env b name"
| "stub_broker_call env b (Fetch c who) = stub_resolve env b who"

section \<open>Substitution\<close>

text \<open>\<open>str::find\<close> with what comes before and after the match.\<close>

fun find_str :: "string \<Rightarrow> string \<Rightarrow> (string \<times> string) option" where
  "find_str p [] = (if p = [] then Some ([], []) else None)"
| "find_str p (c # cs) =
     (if starts_with p (c # cs) then Some ([], drop (length p) (c # cs))
      else case find_str p cs of Some (a, b) \<Rightarrow> Some (c # a, b) | None \<Rightarrow> None)"

lemma find_str_Some: "find_str p s = Some (a, b) \<Longrightarrow> s = a @ p @ b"
  by (induction p s arbitrary: a rule: find_str.induct) (auto simp: starts_with_iff split: if_splits option.splits)

type_synonym substitution_map = "(string, string) btree"

definition PREFIX :: string where "PREFIX = ''{{secret:''"
definition SUFFIX :: string where "SUFFIX = ''}}''"

definition strict_name :: "string \<Rightarrow> bool" where
  "strict_name name \<longleftrightarrow> name \<noteq> [] \<and> list_all (\<lambda>c. is_ascii_alphanumeric c \<or> c = CHR ''_'' \<or> c = CHR ''-'') name"

text \<open>The loop of \<open>substitute\<close>; \<open>remaining\<close> is the payload from the cursor on.\<close>

function substitute_from ::
  "(string \<Rightarrow> ('w, creds_error, credential) act) \<Rightarrow> string \<Rightarrow> string \<Rightarrow> substitution_map
     \<Rightarrow> ('w, creds_error, string \<times> substitution_map) act"
where
  "substitute_from resolve remaining out m w =
     (case find_str PREFIX remaining of
        None \<Rightarrow> (Inr (out @ remaining, m), w)
      | Some (before, after_prefix) \<Rightarrow>
          (case find_str SUFFIX after_prefix of
             None \<Rightarrow> (Inl (MalformedReference (drop (length before) remaining)), w)
           | Some (name, rest) \<Rightarrow>
               (if \<not> strict_name name then (Inl (MalformedReference (reference name)), w)
                else case resolve name w of
                       (Inl e, w') \<Rightarrow> (Inl e, w')
                     | (Inr credential, w') \<Rightarrow>
                         substitute_from resolve rest (out @ before @ expose credential)
                           (bt_insert (expose credential) (reference name) m) w')))"
  by pat_completeness auto
termination
  by (relation "measure (\<lambda>(resolve, remaining, _). length remaining)") (auto dest!: find_str_Some simp: PREFIX_def)

declare substitute_from.simps [simp del]

definition substitute ::
  "(string \<Rightarrow> ('w, creds_error, credential) act) \<Rightarrow> string \<Rightarrow> ('w, creds_error, string \<times> substitution_map) act"
where
  "substitute resolve payload = substitute_from resolve payload [] []"

text \<open>\<open>str::replace\<close>: an empty pattern matches at every character boundary.\<close>

definition insert_everywhere :: "string \<Rightarrow> string \<Rightarrow> string" where
  "insert_everywhere r s = concat (map (\<lambda>c. if is_continuation_byte c then [c] else r @ [c]) s) @ r"

function replace_each :: "string \<Rightarrow> string \<Rightarrow> string \<Rightarrow> string" where
  "replace_each p r s =
     (if p = [] then insert_everywhere r s
      else case find_str p s of
             None \<Rightarrow> s
           | Some (a, b) \<Rightarrow> a @ r @ replace_each p r b)"
  by pat_completeness auto
termination
  by (relation "measure (\<lambda>(p, r, s). length s)") (auto dest!: find_str_Some)

declare replace_each.simps [simp del]

text \<open>\<open>rebuild\<close>: the values longest first, the map's order between equals.\<close>

definition by_length_desc :: "(string \<times> string) list \<Rightarrow> (string \<times> string) list" where
  "by_length_desc entries = rev (sort_key (\<lambda>e. length (fst e)) (rev entries))"

definition rebuild :: "substitution_map \<Rightarrow> string \<Rightarrow> string" where
  "rebuild m substituted = fold (\<lambda>(value, ref) s. replace_each value ref s) (by_length_desc m) substituted"

section \<open>The outbound scrubber\<close>

definition pre_llm_check :: "(string \<Rightarrow> bool) \<Rightarrow> string \<Rightarrow> string \<Rightarrow> creds_error + unit" where
  "pre_llm_check uw fpath payload =
     (case scan uw fpath payload of
        Some found \<Rightarrow> Inl (SecretsDetected (pattern_name found) (field_path found))
      | None \<Rightarrow> Inr ())"

fun pre_llm_check_many :: "(string \<Rightarrow> bool) \<Rightarrow> (string \<times> string) list \<Rightarrow> creds_error + unit" where
  "pre_llm_check_many uw [] = Inr ()"
| "pre_llm_check_many uw ((p, v) # fs) = bindE (pre_llm_check uw p v) (\<lambda>_. pre_llm_check_many uw fs)"

section \<open>Federated identity\<close>

record oidc_id_token =
  raw_jwt :: string
  token_source :: string

record stub_federated =
  sf_canned :: "string \<rightharpoonup> string"
  sf_ttl :: int
  sf_poisoned :: bool

definition stub_federated_new :: stub_federated where
  "stub_federated_new = \<lparr>sf_canned = Map.empty, sf_ttl = minutes 15, sf_poisoned = False\<rparr>"

definition with_canned :: "string \<Rightarrow> string \<Rightarrow> stub_federated \<Rightarrow> stub_federated" where
  "with_canned key value p = (if sf_poisoned p then p else p\<lparr>sf_canned := (sf_canned p)(key \<mapsto> value)\<rparr>)"

definition with_ttl :: "int \<Rightarrow> stub_federated \<Rightarrow> stub_federated" where
  "with_ttl ttl p = p\<lparr>sf_ttl := ttl\<rparr>"

definition federated_lookup :: "stub_federated \<Rightarrow> int \<Rightarrow> string \<Rightarrow> string \<Rightarrow> creds_error + credential" where
  "federated_lookup p now key method =
     (if sf_poisoned p then Inl (ResolutionError key ''stub federated provider mutex poisoned'')
      else case sf_canned p key of
             None \<Rightarrow> Inl (UnknownReference key)
           | Some value \<Rightarrow> Inr (credential_new value method (now + sf_ttl p)))"

definition fetch_aws_via_wif :: "stub_federated \<Rightarrow> int \<Rightarrow> oidc_id_token \<Rightarrow> string \<Rightarrow> creds_error + credential" where
  "fetch_aws_via_wif p now token role_arn =
     federated_lookup p now (''aws:'' @ role_arn) ''stub_sts_assume_role_with_web_identity''"

definition fetch_gcp_via_wif :: "stub_federated \<Rightarrow> int \<Rightarrow> oidc_id_token \<Rightarrow> string \<Rightarrow> creds_error + credential" where
  "fetch_gcp_via_wif p now token email = federated_lookup p now (''gcp:'' @ email) ''stub_gcp_workload_identity''"

definition fetch_azure_via_federated ::
  "stub_federated \<Rightarrow> int \<Rightarrow> oidc_id_token \<Rightarrow> string \<Rightarrow> string \<Rightarrow> creds_error + credential"
where
  "fetch_azure_via_federated p now token client_id tenant_id =
     federated_lookup p now (''azure:'' @ tenant_id @ ''/'' @ client_id) ''stub_azure_federated_identity''"

section \<open>The broker contract\<close>

text \<open>
  A payload that substitutes is a sequence of pieces \<open>(a, n)\<close>, the text \<open>a\<close> followed by the reference to \<open>n\<close>, and
  a rest without references. \<open>fill\<close> puts a text in the place of each reference.
\<close>

definition fill :: "(string \<Rightarrow> string) \<Rightarrow> (string \<times> string) list \<Rightarrow> string \<Rightarrow> string" where
  "fill f ps rest = concat (map (\<lambda>(a, n). a @ f n) ps) @ rest"

lemma fill_simps [simp]: "fill f [] rest = rest" "fill f ((a, n) # ps) rest = a @ f n @ fill f ps rest"
  by (simp_all add: fill_def)

definition fill_map :: "(string \<Rightarrow> string) \<Rightarrow> (string \<times> string) list \<Rightarrow> substitution_map \<Rightarrow> substitution_map" where
  "fill_map val ps m = fold (\<lambda>(a, n) m. bt_insert (val n) (reference n) m) ps m"

definition reference_free :: "string \<Rightarrow> bool" where
  "reference_free s \<longleftrightarrow> find_str PREFIX s = None"

definition pieces_ok :: "(string \<times> string) list \<Rightarrow> string \<Rightarrow> bool" where
  "pieces_ok ps rest \<longleftrightarrow> list_all (\<lambda>(a, n). reference_free a \<and> strict_name n) ps \<and> reference_free rest"

lemma find_str_before:
  "p \<noteq> [] \<Longrightarrow> find_str p s = Some (a, b) \<Longrightarrow> find_str p a = None"
proof (induction p s arbitrary: a rule: find_str.induct)
  case (2 p c cs)
  show ?case
  proof (cases "starts_with p (c # cs)")
    case True
    with 2(3) have "a = []" by simp
    with 2(2) show ?thesis by simp
  next
    case False
    with 2 obtain a' where a: "a = c # a'" and rest: "find_str p cs = Some (a', b)"
      by (auto split: option.splits)
    have "\<not> starts_with p a"
    proof
      assume "starts_with p a"
      then obtain r where "a = p @ r" by (auto simp: starts_with_iff)
      with find_str_Some [OF rest] a have "c # cs = p @ (r @ p @ b)" by (metis append.assoc append_Cons)
      with False show False by (auto simp: starts_with_iff)
    qed
    with 2 False rest a show ?thesis by auto
  qed
qed simp

locale credential_broker =
  fixes resolve :: "string \<Rightarrow> ('w, creds_error, credential) act"
    and secrets :: "string \<rightharpoonup> string"
    and log :: "'w \<Rightarrow> string list"
    and audited :: bool
  assumes resolve_known: "resolve n w = (Inr c, w') \<Longrightarrow> secrets n = Some (expose c)"
    and resolve_logged: "resolve n w = (Inr c, w') \<Longrightarrow> log w' = log w @ (if audited then [reference n] else [])"
begin

lemma substitute_from_pieces:
  "substitute_from resolve remaining out0 m w = (Inr (out', m'), w') \<Longrightarrow>
   \<exists>ps rest. remaining = fill reference ps rest \<and> pieces_ok ps rest \<and> list_all (\<lambda>(a, n). secrets n \<noteq> None) ps
     \<and> out' = out0 @ fill (\<lambda>n. the (secrets n)) ps rest \<and> m' = fill_map (\<lambda>n. the (secrets n)) ps m
     \<and> log w' = log w @ (if audited then map (\<lambda>(a, n). reference n) ps else [])"
proof (induction "length remaining" arbitrary: remaining out0 m w rule: less_induct)
  case less
  show ?case
  proof (cases "find_str PREFIX remaining")
    case None
    with less.prems show ?thesis
      by (intro exI [of _ "[]"] exI [of _ remaining])
        (simp add: substitute_from.simps [of resolve remaining] pieces_ok_def reference_free_def fill_map_def)
  next
    case (Some ab)
    obtain before after where ab: "ab = (before, after)" by (cases ab)
    with less.prems Some obtain name rest where e: "find_str SUFFIX after = Some (name, rest)"
      by (auto simp: substitute_from.simps [of resolve remaining] split: option.splits)
    with less.prems Some ab obtain c w1 where strict: "strict_name name" and res: "resolve name w = (Inr c, w1)"
      and run: "substitute_from resolve rest (out0 @ before @ expose c) (bt_insert (expose c) (reference name) m) w1
        = (Inr (out', m'), w')"
      by (auto simp: substitute_from.simps [of resolve remaining] split: if_splits prod.splits sum.splits)
    have rem: "remaining = before @ reference name @ rest"
      using find_str_Some [OF Some [unfolded ab]] find_str_Some [OF e]
      by (simp add: reference_def PREFIX_def SUFFIX_def)
    then have "length rest < length remaining" by (simp add: reference_def)
    from less.hyps [OF this run] obtain ps rest' where IH: "rest = fill reference ps rest'" "pieces_ok ps rest'"
      "list_all (\<lambda>(a, n). secrets n \<noteq> None) ps"
      "out' = (out0 @ before @ expose c) @ fill (\<lambda>n. the (secrets n)) ps rest'"
      "m' = fill_map (\<lambda>n. the (secrets n)) ps (bt_insert (expose c) (reference name) m)"
      "log w' = log w1 @ (if audited then map (\<lambda>(a, n). reference n) ps else [])" by blast
    have "find_str PREFIX before = None"
      using find_str_before [OF _ Some [unfolded ab]] by (simp add: PREFIX_def)
    with IH rem strict resolve_known [OF res] resolve_logged [OF res] show ?thesis
      by (intro exI [of _ "(before, name) # ps"] exI [of _ rest'])
        (simp add: pieces_ok_def reference_free_def fill_map_def)
  qed
qed

lemmas substitute_pieces = substitute_from_pieces [of _ "[]" "[]", unfolded append_Nil]

end

definition resolution_log :: "'w cred_state \<Rightarrow> string list" where
  "resolution_log s = List.map_filter (\<lambda>(e, n). case ae_payload e of CredentialResolution r m t \<Rightarrow> Some r | _ \<Rightarrow> None)
     (audit_rows (cs_audit s))"

lemma audit_fetch_logged:
  assumes "audit_fetch env b cred_ref method s = (Inr (), s')"
  shows "resolution_log s' = resolution_log s @ (if sb_audit b \<noteq> None then [cred_ref] else [])"
  using assms
  by (auto simp: audit_fetch_def audit_append_def insert_row_def advance_head_def resolution_log_def Let_def
      resolution_entry_def audit_entry_new_def map_filter_def split: option.splits prod.splits sum.splits if_splits)

interpretation stub: credential_broker "stub_resolve env b" "sb_canned b" resolution_log "sb_audit b \<noteq> None"
  for env :: "'w cred_env" and b
  by unfold_locales
    (auto simp: stub_resolve_def bindA_eq_Inr credential_new_def expose_def split: option.splits dest: audit_fetch_logged)

text \<open>C23. A substitution that succeeds replaced exactly the references: the payload is text without references
  interleaved with well-formed references to known names, the result is the same text with each reference
  replaced by its secret, and with auditing on the log gained, in order, the references and nothing else.\<close>

theorem substitution_exact:
  assumes "substitute (stub_resolve env b) payload s = (Inr (out', m), s')"
  shows "\<exists>ps rest. payload = fill reference ps rest \<and> pieces_ok ps rest
    \<and> list_all (\<lambda>(a, n). sb_canned b n \<noteq> None) ps \<and> out' = fill (\<lambda>n. the (sb_canned b n)) ps rest
    \<and> resolution_log s' = resolution_log s @ (if sb_audit b \<noteq> None then map (\<lambda>(a, n). reference n) ps else [])"
  using stub.substitute_pieces [OF assms [unfolded substitute_def]] by blast

section \<open>The reverse\<close>

lemma find_str_append:
  "find_str p s \<noteq> None \<Longrightarrow> find_str p (a @ s) \<noteq> None"
  by (induction a) (auto split: option.splits)

lemma find_str_here: "find_str p (p @ s) = Some ([], s)"
proof (cases "p @ s")
  case (Cons c cs)
  have "starts_with p (c # cs)" "drop (length p) (c # cs) = s" by (simp_all flip: Cons)
  then show ?thesis by (simp add: Cons)
qed simp

lemma replace_here: "p \<noteq> [] \<Longrightarrow> replace_each p r (p @ t) = r @ replace_each p r t"
  by (simp add: replace_each.simps [of p r "p @ t"] find_str_here)

text \<open>\<open>p\<close> does not start within \<open>a\<close>.\<close>

definition skips :: "string \<Rightarrow> string \<Rightarrow> string \<Rightarrow> bool" where
  "skips p a t \<longleftrightarrow> find_str p (a @ t) = map_option (\<lambda>(x, y). (a @ x, y)) (find_str p t)"

lemma skips_Cons: "\<not> starts_with p (c # a @ t) \<Longrightarrow> skips p a t \<Longrightarrow> skips p (c # a) t"
  by (cases "find_str p t") (auto simp: skips_def)

lemma skips_Nil [simp]: "skips p [] t"
  by (cases "find_str p t") (auto simp: skips_def)

lemma replace_skips: "skips p a t \<Longrightarrow> p \<noteq> [] \<Longrightarrow> replace_each p r (a @ t) = a @ replace_each p r t"
  by (cases "find_str p t") (auto simp: skips_def replace_each.simps [of p r "a @ t"] replace_each.simps [of p r t])

lemma replace_nothing: "p \<noteq> [] \<Longrightarrow> list_all (\<lambda>c. c \<noteq> hd p) s \<Longrightarrow> replace_each p r s = s"
proof -
  assume p: "p \<noteq> []" and s: "list_all (\<lambda>c. c \<noteq> hd p) s"
  then have "find_str p s = None"
    by (induction s) (auto simp: starts_with_iff neq_Nil_conv)
  with p show ?thesis by (simp add: replace_each.simps [of p r s])
qed

lemma skips_foreign: "p \<noteq> [] \<Longrightarrow> list_all (\<lambda>c. c \<noteq> hd p) a \<Longrightarrow> skips p a t"
proof (induction a)
  case (Cons c a)
  then show ?case by (intro skips_Cons) (auto simp: starts_with_iff neq_Nil_conv)
qed simp

lemma foreign_head:
  assumes "p \<noteq> []" "list_all S p" "list_all (Not \<circ> S) s"
  shows "list_all (\<lambda>c. c \<noteq> hd p) s"
proof -
  have "S (hd p)" using assms(1,2) by (simp add: list_all_iff)
  with assms(3) show ?thesis unfolding list_all_iff comp_def by blast
qed

text \<open>A word of the alphabet \<open>S\<close> that ends where the alphabet does is skipped by any longer word and by any other
  of its length.\<close>

lemma skips_word:
  assumes "list_all S p" "t = [] \<or> \<not> S (hd t)"
  shows "length v \<le> length p \<Longrightarrow> v \<noteq> p \<Longrightarrow> p \<noteq> [] \<Longrightarrow> skips p v t"
proof (induction v)
  case (Cons c v)
  have "\<not> starts_with p (c # v @ t)"
  proof
    assume "starts_with p (c # v @ t)"
    then obtain z where z: "(c # v) @ t = p @ z" by (auto simp: starts_with_iff)
    then obtain us where "c # v = p @ us \<and> us @ t = z \<or> (c # v) @ us = p \<and> t = us @ z"
      by (metis append_eq_append_conv2)
    moreover from this Cons.prems(1) have "c # v = p @ us \<Longrightarrow> us = []" by (metis append_eq_conv_conj drop_eq_Nil)
    ultimately obtain u where u: "p = (c # v) @ u" "t = u @ z" by fastforce
    with Cons.prems(2) have "u \<noteq> []" by auto
    with u assms show False by (auto simp: list_all_iff neq_Nil_conv)
  qed
  moreover from Cons.prems(1) have "v \<noteq> p" by auto
  ultimately show ?case using Cons by (intro skips_Cons) auto
qed simp

definition apart :: "(string \<times> string) list \<Rightarrow> bool" where
  "apart ps \<longleftrightarrow> list_all (\<lambda>(a, n). a \<noteq> []) (tl ps)"

lemma apart_tl: "apart (x # ps) \<Longrightarrow> apart ps"
  by (cases ps) (auto simp: apart_def)

text \<open>One replacement in a text whose fillings are words of the alphabet or free of it.\<close>

lemma replace_fill:
  assumes p: "p \<noteq> []" "list_all S p"
  shows "apart ps \<Longrightarrow> list_all (\<lambda>(a, n). list_all (Not \<circ> S) a) ps \<Longrightarrow> list_all (Not \<circ> S) rest \<Longrightarrow>
    list_all (\<lambda>(a, n). list_all (Not \<circ> S) (f n) \<or> length (f n) \<le> length p) ps \<Longrightarrow>
    replace_each p r (fill f ps rest) = fill (\<lambda>n. if f n = p then r else f n) ps rest"
proof (induction ps)
  case Nil
  from replace_nothing [OF p(1) foreign_head [OF p Nil(3)]] show ?case by simp
next
  case (Cons x ps)
  obtain a n where x: "x = (a, n)" by (cases x)
  let ?t = "fill f ps rest"
  have a: "list_all (Not \<circ> S) a" using Cons.prems(2) by (simp add: x comp_def)
  have IH: "replace_each p r ?t = fill (\<lambda>n. if f n = p then r else f n) ps rest"
    using Cons.IH [OF apart_tl [OF Cons.prems(1)]] Cons.prems(2-4) by simp
  have next_char: "?t = [] \<or> \<not> S (hd ?t)"
    using Cons.prems(1-3) by (cases ps; cases rest) (auto simp: apart_def neq_Nil_conv)
  have "replace_each p r (f n @ ?t) = (if f n = p then r else f n) @ replace_each p r ?t"
  proof (cases "f n = p")
    case True
    with p show ?thesis by (simp add: replace_here)
  next
    case False
    have "skips p (f n) ?t"
    proof (cases "list_all (Not \<circ> S) (f n)")
      case True
      from skips_foreign [OF p(1) foreign_head [OF p this]] show ?thesis .
    next
      case False
      with Cons.prems(4) have "length (f n) \<le> length p" by (simp add: x comp_def)
      from skips_word [OF p(2) next_char this \<open>f n \<noteq> p\<close> p(1)] show ?thesis .
    qed
    with False p show ?thesis by (simp add: replace_skips)
  qed
  moreover have "skips p a (f n @ ?t)" by (rule skips_foreign [OF p(1) foreign_head [OF p a]])
  ultimately show ?case using p IH by (simp add: x replace_skips)
qed

lemma bt_wf_fill_map: "bt_wf m \<Longrightarrow> bt_wf (fill_map val ps m)"
  unfolding fill_map_def by (induction ps arbitrary: m) auto

lemma set_fill_map: "set (fill_map val ps m) \<subseteq> set m \<union> (\<lambda>(a, n). (val n, reference n)) ` set ps"
proof (induction ps arbitrary: m)
  case (Cons x ps)
  obtain a n where x: "x = (a, n)" by (cases x)
  have "fill_map val (x # ps) m = fill_map val ps (bt_insert (val n) (reference n) m)" by (simp add: fill_map_def x)
  with Cons [of "bt_insert (val n) (reference n) m"] set_bt_insert [of "val n" "reference n" m] show ?case
    by (auto simp: x)
qed (simp add: fill_map_def)

lemma keys_fill_map: "fst ` set (fill_map val ps m) = fst ` set m \<union> (\<lambda>(a, n). val n) ` set ps"
proof (induction ps arbitrary: m)
  case (Cons x ps)
  obtain a n where x: "x = (a, n)" by (cases x)
  have "fill_map val (x # ps) m = fill_map val ps (bt_insert (val n) (reference n) m)" by (simp add: fill_map_def x)
  with Cons [of "bt_insert (val n) (reference n) m"] show ?case by (simp add: x)
qed (simp add: fill_map_def)

lemma set_by_length_desc [simp]: "set (by_length_desc m) = set m"
  by (simp add: by_length_desc_def)

lemma sorted_by_length_desc: "sorted_wrt (\<lambda>x y. length (fst y) \<le> length (fst x)) (by_length_desc m)"
proof -
  have "sorted (map (\<lambda>e. length (fst e)) (sort_key (\<lambda>e. length (fst e)) (rev m)))" by simp
  then show ?thesis by (simp add: by_length_desc_def sorted_wrt_rev sorted_map)
qed

text \<open>The secrets of a payload are told apart by the alphabet \<open>S\<close>: they are words of it, the rest of the payload
  does not use it, references do not touch, and no two names share a secret.\<close>

definition told_apart :: "(char \<Rightarrow> bool) \<Rightarrow> (string \<Rightarrow> string) \<Rightarrow> (string \<times> string) list \<Rightarrow> string \<Rightarrow> bool" where
  "told_apart S val ps rest \<longleftrightarrow> apart ps \<and> list_all (Not \<circ> S) (fill reference ps rest)
     \<and> list_all (\<lambda>(a, n). val n \<noteq> [] \<and> list_all S (val n)) ps \<and> inj_on val (snd ` set ps)"

lemma told_apart_parts:
  assumes "told_apart S val ps rest"
  shows "list_all (Not \<circ> S) rest" "(a, n) \<in> set ps \<Longrightarrow> list_all (Not \<circ> S) a"
    "(a, n) \<in> set ps \<Longrightarrow> list_all (Not \<circ> S) (reference n)"
  using assms by (auto simp: told_apart_def fill_def list_all_iff)

lemma apart_fill: "find_str ''}}{{secret:'' (fill reference ps rest) = None \<Longrightarrow> apart ps"
proof (induction ps)
  case (Cons x ps)
  obtain a n where x: "x = (a, n)" by (cases x)
  from Cons.prems have later: "find_str ''}}{{secret:'' (fill reference ps rest) = None"
    using find_str_append [of "''}}{{secret:''" "fill reference ps rest" "a @ reference n"]
    by (metis append.assoc fill_simps(2) x)
  have "a' \<noteq> []" if "ps = (a', n') # qs" for a' n' qs
  proof
    assume "a' = []"
    with that have "fill reference (x # ps) rest
        = (a @ ''{{secret:'' @ n) @ ''}}{{secret:'' @ n' @ ''}}'' @ fill reference qs rest"
      by (simp add: x reference_def)
    with Cons.prems show False
      by (metis find_str_append find_str_here option.distinct(1))
  qed
  with Cons.IH [OF later] show ?case by (cases ps) (auto simp: apart_def)
qed (simp add: apart_def)

lemma rebuild_steps:
  assumes told: "told_apart S val ps rest"
  shows "sorted_wrt (\<lambda>x y. length (fst y) \<le> length (fst x)) es \<Longrightarrow>
    set es \<subseteq> (\<lambda>(a, n). (val n, reference n)) ` set ps \<Longrightarrow>
    (\<And>a n. (a, n) \<in> set ps \<Longrightarrow> f n = reference n \<or> f n = val n \<and> val n \<in> fst ` set es) \<Longrightarrow>
    fold (\<lambda>(value, ref) s. replace_each value ref s) es (fill f ps rest) = fill reference ps rest"
proof (induction es arbitrary: f)
  case Nil
  then have "fill f ps rest = fill reference ps rest" by (auto simp: fill_def intro!: arg_cong [where f = concat])
  then show ?case by simp
next
  case (Cons e es)
  from Cons.prems(2) obtain a0 n0 where e: "e = (val n0, reference n0)" and n0: "(a0, n0) \<in> set ps" by auto
  let ?p = "val n0"
  let ?f = "\<lambda>n. if f n = ?p then reference n0 else f n"
  have p: "?p \<noteq> []" "list_all S ?p" using told n0 by (auto simp: told_apart_def list_all_iff)
  have longest: "length (val n) \<le> length ?p" if "val n \<in> fst ` set (e # es)" for n
    using that Cons.prems(1) by (auto simp: e)
  have "replace_each ?p (reference n0) (fill f ps rest) = fill ?f ps rest"
  proof (rule replace_fill [OF p])
    show "list_all (\<lambda>(a, n). list_all (Not \<circ> S) (f n) \<or> length (f n) \<le> length ?p) ps"
      using Cons.prems(3) told_apart_parts(3) [OF told] longest by (force simp: list_all_iff)
    show "list_all (\<lambda>(a, n). list_all (Not \<circ> S) a) ps" "list_all (Not \<circ> S) rest" "apart ps"
      using told told_apart_parts(1,2) [OF told] by (auto simp: told_apart_def list_all_iff)
  qed
  moreover have "?f n = reference n \<or> ?f n = val n \<and> val n \<in> fst ` set es" if n: "(a, n) \<in> set ps" for a n
  proof (cases "f n = ?p")
    case True
    have "reference n \<noteq> ?p"
      using told_apart_parts(3) [OF told n] p by (auto simp: list_all_iff neq_Nil_conv)
    with True Cons.prems(3) [OF n] have "val n = val n0" by auto
    with told n n0 have "n = n0" by (force simp: told_apart_def inj_on_def)
    with True show ?thesis by simp
  next
    case False
    with Cons.prems(3) [OF n] show ?thesis by (auto simp: e)
  qed
  ultimately show ?case
    using Cons.IH [of ?f] Cons.prems(1,2) by (simp add: e)
qed

text \<open>C27. When the secrets of a payload can be told apart from its text, \<open>rebuild\<close> undoes \<open>substitute\<close>.\<close>

theorem rebuild_restores:
  assumes "substitute (stub_resolve env b) payload s = (Inr (out', m), s')"
    and "\<And>n v. sb_canned b n = Some v \<Longrightarrow> v \<noteq> [] \<and> list_all S v" "inj_on (sb_canned b) (dom (sb_canned b))"
    and "list_all (Not \<circ> S) payload" "find_str ''}}{{secret:'' payload = None"
  shows "rebuild m out' = payload"
proof -
  let ?val = "\<lambda>n. the (sb_canned b n)"
  from stub.substitute_pieces [OF assms(1) [unfolded substitute_def]] obtain ps rest
    where ps: "payload = fill reference ps rest" "out' = fill ?val ps rest" "m = fill_map ?val ps []"
      and known: "list_all (\<lambda>(a, n). sb_canned b n \<noteq> None) ps" by blast
  have "inj_on ?val (dom (sb_canned b))"
  proof (rule inj_onI)
    fix x y assume d: "x \<in> dom (sb_canned b)" "y \<in> dom (sb_canned b)" and "?val x = ?val y"
    then have "sb_canned b x = sb_canned b y" by auto
    from inj_onD [OF assms(3) this d] show "x = y" .
  qed
  moreover have "snd ` set ps \<subseteq> dom (sb_canned b)" using known by (auto simp: list_all_iff)
  ultimately have "inj_on ?val (snd ` set ps)" by (rule inj_on_subset)
  moreover have "list_all (\<lambda>(a, n). ?val n \<noteq> [] \<and> list_all S (?val n)) ps"
    using known assms(2) by (fastforce simp: list_all_iff)
  ultimately have "told_apart S ?val ps rest"
    using assms(4,5) apart_fill by (simp add: told_apart_def ps(1))
  then have "fold (\<lambda>(value, ref) s. replace_each value ref s) (by_length_desc m) (fill ?val ps rest) = fill reference ps rest"
    using set_fill_map [of ?val ps "[]"] keys_fill_map [of ?val ps "[]"]
    by (intro rebuild_steps [OF _ sorted_by_length_desc]) (force simp: ps(3))+
  with ps show ?thesis by (simp add: rebuild_def)
qed

lemma stub_resolve_quiet:
  "sb_audit b = None \<Longrightarrow> sb_canned b n = Some v \<Longrightarrow>
   stub_resolve env b n s = (Inr (credential_new v ''stub'' (ce_now env (cs_world s) + minutes 60)), s)"
  by (simp add: stub_resolve_def audit_fetch_def)

text \<open>Two secrets can be confused: the value of one occurs in the text of the reference that replaces the other, and
  \<open>rebuild\<close> returns a text that is not the payload.\<close>

theorem rebuild_corrupts_references:
  "\<exists>out' m. fst (substitute (stub_resolve env (with_secret ''A'' ''longvalue'' (with_secret ''B'' ''secret'' stub_broker_new)))
       ''{{secret:A}} {{secret:B}}'' s) = Inr (out', m)
     \<and> rebuild m out' = ''{{{{secret:B}}:A}} {{secret:B}}''"
proof -
  let ?b = "with_secret ''A'' ''longvalue'' (with_secret ''B'' ''secret'' stub_broker_new)"
  have "strict_name ''A''" "strict_name ''B''" by code_simp+
  then have "fst (substitute (stub_resolve env ?b) ''{{secret:A}} {{secret:B}}'' s)
      = Inr (''longvalue secret'', [(''longvalue'', ''{{secret:A}}''), (''secret'', ''{{secret:B}}'')])"
    by (simp add: substitute_def substitute_from.simps PREFIX_def SUFFIX_def starts_with_def stub_resolve_quiet
        with_secret_def stub_broker_new_def expose_def credential_new_def reference_def)
  moreover have "rebuild [(''longvalue'', ''{{secret:A}}''), (''secret'', ''{{secret:B}}'')] ''longvalue secret''
      = ''{{{{secret:B}}:A}} {{secret:B}}''" by code_simp
  ultimately show ?thesis by simp
qed

lemma pre_llm_check_many_fields:
  "pre_llm_check_many uw fs = (case scrub_fields uw fs of
     None \<Rightarrow> Inr () | Some m \<Rightarrow> Inl (SecretsDetected (pattern_name m) (field_path m)))"
  by (induction uw fs rule: pre_llm_check_many.induct) (auto simp: pre_llm_check_def split: option.splits)

text \<open>The outbound check and the scrubber of the audit store agree: over the fields of an entry the check fails
  exactly when appending the entry would panic, with the same pattern and field.\<close>

theorem outbound_check_agrees_with_audit:
  "pre_llm_check_many uw (checked_fields e) = (case scrub_or_panic uw e of
     None \<Rightarrow> Inr () | Some m \<Rightarrow> Inl (SecretsDetected (pattern_name m) (field_path m)))"
  by (simp add: pre_llm_check_many_fields scrub_or_panic_def)

section \<open>Witnesses\<close>

definition wit_cred_env :: "nat cred_env" where
  "wit_cred_env = \<lparr>ce_uuid = (\<lambda>n. (of_nat n, n + 1)), ce_now = (\<lambda>_. 0), ce_crypto = wit_crypto, ce_unicode = (\<lambda>_. False)\<rparr>"

definition wit_broker :: stub_broker where
  "wit_broker = with_audit 9 wit_signer (with_secret ''B'' ''TT'' (with_secret ''A'' ''TTT'' stub_broker_new))"

definition wit_payload :: string where
  "wit_payload = ''x={{secret:A}}, y={{secret:B}}''"

definition wit_cred_state :: "nat cred_state" where
  "wit_cred_state = \<lparr>cs_audit = in_memory, cs_world = 1\<rparr>"

lemma wit_reference_scrub:
  "scrub_or_panic (\<lambda>_. False) (resolution_entry i t 9 (reference ''A'') ''stub'') = None"
  "scrub_or_panic (\<lambda>_. False) (resolution_entry i t 9 (reference ''B'') ''stub'') = None"
  by (simp_all add: scrub_or_panic_def checked_fields_def resolution_entry_def audit_entry_new_def reference_def
      scan_def patterns_def fixed_at_def private_key_at_def starts_with_def high_entropy_def)

definition row_ids :: "'w cred_state \<Rightarrow> uuid set" where
  "row_ids s = (ae_id \<circ> fst) ` set (audit_rows (cs_audit s))"

lemma audit_append_fresh:
  "scrub_or_panic uw e = None \<Longrightarrow> ae_id e \<notin> (ae_id \<circ> fst) ` set (audit_rows st0) \<Longrightarrow>
   \<exists>e' st. audit_append c uw sg e st0 = (Inr e', st)
     \<and> (ae_id \<circ> fst) ` set (audit_rows st) = insert (ae_id e) ((ae_id \<circ> fst) ` set (audit_rows st0))"
  by (simp add: audit_append_def insert_row_def advance_head_def Let_def case_prod_unfold comp_def)

lemma wit_resolve:
  assumes "sb_canned wit_broker n = Some v" "of_nat (cs_world s) \<notin> row_ids s"
    and "\<And>i t. scrub_or_panic (\<lambda>_. False) (resolution_entry i t 9 (reference n) ''stub'') = None"
  shows "\<exists>s'. stub_resolve wit_cred_env wit_broker n s = (Inr (credential_new v ''stub'' (minutes 60)), s')
    \<and> cs_world s' = cs_world s + 1 \<and> row_ids s' = insert (of_nat (cs_world s)) (row_ids s)"
proof -
  have "ae_id (resolution_entry i t r cr mt) = i" for i t r cr mt by (simp add: resolution_entry_def audit_entry_new_def)
  with audit_append_fresh [OF assms(3), of _ 0 "cs_audit s"] assms(2)
  have "\<exists>e' st. audit_append wit_crypto (\<lambda>_. False) wit_signer
      (resolution_entry (of_nat (cs_world s)) 0 9 (reference n) ''stub'') (cs_audit s) = (Inr e', st)
      \<and> (ae_id \<circ> fst) ` set (audit_rows st) = insert (of_nat (cs_world s)) (row_ids s)"
    by (simp add: row_ids_def)
  then obtain e' st where a: "audit_append wit_crypto (\<lambda>_. False) wit_signer
      (resolution_entry (of_nat (cs_world s)) 0 9 (reference n) ''stub'') (cs_audit s) = (Inr e', st)"
    "(ae_id \<circ> fst) ` set (audit_rows st) = insert (of_nat (cs_world s)) (row_ids s)" by blast
  then show ?thesis
    using assms(1) by (simp add: stub_resolve_def audit_fetch_def wit_cred_env_def wit_broker_def with_audit_def
        with_secret_def row_ids_def bindA_def)
qed

lemma wit_substituted:
  "\<exists>s'. substitute (stub_resolve wit_cred_env wit_broker) wit_payload wit_cred_state =
     (Inr (''x=TTT, y=TT'', [(''TT'', reference ''B''), (''TTT'', reference ''A'')]), s')"
proof -
  have canned: "sb_canned wit_broker ''A'' = Some ''TTT''" "sb_canned wit_broker ''B'' = Some ''TT''"
    by (simp_all add: wit_broker_def with_audit_def with_secret_def)
  have "row_ids wit_cred_state = {}"
    by (simp add: row_ids_def wit_cred_state_def in_memory_def open_store_def)
  then obtain s1 where s1: "stub_resolve wit_cred_env wit_broker ''A'' wit_cred_state
      = (Inr (credential_new ''TTT'' ''stub'' (minutes 60)), s1)" "cs_world s1 = 2" "row_ids s1 = {1}"
    using wit_resolve [OF canned(1), of wit_cred_state] wit_reference_scrub(1) by (auto simp: wit_cred_state_def)
  moreover obtain s2 where "stub_resolve wit_cred_env wit_broker ''B'' s1
      = (Inr (credential_new ''TT'' ''stub'' (minutes 60)), s2)"
    using wit_resolve [OF canned(2), of s1] wit_reference_scrub(2) s1 by auto
  moreover have "strict_name ''A''" "strict_name ''B''" by code_simp+
  ultimately show ?thesis
    by (simp add: wit_payload_def substitute_def substitute_from.simps PREFIX_def SUFFIX_def starts_with_def
        expose_def credential_new_def reference_def)
qed

theorem substitution_exact_witness:
  "\<exists>s' ps rest. substitute (stub_resolve wit_cred_env wit_broker) wit_payload wit_cred_state =
     (Inr (''x=TTT, y=TT'', [(''TT'', reference ''B''), (''TTT'', reference ''A'')]), s')
   \<and> wit_payload = fill reference ps rest \<and> resolution_log s' = resolution_log wit_cred_state @ map (\<lambda>(a, n). reference n) ps"
proof -
  obtain s' where run: "substitute (stub_resolve wit_cred_env wit_broker) wit_payload wit_cred_state =
     (Inr (''x=TTT, y=TT'', [(''TT'', reference ''B''), (''TTT'', reference ''A'')]), s')"
    using wit_substituted by blast
  from substitution_exact [OF run] show ?thesis
    using run by (auto simp: wit_broker_def with_audit_def)
qed

theorem rebuild_restores_witness:
  "rebuild [(''TT'', reference ''B''), (''TTT'', reference ''A'')] ''x=TTT, y=TT'' = wit_payload"
proof -
  obtain s' where "substitute (stub_resolve wit_cred_env wit_broker) wit_payload wit_cred_state =
     (Inr (''x=TTT, y=TT'', [(''TT'', reference ''B''), (''TTT'', reference ''A'')]), s')"
    using wit_substituted by blast
  then show ?thesis
    by (rule rebuild_restores [where S = "\<lambda>c. c = CHR ''T''"])
      (auto simp: wit_broker_def with_audit_def with_secret_def stub_broker_new_def wit_payload_def inj_on_def
        starts_with_def split: if_splits)
qed

end
