(* ===== verification/Eval.thy ===== *)
theory Eval
  imports Generator Schema_Fetcher
begin

text \<open>
  \<open>libs/eval/src/{errors,golden,scorer,runner}.rs\<close>: the golden-file harness. A fixture directory is loaded,
  its mapping plan is put through the generator in a temporary directory, and the files it emits are
  compared byte by byte with the expected ones. The lemmas show that a fixture passes exactly when
  the expected directory holds what the generator renders, and that a run leaves no file behind.
\<close>

section \<open>Errors\<close>

datatype eval_error =
    InvalidSuiteRoot path
  | MissingFixtureFile path string
  | ManifestParse path string
  | MappingPlanParse path string
  | Eval_Io path
  | Eval_Generator string generator_error
  | Comparison string string
  | MissingSchema path string

section \<open>Goldens\<close>

record required_schema =
  rs_provider :: string
  rs_version :: string

record golden_manifest =
  gm_name :: string
  gm_description :: string
  gm_source_provider :: string
  gm_target_provider :: string
  token_cost_ceiling_micros :: u64
  articles :: "8 word list"
  required_schemas :: "required_schema list"

record golden_migration =
  gd_root :: path
  gd_manifest :: golden_manifest
  source_tf :: path
  gd_plan :: mapping_plan
  expected_target_dir :: path

text \<open>
  What the harness gets from its crates and the operating system: the entries of a directory that
  could be read, with the kind of each when it is known; the readers of TOML and JSON; the line diff
  of \<open>similar\<close>, each change with its value and the text it is printed as; temporary directories; how
  many milliseconds a fixture took.
\<close>

datatype file_kind = Is_file | Is_dir | Other_kind

datatype change_tag = Delete | Insert | Equal

record eval_env =
  read_dir :: "fs \<Rightarrow> path \<Rightarrow> (string \<times> file_kind option) list option"
  manifest_of_toml :: "string \<Rightarrow> string + golden_manifest"
  golden_plan_of_json :: "string \<Rightarrow> string + mapping_plan"
  diff_lines :: "string \<Rightarrow> string \<Rightarrow> (change_tag \<times> string \<times> string) list"
  eval_temp_dir :: "fs \<Rightarrow> path option"
  elapsed_millis :: "path \<Rightarrow> nat"
  eval_io :: io
  eval_hcl :: hcl

text \<open>\<open>Path::join\<close> with a text that may hold separators.\<close>

definition join_text_path :: "path \<Rightarrow> string \<Rightarrow> path" where
  "join_text_path p t =
     (let parts = filter (\<lambda>c. c \<noteq> [] \<and> c \<noteq> ''.'') (split_on CHR ''/'' t) in
      if starts_with ''/'' t then parts else p @ parts)"

definition is_file :: "fs \<Rightarrow> path \<Rightarrow> bool" where
  "is_file s p \<longleftrightarrow> files s p \<noteq> None"

definition load_golden :: "eval_env \<Rightarrow> fs \<Rightarrow> path \<Rightarrow> eval_error + golden_migration" where
  "load_golden env s root =
     (if \<not> dirs s root then Inl (Eval_Io root)
      else
        let manifest_path = root @ [''manifest.toml'']; tf = root @ [''source.tf''];
            plan_path = root @ [''mapping_plan.json'']; expected = root @ [''expected''] in
        if \<not> is_file s manifest_path then Inl (MissingFixtureFile root ''manifest.toml'')
        else case read_to_string s manifest_path of
          None \<Rightarrow> Inl (Eval_Io manifest_path)
        | Some manifest_text \<Rightarrow>
            (case manifest_of_toml env manifest_text of
               Inl e \<Rightarrow> Inl (ManifestParse manifest_path e)
             | Inr manifest \<Rightarrow>
                 if \<not> is_file s tf then Inl (MissingFixtureFile root ''source.tf'')
                 else if \<not> is_file s plan_path then Inl (MissingFixtureFile root ''mapping_plan.json'')
                 else case read_to_string s plan_path of
                   None \<Rightarrow> Inl (Eval_Io plan_path)
                 | Some plan_text \<Rightarrow>
                     (case golden_plan_of_json env plan_text of
                        Inl e \<Rightarrow> Inl (MappingPlanParse plan_path e)
                      | Inr mplan \<Rightarrow>
                          if \<not> dirs s expected then Inl (MissingFixtureFile root ''expected/'')
                          else Inr \<lparr>gd_root = root, gd_manifest = manifest, source_tf = tf, gd_plan = mplan,
                                    expected_target_dir = expected\<rparr>)))"

fun load_all :: "eval_env \<Rightarrow> fs \<Rightarrow> path list \<Rightarrow> eval_error + golden_migration list" where
  "load_all env s [] = Inr []"
| "load_all env s (p # ps) =
     (case load_golden env s p of
        Inl e \<Rightarrow> Inl e
      | Inr g \<Rightarrow> (case load_all env s ps of Inl e \<Rightarrow> Inl e | Inr gs \<Rightarrow> Inr (g # gs)))"

definition discover_suite :: "eval_env \<Rightarrow> fs \<Rightarrow> path \<Rightarrow> eval_error + golden_migration list" where
  "discover_suite env s root =
     (if \<not> dirs s root then Inl (InvalidSuiteRoot root)
      else case read_dir env s root of
        None \<Rightarrow> Inl (Eval_Io root)
      | Some entries \<Rightarrow>
          load_all env s
            (map (\<lambda>name. root @ [name])
              (sort (map fst (filter (\<lambda>(name, kind). kind = Some Is_dir \<and> \<not> starts_with ''.'' (utf8_lossy name)
                 \<and> is_file s (root @ [name, ''manifest.toml''])) entries)))))"

section \<open>Comparing two directories\<close>

record comparison_result =
  cr_passed :: bool
  cr_diff :: "string option"

text \<open>\<open>Path::extension\<close> of a file name: what follows the last dot, unless the dot comes first.\<close>

definition extension :: "string \<Rightarrow> string option" where
  "extension name =
     (let ext = rev (takeWhile (\<lambda>c. c \<noteq> CHR ''.'') (rev name)) in
      if length name \<le> Suc (length ext) then None else Some ext)"

definition filename_string :: "string \<Rightarrow> string" where
  "filename_string name = (if valid_utf8 name then name else ''<no_name>'')"

definition list_tf_files :: "eval_env \<Rightarrow> fs \<Rightarrow> path \<Rightarrow> eval_error + string list" where
  "list_tf_files env s dir =
     (if \<not> dirs s dir then Inl (Eval_Io dir)
      else case read_dir env s dir of
        None \<Rightarrow> Inl (Eval_Io dir)
      | Some entries \<Rightarrow>
          Inr (sort (map fst (filter (\<lambda>(name, kind). kind = Some Is_file \<and> extension name = Some ''tf'') entries))))"

text \<open>The names as the \<open>BTreeSet\<close> iterates them.\<close>

definition name_set :: "string list \<Rightarrow> string list" where
  "name_set names = sort (remdups (map filename_string names))"

definition change_line :: "change_tag \<times> string \<times> string \<Rightarrow> string" where
  "change_line c = (case c of (tag, value, shown) \<Rightarrow>
     (case tag of Delete \<Rightarrow> ''-'' | Insert \<Rightarrow> ''+'' | Equal \<Rightarrow> '' '') @ shown
       @ (if value \<noteq> [] \<and> last value = CHR 0x0A then [] else nl))"

definition unified_diff :: "eval_env \<Rightarrow> string \<Rightarrow> string \<Rightarrow> string \<Rightarrow> string" where
  "unified_diff env expected actual filename =
     ''--- expected/'' @ filename @ nl @ ''+++ actual/'' @ filename @ nl
       @ concat (map change_line (diff_lines env expected actual))"

fun diff_contents ::
  "eval_env \<Rightarrow> fs \<Rightarrow> path \<Rightarrow> path \<Rightarrow> string list \<Rightarrow> eval_error + string list"
where
  "diff_contents env s actual_dir expected_dir [] = Inr []"
| "diff_contents env s actual_dir expected_dir (name # names) =
     (case files s (actual_dir @ [name]) of
        None \<Rightarrow> Inl (Eval_Io (actual_dir @ [name]))
      | Some actual \<Rightarrow>
          (case files s (expected_dir @ [name]) of
             None \<Rightarrow> Inl (Eval_Io (expected_dir @ [name]))
           | Some expected \<Rightarrow>
               (case diff_contents env s actual_dir expected_dir names of
                  Inl e \<Rightarrow> Inl e
                | Inr chunks \<Rightarrow>
                    Inr (if actual = expected then chunks
                         else (''~ '' @ name @ '':'' @ nl
                                @ unified_diff env (utf8_lossy expected) (utf8_lossy actual) name) # chunks))))"

definition compare_directories :: "eval_env \<Rightarrow> fs \<Rightarrow> path \<Rightarrow> path \<Rightarrow> eval_error + comparison_result" where
  "compare_directories env s actual_dir expected_dir =
     (case list_tf_files env s actual_dir of
        Inl e \<Rightarrow> Inl e
      | Inr actual_files \<Rightarrow>
          (case list_tf_files env s expected_dir of
             Inl e \<Rightarrow> Inl e
           | Inr expected_files \<Rightarrow>
               (let actual = name_set actual_files; expected = name_set expected_files;
                    missing = map (\<lambda>n. ''- missing from actual: '' @ n) (filter (\<lambda>n. n \<notin> set actual) expected);
                    extra = map (\<lambda>n. ''+ unexpected in actual: '' @ n) (filter (\<lambda>n. n \<notin> set expected) actual) in
                case diff_contents env s actual_dir expected_dir (filter (\<lambda>n. n \<in> set actual) expected) of
                  Inl e \<Rightarrow> Inl e
                | Inr changed \<Rightarrow>
                    (let chunks = missing @ extra @ changed in
                     Inr (if chunks = [] then \<lparr>cr_passed = True, cr_diff = None\<rparr>
                          else \<lparr>cr_passed = False, cr_diff = Some (str_join (nl @ nl) chunks)\<rparr>)))))"

section \<open>Running a fixture\<close>

record eval_result =
  er_name :: string
  er_passed :: bool
  token_cost_micros :: u64
  wall_clock_ms :: u32
  er_diff :: "string option"

record suite_report =
  results :: "eval_result list"
  sr_total :: nat
  sr_passed :: nat
  sr_failed :: nat
  total_token_cost_micros :: u64

definition all_passed :: "suite_report \<Rightarrow> bool" where
  "all_passed r \<longleftrightarrow> sr_failed r = 0"

definition schema_id :: "required_schema \<Rightarrow> string" where
  "schema_id req = rs_provider req @ ''@'' @ rs_version req"

fun check_each_schema :: "fs \<Rightarrow> path \<Rightarrow> path \<Rightarrow> required_schema list \<Rightarrow> eval_error + unit" where
  "check_each_schema s root cache_dir [] = Inr ()"
| "check_each_schema s root cache_dir (req # reqs) =
     (if path_exists s (join_text_path cache_dir (schema_id req @ ''.json.zst''))
      then check_each_schema s root cache_dir reqs
      else Inl (MissingSchema root (schema_id req)))"

definition check_required_schemas :: "fs \<Rightarrow> golden_migration \<Rightarrow> eval_error + unit" where
  "check_required_schemas s g =
     (if required_schemas (gd_manifest g) = [] then Inr ()
      else check_each_schema s (gd_root g) (butlast (gd_root g) @ [''.schema-cache''])
             (required_schemas (gd_manifest g)))"

definition in_eval_temp :: "eval_env \<Rightarrow> path \<Rightarrow> (path \<Rightarrow> (fs, eval_error, 'a) act) \<Rightarrow> (fs, eval_error, 'a) act" where
  "in_eval_temp env root body s =
     (case eval_temp_dir env s of
        None \<Rightarrow> (Inl (Eval_Io root), s)
      | Some d \<Rightarrow> (case body d (create_dir_all d s) of (r, s') \<Rightarrow> (r, remove_tree d s')))"

definition u32_of_millis :: "nat \<Rightarrow> u32" where
  "u32_of_millis ms = (if ms < 2 ^ 32 then of_nat ms else - 1)"

definition run_fixture :: "eval_env \<Rightarrow> golden_migration \<Rightarrow> path \<Rightarrow> path \<Rightarrow> (fs, eval_error, eval_result) act" where
  "run_fixture env g cwd out s =
     (case check_required_schemas s g of
        Inl e \<Rightarrow> (Inl e, s)
      | Inr _ \<Rightarrow>
          (case generate (eval_io env) (eval_hcl env) cwd out (gd_plan g) s of
             (Inl e, s') \<Rightarrow> (Inl (Eval_Generator (gm_name (gd_manifest g)) e), s')
           | (Inr _, s') \<Rightarrow>
               (case compare_directories env s' out (expected_target_dir g) of
                  Inl e \<Rightarrow> (Inl e, s')
                | Inr c \<Rightarrow>
                    (Inr \<lparr>er_name = gm_name (gd_manifest g), er_passed = cr_passed c, token_cost_micros = 0,
                          wall_clock_ms = u32_of_millis (elapsed_millis env (gd_root g)), er_diff = cr_diff c\<rparr>, s'))))"

definition run_golden :: "eval_env \<Rightarrow> golden_migration \<Rightarrow> (fs, eval_error, eval_result) act" where
  "run_golden env g =
     in_eval_temp env (gd_root g) (\<lambda>cwd. in_eval_temp env (gd_root g) (\<lambda>out. run_fixture env g cwd out))"

fun run_each :: "eval_env \<Rightarrow> golden_migration list \<Rightarrow> (fs, eval_error, eval_result list) act" where
  "run_each env [] = retA []"
| "run_each env (g # gs) = bindA (run_golden env g) (\<lambda>r. bindA (run_each env gs) (\<lambda>rs. retA (r # rs)))"

definition report_of :: "eval_result list \<Rightarrow> suite_report" where
  "report_of rs =
     (let ok = length (filter er_passed rs) in
      \<lparr>results = rs, sr_total = length rs, sr_passed = ok, sr_failed = length rs - ok,
       total_token_cost_micros = sum_list (map token_cost_micros rs)\<rparr>)"

definition run_suite :: "eval_env \<Rightarrow> path \<Rightarrow> (fs, eval_error, suite_report) act" where
  "run_suite env root s =
     (case discover_suite env s root of
        Inl e \<Rightarrow> (Inl e, s)
      | Inr goldens \<Rightarrow> bindA (run_each env goldens) (\<lambda>rs. retA (report_of rs)) s)"

section \<open>What a comparison says\<close>

text \<open>\<open>read_dir\<close> lists the files of a directory that has finitely many.\<close>

definition names_in :: "fs \<Rightarrow> path \<Rightarrow> string set" where
  "names_in s d = {n. is_file s (d @ [n])}"

definition lists_directories :: "eval_env \<Rightarrow> bool" where
  "lists_directories env \<longleftrightarrow> (\<forall>s d. dirs s d \<longrightarrow> finite (names_in s d) \<longrightarrow>
     (\<exists>entries. read_dir env s d = Some entries \<and> (\<forall>n. (n, Some Is_file) \<in> set entries \<longleftrightarrow> n \<in> names_in s d)))"

text \<open>Finitely many files, those that count with names in UTF-8.\<close>

definition comparable :: "fs \<Rightarrow> path \<Rightarrow> bool" where
  "comparable s d \<longleftrightarrow> dirs s d \<and> finite (names_in s d)
     \<and> (\<forall>n\<in>names_in s d. extension n = Some ''tf'' \<longrightarrow> valid_utf8 n)"

definition same_tf_files :: "(string \<rightharpoonup> string) \<Rightarrow> (string \<rightharpoonup> string) \<Rightarrow> bool" where
  "same_tf_files f g \<longleftrightarrow> (\<forall>n. extension n = Some ''tf'' \<longrightarrow> f n = g n)"

lemma list_tf_files_ok:
  assumes "lists_directories env" "comparable s d"
  obtains names where "list_tf_files env s d = Inr names"
    "set (name_set names) = {n \<in> names_in s d. extension n = Some ''tf''}"
proof -
  from assms obtain entries where e: "read_dir env s d = Some entries"
    "\<And>n. (n, Some Is_file) \<in> set entries \<longleftrightarrow> n \<in> names_in s d"
    unfolding lists_directories_def comparable_def by blast
  let ?names = "sort (map fst (filter (\<lambda>(name, kind). kind = Some Is_file \<and> extension name = Some ''tf'') entries))"
  have "set ?names = {n \<in> names_in s d. extension n = Some ''tf''}" by (force simp flip: e(2))
  moreover have "filename_string n = n" if "n \<in> names_in s d" "extension n = Some ''tf''" for n
    using assms(2) that by (simp add: comparable_def filename_string_def)
  ultimately have "set (name_set ?names) = {n \<in> names_in s d. extension n = Some ''tf''}"
    by (force simp: name_set_def)
  with assms(2) e show ?thesis by (intro that [of ?names]) (simp_all add: list_tf_files_def comparable_def)
qed

lemma diff_contents_ok:
  assumes "\<And>n. n \<in> set names \<Longrightarrow> n \<in> names_in s a \<and> n \<in> names_in s e"
  shows "\<exists>chunks. diff_contents env s a e names = Inr chunks
    \<and> (chunks = [] \<longleftrightarrow> (\<forall>n\<in>set names. files s (a @ [n]) = files s (e @ [n])))"
  using assms
proof (induction names)
  case (Cons n names)
  then obtain chunks where c: "diff_contents env s a e names = Inr chunks"
    "chunks = [] \<longleftrightarrow> (\<forall>n\<in>set names. files s (a @ [n]) = files s (e @ [n]))" by auto
  from Cons.prems [of n] obtain x y where "files s (a @ [n]) = Some x" "files s (e @ [n]) = Some y"
    by (auto simp: names_in_def is_file_def)
  with c show ?case by simp
qed simp

lemma same_map_iff:
  "({n. g n \<noteq> None \<and> P n} \<subseteq> {n. f n \<noteq> None \<and> P n} \<and> {n. f n \<noteq> None \<and> P n} \<subseteq> {n. g n \<noteq> None \<and> P n}
     \<and> (\<forall>n. f n \<noteq> None \<and> g n \<noteq> None \<and> P n \<longrightarrow> f n = g n)) \<longleftrightarrow> (\<forall>n. P n \<longrightarrow> f n = g n)"
proof (intro iffI allI impI)
  fix n assume *: "{n. g n \<noteq> None \<and> P n} \<subseteq> {n. f n \<noteq> None \<and> P n} \<and> {n. f n \<noteq> None \<and> P n} \<subseteq> {n. g n \<noteq> None \<and> P n}
     \<and> (\<forall>n. f n \<noteq> None \<and> g n \<noteq> None \<and> P n \<longrightarrow> f n = g n)" "P n"
  then show "f n = g n" by (cases "f n = None"; cases "g n = None") auto
qed auto

lemma compare_exact:
  assumes "lists_directories env" "comparable s a" "comparable s e"
  shows "\<exists>d. compare_directories env s a e =
    Inr \<lparr>cr_passed = same_tf_files (\<lambda>n. files s (a @ [n])) (\<lambda>n. files s (e @ [n])), cr_diff = d\<rparr>"
proof -
  obtain as where a: "list_tf_files env s a = Inr as"
    "set (name_set as) = {n \<in> names_in s a. extension n = Some ''tf''}"
    by (rule list_tf_files_ok [OF assms(1,2)])
  obtain es where e: "list_tf_files env s e = Inr es"
    "set (name_set es) = {n \<in> names_in s e. extension n = Some ''tf''}"
    by (rule list_tf_files_ok [OF assms(1,3)])
  let ?both = "filter (\<lambda>n. n \<in> set (name_set as)) (name_set es)"
  obtain chunks where c: "diff_contents env s a e ?both = Inr chunks"
    "chunks = [] \<longleftrightarrow> (\<forall>n\<in>set ?both. files s (a @ [n]) = files s (e @ [n]))"
    using diff_contents_ok [of ?both s a e env] a(2) e(2) by auto
  have sub: "filter (\<lambda>n. n \<notin> set ys) xs = [] \<longleftrightarrow> set xs \<subseteq> set ys" for xs ys :: "string list"
    by (auto simp: filter_empty_conv)
  have names: "{n \<in> names_in s d. extension n = Some ''tf''} = {n. files s (d @ [n]) \<noteq> None \<and> extension n = Some ''tf''}" for d
    by (auto simp: names_in_def is_file_def)
  have "(set (name_set es) \<subseteq> set (name_set as) \<and> set (name_set as) \<subseteq> set (name_set es) \<and> chunks = [])
      \<longleftrightarrow> same_tf_files (\<lambda>n. files s (a @ [n])) (\<lambda>n. files s (e @ [n]))"
    unfolding c(2) set_filter a(2) e(2) names same_tf_files_def
      same_map_iff [where f = "\<lambda>n. files s (a @ [n])" and g = "\<lambda>n. files s (e @ [n])" and P = "\<lambda>n. extension n = Some ''tf''", symmetric]
    by blast
  then show ?thesis using a(1) e(1) c(1) by (auto simp: compare_directories_def Let_def sub)
qed

section \<open>What a run emits\<close>

fun render_groups :: "hcl \<Rightarrow> (string \<times> mapped_resource list) list \<Rightarrow> generator_error + (string \<times> string) list" where
  "render_groups h [] = Inr []"
| "render_groups h ((ty, rs) # groups) =
     (case render_group h ty rs of
        Inl e \<Rightarrow> Inl e
      | Inr c \<Rightarrow> (case render_groups h groups of Inl e \<Rightarrow> Inl e | Inr cs \<Rightarrow> Inr ((ty @ ''.tf'', c) # cs)))"

lemma render_groups_names: "render_groups h groups = Inr cs \<Longrightarrow> map fst cs = map (\<lambda>g. fst g @ ''.tf'') groups"
  by (induction h groups arbitrary: cs rule: render_groups.induct) (auto split: sum.splits)

lemma emit_groups_fresh:
  assumes "no_faults io" "distinct (map fst groups)"
    and "\<And>ty. ty \<in> fst ` set groups \<Longrightarrow> \<not> path_exists s (target_path out ty)"
    and "emit_groups io h cwd out run_id groups s = (r, s')"
  shows "dirs s' = dirs s \<and> (\<forall>p. (\<forall>n. p \<noteq> out @ [n]) \<longrightarrow> files s' p = files s p) \<and>
    (case render_groups h groups of
       Inl e \<Rightarrow> r = Inl e
     | Inr cs \<Rightarrow> (\<exists>es. r = Inr es) \<and>
         (\<forall>n. files s' (out @ [n]) = (case map_of cs n of Some c \<Rightarrow> Some c | None \<Rightarrow> files s (out @ [n]))))"
  using assms(2-4)
proof (induction groups arbitrary: s r)
  case (Cons g groups)
  obtain ty rs where g: "g = (ty, rs)" by force
  have free: "\<not> path_exists s (target_path out ty)" using Cons.prems(2) g by simp
  show ?case
  proof (cases "render_group h ty rs")
    case (Inl e)
    with Cons.prems(3) show ?thesis by (auto simp: g emit_group_def bindA_def)
  next
    case (Inr c)
    let ?s = "s\<lparr>files := (files s)(target_path out ty \<mapsto> c)\<rparr>"
    have one: "emit_group io h cwd out run_id ty rs s
        = (Inr \<lparr>ef_path = target_path out ty, ef_backup_path = None, ef_overwrote = False\<rparr>, ?s)"
      using Inr free assms(1) by (simp add: emit_group_def Let_def bindA_def Generator.write_file_def no_faults_def)
    obtain r1 where rest: "emit_groups io h cwd out run_id groups ?s = (r1, s')"
      "case r1 of Inl e \<Rightarrow> r = Inl e | Inr es \<Rightarrow> \<exists>x. r = Inr x"
      using Cons.prems(3) one by (auto simp: g bindA_def split: prod.splits sum.splits)
    have "\<not> path_exists ?s (target_path out t)" if "t \<in> fst ` set groups" for t
    proof -
      have "t \<noteq> ty" using that Cons.prems(1) by (auto simp: g)
      with Cons.prems(2) [of t] that show ?thesis by (simp add: path_exists_def)
    qed
    from Cons.IH [OF _ this rest(1)] Cons.prems(1)
    have IH: "dirs s' = dirs ?s" "\<And>p. (\<forall>n. p \<noteq> out @ [n]) \<Longrightarrow> files s' p = files ?s p"
      "case render_groups h groups of Inl e \<Rightarrow> r1 = Inl e
       | Inr cs \<Rightarrow> (\<exists>es. r1 = Inr es) \<and>
           (\<forall>n. files s' (out @ [n]) = (case map_of cs n of Some c \<Rightarrow> Some c | None \<Rightarrow> files ?s (out @ [n])))"
      by auto
    have tf: "(out @ [n] = target_path out t) = (n = t @ ''.tf'')" for n t by (auto simp: target_path_def)
    show ?thesis
    proof (cases "render_groups h groups")
      case Inl': (Inl e)
      with IH rest(2) Inr show ?thesis by (simp add: g target_path_def)
    next
      case Inr': (Inr cs)
      from render_groups_names [OF Inr'] have "fst ` set cs = (\<lambda>g. fst g @ ''.tf'') ` set groups"
        by (metis image_set)
      then have "ty @ ''.tf'' \<notin> fst ` set cs" using Cons.prems(1) by (force simp: g)
      then have "map_of cs (ty @ ''.tf'') = None" by (simp add: map_of_eq_None_iff)
      note tail = IH(3) [unfolded Inr' sum.case]
      from conjunct1 [OF tail] rest(2) have "\<exists>es. r = Inr es" by (elim exE) simp
      note fs = conjunct2 [OF tail, rule_format]
      have "files s' (out @ [n]) = (case map_of ((ty @ ''.tf'', c) # cs) n of Some c \<Rightarrow> Some c
          | None \<Rightarrow> files s (out @ [n]))" for n
      proof (cases "n = ty @ ''.tf''")
        case True
        have "files s' (out @ [n]) = files ?s (out @ [n])"
          unfolding fs [of n] unfolding True \<open>map_of cs (ty @ ''.tf'') = None\<close> by simp
        then show ?thesis unfolding True by (simp add: target_path_def)
      next
        case False
        then have "out @ [n] \<noteq> target_path out ty" by (simp add: target_path_def)
        with False show ?thesis unfolding fs [of n] by (cases "map_of cs n") simp_all
      qed
      moreover have "files s' p = files s p" if "\<forall>n. p \<noteq> out @ [n]" for p
        using IH(2) that by (simp add: target_path_def)
      ultimately show ?thesis using IH(1) \<open>\<exists>es. r = Inr es\<close> Inr Inr' by (simp add: g)
    qed
  qed
qed simp

lemma ascii_utf8: "list_all (in_range 0 0x7F) s \<Longrightarrow> valid_utf8 s"
proof (induction s)
  case (Cons c s)
  then show ?case by (subst valid_utf8.simps) (simp add: utf8_unit_def)
qed simp

lemma template_types_utf8:
  assumes "template_for ty \<noteq> None"
  shows "valid_utf8 (ty @ ''.tf'')"
proof -
  have "list_all (list_all (in_range 0 0x7F)) registered_types"
    by (simp add: registered_types_def stage1_registry_def in_range_def)
  moreover have "ty \<in> set registered_types"
    using assms by (force simp: template_for_def registered_types_def dest: map_of_SomeD)
  ultimately have "list_all (in_range 0 0x7F) (ty @ ''.tf'')" by (simp add: list_all_iff in_range_def)
  then show ?thesis by (rule ascii_utf8)
qed

definition fresh_temp :: "eval_env \<Rightarrow> fs \<Rightarrow> path \<Rightarrow> bool" where
  "fresh_temp env s d \<longleftrightarrow> eval_temp_dir env s = Some d \<and> (\<forall>p. prefix d p \<longrightarrow> \<not> path_exists s p)"

definition plan_groups :: "mapping_plan \<Rightarrow> (string \<times> mapped_resource list) list" where
  "plan_groups p = group_by_target_type (sort_resources (mapping_plan.resources p))"

lemma render_groups_types:
  "render_groups h groups = Inr cs \<Longrightarrow> (n, c) \<in> set cs \<Longrightarrow> \<exists>ty. n = ty @ ''.tf'' \<and> template_for ty \<noteq> None"
  by (induction h groups arbitrary: cs rule: render_groups.induct)
    (auto simp: render_group_def split: sum.splits option.splits)

lemma remove_fresh:
  assumes "\<And>p. prefix d p \<Longrightarrow> \<not> path_exists s p" "\<And>p. \<not> prefix d p \<Longrightarrow> files s' p = files s p"
  shows "files (remove_tree d s') = files s"
  using assms by (fastforce simp: remove_tree_def path_exists_def)

text \<open>The outcome of a fixture, read off the plan and the expected directory.\<close>

definition verdict_of :: "eval_env \<Rightarrow> golden_migration \<Rightarrow> fs \<Rightarrow> fs \<Rightarrow> string option \<Rightarrow> eval_error + eval_result" where
  "verdict_of env g s0 s d =
     (case check_required_schemas s0 g of
        Inl e \<Rightarrow> Inl e
      | Inr _ \<Rightarrow>
          (case render_groups (eval_hcl env) (plan_groups (gd_plan g)) of
             Inl e \<Rightarrow> Inl (Eval_Generator (gm_name (gd_manifest g)) e)
           | Inr cs \<Rightarrow> Inr \<lparr>er_name = gm_name (gd_manifest g),
               er_passed = same_tf_files (map_of cs) (\<lambda>n. files s (expected_target_dir g @ [n])),
               token_cost_micros = 0, wall_clock_ms = u32_of_millis (elapsed_millis env (gd_root g)), er_diff = d\<rparr>))"

lemma run_fixture_exact:
  assumes "no_faults (eval_io env)" "lists_directories env" "comparable s (expected_target_dir g)"
    and "dirs s out" "\<And>n. \<not> path_exists s (out @ [n])"
    and "run_fixture env g cwd out s = (r, s')"
    and "expected_target_dir g \<noteq> out"
  shows "(\<exists>d. r = verdict_of env g s s d) \<and> (\<forall>p. \<not> prefix out p \<longrightarrow> files s' p = files s p)"
proof (cases "check_required_schemas s g")
  case (Inl e)
  with assms(6) show ?thesis by (auto simp: run_fixture_def verdict_of_def)
next
  case (Inr u)
  let ?io = "eval_io env" and ?h = "eval_hcl env" and ?groups = "plan_groups (gd_plan g)"
  obtain r1 s1 where gen: "emit_groups ?io ?h cwd out (plan_run_id (gd_plan g)) ?groups s = (r1, s1)" by force
  have "distinct (map fst ?groups)"
    by (simp add: plan_groups_def bt_wf_distinct group_by_target_type(1))
  from emit_groups_fresh [OF assms(1) this _ gen] assms(5)
  have d: "dirs s1 = dirs s" and off: "\<And>p. \<forall>n. p \<noteq> out @ [n] \<Longrightarrow> files s1 p = files s p"
    and here: "case render_groups ?h ?groups of Inl e \<Rightarrow> r1 = Inl e
     | Inr cs \<Rightarrow> (\<exists>es. r1 = Inr es) \<and>
         (\<forall>n. files s1 (out @ [n]) = (case map_of cs n of Some c \<Rightarrow> Some c | None \<Rightarrow> files s (out @ [n])))"
    by (auto simp: target_path_def)
  have gen': "generate ?io ?h cwd out (gd_plan g) s =
      (case r1 of Inl e \<Rightarrow> (Inl e, s1)
       | Inr emitted \<Rightarrow> (Inr \<lparr>ga_files = map ef_path emitted, ga_backups = List.map_filter ef_backup_path emitted,
             ga_backups_created = length (filter ef_overwrote emitted), ga_emitted = emitted\<rparr>, s1))"
    using gen assms(4) by (simp add: generate_def emit_def bindA_def plan_groups_def split: sum.split)
  have out_off: "files s1 p = files s p" if "\<not> prefix out p" for p using off that by (auto simp: prefix_def)
  show ?thesis
  proof (cases "render_groups ?h ?groups")
    case (Inl e)
    with assms(6) Inr here gen' out_off show ?thesis by (auto simp: run_fixture_def verdict_of_def)
  next
    case ok: (Inr cs)
    let ?e = "expected_target_dir g"
    have none: "files s (out @ [n]) = None" for n using assms(5) [of n] by (simp add: path_exists_def)
    have outf: "files s1 (out @ [n]) = map_of cs n" for n
      using here ok none by (auto split: option.splits)
    have exp: "files s1 (?e @ [n]) = files s (?e @ [n])" for n using off assms(7) by simp
    have "comparable s1 ?e" using assms(3) d by (simp add: comparable_def names_in_def is_file_def exp)
    note cmp = compare_exact [OF assms(2) _ this, of out, unfolded outf exp]
    have eout: "comparable s1 out"
      unfolding comparable_def
    proof (intro conjI ballI impI)
      have "names_in s1 out \<subseteq> fst ` set cs"
        by (auto simp: names_in_def is_file_def outf map_of_eq_None_iff dest: map_of_SomeD intro: rev_image_eqI)
      then show "finite (names_in s1 out)" by (rule finite_subset) simp
      fix n assume "n \<in> names_in s1 out"
      then obtain c where "(n, c) \<in> set cs" by (auto simp: names_in_def is_file_def outf dest: map_of_SomeD)
      with render_groups_types [OF ok] template_types_utf8 show "valid_utf8 n" by blast
    qed (use assms(4) d in simp)
    from cmp [OF eout] obtain d where "compare_directories env s1 out ?e =
        Inr \<lparr>cr_passed = same_tf_files (map_of cs) (\<lambda>n. files s (?e @ [n])), cr_diff = d\<rparr>" by auto
    with assms(6) Inr here gen' ok out_off show ?thesis by (auto simp: run_fixture_def verdict_of_def)
  qed
qed

lemma run_golden_parts:
  assumes "eval_temp_dir env s = Some cwd" "eval_temp_dir env (create_dir_all cwd s) = Some out"
    and "run_fixture env g cwd out (create_dir_all out (create_dir_all cwd s)) = (r, s1)"
  shows "run_golden env g s = (r, remove_tree cwd (remove_tree out s1))"
  using assms by (simp add: run_golden_def in_eval_temp_def)

lemma run_golden_costs_nothing: "run_golden env g s = (Inr r, s') \<Longrightarrow> token_cost_micros r = 0"
  by (auto simp: run_golden_def in_eval_temp_def run_fixture_def split: option.splits prod.splits sum.splits)

lemma run_suite_costs_nothing:
  assumes "run_suite env root s = (Inr report, s')"
  shows "total_token_cost_micros report = 0" "\<forall>r\<in>set (results report). token_cost_micros r = 0"
proof -
  have each: "run_each env gs s = (Inr rs, s') \<Longrightarrow> \<forall>r\<in>set rs. token_cost_micros r = 0" for gs s rs
    by (induction gs arbitrary: s rs) (fastforce simp: bindA_eq_Inr dest: run_golden_costs_nothing)+
  from assms obtain gs rs s1 where "run_each env gs s = (Inr rs, s1)" and rep: "report = report_of rs"
    and "s1 = s'"
    by (auto simp: run_suite_def bindA_eq_Inr split: sum.splits)
  with each have zero: "\<forall>r\<in>set rs. token_cost_micros r = 0" by blast
  then have "sum_list (map token_cost_micros rs) = 0" by (induction rs) auto
  with rep zero show "total_token_cost_micros report = 0" "\<forall>r\<in>set (results report). token_cost_micros r = 0"
    by (simp_all add: report_of_def Let_def)
qed

section \<open>Properties\<close>

text \<open>C19. A fixture passes exactly when its expected directory holds, for every name ending in .tf, the bytes
  the generator renders for the plan, and nothing else; a generator error or a missing schema is the
  result of the run, in that order of precedence; and the run changes no file outside its temporary
  directories, which it removes.\<close>

theorem fixture_passes_iff_expected:
  assumes "no_faults (eval_io env)" "lists_directories env" "comparable s (expected_target_dir g)"
    and "fresh_temp env s cwd" "fresh_temp env (create_dir_all cwd s) out"
  shows "\<exists>d s'. run_golden env g s
      = (verdict_of env g (create_dir_all out (create_dir_all cwd s)) s d, s') \<and> files s' = files s"
proof -
  let ?s1 = "create_dir_all cwd s" let ?s = "create_dir_all out ?s1" and ?e = "expected_target_dir g"
  have fs: "files ?s = files s" by (simp add: create_dir_all_def)
  have cwd: "\<not> path_exists s p" if "prefix cwd p" for p using assms(4) that by (simp add: fresh_temp_def)
  have out: "\<not> path_exists ?s1 p" if "prefix out p" for p using assms(5) that by (simp add: fresh_temp_def)
  have e: "dirs s ?e" using assms(3) by (simp add: comparable_def)
  have "comparable ?s ?e" using assms(3) by (simp add: comparable_def names_in_def is_file_def create_dir_all_def)
  moreover have "dirs ?s out" by (simp add: create_dir_all_def)
  moreover have "\<not> path_exists ?s (out @ [n])" for n
    using out [of "out @ [n]"] by (auto simp: path_exists_def create_dir_all_def prefix_def)
  moreover have "?e \<noteq> out" using e out [of ?e] by (auto simp: path_exists_def create_dir_all_def)
  moreover obtain r s1 where run: "run_fixture env g cwd out ?s = (r, s1)" by force
  ultimately obtain d where r: "r = verdict_of env g ?s ?s d"
    and off: "\<And>p. \<not> prefix out p \<Longrightarrow> files s1 p = files ?s p"
    using run_fixture_exact [OF assms(1,2)] by metis
  have "files (remove_tree out s1) = files ?s1"
    using remove_fresh [of out ?s1 s1] out off fs by (simp add: create_dir_all_def)
  then have "files (remove_tree cwd (remove_tree out s1)) = files s"
    using remove_fresh [of cwd s "remove_tree out s1"] cwd by (simp add: create_dir_all_def)
  moreover have "run_golden env g s = (r, remove_tree cwd (remove_tree out s1))"
    using run_golden_parts [OF _ _ run] assms(4,5) by (simp add: fresh_temp_def)
  moreover have "verdict_of env g ?s ?s d = verdict_of env g ?s s d" unfolding verdict_of_def fs ..
  ultimately show ?thesis using r by auto
qed

section \<open>Witnesses\<close>

text \<open>A disk with an expected directory, and an environment that lists directories.\<close>

definition wit_eval_fs :: fs where
  "wit_eval_fs = \<lparr>files = [[''g'', ''expected'', ''aws_vpc.tf''] \<mapsto> ''aws_vpcm''],
     dirs = (\<lambda>p. p \<in> {[], [''g''], [''g'', ''expected'']})\<rparr>"

definition wit_eval_env :: eval_env where
  "wit_eval_env =
     \<lparr>read_dir = (\<lambda>s d. Some (map (\<lambda>n. (n, Some Is_file)) (sorted_list_of_set (names_in s d)))),
      manifest_of_toml = (\<lambda>_. Inl []), golden_plan_of_json = (\<lambda>_. Inl []), diff_lines = (\<lambda>_ _. []),
      eval_temp_dir = (\<lambda>s. Some (if dirs s [''t1''] then [''t2''] else [''t1''])),
      elapsed_millis = (\<lambda>_. 5), eval_io = wit_io, eval_hcl = wit_hcl\<rparr>"

definition wit_golden :: "mapped_resource list \<Rightarrow> golden_migration" where
  "wit_golden rs = \<lparr>gd_root = [''g''],
     gd_manifest = \<lparr>gm_name = ''001'', gm_description = [], gm_source_provider = ''google'', gm_target_provider = ''aws'',
       token_cost_ceiling_micros = 0, articles = [], required_schemas = []\<rparr>,
     source_tf = [''g'', ''source.tf''], gd_plan = wit_gen_plan rs, expected_target_dir = [''g'', ''expected'']\<rparr>"

theorem fixture_passes_iff_expected_witness:
  "\<exists>r s'. run_golden wit_eval_env (wit_golden [wit_vpc]) wit_eval_fs = (Inr r, s') \<and> er_passed r
     \<and> files s' = files wit_eval_fs"
proof -
  let ?g = "wit_golden [wit_vpc]" and ?s1 = "create_dir_all [''t1''] wit_eval_fs"
  let ?s2 = "create_dir_all [''t2''] ?s1"
  have n: "names_in wit_eval_fs [''g'', ''expected''] = {''aws_vpc.tf''}"
    by (auto simp: names_in_def is_file_def wit_eval_fs_def split: if_splits)
  have "no_faults (eval_io wit_eval_env)" by (simp add: wit_eval_env_def wit_io_def no_faults_def)
  moreover have "lists_directories wit_eval_env" by (auto simp: lists_directories_def wit_eval_env_def)
  moreover have "comparable wit_eval_fs (expected_target_dir ?g)"
    using template_types_utf8 [of "''aws_vpc''"] n
    by (simp add: comparable_def wit_golden_def template_for_def stage1_registry_def) (simp add: wit_eval_fs_def)
  moreover have "fresh_temp wit_eval_env wit_eval_fs [''t1'']" "fresh_temp wit_eval_env ?s1 [''t2'']"
    by (auto simp: fresh_temp_def wit_eval_env_def wit_eval_fs_def path_exists_def create_dir_all_def prefix_Cons)
  ultimately obtain d s' where run: "run_golden wit_eval_env ?g wit_eval_fs = (verdict_of wit_eval_env ?g ?s2 wit_eval_fs d, s')"
    "files s' = files wit_eval_fs" using fixture_passes_iff_expected by blast
  have "render_group wit_hcl ''aws_vpc'' [wit_vpc] = Inr ''aws_vpcm''"
    by (simp add: render_group_def template_for_def stage1_registry_def wit_vpc_block body_from_blocks_def)
      (simp add: wit_hcl_def)
  then have "render_groups (eval_hcl wit_eval_env) (plan_groups (gd_plan ?g)) = Inr [(''aws_vpc.tf'', ''aws_vpcm'')]"
    by (simp add: plan_groups_def wit_golden_def wit_gen_plan_def wit_groups wit_eval_env_def)
  moreover have "check_required_schemas ?s2 ?g = Inr ()" by (simp add: check_required_schemas_def wit_golden_def)
  moreover have "same_tf_files (map_of [(''aws_vpc.tf'', ''aws_vpcm'')]) (\<lambda>n. files wit_eval_fs (expected_target_dir ?g @ [n]))"
    by (simp add: same_tf_files_def wit_eval_fs_def wit_golden_def)
  ultimately show ?thesis using run by (auto simp: verdict_of_def)
qed

end
