(* ===== verification/Float_Rounding.thy ===== *)
theory Float_Rounding
  imports Float64
begin

text \<open>
  Rounding is monotone: the pattern \<open>f64_round\<close> picks for a non-negative value \<open>m * 2 ^ e\<close> depends on
  that value only, and a larger value never gets a smaller pattern. What follows for the quotient
  \<open>(a - b) / b * 100\<close> of two integers is exact near the constants the sources compare it with.
\<close>

section \<open>Rounding and scaling\<close>

lemma div_nearest_even_double: "div_nearest_even (2 * m) (Suc k) = div_nearest_even m k"
proof (cases "k = 0")
  case True
  then show ?thesis by (simp add: div_nearest_even_def)
next
  case False
  have q: "2 * m div 2 ^ Suc k = m div 2 ^ k" by (simp only: power_Suc div_mult_mult1)
  have r: "2 * m mod 2 ^ Suc k = 2 * (m mod 2 ^ k)" by (simp only: power_Suc mod_mult_mult1)
  have lt: "2 * (2 * (m mod 2 ^ k)) < 2 ^ Suc k \<longleftrightarrow> 2 * (m mod 2 ^ k) < 2 ^ k"
    "2 ^ Suc k < 2 * (2 * (m mod 2 ^ k)) \<longleftrightarrow> 2 ^ k < 2 * (m mod 2 ^ k)"
    unfolding power_Suc by linarith+
  show ?thesis unfolding div_nearest_even_def Let_def q r lt using False by (simp only: nat.distinct if_False)
qed

lemma div_nearest_even_bounds:
  "m div 2 ^ k \<le> div_nearest_even m k" "div_nearest_even m k \<le> m div 2 ^ k + 1"
  by (auto simp: div_nearest_even_def Let_def)

lemma div_nearest_even_mono:
  assumes "m \<le> m'"
  shows "div_nearest_even m k \<le> div_nearest_even m' k"
proof (cases "m div 2 ^ k = m' div 2 ^ k")
  case True
  then have "m mod 2 ^ k \<le> m' mod 2 ^ k"
    using assms by (metis add_le_cancel_left mult_div_mod_eq)
  with True assms show ?thesis by (simp add: div_nearest_even_def Let_def)
next
  case False
  with assms have "m div 2 ^ k + 1 \<le> m' div 2 ^ k" by (simp add: div_le_mono le_neq_implies_less Suc_leI)
  with div_nearest_even_bounds [of m k] div_nearest_even_bounds [of m' k] show ?thesis by linarith
qed

text \<open>The pattern of \<open>f64_round\<close>, as a number.\<close>

definition rounded_exp :: "nat \<Rightarrow> int \<Rightarrow> int" where
  "rounded_exp m e = max 1 (e + (int (bit_length m) - 53))"

definition rounded_mant :: "nat \<Rightarrow> int \<Rightarrow> int \<Rightarrow> nat" where
  "rounded_mant m e e' = (if e \<le> e' then div_nearest_even m (nat (e' - e)) else m * 2 ^ nat (e - e'))"

definition rounded_bits :: "nat \<Rightarrow> int \<Rightarrow> nat" where
  "rounded_bits m e =
     (let e' = rounded_exp m e; m' = rounded_mant m e e' in
      if m' < 2 ^ 52 then m' else (nat e' - 1) * 2 ^ 52 + m')"

lemma f64_round_bits:
  "f64_round neg m e = of_nat (min (rounded_bits m e) f64_infinity_bits + (if neg then 2 ^ 63 else 0))"
  by (simp only: f64_round_def rounded_bits_def rounded_exp_def rounded_mant_def Let_def)

lemma rounded_bits_double: "rounded_bits (2 * m) (e - 1) = rounded_bits m e"
proof (cases "m = 0")
  case True
  have "rounded_bits 0 x = 0" for x
    by (simp add: rounded_bits_def rounded_mant_def div_nearest_even_def Let_def)
  with True show ?thesis by simp
next
  case False
  then have bl: "bit_length (2 * m) = Suc (bit_length m)" by (simp add: bit_length_pos)
  have e: "rounded_exp (2 * m) (e - 1) = rounded_exp m e" by (simp add: rounded_exp_def bl)
  have "rounded_mant (2 * m) (e - 1) e' = rounded_mant m e e'" for e'
  proof (cases "e \<le> e'")
    case True
    then have "nat (e' - (e - 1)) = Suc (nat (e' - e))" by simp
    with True show ?thesis by (simp add: rounded_mant_def div_nearest_even_double)
  next
    case gt: False
    show ?thesis
    proof (cases "e - 1 = e'")
      case True
      then have "e = e' + 1" by simp
      then show ?thesis by (simp add: rounded_mant_def div_nearest_even_def)
    next
      case False
      with gt have "nat (e - e') = Suc (nat (e - 1 - e'))" by simp
      with gt False show ?thesis by (simp add: rounded_mant_def)
    qed
  qed
  with e show ?thesis by (simp add: rounded_bits_def Let_def)
qed

lemma rounded_bits_scale: "rounded_bits (m * 2 ^ k) (e - int k) = rounded_bits m e"
proof (induction k)
  case (Suc k)
  have "m * 2 ^ Suc k = 2 * (m * 2 ^ k)" "e - int (Suc k) = (e - int k) - 1" by simp_all
  with Suc show ?case by (simp only: rounded_bits_double)
qed simp

section \<open>Rounding is monotone\<close>

lemma bit_length_mono:
  assumes "m \<le> m'"
  shows "bit_length m \<le> bit_length m'"
proof (cases "m' = 0")
  case False
  with assms bit_length_bounds [of m'] have "m < 2 ^ bit_length m'" by linarith
  then show ?thesis by (rule bit_length_le)
qed (use assms in simp)

lemma rounded_mant_upper: "rounded_mant m e (rounded_exp m e) \<le> 2 ^ 53"
proof (cases "m = 0")
  case True
  then show ?thesis by (simp add: rounded_mant_def div_nearest_even_def)
next
  case False
  let ?e = "rounded_exp m e"
  have m: "m < 2 ^ bit_length m" using False bit_length_bounds by simp
  have le: "e + int (bit_length m) \<le> ?e + 53" by (simp add: rounded_exp_def)
  show ?thesis
  proof (cases "e \<le> ?e")
    case True
    with le have "bit_length m \<le> nat (?e - e) + 53" by linarith
    then have "(2::nat) ^ bit_length m \<le> 2 ^ (nat (?e - e) + 53)" by (intro power_increasing) simp_all
    with m have "m < 2 ^ 53 * 2 ^ nat (?e - e)" by (simp add: power_add mult.commute)
    then have "m div 2 ^ nat (?e - e) < 2 ^ 53" by (simp add: less_mult_imp_div_less)
    with div_nearest_even_bounds(2) [of m "nat (?e - e)"] True show ?thesis by (simp add: rounded_mant_def)
  next
    case gt: False
    with le have "bit_length m + nat (e - ?e) \<le> 53" by linarith
    then have "(2::nat) ^ (bit_length m + nat (e - ?e)) \<le> 2 ^ 53" by (intro power_increasing) simp_all
    moreover have "m * 2 ^ nat (e - ?e) \<le> 2 ^ (bit_length m + nat (e - ?e))" using m by (simp add: power_add)
    ultimately show ?thesis using gt by (simp add: rounded_mant_def)
  qed
qed

lemma rounded_mant_lower:
  assumes "0 < m" "1 < rounded_exp m e"
  shows "2 ^ 52 \<le> rounded_mant m e (rounded_exp m e)"
proof -
  let ?e = "rounded_exp m e" and ?l = "bit_length m"
  have e: "?e = e + (int ?l - 53)" using assms(2) by (simp add: rounded_exp_def max_def split: if_splits)
  have m: "2 ^ ?l \<le> 2 * m" using bit_length_bounds assms(1) by blast
  show ?thesis
  proof (cases "e \<le> ?e")
    case True
    with e have l: "?l = Suc (nat (?e - e) + 52)" by linarith
    have "2 ^ ?l = 2 * (2 ^ 52 * (2::nat) ^ nat (?e - e))" unfolding l by (simp add: power_add)
    with m have "2 ^ 52 * 2 ^ nat (?e - e) \<le> m" by linarith
    then have "2 ^ 52 \<le> m div 2 ^ nat (?e - e)" by (simp add: less_eq_div_iff_mult_less_eq)
    with div_nearest_even_bounds(1) [of m "nat (?e - e)"] True show ?thesis by (simp add: rounded_mant_def)
  next
    case False
    with e have l: "?l + nat (e - ?e) = 53" by linarith
    have "2 ^ (?l + nat (e - ?e)) \<le> 2 * (m * 2 ^ nat (e - ?e))" using m by (simp add: power_add)
    then have "2 ^ 52 \<le> m * 2 ^ nat (e - ?e)" by (simp add: l)
    with False show ?thesis by (simp add: rounded_mant_def)
  qed
qed

lemma rounded_bits_mono:
  assumes "m \<le> m'"
  shows "rounded_bits m e \<le> rounded_bits m' e"
proof -
  let ?e1 = "rounded_exp m e" and ?e2 = "rounded_exp m' e"
  let ?m1 = "rounded_mant m e ?e1" and ?m2 = "rounded_mant m' e ?e2"
  have pos: "1 \<le> ?e1" by (simp add: rounded_exp_def)
  have le: "?e1 \<le> ?e2" using bit_length_mono [OF assms] by (simp add: rounded_exp_def)
  have bits1: "rounded_bits m e \<le> (nat ?e1 - 1) * 2 ^ 52 + ?m1" by (simp add: rounded_bits_def Let_def)
  show ?thesis
  proof (cases "?e1 = ?e2")
    case True
    have "?m1 \<le> ?m2" using assms by (simp add: True rounded_mant_def div_nearest_even_mono)
    with True show ?thesis by (simp add: rounded_bits_def Let_def)
  next
    case False
    with le pos have lt: "?e1 < ?e2" "1 < ?e2" by linarith+
    have "0 < m'" using assms False by (cases m') auto
    from rounded_mant_lower [OF this lt(2)] have lo: "2 ^ 52 \<le> ?m2" .
    have "(nat ?e1 - 1) * 2 ^ 52 + ?m1 \<le> (nat ?e1 - 1) * 2 ^ 52 + 2 ^ 53" using rounded_mant_upper by simp
    also have "\<dots> = (nat ?e1 + 1) * 2 ^ 52" using pos by (cases "nat ?e1") auto
    also have "\<dots> \<le> nat ?e2 * 2 ^ 52" using lt(1) pos by (intro mult_le_mono1) simp
    also have "\<dots> = (nat ?e2 - 1) * 2 ^ 52 + 2 ^ 52" using lt(2) by (cases "nat ?e2") auto
    also have "\<dots> \<le> rounded_bits m' e" using lo by (simp add: rounded_bits_def Let_def)
    finally show ?thesis using bits1 by linarith
  qed
qed

lemma rounded_bits_value_mono:
  assumes "e0 \<le> e" "e0 \<le> e'" "m * 2 ^ nat (e - e0) \<le> m' * 2 ^ nat (e' - e0)"
  shows "rounded_bits m e \<le> rounded_bits m' e'"
proof -
  have "rounded_bits (n * 2 ^ nat (x - e0)) e0 = rounded_bits n x" if "e0 \<le> x" for n x
    using rounded_bits_scale [of n "nat (x - e0)" x] that by simp
  with rounded_bits_mono [OF assms(3), of e0] assms(1,2) show ?thesis by simp
qed

lemma f64_round_magnitude:
  "f64_magnitude (f64_round neg m e) = min (rounded_bits m e) f64_infinity_bits"
  "f64_is_sign_negative (f64_round neg m e) = neg" "\<not> f64_is_nan (f64_round neg m e)"
proof -
  let ?b = "min (rounded_bits m e) f64_infinity_bits"
  have "?b \<le> f64_infinity_bits" by simp
  then have b: "?b < 2 ^ 63" by (simp add: f64_infinity_bits_def del: min.bounded_iff)
  have u: "unat (f64_round neg m e) = ?b + (if neg then 2 ^ 63 else 0)"
    unfolding f64_round_bits by (subst unat_of_nat, rule mod_less) (cases neg; use b in simp)
  define c where "c = ?b"
  have "c < 2 ^ 63" using b by (simp only: c_def)
  then show mag: "f64_magnitude (f64_round neg m e) = ?b" by (simp add: f64_magnitude_def u flip: c_def)
  from \<open>c < 2 ^ 63\<close> show "f64_is_sign_negative (f64_round neg m e) = neg"
    by (simp add: f64_is_sign_negative_def u flip: c_def)
  show "\<not> f64_is_nan (f64_round neg m e)"
    unfolding f64_is_nan_def mag by (simp add: f64_infinity_bits_def)
qed

section \<open>Small integers\<close>

text \<open>Where \<open>x\<close> is the integer \<open>n\<close>: an odd way to write it, but the one in which scaling is a shift.\<close>

lemma f64_of_u64_decode:
  assumes "0 < unat n" "unat n < 2 ^ 53"
  obtains k where "k \<le> 52" "f64_mant (f64_of_u64 n) = unat n * 2 ^ k" "f64_exp (f64_of_u64 n) = 1075 - k"
    "\<not> f64_is_nan (f64_of_u64 n)" "\<not> f64_is_infinite (f64_of_u64 n)" "\<not> f64_is_sign_negative (f64_of_u64 n)"
    "f64_magnitude (f64_of_u64 n) \<noteq> 0"
proof -
  let ?x = "f64_of_u64 n" and ?l = "bit_length (unat n)"
  note s = f64_of_u64_small [OF assms]
  define r where "r = unat n * 2 ^ (53 - ?l) - 2 ^ 52"
  have mag: "f64_magnitude ?x = (1022 + ?l) * 2 ^ 52 + r" "r < 2 ^ 52" "2 ^ 52 + r = unat n * 2 ^ (53 - ?l)"
    using s by (simp_all add: r_def algebra_simps)
  have "(k * 2 ^ 52 + r) div 2 ^ 52 = k" "(k * 2 ^ 52 + r) mod 2 ^ 52 = r" for k :: nat
    using mag(2) by simp_all
  then have dm: "f64_magnitude ?x div 2 ^ 52 = 1022 + ?l" "f64_magnitude ?x mod 2 ^ 52 = r"
    by (simp_all only: mag(1))
  show ?thesis
  proof (rule that [of "53 - ?l"])
    show "f64_mant ?x = unat n * 2 ^ (53 - ?l)" using dm mag(3) by (simp add: f64_mant_def)
    show "f64_exp ?x = 1075 - (53 - ?l)" using dm s(6) by (simp add: f64_exp_def)
    show "\<not> f64_is_infinite ?x"
      using mag s(6) by (simp add: f64_is_infinite_def f64_infinity_bits_def algebra_simps)
  qed (use s mag f64_of_u64_exact [OF assms(2)] in auto)
qed

text \<open>The difference of two small integers is exact.\<close>

lemma f64_neg [simp]:
  "f64_magnitude (f64_neg x) = f64_magnitude x"
  "f64_is_sign_negative (f64_neg x) \<longleftrightarrow> \<not> f64_is_sign_negative x"
proof -
  define n where "n = unat x"
  have n: "n < 2 ^ 64" using unsigned_less [of x, where ?'a = nat] by (simp add: n_def)
  have u: "unat (f64_neg x) = (n + 2 ^ 63) mod 2 ^ 64" by (simp add: f64_neg_def unat_word_ariths n_def)
  show "f64_magnitude (f64_neg x) = f64_magnitude x"
    unfolding f64_magnitude_def u n_def [symmetric] by (simp add: mod_mod_cancel)
  show "f64_is_sign_negative (f64_neg x) \<longleftrightarrow> \<not> f64_is_sign_negative x"
    unfolding f64_is_sign_negative_def u n_def [symmetric]
    using n by (cases "n < 2 ^ 63") (simp_all add: le_mod_geq not_less)
qed

lemma f64_neg_parts [simp]:
  "f64_is_nan (f64_neg x) = f64_is_nan x" "f64_is_infinite (f64_neg x) = f64_is_infinite x"
  "f64_mant (f64_neg x) = f64_mant x" "f64_exp (f64_neg x) = f64_exp x"
  by (simp_all add: f64_is_nan_def f64_is_infinite_def f64_mant_def f64_exp_def)

lemma f64_of_u64_0 [simp]: "f64_of_u64 0 = 0"
  by (simp add: f64_of_u64_eval)

lemma f64_sub_round:
  assumes "0 < unat a" "unat a < 2 ^ 53" "0 < unat b" "unat b < 2 ^ 53" "a \<noteq> b"
  shows "f64_sub (f64_of_u64 a) (f64_of_u64 b)
    = f64_round (unat a < unat b) (nat \<bar>int (unat a) - int (unat b)\<bar>) 1075"
proof -
  obtain ka where ka: "ka \<le> 52" "f64_mant (f64_of_u64 a) = unat a * 2 ^ ka" "f64_exp (f64_of_u64 a) = 1075 - ka"
    "\<not> f64_is_nan (f64_of_u64 a)" "\<not> f64_is_infinite (f64_of_u64 a)" "\<not> f64_is_sign_negative (f64_of_u64 a)"
    "f64_magnitude (f64_of_u64 a) \<noteq> 0"
    by (rule f64_of_u64_decode [OF assms(1,2)])
  obtain kb where kb: "kb \<le> 52" "f64_mant (f64_of_u64 b) = unat b * 2 ^ kb" "f64_exp (f64_of_u64 b) = 1075 - kb"
    "\<not> f64_is_nan (f64_of_u64 b)" "\<not> f64_is_infinite (f64_of_u64 b)" "\<not> f64_is_sign_negative (f64_of_u64 b)"
    "f64_magnitude (f64_of_u64 b) \<noteq> 0"
    by (rule f64_of_u64_decode [OF assms(3,4)])
  define e where "e = 1075 - max ka kb"
  have e: "min (1075 - ka) (1075 - kb) = e" by (auto simp: e_def max_def min_def)
  have shift: "(2::int) ^ k * 2 ^ (1075 - k - e) = 2 ^ max ka kb" if "k \<le> max ka kb" "k \<le> 52" for k
  proof -
    have "k + (1075 - k - e) = max ka kb" using that ka(1) kb(1) by (auto simp: e_def)
    then show ?thesis by (simp flip: power_add)
  qed
  define D where "D = int (unat a) - int (unat b)"
  have s: "f64_signed_mant (f64_of_u64 a) * 2 ^ (1075 - ka - e)
      + f64_signed_mant (f64_neg (f64_of_u64 b)) * 2 ^ (1075 - kb - e) = D * 2 ^ max ka kb"
    using ka kb shift [of ka] shift [of kb]
    by (simp add: f64_signed_mant_def D_def left_diff_distrib mult.assoc)
  have D0: "D \<noteq> 0" using assms(5) by (simp add: D_def word_uint_eq_iff)
  have "f64_sub (f64_of_u64 a) (f64_of_u64 b) = f64_round (D * 2 ^ max ka kb < 0) (nat \<bar>D * 2 ^ max ka kb\<bar>) (int e)"
    unfolding f64_sub_def f64_add_def f64_neg_parts f64_neg Let_def ka(3) kb(3) e s using ka kb D0 by simp
  also have "nat \<bar>D * 2 ^ max ka kb\<bar> = nat \<bar>D\<bar> * 2 ^ max ka kb" by (simp add: abs_mult nat_mult_distrib nat_power_eq)
  also have "int e = 1075 - int (max ka kb)" using ka(1) kb(1) by (auto simp: e_def)
  also have "(D * 2 ^ max ka kb < 0) = (unat a < unat b)" by (simp add: D_def mult_less_0_iff word_less_nat_alt [symmetric] word_less_def [symmetric])
  finally show ?thesis
    by (simp add: f64_round_bits rounded_bits_scale D_def)
qed

lemma f64_sub_of_u64:
  assumes "0 < unat b" "unat b \<le> unat a" "unat a < 2 ^ 53"
  shows "f64_sub (f64_of_u64 a) (f64_of_u64 b) = f64_of_u64 (a - b)"
proof (cases "a = b")
  case True
  obtain k where "\<not> f64_is_nan (f64_of_u64 b)" "\<not> f64_is_infinite (f64_of_u64 b)"
    "\<not> f64_is_sign_negative (f64_of_u64 b)"
    "f64_magnitude (f64_of_u64 b) \<noteq> 0"
    by (rule f64_of_u64_decode [OF assms(1)]) (use assms True in auto)
  with True show ?thesis by (simp add: f64_sub_def f64_add_def f64_signed_mant_def)
next
  case False
  have "unat (a - b) = unat a - unat b" using assms(2) by (simp add: unat_sub word_le_nat_alt)
  moreover have "nat \<bar>int (unat a) - int (unat b)\<bar> = unat a - unat b" using assms(2) by linarith
  ultimately show ?thesis using f64_sub_round [of a b] assms False by (simp add: f64_of_u64_def)
qed

lemma f64_sub_of_u64_negative:
  assumes "unat a < unat b" "unat b < 2 ^ 53"
  shows "f64_is_sign_negative (f64_sub (f64_of_u64 a) (f64_of_u64 b))"
    "\<not> f64_is_nan (f64_sub (f64_of_u64 a) (f64_of_u64 b))"
proof -
  have b: "0 < unat b" using assms(1) by simp
  obtain k where k: "\<not> f64_is_nan (f64_of_u64 b)" "\<not> f64_is_infinite (f64_of_u64 b)"
    "\<not> f64_is_sign_negative (f64_of_u64 b)" "f64_magnitude (f64_of_u64 b) \<noteq> 0"
    by (rule f64_of_u64_decode [OF b assms(2)])
  have "f64_is_sign_negative (f64_sub (f64_of_u64 a) (f64_of_u64 b)) \<and> \<not> f64_is_nan (f64_sub (f64_of_u64 a) (f64_of_u64 b))"
  proof (cases "a = 0")
    case True
    moreover have "\<not> f64_is_nan 0" "\<not> f64_is_infinite 0" "f64_magnitude 0 = 0"
      by (simp_all add: f64_tests f64_infinity_bits_def)
    ultimately show ?thesis using k by (simp add: f64_sub_def f64_add_def)
  next
    case False
    then have "0 < unat a" by (simp add: unat_gt_0)
    moreover have "a \<noteq> b" using assms(1) by auto
    ultimately show ?thesis using f64_sub_round [of a b] assms b by (simp add: f64_round_magnitude)
  qed
  then show "f64_is_sign_negative (f64_sub (f64_of_u64 a) (f64_of_u64 b))"
    "\<not> f64_is_nan (f64_sub (f64_of_u64 a) (f64_of_u64 b))" by blast+
qed

section \<open>Quotients and products\<close>

text \<open>
  The quotient of two small integers is the rounding of a number within \<open>2 ^ - 67\<close> of the exact
  quotient, on the scale \<open>2 ^ - 174\<close>.
\<close>

lemma f64_div_ratio:
  assumes "0 < unat d" "unat d < 2 ^ 53" "0 < unat b" "unat b < 2 ^ 53"
  obtains M where "f64_div (f64_of_u64 d) (f64_of_u64 b) = f64_round False M 901"
    "M * unat b \<le> 2 ^ 174 * unat d + 2 ^ 105 * unat b" "2 ^ 174 * unat d \<le> M * unat b + 2 ^ 106 * unat b"
proof -
  obtain kd where kd: "kd \<le> 52" "f64_mant (f64_of_u64 d) = unat d * 2 ^ kd" "f64_exp (f64_of_u64 d) = 1075 - kd"
    "\<not> f64_is_nan (f64_of_u64 d)" "\<not> f64_is_infinite (f64_of_u64 d)" "\<not> f64_is_sign_negative (f64_of_u64 d)"
    by (rule f64_of_u64_decode [OF assms(1,2)])
  obtain kb where kb: "kb \<le> 52" "f64_mant (f64_of_u64 b) = unat b * 2 ^ kb" "f64_exp (f64_of_u64 b) = 1075 - kb"
    "\<not> f64_is_nan (f64_of_u64 b)" "\<not> f64_is_infinite (f64_of_u64 b)" "\<not> f64_is_sign_negative (f64_of_u64 b)"
    "f64_magnitude (f64_of_u64 b) \<noteq> 0"
    by (rule f64_of_u64_decode [OF assms(3,4)])
  let ?n = "unat d * 2 ^ kd * 2 ^ 120" and ?D = "unat b * 2 ^ kb"
  define Q where "Q = ?n div ?D"
  define m where "m = 2 * Q + (if ?n mod ?D = 0 then 0 else 1)"
  define s where "s = kb + 53 - kd"
  have skd: "s + kd = kb + 53" using kd(1) by (simp add: s_def)
  have s: "s \<le> 105" using kb(1) by (simp add: s_def)
  have "f64_div (f64_of_u64 d) (f64_of_u64 b)
      = f64_round False m (int (1075 - kd) - int (1075 - kb) + 1075 - 121)"
    using kd kb by (simp add: f64_div_def Let_def m_def Q_def)
  also have "int (1075 - kd) - int (1075 - kb) + 1075 - 121 = 901 + int s"
    using kd(1) kb(1) by (simp add: s_def)
  also have "f64_round False m (901 + int s) = f64_round False (m * 2 ^ s) 901"
    using rounded_bits_scale [of m s "901 + int s"] by (simp add: f64_round_bits)
  finally have eq: "f64_div (f64_of_u64 d) (f64_of_u64 b) = f64_round False (m * 2 ^ s) 901" .
  have scale: "X * ?D * 2 ^ 54 = (2 * (X * 2 ^ s) * unat b) * 2 ^ kd" for X
  proof -
    have "(2::nat) ^ (kb + 54) = 2 ^ Suc (s + kd)" by (simp add: skd)
    then have "(2::nat) ^ kb * 2 ^ 54 = 2 * (2 ^ s * 2 ^ kd)" by (simp only: power_add power_Suc)
    then show ?thesis by (simp add: mult_ac)
  qed
  have top: "?n * 2 ^ 54 = (2 ^ 174 * unat d) * 2 ^ kd" by simp
  have "Q * ?D \<le> ?n" by (simp add: Q_def)
  then have "Q * ?D * 2 ^ 54 \<le> ?n * 2 ^ 54" by (rule mult_le_mono1)
  then have up: "2 * (Q * 2 ^ s) * unat b \<le> 2 ^ 174 * unat d" by (simp only: scale top) simp
  have "0 < ?D" using assms(3) by simp
  then have "?n < (Q + 1) * ?D" unfolding Q_def by (metis Suc_eq_plus1 dividend_less_div_times mult.commute mult_Suc_right)
  then have "?n * 2 ^ 54 \<le> (Q + 1) * ?D * 2 ^ 54" by (intro mult_le_mono1) simp
  then have lo: "2 ^ 174 * unat d \<le> 2 * ((Q + 1) * 2 ^ s) * unat b" by (simp only: scale top) simp
  have "(2::nat) ^ s \<le> 2 ^ 105" using s by (intro power_increasing) simp_all
  then have sb: "2 ^ s * unat b \<le> 2 ^ 105 * unat b" by (rule mult_le_mono1)
  have sb2: "2 * (2 ^ s * unat b) \<le> 2 ^ 106 * unat b" using sb by simp
  have "m * 2 ^ s * unat b \<le> 2 * (Q * 2 ^ s) * unat b + 2 ^ s * unat b"
    by (simp add: m_def algebra_simps)
  moreover have "2 * (Q * 2 ^ s) * unat b \<le> m * 2 ^ s * unat b" by (simp add: m_def algebra_simps)
  moreover have "2 * ((Q + 1) * 2 ^ s) * unat b = 2 * (Q * 2 ^ s) * unat b + 2 * (2 ^ s * unat b)"
    by (simp add: algebra_simps)
  ultimately have "m * 2 ^ s * unat b \<le> 2 ^ 174 * unat d + 2 ^ 105 * unat b"
    "2 ^ 174 * unat d \<le> m * 2 ^ s * unat b + 2 ^ 106 * unat b"
    using up lo sb sb2 by linarith+
  then show ?thesis by (rule that [OF eq])
qed

lemma f64_round_bounded:
  "b \<le> min (rounded_bits m e) f64_infinity_bits \<Longrightarrow> m \<le> m' \<Longrightarrow> b \<le> f64_magnitude (f64_round neg m' e)"
  "min (rounded_bits m e) f64_infinity_bits \<le> b \<Longrightarrow> m' \<le> m \<Longrightarrow> f64_magnitude (f64_round neg m' e) \<le> b"
  using rounded_bits_mono [of m m' e] rounded_bits_mono [of m' m e] by (auto simp: f64_round_magnitude)

lemma f64_value_mono:
  assumes "f64_magnitude x \<le> f64_magnitude y"
  shows "f64_mant x * 2 ^ (f64_exp x - 1) \<le> f64_mant y * 2 ^ (f64_exp y - 1)"
proof -
  let ?x = "f64_magnitude x" and ?y = "f64_magnitude y"
  have le: "?x div 2 ^ 52 \<le> ?y div 2 ^ 52" using assms by (rule div_le_mono)
  show ?thesis
  proof (cases "?x div 2 ^ 52 = ?y div 2 ^ 52")
    case True
    then have "?x mod 2 ^ 52 \<le> ?y mod 2 ^ 52" using assms by (metis add_le_cancel_left mult_div_mod_eq)
    with True assms show ?thesis by (auto simp: f64_mant_def f64_exp_def)
  next
    case False
    define p q where "p = ?x div 2 ^ 52" and "q = ?y div 2 ^ 52"
    have pq: "p < q" using le False by (simp add: p_def q_def)
    have "f64_mant x * 2 ^ (f64_exp x - 1) \<le> 2 ^ 52 * 2 ^ p"
    proof (cases p)
      case 0
      then have "?x < 2 ^ 52" by (simp add: p_def div_eq_0_iff)
      with 0 show ?thesis by (simp add: f64_mant_def f64_exp_def p_def)
    next
      case (Suc k)
      have "?x mod 2 ^ 52 < 2 ^ 52" by simp
      then have "f64_mant x \<le> 2 ^ 52 * 2" using Suc by (simp add: f64_mant_def p_def)
      then have "f64_mant x * 2 ^ k \<le> 2 ^ 52 * 2 * 2 ^ k" by (rule mult_le_mono1)
      moreover have "f64_exp x - 1 = k" using Suc by (simp add: f64_exp_def p_def)
      ultimately show ?thesis using Suc by simp
    qed
    also have "\<dots> \<le> 2 ^ 52 * 2 ^ (q - 1)" using pq by (intro mult_le_mono2 power_increasing) simp_all
    also have "\<dots> \<le> f64_mant y * 2 ^ (q - 1)" using pq by (intro mult_le_mono1) (simp add: f64_mant_def q_def)
    also have "q - 1 = f64_exp y - 1" using pq by (simp add: f64_exp_def q_def)
    finally show ?thesis .
  qed
qed

lemma f64_mul_mono:
  assumes "f64_magnitude x \<le> f64_magnitude y" "\<not> f64_is_nan x" "\<not> f64_is_nan y"
    and "\<not> f64_is_sign_negative x" "\<not> f64_is_sign_negative y"
    and "\<not> f64_is_nan h" "\<not> f64_is_infinite h" "\<not> f64_is_sign_negative h" "f64_magnitude h \<noteq> 0"
  shows "f64_magnitude (f64_mul x h) \<le> f64_magnitude (f64_mul y h)"
proof -
  have inf: "f64_magnitude (of_nat f64_infinity_bits) = f64_infinity_bits"
    by (simp add: f64_tests f64_infinity_bits_def)
  have bound: "f64_magnitude x \<le> f64_infinity_bits" if "\<not> f64_is_nan x" for x
    using that by (simp add: f64_is_nan_def f64_infinity_bits_def)
  show ?thesis
  proof (cases "f64_is_infinite y")
    case True
    then have "f64_magnitude y \<noteq> 0" by (simp add: f64_is_infinite_def f64_infinity_bits_def)
    then have y: "f64_magnitude (f64_mul y h) = f64_infinity_bits"
      using True assms inf by (simp add: f64_mul_def Let_def)
    have "f64_magnitude (f64_mul x h) \<le> f64_infinity_bits"
    proof (cases "f64_is_infinite x")
      case True
      then have "f64_magnitude x \<noteq> 0" by (simp add: f64_is_infinite_def f64_infinity_bits_def)
      then show ?thesis using True assms inf by (simp add: f64_mul_def Let_def)
    next
      case False
      then show ?thesis using assms by (simp add: f64_mul_def Let_def f64_round_magnitude)
    qed
    with y show ?thesis by simp
  next
    case False
    then have "\<not> f64_is_infinite x"
      using assms(1) bound [OF assms(3)] by (auto simp: f64_is_infinite_def)
    moreover have "rounded_bits (f64_mant x * f64_mant h) (int (f64_exp x) + int (f64_exp h) - 1075)
        \<le> rounded_bits (f64_mant y * f64_mant h) (int (f64_exp y) + int (f64_exp h) - 1075)"
    proof (rule rounded_bits_value_mono [where ?e0.0 = "int (f64_exp h) - 1074"])
      have e: "1 \<le> f64_exp z" for z by (simp add: f64_exp_def)
      show "int (f64_exp h) - 1074 \<le> int (f64_exp x) + int (f64_exp h) - 1075"
        "int (f64_exp h) - 1074 \<le> int (f64_exp y) + int (f64_exp h) - 1075" using e [of x] e [of y] by simp_all
      have "nat (int (f64_exp z) + int (f64_exp h) - 1075 - (int (f64_exp h) - 1074)) = f64_exp z - 1" for z
        using e [of z] by linarith
      with mult_le_mono1 [OF f64_value_mono [OF assms(1)], of "f64_mant h"]
      show "f64_mant x * f64_mant h * 2 ^ nat (int (f64_exp x) + int (f64_exp h) - 1075 - (int (f64_exp h) - 1074))
        \<le> f64_mant y * f64_mant h * 2 ^ nat (int (f64_exp y) + int (f64_exp h) - 1075 - (int (f64_exp h) - 1074))"
        by (simp add: mult_ac)
    qed
    ultimately show ?thesis
      using False assms by (auto simp: f64_mul_def Let_def f64_round_magnitude min_def)
  qed
qed

lemma f64_mul_div_sign:
  assumes "\<not> f64_is_nan x" "\<not> f64_is_nan y" "\<not> f64_is_infinite y" "\<not> f64_is_sign_negative y" "f64_magnitude y \<noteq> 0"
  shows "\<not> f64_is_nan (f64_div x y)" "f64_is_sign_negative (f64_div x y) = f64_is_sign_negative x"
    "\<not> f64_is_nan (f64_mul x y)" "f64_is_sign_negative (f64_mul x y) = f64_is_sign_negative x"
proof -
  have nz: "f64_is_infinite x \<Longrightarrow> f64_magnitude x \<noteq> 0" by (simp add: f64_is_infinite_def f64_infinity_bits_def)
  have c: "\<not> f64_is_nan (of_nat f64_infinity_bits)" "\<not> f64_is_nan (of_nat f64_infinity_bits + 2 ^ 63)"
    "\<not> f64_is_nan (of_nat (f64_infinity_bits + 2 ^ 63))"
    "\<not> f64_is_sign_negative (of_nat f64_infinity_bits)" "f64_is_sign_negative (of_nat f64_infinity_bits + 2 ^ 63)"
    "f64_is_sign_negative (of_nat (f64_infinity_bits + 2 ^ 63))"
    by (simp_all add: f64_tests f64_infinity_bits_def)
  show "\<not> f64_is_nan (f64_div x y)" "f64_is_sign_negative (f64_div x y) = f64_is_sign_negative x"
    using assms c by (auto simp: f64_div_def Let_def f64_round_magnitude)
  show "\<not> f64_is_nan (f64_mul x y)" "f64_is_sign_negative (f64_mul x y) = f64_is_sign_negative x"
    using assms c nz by (auto simp: f64_mul_def Let_def f64_round_magnitude)
qed

end
