(* ===== verification/Eval_Gate.thy ===== *)
theory Eval_Gate
  imports Eval Float_Rounding
begin

text \<open>
  \<open>libs/eval/src/baseline.rs\<close>: the token-cost gate. A suite report is compared with a committed baseline;
  the gate fails when the total cost has grown by more than 30 percent. The percentage is computed in
  \<open>f64\<close>; the lemmas show that the rounding never changes the decision.
\<close>

section \<open>The baseline\<close>

definition REGRESSION_THRESHOLD_PCT :: f64 where
  "REGRESSION_THRESHOLD_PCT = 0x403E000000000000"

record fixture_baseline =
  fb_token_cost_micros :: u64

record baseline =
  bl_total_token_cost_micros :: u64
  per_fixture :: "(string, fixture_baseline) btree"
  last_refreshed_iso :: string

datatype baseline_mode = Lenient | Strict

datatype regression_verdict = Pass | Fail

record fixture_delta =
  fd_name :: string
  baseline_micros :: u64
  actual_micros :: u64
  fd_delta_pct :: f64

record regression_report =
  rr_verdict :: regression_verdict
  baseline_total :: u64
  actual_total :: u64
  rr_delta_pct :: f64
  rr_per_fixture :: "fixture_delta list"
  coverage_drift :: "string list"
  first_baseline_seed_recommended :: bool

definition default_baseline_path :: "path \<Rightarrow> path" where
  "default_baseline_path suite_root = suite_root @ [''eval-baseline.json'']"

text \<open>\<open>Baseline::load\<close>; the JSON reader works on bytes.\<close>

definition load_baseline :: "(string \<Rightarrow> string + baseline) \<Rightarrow> fs \<Rightarrow> path \<Rightarrow> eval_error + baseline" where
  "load_baseline of_json s p =
     (case files s p of
        None \<Rightarrow> Inl (Eval_Io p)
      | Some bytes \<Rightarrow> (case of_json bytes of Inl e \<Rightarrow> Inl (MappingPlanParse p e) | Inr b \<Rightarrow> Inr b))"

definition from_report :: "suite_report \<Rightarrow> string \<Rightarrow> baseline" where
  "from_report report refreshed =
     \<lparr>bl_total_token_cost_micros = total_token_cost_micros report,
      per_fixture = fold (\<lambda>r m. bt_insert (er_name r) \<lparr>fb_token_cost_micros = token_cost_micros r\<rparr> m) (results report) [],
      last_refreshed_iso = refreshed\<rparr>"

section \<open>The comparison\<close>

definition pct_change :: "u64 \<Rightarrow> u64 \<Rightarrow> f64" where
  "pct_change base actual =
     (if base = 0 then 0
      else f64_mul (f64_div (f64_sub (f64_of_u64 actual) (f64_of_u64 base)) (f64_of_u64 base)) 0x4059000000000000)"

definition decide_verdict :: "u64 \<Rightarrow> u64 \<Rightarrow> baseline_mode \<Rightarrow> regression_verdict \<times> bool" where
  "decide_verdict base actual mode =
     (if base = 0 \<and> actual = 0 then (Pass, False)
      else if base = 0 \<and> 0 < actual then (case mode of Lenient \<Rightarrow> (Pass, True) | Strict \<Rightarrow> (Fail, False))
      else if f64_less REGRESSION_THRESHOLD_PCT (pct_change base actual) then (Fail, False)
      else (Pass, False))"

definition fixture_delta_of :: "baseline \<Rightarrow> eval_result \<Rightarrow> fixture_delta" where
  "fixture_delta_of b r =
     (let base = (case map_of (per_fixture b) (er_name r) of Some fb \<Rightarrow> fb_token_cost_micros fb | None \<Rightarrow> 0) in
      \<lparr>fd_name = er_name r, baseline_micros = base, actual_micros = token_cost_micros r,
       fd_delta_pct = pct_change base (token_cost_micros r)\<rparr>)"

text \<open>The stable sort by falling percentage: an element goes before those that are strictly smaller.\<close>

fun insert_worst :: "fixture_delta \<Rightarrow> fixture_delta list \<Rightarrow> fixture_delta list" where
  "insert_worst d [] = [d]"
| "insert_worst d (x # xs) =
     (if f64_less (fd_delta_pct d) (fd_delta_pct x) then x # insert_worst d xs else d # x # xs)"

definition worst_first :: "fixture_delta list \<Rightarrow> fixture_delta list" where
  "worst_first ds = foldr insert_worst ds []"

definition drift :: "suite_report \<Rightarrow> baseline \<Rightarrow> string list" where
  "drift report b =
     map (\<lambda>k. ''baseline-only: '' @ k)
       (filter (\<lambda>k. k \<notin> er_name ` set (results report)) (map fst (per_fixture b)))
     @ map (\<lambda>r. ''report-only: '' @ er_name r)
       (filter (\<lambda>r. \<not> bt_has (per_fixture b) (er_name r)) (results report))"

definition compare_against_baseline :: "suite_report \<Rightarrow> baseline \<Rightarrow> baseline_mode \<Rightarrow> regression_report" where
  "compare_against_baseline report b mode =
     (let actual = total_token_cost_micros report; base = bl_total_token_cost_micros b;
          decision = decide_verdict base actual mode in
      \<lparr>rr_verdict = fst decision, baseline_total = base, actual_total = actual,
       rr_delta_pct = pct_change base actual,
       rr_per_fixture = worst_first (map (fixture_delta_of b) (results report)),
       coverage_drift = drift report b, first_baseline_seed_recommended = snd decision\<rparr>)"

section \<open>The percentage\<close>

lemma hundred: "\<not> f64_is_nan 0x4059000000000000" "\<not> f64_is_infinite 0x4059000000000000"
  "\<not> f64_is_sign_negative 0x4059000000000000" "f64_magnitude 0x4059000000000000 \<noteq> 0"
  by (simp_all add: f64_tests f64_infinity_bits_def)

text \<open>The quotients on either side of three tenths.\<close>

lemma three_tenths:
  "rounded_bits (3 * 2 ^ 174 div 10 + 2 ^ 106) 901 = 0x3FD3333333333333"
  "rounded_bits ((3 * 2 ^ 174 + 2 ^ 122) div 10 - 2 ^ 106) 901 = 0x3FD3333333333334"
  by (simp_all add: rounded_bits_def rounded_exp_def rounded_mant_def bit_length_numeral div_nearest_even_def)

lemma thirty:
  "f64_mul 0x3FD3333333333333 0x4059000000000000 = REGRESSION_THRESHOLD_PCT"
  "f64_less REGRESSION_THRESHOLD_PCT (f64_mul 0x3FD3333333333334 0x4059000000000000)"
  by (simp_all add: f64_mul_eval f64_less_def f64_key_def f64_round_def bit_length_numeral div_nearest_even_def REGRESSION_THRESHOLD_PCT_def)

lemma above_three_tenths:
  fixes d b M K L S :: nat
  assumes "K * d \<le> M * b + S * b" "3 * b < 10 * d" "L * b \<le> K" "0 < b"
  shows "(3 * K + L) div 10 - S \<le> M"
proof -
  have "(3 * K + L) * b \<le> K * (3 * b + 1)" using assms(3) by (simp add: algebra_simps)
  also have "\<dots> \<le> K * (10 * d)" using assms(2) by (intro mult_le_mono2) simp
  also have "\<dots> \<le> (10 * M + 10 * S) * b" using assms(1) by (simp add: algebra_simps)
  finally have "3 * K + L \<le> 10 * M + 10 * S" using assms(4) by (simp only: mult_le_cancel2)
  then show ?thesis by linarith
qed

lemma below_three_tenths:
  fixes d b M K S :: nat
  assumes "M * b \<le> K * d + S * b" "10 * d \<le> 3 * b" "0 < b"
  shows "M \<le> 3 * K div 10 + 2 * S"
proof -
  have "(10 * M) * b \<le> K * (10 * d) + 10 * S * b" using assms(1) by (simp add: algebra_simps)
  also have "\<dots> \<le> K * (3 * b) + 10 * S * b" using mult_le_mono2 [OF assms(2), of K] by (rule add_le_mono1)
  also have "\<dots> = (3 * K + 10 * S) * b" by (simp add: algebra_simps)
  finally have "10 * M \<le> 3 * K + 10 * S" using assms(3) by (simp only: mult_le_cancel2)
  then show ?thesis by linarith
qed

lemma f64_zero: "f64_mant 0 = 0" "\<not> f64_is_nan 0" "\<not> f64_is_infinite 0" "\<not> f64_is_sign_negative 0" "f64_magnitude 0 = 0"
  by (simp_all add: f64_tests f64_infinity_bits_def f64_mant_def)

lemma f64_round_zero: "f64_round False 0 e = 0"
  by (simp add: f64_round_bits rounded_bits_def rounded_mant_def div_nearest_even_def Let_def)

lemma small_decode:
  assumes "0 < unat b" "unat b < 2 ^ 53"
  shows "\<not> f64_is_nan (f64_of_u64 b)" "\<not> f64_is_infinite (f64_of_u64 b)"
    "\<not> f64_is_sign_negative (f64_of_u64 b)" "f64_magnitude (f64_of_u64 b) \<noteq> 0"
  by (rule f64_of_u64_decode [OF assms]; simp)+

lemma pct_change_less:
  assumes "unat actual < unat base" "unat base < 2 ^ 53"
  shows "\<not> f64_less REGRESSION_THRESHOLD_PCT (pct_change base actual)"
proof -
  have b: "0 < unat base" using assms(1) by simp
  then have "base \<noteq> 0" by auto
  note dec = small_decode [OF b assms(2)] and neg = f64_sub_of_u64_negative [OF assms]
  note q = f64_mul_div_sign(1,2) [OF neg(2) dec(1,2,3,4)]
  have "f64_is_sign_negative (pct_change base actual)"
    using q neg(1) f64_mul_div_sign(4) [OF q(1) hundred] \<open>base \<noteq> 0\<close> by (simp add: pct_change_def)
  then show ?thesis by (simp add: f64_less_def f64_key_def REGRESSION_THRESHOLD_PCT_def f64_tests)
qed

lemma pct_change_same: "\<not> f64_less REGRESSION_THRESHOLD_PCT (pct_change b b)" if "unat b < 2 ^ 53"
proof (cases "b = 0")
  case True
  then show ?thesis by (simp add: pct_change_def f64_less_def f64_key_def REGRESSION_THRESHOLD_PCT_def f64_tests)
next
  case False
  then have b: "0 < unat b" by (simp add: unat_gt_0)
  note dec = small_decode [OF b that]
  have "f64_sub (f64_of_u64 b) (f64_of_u64 b) = 0" using f64_sub_of_u64 [OF b _ that] by simp
  moreover have "f64_div 0 (f64_of_u64 b) = 0"
    using dec by (simp add: f64_div_def Let_def f64_zero f64_round_zero)
  moreover have "f64_mul 0 0x4059000000000000 = 0" using hundred by (simp add: f64_mul_def Let_def f64_zero f64_round_zero)
  ultimately show ?thesis using False
    by (simp add: pct_change_def f64_less_def f64_key_def REGRESSION_THRESHOLD_PCT_def f64_tests)
qed

lemma pct_change_threshold:
  assumes "0 < unat base" "unat base \<le> 2 ^ 52" "unat actual < 2 ^ 53"
  shows "f64_less REGRESSION_THRESHOLD_PCT (pct_change base actual) \<longleftrightarrow> 13 * unat base < 10 * unat actual"
proof -
  have b53: "unat base < 2 ^ 53" using assms(2) by simp
  have base: "base \<noteq> 0" using assms(1) by auto
  consider "unat actual < unat base" | "actual = base" | "unat base < unat actual"
    by (metis linorder_cases word_unat_eq_iff)
  then show ?thesis
  proof cases
    case 1
    with pct_change_less [OF 1 b53] show ?thesis by simp
  next
    case 2
    with pct_change_same [OF b53] show ?thesis by simp
  next
    case 3
    let ?d = "actual - base"
    have d: "unat ?d = unat actual - unat base" using 3 by (simp add: unat_sub word_le_nat_alt)
    with 3 assms(3) have d0: "0 < unat ?d" "unat ?d < 2 ^ 53" by simp_all
    obtain M where q: "f64_div (f64_of_u64 ?d) (f64_of_u64 base) = f64_round False M 901"
      "M * unat base \<le> 2 ^ 174 * unat ?d + 2 ^ 105 * unat base"
      "2 ^ 174 * unat ?d \<le> M * unat base + 2 ^ 106 * unat base"
      by (rule f64_div_ratio [OF d0 assms(1) b53])
    let ?q = "f64_round False M 901"
    have pct: "pct_change base actual = f64_mul ?q 0x4059000000000000"
      using base f64_sub_of_u64 [OF assms(1) _ assms(3)] 3 q(1) by (simp add: pct_change_def)
    note sgn = f64_mul_div_sign(3,4) [OF _ hundred]
    have lo: "f64_magnitude 0x3FD3333333333333 = 0x3FD3333333333333" "f64_magnitude 0x3FD3333333333334 = 0x3FD3333333333334"
      by (simp_all add: f64_magnitude_def)
    have c: "\<not> f64_is_nan 0x3FD3333333333333" "\<not> f64_is_sign_negative 0x3FD3333333333333"
      "\<not> f64_is_nan 0x3FD3333333333334" "\<not> f64_is_sign_negative 0x3FD3333333333334" by (simp_all add: f64_tests)
    have le: "f64_le (f64_mul x 0x4059000000000000) (f64_mul y 0x4059000000000000)"
      if "f64_magnitude x \<le> f64_magnitude y" "\<not> f64_is_nan x" "\<not> f64_is_nan y"
        "\<not> f64_is_sign_negative x" "\<not> f64_is_sign_negative y" for x y
      using f64_mul_mono [OF that hundred] sgn that by (simp add: f64_le_def f64_key_def)
    show ?thesis
    proof (cases "10 * unat ?d \<le> 3 * unat base")
      case True
      have "f64_magnitude ?q \<le> 0x3FD3333333333333"
        by (rule f64_round_bounded(2) [OF _ below_three_tenths [OF q(2) True assms(1)]])
          (simp add: three_tenths(1) [simplified])
      then have "f64_le (pct_change base actual) REGRESSION_THRESHOLD_PCT"
        unfolding pct thirty(1) [symmetric] by (intro le) (simp_all add: lo c f64_round_magnitude)
      with True d show ?thesis by (auto simp: f64_le_def f64_less_def)
    next
      case False
      then have gt: "3 * unat base < 10 * unat ?d" by simp
      have L: "2 ^ 122 * unat base \<le> 2 ^ 174" using assms(2) by simp
      have "0x3FD3333333333334 \<le> f64_magnitude ?q"
        by (rule f64_round_bounded(1) [OF _ above_three_tenths [OF q(3) gt L assms(1)]])
          (simp add: three_tenths(2) [simplified] f64_infinity_bits_def)
      then have "f64_le (f64_mul 0x3FD3333333333334 0x4059000000000000) (pct_change base actual)"
        unfolding pct by (intro le) (simp_all add: lo c f64_round_magnitude)
      with gt d thirty(2) show ?thesis by (auto simp: f64_le_def f64_less_def)
    qed
  qed
qed

section \<open>A baseline made from a report\<close>

lemma from_report_rows:
  assumes "distinct (map er_name rs)"
  shows "bt_wf (fold (\<lambda>r m. bt_insert (er_name r) (v r) m) rs [])"
    "map_of (fold (\<lambda>r m. bt_insert (er_name r) (v r) m) rs []) = map_of (map (\<lambda>r. (er_name r, v r)) rs)"
proof -
  have "bt_wf (fold (\<lambda>r m. bt_insert (er_name r) (v r) m) rs m) \<and>
      map_of (fold (\<lambda>r m. bt_insert (er_name r) (v r) m) rs m) = map_of m ++ map_of (map (\<lambda>r. (er_name r, v r)) rs)"
    if "bt_wf m" for m
    using assms that
  proof (induction rs arbitrary: m)
    case (Cons r rs)
    then have "map_of (map (\<lambda>r. (er_name r, v r)) rs) (er_name r) = None"
      by (simp add: map_of_eq_None_iff image_image)
    with Cons show ?case by (auto simp: map_add_def fun_eq_iff split: option.split)
  qed simp
  from this [of "[]"] show "bt_wf (fold (\<lambda>r m. bt_insert (er_name r) (v r) m) rs [])"
    "map_of (fold (\<lambda>r m. bt_insert (er_name r) (v r) m) rs []) = map_of (map (\<lambda>r. (er_name r, v r)) rs)" by simp_all
qed

lemma set_insert_worst [simp]: "set (insert_worst d ds) = insert d (set ds)"
  by (induction ds) auto

lemma set_worst_first [simp]: "set (worst_first ds) = set ds"
  unfolding worst_first_def by (induction ds) auto

section \<open>Properties\<close>

text \<open>C17. The gate decides exactly: for a baseline up to \<open>2 ^ 52\<close> micro-dollars it fails if and only if the
  actual total is more than 1.3 times the baseline, although the percentage is rounded three times
  and 0.3 has no exact representation.\<close>

theorem gate_is_exact:
  assumes "0 < unat (bl_total_token_cost_micros b)" "unat (bl_total_token_cost_micros b) \<le> 2 ^ 52"
    and "unat (total_token_cost_micros report) < 2 ^ 53"
  shows "rr_verdict (compare_against_baseline report b mode) = Fail \<longleftrightarrow>
    13 * unat (bl_total_token_cost_micros b) < 10 * unat (total_token_cost_micros report)"
proof -
  have "bl_total_token_cost_micros b \<noteq> 0" using assms(1) by auto
  with pct_change_threshold [OF assms] show ?thesis
    by (simp add: compare_against_baseline_def decide_verdict_def Let_def)
qed

text \<open>A report passes against the baseline made from it, in both modes: no coverage drift, no seed advice,
  and every fixture's baseline is its own cost.\<close>

theorem baseline_accepts_itself:
  fixes report :: suite_report
  defines "rep \<equiv> (\<lambda>refreshed mode. compare_against_baseline report (from_report report refreshed) mode)"
  assumes "distinct (map er_name (results report))" "unat (total_token_cost_micros report) < 2 ^ 53"
  shows "rr_verdict (rep refreshed mode) = Pass \<and> coverage_drift (rep refreshed mode) = []
    \<and> \<not> first_baseline_seed_recommended (rep refreshed mode)
    \<and> list_all (\<lambda>d. baseline_micros d = actual_micros d) (rr_per_fixture (rep refreshed mode))"
proof -
  let ?v = "\<lambda>r. \<lparr>fb_token_cost_micros = token_cost_micros r\<rparr>"
  note rows = from_report_rows [OF assms(2), of ?v]
  have some: "map_of (per_fixture (from_report report refreshed)) (er_name r) = Some (?v r)" if "r \<in> set (results report)" for r
    using that assms(2) by (auto simp: from_report_def rows map_of_eq_Some_iff comp_def)
  have keys: "er_name ` set (results report) = fst ` set (per_fixture (from_report report refreshed))"
    using arg_cong [OF rows(2), of dom] by (simp add: from_report_def dom_map_of_conv_image_fst image_image)
  have "drift report (from_report report refreshed) = []"
    using some keys by (auto simp: drift_def bt_has_def filter_empty_conv)
  moreover have "fixture_delta_of (from_report report refreshed) r
      = \<lparr>fd_name = er_name r, baseline_micros = token_cost_micros r, actual_micros = token_cost_micros r,
         fd_delta_pct = pct_change (token_cost_micros r) (token_cost_micros r)\<rparr>" if "r \<in> set (results report)" for r
    using some [OF that] by (simp add: fixture_delta_of_def Let_def)
  moreover have "bl_total_token_cost_micros (from_report report refreshed) = total_token_cost_micros report"
    by (simp add: from_report_def)
  moreover have "decide_verdict t t mode = (Pass, False)" if "unat t < 2 ^ 53" for t
    using pct_change_same [OF that] by (auto simp: decide_verdict_def)
  ultimately show ?thesis
    using assms(3) by (simp add: rep_def compare_against_baseline_def Let_def list_all_iff)
qed

text \<open>Whatever the suite and the committed baseline, a report that the runner produces passes the gate: the
  runner charges no fixture, so the total it reports is 0.\<close>

theorem runner_report_passes_gate:
  assumes "run_suite env root s = (Inr report, s')" "unat (bl_total_token_cost_micros b) < 2 ^ 53"
  shows "rr_verdict (compare_against_baseline report b mode) = Pass"
proof -
  have "\<not> f64_less REGRESSION_THRESHOLD_PCT (pct_change base 0)" if "unat base < 2 ^ 53" for base
    using that pct_change_less [of 0 base] pct_change_same [of 0] by (cases "base = 0") (simp_all add: unat_gt_0)
  with assms run_suite_costs_nothing [OF assms(1)] show ?thesis
    by (simp add: compare_against_baseline_def decide_verdict_def Let_def)
qed

section \<open>Witnesses\<close>

definition wit_report :: "u64 \<Rightarrow> suite_report" where
  "wit_report cost = report_of [\<lparr>er_name = ''001'', er_passed = True, token_cost_micros = cost, wall_clock_ms = 5, er_diff = None\<rparr>]"

theorem gate_is_exact_witness:
  "rr_verdict (compare_against_baseline (wit_report 131) (from_report (wit_report 100) []) Strict) = Fail
   \<and> rr_verdict (compare_against_baseline (wit_report 130) (from_report (wit_report 100) []) Lenient) = Pass"
proof -
  have t: "total_token_cost_micros (wit_report c) = c" "bl_total_token_cost_micros (from_report (wit_report c) []) = c" for c
    by (simp_all add: wit_report_def report_of_def from_report_def)
  have "rr_verdict (compare_against_baseline (wit_report 131) (from_report (wit_report 100) []) Strict) = Fail"
    by (subst gate_is_exact) (simp_all add: t)
  moreover have "rr_verdict (compare_against_baseline (wit_report 130) (from_report (wit_report 100) []) Lenient) \<noteq> Fail"
    by (subst gate_is_exact) (simp_all add: t)
  ultimately show ?thesis by (metis regression_verdict.exhaust)
qed

theorem baseline_accepts_itself_witness:
  "rr_verdict (compare_against_baseline (wit_report 7) (from_report (wit_report 7) []) Strict) = Pass"
  using baseline_accepts_itself [of "wit_report 7" "[]" Strict] by (simp add: wit_report_def report_of_def)

theorem runner_report_passes_gate_witness:
  "\<exists>report s'. run_suite wit_eval_env [''g''] wit_eval_fs = (Inr report, s')
     \<and> rr_verdict (compare_against_baseline report (from_report (wit_report 100) []) Strict) = Pass"
proof -
  have "names_in wit_eval_fs [''g''] = {}" by (auto simp: names_in_def is_file_def wit_eval_fs_def split: if_splits)
  then have run: "run_suite wit_eval_env [''g''] wit_eval_fs = (Inr (report_of []), wit_eval_fs)"
    by (simp add: run_suite_def discover_suite_def wit_eval_env_def) (simp add: wit_eval_fs_def)
  moreover have "unat (bl_total_token_cost_micros (from_report (wit_report 100) [])) < 2 ^ 53"
    by (simp add: from_report_def wit_report_def report_of_def)
  ultimately show ?thesis using runner_report_passes_gate [OF run] by blast
qed

end
