(* ===== verification/Tui_Input.thy ===== *)
theory Tui_Input
  imports Schema_Fetcher
begin

text \<open>
  \<open>src/tui/src/app.rs\<close>: the state of the terminal interface. The input line is a UTF-8 buffer with a byte
  cursor; the operations that would panic off a character boundary return an option. The lemmas show
  that the line editor is a pair of character lists, so that it never panics.
\<close>

section \<open>The state\<close>

datatype message_kind = Msg_Banner | Msg_UserInput | Msg_Output | Msg_Error | Msg_Hint

record tui_message =
  msg_kind :: message_kind
  msg_text :: string

record status_info =
  profile_path :: "path option"
  seed_resources :: "nat option"
  st_tier :: string
  cached_schema_count :: "nat option"

record app_state =
  messages :: "tui_message list"
  input_buffer :: string
  cursor :: nat
  scroll_offset :: nat
  status :: status_info
  should_exit :: bool

definition app_new :: "status_info \<Rightarrow> app_state" where
  "app_new st = \<lparr>messages = [], input_buffer = [], cursor = 0, scroll_offset = 0, status = st, should_exit = False\<rparr>"

definition push :: "message_kind \<Rightarrow> string \<Rightarrow> app_state \<Rightarrow> app_state" where
  "push kind t app = app\<lparr>messages := messages app @ [\<lparr>msg_kind = kind, msg_text = t\<rparr>], scroll_offset := 0\<rparr>"

text \<open>The prompt, a triangle and a space.\<close>

definition prompt_mark :: string where
  "prompt_mark = [CHR 0xE2, CHR 0x96, CHR 0xB6, CHR 0x20]"

definition push_user_input :: "string \<Rightarrow> app_state \<Rightarrow> app_state" where
  "push_user_input raw = push Msg_UserInput (prompt_mark @ raw)"

text \<open>
  \<open>String::insert\<close> and \<open>String::replace_range\<close> with an empty replacement panic off a boundary; \<open>get(..i)\<close> and
  \<open>get(i..)\<close> with \<open>unwrap_or("")\<close> do not.
\<close>

definition string_insert :: "nat \<Rightarrow> string \<Rightarrow> string \<Rightarrow> string option" where
  "string_insert i c s = (if is_char_boundary s i then Some (take i s @ c @ drop i s) else None)"

definition remove_range :: "nat \<Rightarrow> nat \<Rightarrow> string \<Rightarrow> string option" where
  "remove_range i j s =
     (if i \<le> j \<and> is_char_boundary s i \<and> is_char_boundary s j then Some (take i s @ drop j s) else None)"

definition text_before :: "string \<Rightarrow> nat \<Rightarrow> string" where
  "text_before s i = (if is_char_boundary s i then take i s else [])"

definition text_after :: "string \<Rightarrow> nat \<Rightarrow> string" where
  "text_after s i = (if is_char_boundary s i then drop i s else [])"

section \<open>Editing\<close>

definition prev_boundary :: "app_state \<Rightarrow> nat" where
  "prev_boundary app =
     (case char_starts (text_before (input_buffer app) (cursor app)) of [] \<Rightarrow> 0 | is \<Rightarrow> last is)"

definition next_boundary :: "app_state \<Rightarrow> nat" where
  "next_boundary app =
     (let is = char_starts (text_after (input_buffer app) (cursor app)) in
      if 1 < length is then cursor app + is ! 1 else length (input_buffer app))"

text \<open>A typed character is its UTF-8 encoding.\<close>

definition input_insert :: "string \<Rightarrow> app_state \<Rightarrow> app_state option" where
  "input_insert c app =
     map_option (\<lambda>b. app\<lparr>input_buffer := b, cursor := cursor app + length c\<rparr>)
       (string_insert (cursor app) c (input_buffer app))"

definition input_backspace :: "app_state \<Rightarrow> app_state option" where
  "input_backspace app =
     (if cursor app = 0 then Some app
      else map_option (\<lambda>b. app\<lparr>input_buffer := b, cursor := prev_boundary app\<rparr>)
             (remove_range (prev_boundary app) (cursor app) (input_buffer app)))"

definition input_delete :: "app_state \<Rightarrow> app_state option" where
  "input_delete app =
     (if length (input_buffer app) \<le> cursor app then Some app
      else map_option (\<lambda>b. app\<lparr>input_buffer := b\<rparr>)
             (remove_range (cursor app) (next_boundary app) (input_buffer app)))"

definition input_left :: "app_state \<Rightarrow> app_state" where
  "input_left app = (if cursor app = 0 then app else app\<lparr>cursor := prev_boundary app\<rparr>)"

definition input_right :: "app_state \<Rightarrow> app_state" where
  "input_right app =
     (if length (input_buffer app) \<le> cursor app then app else app\<lparr>cursor := next_boundary app\<rparr>)"

definition take_input :: "app_state \<Rightarrow> string \<times> app_state" where
  "take_input app = (input_buffer app, app\<lparr>input_buffer := [], cursor := 0\<rparr>)"

definition scroll_up :: "nat \<Rightarrow> app_state \<Rightarrow> app_state" where
  "scroll_up lines app = app\<lparr>scroll_offset := min (scroll_offset app + lines) (2 ^ 64 - 1)\<rparr>"

definition scroll_down :: "nat \<Rightarrow> app_state \<Rightarrow> app_state" where
  "scroll_down lines app = app\<lparr>scroll_offset := scroll_offset app - lines\<rparr>"

definition request_exit :: "app_state \<Rightarrow> app_state" where
  "request_exit app = app\<lparr>should_exit := True\<rparr>"

section \<open>Characters\<close>

lemma utf8_unit_shape:
  assumes "utf8_unit u"
  obtains c cs where "u = c # cs" "\<not> is_continuation_byte c" "list_all is_continuation_byte cs"
proof -
  have lead: "\<not> is_continuation_byte c" if "in_range a b c" "b < 128 \<or> 192 \<le> a" for a b c
    using that by (auto simp: in_range_def is_continuation_byte_def)
  have cont: "is_continuation_byte c" if "in_range a b c" "128 \<le> a" "b < 192" for a b c
    using that by (auto simp: in_range_def is_continuation_byte_def)
  from assms obtain c cs where u: "u = c # cs" by (cases u) (auto simp: utf8_unit_def)
  have "\<not> is_continuation_byte c \<and> list_all is_continuation_byte cs"
    using assms unfolding u utf8_unit_def
    by (auto split: list.splits dest: lead cont intro: cont)
  with u that show ?thesis by blast
qed

lemma utf8_unit_nonempty: "utf8_unit u \<Longrightarrow> u \<noteq> []"
  by (auto elim: utf8_unit_shape)

definition all_units :: "string list \<Rightarrow> bool" where
  "all_units us \<longleftrightarrow> list_all utf8_unit us"

lemma all_units_simps [simp]:
  "all_units []" "all_units (u # us) \<longleftrightarrow> utf8_unit u \<and> all_units us"
  "all_units (us @ vs) \<longleftrightarrow> all_units us \<and> all_units vs"
  by (auto simp: all_units_def)

lemma char_starts_append: "char_starts (a @ b) = char_starts a @ map ((+) (length a)) (char_starts b)"
proof -
  have plus: "(\<lambda>i. i + length a) = (+) (length a)" by (rule ext) simp
  have "[0..<length (a @ b)] = [0..<length a] @ map ((+) (length a)) [0..<length b]"
    using upt_add_eq_append [of 0 "length a" "length b"] map_add_upt [of "length a" "length b"]
    by (simp add: plus add.commute)
  moreover have "filter (\<lambda>i. \<not> is_continuation_byte ((a @ b) ! i)) [0..<length a] = char_starts a"
    unfolding char_starts_def by (intro filter_cong) (auto simp: nth_append)
  moreover have "filter (\<lambda>i. \<not> is_continuation_byte ((a @ b) ! i)) (map ((+) (length a)) [0..<length b])
      = map ((+) (length a)) (char_starts b)"
    by (simp add: char_starts_def filter_map comp_def)
  ultimately show ?thesis by (simp add: char_starts_def [of "a @ b"])
qed

lemma char_starts_unit: "utf8_unit u \<Longrightarrow> char_starts u = [0]"
proof (erule utf8_unit_shape)
  fix c cs assume u: "u = c # cs" "\<not> is_continuation_byte c" "list_all is_continuation_byte cs"
  have "filter (\<lambda>i. \<not> is_continuation_byte ((c # cs) ! i)) (map Suc [0..<length cs]) = []"
    using u(3) by (auto simp: filter_empty_conv list_all_length)
  moreover have "[0..<length u] = 0 # map Suc [0..<length cs]" 
    using u(1) upt_conv_Cons [of 0 "Suc (length cs)"] by (simp add: map_Suc_upt del: upt_Suc)
  ultimately show "char_starts u = [0]" using u by (simp add: char_starts_def)
qed

lemma char_starts_snoc:
  "utf8_unit u \<Longrightarrow> char_starts (s @ u) = char_starts s @ [length s]"
  by (simp add: char_starts_append char_starts_unit)

lemma char_starts_Cons:
  "utf8_unit u \<Longrightarrow> char_starts (u @ s) = 0 # map ((+) (length u)) (char_starts s)"
  by (simp add: char_starts_append char_starts_unit)

lemma char_starts_concat_empty: "all_units us \<Longrightarrow> char_starts (concat us) = [] \<longleftrightarrow> us = []"
  by (cases us) (auto simp: char_starts_Cons char_starts_def [of "[]"])

lemma boundary_units:
  assumes "all_units r"
  shows "is_char_boundary (s @ concat r) (length s)"
proof (cases r)
  case (Cons u us)
  with assms obtain c cs where "u = c # cs" "\<not> is_continuation_byte c" by (auto elim: utf8_unit_shape)
  with Cons show ?thesis by (simp add: is_char_boundary_def nth_append)
qed (simp add: is_char_boundary_def)

section \<open>The line editor as a pair of character lists\<close>

text \<open>\<open>shows_line app l r\<close>: the characters \<open>l\<close> stand before the cursor, the characters \<open>r\<close> after it.\<close>

definition shows_line :: "app_state \<Rightarrow> string list \<Rightarrow> string list \<Rightarrow> bool" where
  "shows_line app l r \<longleftrightarrow> all_units l \<and> all_units r
     \<and> input_buffer app = concat l @ concat r \<and> cursor app = length (concat l)"

lemma shows_line_before:
  "shows_line app l r \<Longrightarrow> text_before (input_buffer app) (cursor app) = concat l"
  "shows_line app l r \<Longrightarrow> text_after (input_buffer app) (cursor app) = concat r"
  by (auto simp: shows_line_def text_before_def text_after_def boundary_units)

lemma shows_insert:
  assumes "shows_line app l r" "utf8_unit c"
  shows "\<exists>app'. input_insert c app = Some app' \<and> shows_line app' (l @ [c]) r"
  using assms boundary_units [of r "concat l"]
  by (auto simp: shows_line_def input_insert_def string_insert_def)

lemma prev_boundary_snoc:
  assumes "shows_line app (l @ [u]) r"
  shows "prev_boundary app = length (concat l)"
proof -
  have u: "utf8_unit u" using assms by (simp add: shows_line_def)
  show ?thesis using shows_line_before(1) [OF assms] char_starts_snoc [OF u, of "concat l"]
    by (cases "char_starts (concat l)") (simp_all add: prev_boundary_def)
qed

lemma next_boundary_Cons:
  assumes "shows_line app l (u # r)"
  shows "next_boundary app = length (concat l) + length u"
proof -
  have u: "utf8_unit u" and r: "all_units r" and c: "cursor app = length (concat l)"
    and len: "length (input_buffer app) = length (concat l) + length u + length (concat r)"
    using assms by (simp_all add: shows_line_def)
  note at = shows_line_before(2) [OF assms] 
  show ?thesis
  proof (cases r)
    case Nil
    then show ?thesis using at u len by (simp add: next_boundary_def char_starts_unit Let_def)
  next
    case (Cons v vs)
    then have "char_starts (concat r) = 0 # map ((+) (length v)) (char_starts (concat vs))"
      using r by (simp add: char_starts_Cons)
    then show ?thesis using at u c by (simp add: next_boundary_def char_starts_Cons Let_def)
  qed
qed

lemma shows_backspace:
  assumes "shows_line app l r"
  shows "\<exists>app'. input_backspace app = Some app' \<and> shows_line app' (butlast l) r"
proof (cases l rule: rev_cases)
  case Nil
  with assms show ?thesis by (auto simp: input_backspace_def shows_line_def)
next
  case (snoc l' u)
  then have u: "u \<noteq> []" using assms utf8_unit_nonempty by (auto simp: shows_line_def)
  have p: "prev_boundary app = length (concat l')" using prev_boundary_snoc assms snoc by blast
  have "is_char_boundary (concat l' @ concat (u # r)) (length (concat l'))"
    "is_char_boundary ((concat l' @ u) @ concat r) (length (concat l' @ u))"
    using assms snoc by (intro boundary_units; simp add: shows_line_def)+
  then show ?thesis
    using assms snoc u p by (auto simp: input_backspace_def remove_range_def shows_line_def)
qed

lemma shows_delete:
  assumes "shows_line app l r"
  shows "\<exists>app'. input_delete app = Some app' \<and> shows_line app' l (tl r)"
proof (cases r)
  case Nil
  with assms show ?thesis by (auto simp: input_delete_def shows_line_def)
next
  case (Cons u r')
  then have u: "u \<noteq> []" using assms utf8_unit_nonempty by (auto simp: shows_line_def)
  have n: "next_boundary app = length (concat l) + length u" using next_boundary_Cons assms Cons by blast
  have "is_char_boundary (concat l @ concat (u # r')) (length (concat l))"
    "is_char_boundary ((concat l @ u) @ concat r') (length (concat l @ u))"
    using assms Cons by (intro boundary_units; simp add: shows_line_def)+
  then show ?thesis
    using assms Cons u n by (auto simp: input_delete_def remove_range_def shows_line_def)
qed

lemma shows_left:
  assumes "shows_line app l r"
  shows "shows_line (input_left app) (butlast l) (if l = [] then r else last l # r)"
proof (cases l rule: rev_cases)
  case Nil
  with assms show ?thesis by (auto simp: input_left_def shows_line_def)
next
  case (snoc l' u)
  then have "u \<noteq> []" using assms utf8_unit_nonempty by (auto simp: shows_line_def)
  with prev_boundary_snoc [of app l' u r] assms snoc show ?thesis by (auto simp: input_left_def shows_line_def)
qed

lemma shows_right:
  assumes "shows_line app l r"
  shows "shows_line (input_right app) (if r = [] then l else l @ [hd r]) (tl r)"
proof (cases r)
  case Nil
  with assms show ?thesis by (auto simp: input_right_def shows_line_def)
next
  case (Cons u r')
  then have "u \<noteq> []" using assms utf8_unit_nonempty by (auto simp: shows_line_def)
  with next_boundary_Cons [of app l u r'] assms Cons show ?thesis by (auto simp: input_right_def shows_line_def)
qed

end
