(* ===== verification/Tui.thy ===== *)
theory Tui
  imports Tui_Input Scanner Schema_Cache
begin

text \<open>
  \<open>src/tui/src\<close>: the slash commands, the key handler, the event loop with its terminal guard, and what
  \<open>view.rs\<close> computes before it draws; the scan report of \<open>src/cli/src/commands/scan.rs\<close>; the start of the
  interface in \<open>src/cli/src/main.rs\<close>. The lemmas show that no key sequence makes the interface panic, that
  the terminal is given back whatever ends the session, and what the registry answers.
\<close>

section \<open>Commands\<close>

datatype action = StartMigration string | Checkpoint | Rollback string | Compact | Exit

datatype command_outcome = Text string | Action action | Outcome_Error string | Hint string

datatype slash_command =
    Help | Scan | Audit | Migrate_cmd | Checkpoint_cmd | PlanCmd | Cost | Rollback_cmd | Compact_cmd | Schemas | Quit

type_synonym registry = "(string, slash_command) btree"

text \<open>What the commands see of the machine.\<close>

record 'x tui_env =
  te_disk :: fs
  te_path_of :: "string \<Rightarrow> path"
  te_reader :: "'x hcl_reader"
  te_tree :: "path \<Rightarrow> (bool \<times> string option \<times> walk_node list) option"
  te_show_error :: "scanner_error \<Rightarrow> string"

text \<open>\<open>name()\<close> and \<open>description()\<close> of each command.\<close>

definition help_info :: "string \<times> string" where
  "help_info = (''help'', ''Show help and available slash commands'')"

definition scan_info :: "string \<times> string" where
  "scan_info = (''scan'', ''Print resource inventory of <dir> (no LLM, read-only)'')"

definition audit_info :: "string \<times> string" where
  "audit_info = (''audit'', ''Inspect the signed audit log (chain integrity, export, query)'')"

definition migrate_info :: "string \<times> string" where
  "migrate_info = (''migrate'', ''Start a migration run from <plan_path>'')"

definition checkpoint_info :: "string \<times> string" where
  "checkpoint_info = (''checkpoint'', ''Save current run state so it can be resumed later'')"

definition plan_info :: "string \<times> string" where
  "plan_info = (''plan'', ''Preview a migration'' @ [CHR 0x27] @ ''s HCL output before apply (Stage 2+)'')"

definition cost_info :: "string \<times> string" where
  "cost_info = (''cost'', ''Show cost analysis for the current migration (Stage 2+)'')"

definition rollback_info :: "string \<times> string" where
  "rollback_info = (''rollback'', ''Restore a prior run'' @ [CHR 0x27] @ ''s pre-migration state (Stage 2+)'')"

definition compact_info :: "string \<times> string" where
  "compact_info = (''compact'', ''Compact conversation context to reclaim window space (Stage 2+)'')"

definition schemas_info :: "string \<times> string" where
  "schemas_info = (''schemas'', ''Show how to manage cached provider schemas (delegates to CLI)'')"

definition quit_info :: "string \<times> string" where
  "quit_info = (''quit'', ''Exit Terrashift (alias: /exit, Ctrl+C)'')"

fun command_info :: "slash_command \<Rightarrow> string \<times> string" where
  "command_info Help = help_info"
| "command_info Scan = scan_info"
| "command_info Audit = audit_info"
| "command_info Migrate_cmd = migrate_info"
| "command_info Checkpoint_cmd = checkpoint_info"
| "command_info PlanCmd = plan_info"
| "command_info Cost = cost_info"
| "command_info Rollback_cmd = rollback_info"
| "command_info Compact_cmd = compact_info"
| "command_info Schemas = schemas_info"
| "command_info Quit = quit_info"

lemmas command_infos = help_info_def scan_info_def audit_info_def migrate_info_def checkpoint_info_def plan_info_def cost_info_def rollback_info_def compact_info_def schemas_info_def quit_info_def

definition stage1_commands :: registry where
  "stage1_commands =
     fold (\<lambda>(k, c). bt_insert k c)
       [(''help'', Help), (''scan'', Scan), (''audit'', Audit), (''migrate'', Migrate_cmd),
        (''checkpoint'', Checkpoint_cmd), (''plan'', PlanCmd), (''cost'', Cost), (''rollback'', Rollback_cmd),
        (''compact'', Compact_cmd), (''schemas'', Schemas), (''quit'', Quit), (''exit'', Quit)] []"

definition registry_list :: "registry \<Rightarrow> (string \<times> string) list" where
  "registry_list reg = map (\<lambda>(_, c). command_info c) reg"

definition help_text :: "registry \<Rightarrow> string" where
  "help_text reg = ''Available commands:'' @ nl
     @ concat (map (\<lambda>(name, desc). ''  /'' @ name @ replicate (11 - length name) CHR '' '' @ '' '' @ desc @ nl)
         (registry_list reg))"

text \<open>The inventory by resource type: \<open>*counts.entry(t).or_insert(0) += 1\<close>.\<close>

definition count_type :: "string \<Rightarrow> (string, nat) btree \<Rightarrow> (string, nat) btree" where
  "count_type t counts = bt_insert t (Suc (case map_of counts t of Some n \<Rightarrow> n | None \<Rightarrow> 0)) counts"

definition type_counts :: "estate_inventory \<Rightarrow> (string, nat) btree" where
  "type_counts estate = fold count_type (map resource_type (concat (map sf_resources (inv_files estate)))) []"

definition count_lines :: "(string, nat) btree \<Rightarrow> string" where
  "count_lines counts = concat (map (\<lambda>(t, n). writeln (''  '' @ t @ '': '' @ nat_str n)) counts)"

text \<open>The headline of both scan reports: an open folder, a check mark.\<close>

definition scan_head :: "string \<Rightarrow> estate_inventory \<Rightarrow> string" where
  "scan_head dir estate =
     writeln ([CHR 0xF0, CHR 0x9F, CHR 0x93, CHR 0x82] @ '' Scanning '' @ dir @ '' ...'')
     @ writeln ([CHR 0xE2, CHR 0x9C, CHR 0x93, CHR '' ''] @ nat_str (length (inv_files estate)) @ '' file(s); ''
         @ nat_str (resource_count estate) @ '' resource(s)'')"

definition trim_end :: "string \<Rightarrow> string" where
  "trim_end s = rev (trim_start (map rev white_space) (rev s))"

definition scan_path :: "'x tui_env \<Rightarrow> path \<Rightarrow> scanner_error + estate_inventory" where
  "scan_path env p = scan_estate (te_reader env) (read_to_string (te_disk env)) p (te_tree env p)"

definition run_scan_command :: "'x tui_env \<Rightarrow> string \<Rightarrow> command_outcome" where
  "run_scan_command env args =
     (let dir = str_trim args in
      if dir = [] then Outcome_Error ''/scan requires a directory: /scan <path>''
      else if \<not> path_exists (te_disk env) (te_path_of env dir) then Outcome_Error (''path does not exist: '' @ dir)
      else case scan_path env (te_path_of env dir) of
        Inl e \<Rightarrow> Outcome_Error (''scan failed: '' @ te_show_error env e)
      | Inr estate \<Rightarrow>
          Text (trim_end (scan_head dir estate
            @ (if 0 < resource_count estate
               then writeln [] @ writeln ''Resource types:'' @ count_lines (type_counts estate) else []))))"

text \<open>\<open>terrashift scan\<close> prints the types even when there is no resource.\<close>

definition cli_scan :: "'x tui_env \<Rightarrow> string \<Rightarrow> scanner_error + string" where
  "cli_scan env dir =
     (case scan_path env (te_path_of env dir) of
        Inl e \<Rightarrow> Inl e
      | Inr estate \<Rightarrow> Inr (scan_head dir estate @ writeln [] @ writeln ''Resource types:'' @ count_lines (type_counts estate)))"

definition run_audit :: command_outcome where
  "run_audit = Text
     (''Audit log lives at .terrashift/audit.db (per-run signed Ed25519 chain).'' @ nl
      @ ''Stage 1 placeholder: subcommands /audit verify, /audit export, /audit query'' @ nl
      @ ''arrive in Stage 5 when the CLI wires LocalAuditStore into the command'' @ nl
      @ ''context. For now: query the SQLite file directly.'')"

definition run_migrate :: "string \<Rightarrow> command_outcome" where
  "run_migrate args =
     (if str_trim args = [] then Outcome_Error ''/migrate requires a plan path: /migrate <plan_path.json>''
      else Action (StartMigration (str_trim args)))"

definition run_checkpoint :: command_outcome where
  "run_checkpoint = Action Checkpoint"

definition run_plan :: command_outcome where
  "run_plan = Text
     (''Stage 2+: /plan will surface the Mapper + Generator output for review'' @ nl
      @ ''before /migrate apply. Currently not implemented.'')"

definition run_cost :: command_outcome where
  "run_cost = Text
     (''Stage 2+: /cost will surface Infracost-driven before/after spend'' @ nl
      @ ''analysis once the Cost Optimizer agent ships in S11. Currently'' @ nl @ ''not implemented.'')"

definition run_rollback :: "string \<Rightarrow> command_outcome" where
  "run_rollback args =
     (if str_trim args = [] then Outcome_Error ''/rollback requires a run_id: /rollback <uuid>''
      else Action (Rollback (str_trim args)))"

definition run_compact :: command_outcome where
  "run_compact = Action Compact"

definition run_schemas :: command_outcome where
  "run_schemas = Hint
     (''Schema cache lives at ~/.terrashift/schemas/. Manage it from the shell:'' @ nl
      @ nl @ ''  terrashift schema list                                   # what'' @ [CHR 0x27] @ ''s cached''
      @ nl @ ''  terrashift schema update --provider aws --version 5.30.0 # fetch a version''
      @ nl @ ''  terrashift schema show aws@5.30.0 [--filter aws_iam]     # inspect a schema''
      @ nl @ ''  terrashift schema verify                                 # SHA-256 audit''
      @ nl @ ''  terrashift schema gc [--keep-versions 2]                 # prune old versions''
      @ nl @ nl @ ''The TUI status footer shows the current cache count.'')"

definition run_quit :: command_outcome where
  "run_quit = Action Exit"

fun run_command :: "'x tui_env \<Rightarrow> registry \<Rightarrow> slash_command \<Rightarrow> string \<Rightarrow> command_outcome" where
  "run_command env reg Help args = Text (help_text reg)"
| "run_command env reg Scan args = run_scan_command env args"
| "run_command env reg Audit args = run_audit"
| "run_command env reg Migrate_cmd args = run_migrate args"
| "run_command env reg Checkpoint_cmd args = run_checkpoint"
| "run_command env reg PlanCmd args = run_plan"
| "run_command env reg Cost args = run_cost"
| "run_command env reg Rollback_cmd args = run_rollback args"
| "run_command env reg Compact_cmd args = run_compact"
| "run_command env reg Schemas args = run_schemas"
| "run_command env reg Quit args = run_quit"

text \<open>\<open>split_once(char::is_whitespace)\<close>.\<close>

fun split_once_ws :: "string \<Rightarrow> (string \<times> string) option" where
  "split_once_ws [] = None"
| "split_once_ws (c # cs) =
     (case find (\<lambda>w. starts_with w (c # cs)) white_space of
        Some w \<Rightarrow> Some ([], drop (length w) (c # cs))
      | None \<Rightarrow> map_option (\<lambda>(a, b). (c # a, b)) (split_once_ws cs))"

definition registry_dispatch :: "'x tui_env \<Rightarrow> registry \<Rightarrow> string \<Rightarrow> command_outcome" where
  "registry_dispatch env reg input =
     (let trimmed = dropWhile (\<lambda>c. c = CHR ''/'') (str_trim input) in
      if trimmed = [] then Outcome_Error ''empty command''
      else
        let (name, args) = (case split_once_ws trimmed of Some (n, a) \<Rightarrow> (n, str_trim a) | None \<Rightarrow> (trimmed, [])) in
        case map_of reg name of
          Some cmd \<Rightarrow> run_command env reg cmd args
        | None \<Rightarrow> Outcome_Error (''unknown command '' @ [CHR 0x27] @ ''/'' @ name @ [CHR 0x27] @ '': try /help for available commands''))"

section \<open>Keys\<close>

text \<open>\<open>KeyCode\<close>: a character is its UTF-8 encoding; the keys the handler ignores are \<open>Key_other\<close>.\<close>

datatype key_code =
    Key_Enter | Key_Backspace | Key_Delete | Key_Left | Key_Right | Key_Home | Key_End
  | Key_PageUp | Key_PageDown | Key_Esc | Key_Char string | Key_other

definition apply_outcome :: "command_outcome \<Rightarrow> app_state \<Rightarrow> app_state" where
  "apply_outcome out = (case out of
     Text s \<Rightarrow> push Msg_Output s
   | Outcome_Error s \<Rightarrow> push Msg_Error s
   | Hint s \<Rightarrow> push Msg_Hint s
   | Action Exit \<Rightarrow> request_exit
   | Action (StartMigration plan_path) \<Rightarrow> push Msg_Hint
       (''/migrate '' @ plan_path @ '': the in-TUI agent runtime is S6 work. ''
        @ ''For now, run `terrashift migrate --source <dir> --from <p> --to <p>` ''
        @ ''from the shell '' @ [CHR 0xE2, CHR 0x80, CHR 0x94] @ '' that wires the full pipeline (Scanner ''
        @ [CHR 0xE2, CHR 0x86, CHR 0x92] @ '' Mapper '' @ [CHR 0xE2, CHR 0x86, CHR 0x92] @ '' Generator) with a real LLM call.'')
   | Action Checkpoint \<Rightarrow> push Msg_Hint ''/checkpoint: in-TUI checkpoint runtime is S6 work.''
   | Action (Rollback run_id) \<Rightarrow> push Msg_Hint (''/rollback '' @ run_id @ '': in-TUI rollback runtime is S6 work.'')
   | Action Compact \<Rightarrow> push Msg_Hint ''/compact: in-TUI message compaction is S6 work.'')"

definition dispatch_input :: "'x tui_env \<Rightarrow> registry \<Rightarrow> string \<Rightarrow> app_state \<Rightarrow> app_state" where
  "dispatch_input env reg input =
     apply_outcome
       (if starts_with ''/'' input then registry_dispatch env reg input
        else Hint (''Commands start with `/` (e.g., /help, /scan <dir>). ''
          @ ''Type /help to list them, or run `terrashift migrate ...` from the shell.''))"

definition handle_enter :: "'x tui_env \<Rightarrow> registry \<Rightarrow> app_state \<Rightarrow> app_state" where
  "handle_enter env reg app =
     (let (line, app1) = take_input app; trimmed = str_trim line in
      if trimmed = [] then app1 else dispatch_input env reg trimmed (push_user_input trimmed app1))"

definition handle_key :: "'x tui_env \<Rightarrow> registry \<Rightarrow> key_code \<Rightarrow> bool \<Rightarrow> app_state \<Rightarrow> app_state option" where
  "handle_key env reg code ctrl app =
     (if ctrl \<and> code = Key_Char ''c'' then Some (request_exit app)
      else if ctrl \<and> code = Key_Char ''d'' \<and> input_buffer app = [] then Some (request_exit app)
      else case code of
        Key_Enter \<Rightarrow> Some (handle_enter env reg app)
      | Key_Backspace \<Rightarrow> input_backspace app
      | Key_Delete \<Rightarrow> input_delete app
      | Key_Left \<Rightarrow> Some (input_left app)
      | Key_Right \<Rightarrow> Some (input_right app)
      | Key_Home \<Rightarrow> Some (app\<lparr>cursor := 0\<rparr>)
      | Key_End \<Rightarrow> Some (app\<lparr>cursor := length (input_buffer app)\<rparr>)
      | Key_PageUp \<Rightarrow> Some (scroll_up 5 app)
      | Key_PageDown \<Rightarrow> Some (scroll_down 5 app)
      | Key_Char c \<Rightarrow> input_insert c app
      | Key_Esc \<Rightarrow> Some (if input_buffer app \<noteq> [] then snd (take_input app) else request_exit app)
      | Key_other \<Rightarrow> Some app)"

section \<open>The event loop\<close>

text \<open>One turn of the loop: what drawing, polling and reading gave.\<close>

datatype tick =
    Draw_error string
  | Poll_error string
  | Read_error string
  | No_event
  | Key key_code bool bool
  | Resize
  | Other_event

datatype session_end = Finished | Io_failed string | Panicked | Running

text \<open>A key counts when it is pressed, not when it is released or repeated; the first flag is Control.\<close>

fun session :: "'x tui_env \<Rightarrow> registry \<Rightarrow> tick list \<Rightarrow> app_state \<Rightarrow> session_end \<times> app_state" where
  "session env reg [] app = (if should_exit app then Finished else Running, app)"
| "session env reg (t # ts) app =
     (case t of
        Draw_error e \<Rightarrow> (Io_failed e, app)
      | _ \<Rightarrow>
          (if should_exit app then (Finished, app)
           else case t of
             Poll_error e \<Rightarrow> (Io_failed e, app)
           | Read_error e \<Rightarrow> (Io_failed e, app)
           | Key code ctrl pressed \<Rightarrow>
               (if pressed
                then (case handle_key env reg code ctrl app of
                        None \<Rightarrow> (Panicked, app)
                      | Some app' \<Rightarrow> session env reg ts app')
                else session env reg ts app)
           | _ \<Rightarrow> session env reg ts app))"

definition push_welcome :: "app_state \<Rightarrow> app_state" where
  "push_welcome app =
     push Msg_Banner ''Press Ctrl+C or type /quit to exit.''
       (push Msg_Banner (''For full migrations with real LLM, run `terrashift migrate ...` from the shell ''
           @ ''(the in-TUI agent runtime arrives in S6).'')
         (push Msg_Banner ''Welcome. Try /help to list commands, /scan <dir> to inspect a Terraform tree.'' app))"

text \<open>The terminal, and what its operations leave behind when they fail.\<close>

record terminal =
  raw_mode :: bool
  alternate_screen :: bool
  mouse_capture :: bool

record term_faults =
  raw_fault :: "string option"
  screen_fault :: "(string \<times> bool \<times> bool) option"
  backend_fault :: "string option"
  unraw_fault :: bool
  leave_fault :: "(bool \<times> bool) option"

text \<open>\<open>TerminalGuard::drop\<close>.\<close>

definition drop_guard :: "term_faults \<Rightarrow> terminal \<Rightarrow> terminal" where
  "drop_guard fl tm =
     (let tm1 = (if unraw_fault fl then tm else tm\<lparr>raw_mode := False\<rparr>) in
      case leave_fault fl of
        None \<Rightarrow> tm1\<lparr>alternate_screen := False, mouse_capture := False\<rparr>
      | Some (alt, mouse) \<Rightarrow> tm1\<lparr>alternate_screen := alt, mouse_capture := mouse\<rparr>)"

definition start_tui ::
  "'x tui_env \<Rightarrow> term_faults \<Rightarrow> tick list \<Rightarrow> status_info \<Rightarrow> terminal \<Rightarrow> session_end \<times> terminal"
where
  "start_tui env fl ticks st tm =
     (case raw_fault fl of
        Some e \<Rightarrow> (Io_failed e, tm)
      | None \<Rightarrow>
          (let tm1 = tm\<lparr>raw_mode := True\<rparr> in
           case screen_fault fl of
             Some (e, alt, mouse) \<Rightarrow> (Io_failed e, tm1\<lparr>alternate_screen := alt, mouse_capture := mouse\<rparr>)
           | None \<Rightarrow>
               (let tm2 = tm1\<lparr>alternate_screen := True, mouse_capture := True\<rparr> in
                case backend_fault fl of
                  Some e \<Rightarrow> (Io_failed e, drop_guard fl tm2)
                | None \<Rightarrow>
                    (case session env stage1_commands ticks (push_welcome (app_new st)) of
                       (r, app) \<Rightarrow> (r, if r = Running then tm2 else drop_guard fl tm2)))))"

section \<open>What is drawn\<close>

type_synonym u16 = "16 word"

record rect =
  rc_x :: u16
  rc_y :: u16
  rc_width :: u16
  rc_height :: u16

text \<open>The rows of the history: the lines of each message, then a blank one.\<close>

definition build_message_lines :: "tui_message list \<Rightarrow> (message_kind option \<times> string) list" where
  "build_message_lines ms =
     concat (map (\<lambda>m. map (\<lambda>l. (Some (msg_kind m), l)) (split_on (CHR 0x0A) (msg_text m)) @ [(None, [])]) ms)"

text \<open>Colour, bold and italic of a message.\<close>

fun message_style :: "message_kind \<Rightarrow> (nat \<times> nat \<times> nat) \<times> bool \<times> bool" where
  "message_style Msg_Banner = ((0x94, 0xA3, 0xB8), False, False)"
| "message_style Msg_UserInput = ((0xFF, 0x7A, 0x45), True, False)"
| "message_style Msg_Output = ((0xE5, 0xE7, 0xEB), False, False)"
| "message_style Msg_Error = ((0xEF, 0x44, 0x44), False, False)"
| "message_style Msg_Hint = ((0xFB, 0xBF, 0x24), False, True)"

definition visible_height :: "rect \<Rightarrow> nat" where
  "visible_height area = unat (rc_height area) - 2"

definition window_start :: "nat \<Rightarrow> nat \<Rightarrow> nat \<Rightarrow> nat" where
  "window_start height offset total_lines =
     min (total_lines - (height + offset)) (total_lines - min height total_lines)"

definition visible_lines :: "rect \<Rightarrow> app_state \<Rightarrow> (message_kind option \<times> string) list" where
  "visible_lines area app =
     (let lines = build_message_lines (messages app); h = visible_height area in
      take h (drop (window_start h (scroll_offset app) (length lines)) lines))"

text \<open>\<open>app.cursor as u16\<close> truncates; the position is set only inside the border.\<close>

definition cursor_position :: "rect \<Rightarrow> app_state \<Rightarrow> (u16 \<times> u16) option" where
  "cursor_position area app =
     (let x = rc_x area + 3 + of_nat (cursor app) in
      if x < rc_x area + (if rc_width area = 0 then 0 else rc_width area - 1) then Some (x, rc_y area + 1) else None)"

definition input_line :: "app_state \<Rightarrow> string" where
  "input_line app = prompt_mark @ input_buffer app"

definition footer_profile :: "(path \<Rightarrow> string) \<Rightarrow> (string \<Rightarrow> string option) \<Rightarrow> status_info \<Rightarrow> string" where
  "footer_profile show_path var st =
     (case profile_path st of
        None \<Rightarrow> ''(no profile)''
      | Some p \<Rightarrow>
          (case (case var ''USERPROFILE'' of Some h \<Rightarrow> Some h | None \<Rightarrow> var ''HOME'') of
             Some h \<Rightarrow> (if starts_with h (show_path p) then ''~'' @ drop (length h) (show_path p) else show_path p)
           | None \<Rightarrow> show_path p))"

definition footer_seed :: "status_info \<Rightarrow> string" where
  "footer_seed st = (case seed_resources st of Some n \<Rightarrow> nat_str n @ '' resources'' | None \<Rightarrow> ''not loaded'')"

definition footer_schemas :: "status_info \<Rightarrow> string" where
  "footer_schemas st = (case cached_schema_count st of Some n \<Rightarrow> nat_str n @ '' cached'' | None \<Rightarrow> ''not loaded'')"

text \<open>The bar between two entries of the footer.\<close>

definition footer_bar :: string where
  "footer_bar = [CHR '' '', CHR 0xE2, CHR 0x94, CHR 0x82, CHR '' '']"

definition footer :: "(path \<Rightarrow> string) \<Rightarrow> (string \<Rightarrow> string option) \<Rightarrow> status_info \<Rightarrow> string" where
  "footer show_path var st =
     ''  profile: '' @ footer_profile show_path var st @ footer_bar @ ''seed: '' @ footer_seed st
       @ footer_bar @ ''schemas: '' @ footer_schemas st @ footer_bar @ ''tier: '' @ st_tier st
       @ footer_bar @ ''Ctrl+C to exit ''"

section \<open>Starting the interface\<close>

definition best_effort_cached_schema_count :: "'w tools \<Rightarrow> (string \<Rightarrow> path option) \<Rightarrow> fs \<Rightarrow> nat option" where
  "best_effort_cached_schema_count t var s =
     (case (case var ''USERPROFILE'' of Some h \<Rightarrow> Some h | None \<Rightarrow> var ''HOME'') of
        None \<Rightarrow> None
      | Some home_path \<Rightarrow>
          (case manifest_load t (home_path @ [''.terrashift'', ''schemas'', ''manifest.json'']) s of
             Inl _ \<Rightarrow> None
           | Inr m \<Rightarrow> Some (length (entries m))))"

definition launch_status :: "'w tools \<Rightarrow> (string \<Rightarrow> path option) \<Rightarrow> path option \<Rightarrow> fs \<Rightarrow> status_info" where
  "launch_status t var profile s =
     \<lparr>profile_path = profile, seed_resources = None, st_tier = ''eco'',
      cached_schema_count = best_effort_cached_schema_count t var s\<rparr>"

section \<open>Keys as edits of a pair of character lists\<close>

type_synonym line = "string list \<times> string list"

fun edit :: "key_code \<Rightarrow> line \<Rightarrow> line" where
  "edit Key_Enter _ = ([], [])"
| "edit Key_Esc _ = ([], [])"
| "edit Key_Backspace (l, r) = (butlast l, r)"
| "edit Key_Delete (l, r) = (l, tl r)"
| "edit Key_Left (l, r) = (butlast l, if l = [] then r else last l # r)"
| "edit Key_Right (l, r) = (if r = [] then l else l @ [hd r], tl r)"
| "edit Key_Home (l, r) = ([], l @ r)"
| "edit Key_End (l, r) = (l @ r, [])"
| "edit (Key_Char c) (l, r) = (l @ [c], r)"
| "edit _ ln = ln"

definition edit_key :: "key_code \<Rightarrow> bool \<Rightarrow> line \<Rightarrow> line" where
  "edit_key code ctrl ln =
     (if ctrl \<and> (code = Key_Char ''c'' \<or> code = Key_Char ''d'' \<and> ln = ([], [])) then ln else edit code ln)"

text \<open>A typed character is one UTF-8 encoded character.\<close>

definition key_ok :: "key_code \<Rightarrow> bool" where
  "key_ok code \<longleftrightarrow> (case code of Key_Char c \<Rightarrow> utf8_unit c | _ \<Rightarrow> True)"

definition tick_ok :: "tick \<Rightarrow> bool" where
  "tick_ok t \<longleftrightarrow> (case t of Key code ctrl pressed \<Rightarrow> key_ok code | _ \<Rightarrow> True)"

lemma shows_line_same:
  "input_buffer app' = input_buffer app \<Longrightarrow> cursor app' = cursor app \<Longrightarrow> shows_line app' l r = shows_line app l r"
  by (simp add: shows_line_def)

lemma shows_line_empty: "shows_line app l r \<Longrightarrow> input_buffer app = [] \<longleftrightarrow> l = [] \<and> r = []"
  by (cases l; cases r) (auto simp: shows_line_def dest: utf8_unit_nonempty)

lemma push_keeps_line [simp]:
  "input_buffer (push k m app) = input_buffer app" "cursor (push k m app) = cursor app"
  "input_buffer (push_user_input m app) = input_buffer app" "cursor (push_user_input m app) = cursor app"
  by (simp_all add: push_def push_user_input_def)

lemma apply_outcome_keeps_line [simp]:
  "input_buffer (apply_outcome out app) = input_buffer app" "cursor (apply_outcome out app) = cursor app"
  by (auto simp: apply_outcome_def request_exit_def split: command_outcome.split action.split)

lemma handle_enter_clears: "input_buffer (handle_enter env reg app) = [] \<and> cursor (handle_enter env reg app) = 0"
  by (simp add: handle_enter_def take_input_def dispatch_input_def Let_def)

lemma handle_key_edit:
  assumes "shows_line app l r" "key_ok code"
  shows "\<exists>app'. handle_key env reg code ctrl app = Some app'
    \<and> shows_line app' (fst (edit_key code ctrl (l, r))) (snd (edit_key code ctrl (l, r)))"
proof (cases "ctrl \<and> (code = Key_Char ''c'' \<or> code = Key_Char ''d'' \<and> input_buffer app = [])")
  case True
  then show ?thesis
    using assms(1) shows_line_empty [OF assms(1)]
    by (auto simp: handle_key_def edit_key_def request_exit_def shows_line_def)
next
  case False
  then have e: "edit_key code ctrl (l, r) = edit code (l, r)"
    using shows_line_empty [OF assms(1)] by (auto simp: edit_key_def)
  have h: "handle_key env reg code ctrl app = handle_key env reg code False app"
    using False by (auto simp: handle_key_def)
  have clear: "shows_line app' [] []" if "input_buffer app' = []" "cursor app' = 0" for app'
    using that by (simp add: shows_line_def)
  show ?thesis
  proof (cases code)
    case Key_Home
    then show ?thesis unfolding h e using assms(1) by (auto simp: handle_key_def shows_line_def)
  next
    case Key_End
    then show ?thesis unfolding h e using assms(1) by (auto simp: handle_key_def shows_line_def)
  next
    case Key_Enter
    then show ?thesis unfolding h e using handle_enter_clears [of env reg app] by (simp add: handle_key_def clear)
  next
    case Key_Esc
    then show ?thesis unfolding h e using assms(1)
      by (auto simp: handle_key_def take_input_def request_exit_def shows_line_def)
  next
    case (Key_Char c)
    with assms shows_insert [of app l r c] show ?thesis unfolding h e by (simp add: handle_key_def key_ok_def)
  qed (unfold h e, use assms(1) shows_backspace [OF assms(1)] shows_delete [OF assms(1)] shows_left [OF assms(1)]
      shows_right [OF assms(1)] in \<open>auto simp: handle_key_def scroll_up_def scroll_down_def shows_line_def\<close>)
qed

lemma session_no_panic:
  "shows_line app l r \<Longrightarrow> list_all tick_ok ticks \<Longrightarrow> fst (session env reg ticks app) \<noteq> Panicked"
proof (induction ticks arbitrary: app l r)
  case (Cons t ts)
  note rest = Cons.IH [OF Cons.prems(1)]
  show ?case
  proof (cases t)
    case (Key code ctrl pressed)
    with Cons.prems have "key_ok code" by (simp add: tick_ok_def)
    from handle_key_edit [OF Cons.prems(1) this] obtain app' l' r' where
      "handle_key env reg code ctrl app = Some app'" "shows_line app' l' r'" by blast
    with Key Cons.IH [of app' l' r'] rest Cons.prems(2) show ?thesis by simp
  qed (use rest Cons.prems(2) in simp_all)
qed simp

section \<open>Properties\<close>

text \<open>C21. The line editor is the textbook one: on a line whose characters before and after the cursor are
  \<open>l\<close> and \<open>r\<close>, every key that is handled gives the line that editing these two lists gives. The byte
  cursor therefore always stands on a character boundary, and no edit panics.\<close>

theorem line_editor_refines_lists:
  assumes "shows_line app l r" "key_ok code"
  shows "\<exists>app'. handle_key env reg code ctrl app = Some app'
    \<and> shows_line app' (fst (edit_key code ctrl (l, r))) (snd (edit_key code ctrl (l, r)))"
  using assms by (rule handle_key_edit)



text \<open>\<open>/help\<close> lists \<open>/quit\<close> twice and never \<open>/exit\<close>: the alias is registered as a second \<open>Quit\<close>, and the list
  prints the name of the command, not the key it is registered under.\<close>

theorem help_lists_quit_twice:
  "map fst (registry_list stage1_commands) =
     [''audit'', ''checkpoint'', ''compact'', ''cost'', ''quit'', ''help'', ''migrate'', ''plan'', ''quit'', ''rollback'',
      ''scan'', ''schemas'']"
  by (simp add: registry_list_def stage1_commands_def command_infos less_eq_char_def)

text \<open>Before the first run there is no manifest, and the footer says \<open>0 cached\<close>, not \<open>not loaded\<close>.\<close>

theorem first_run_shows_zero_cached:
  assumes "var ''USERPROFILE'' = Some home_path"
    and "\<not> path_exists s (home_path @ [''.terrashift'', ''schemas'', ''manifest.json''])"
    and "\<not> read_fault t (home_path @ [''.terrashift'', ''schemas'', ''manifest.json''])"
  shows "footer_schemas (launch_status t var profile s) = ''0 cached''"
  using assms by (simp add: footer_schemas_def launch_status_def best_effort_cached_schema_count_def
      manifest_load_def manifest_empty_def nat_str.simps char_of_def bit_iff_odd)

text \<open>The history shows the last lines that fit, and scrolled up by \<open>k\<close> lines, the last that fit before the
  last \<open>k\<close>; scrolled past the top it shows the first ones.\<close>

theorem history_window:
  "visible_lines area app =
     (let lines = build_message_lines (messages app); h = visible_height area; k = scroll_offset app in
      if h + k \<le> length lines then take h (drop (length lines - (h + k)) lines) else take h lines)"
  by (auto simp: visible_lines_def window_start_def Let_def min_def)

section \<open>Witnesses\<close>

text \<open>A machine with an empty disk.\<close>

definition wit_tui :: "nat tui_env" where
  "wit_tui = \<lparr>te_disk = \<lparr>files = Map.empty, dirs = (\<lambda>_. False)\<rparr>, te_path_of = (\<lambda>s. [s]),
     te_reader = \<lparr>hcl_from_str = (\<lambda>_. Inl []), expr_to_string = (\<lambda>_. []), debug_strings = (\<lambda>_. [])\<rparr>,
     te_tree = (\<lambda>_. None), te_show_error = (\<lambda>_. [])\<rparr>"

definition wit_status :: status_info where
  "wit_status = \<lparr>profile_path = None, seed_resources = None, st_tier = ''eco'', cached_schema_count = None\<rparr>"

text \<open>A two-byte character.\<close>

definition e_acute :: string where
  "e_acute = [CHR 0xC3, CHR 0xA9]"

lemma e_acute_unit: "utf8_unit e_acute"
  by (simp add: e_acute_def utf8_unit_def in_range_def)

lemma utf8_unit_a: "utf8_unit ''a''"
  by (simp add: utf8_unit_def in_range_def)

definition wit_line :: app_state where
  "wit_line = (app_new wit_status)\<lparr>input_buffer := ''a'' @ e_acute, cursor := 3\<rparr>"

theorem line_editor_refines_lists_witness:
  "\<exists>app'. handle_key wit_tui stage1_commands Key_Backspace False wit_line = Some app' \<and> shows_line app' [''a''] []"
proof -
  have "shows_line wit_line [''a'', e_acute] []"
    by (simp add: shows_line_def wit_line_def e_acute_unit utf8_unit_a) (simp add: e_acute_def)
  from line_editor_refines_lists [OF this, of Key_Backspace wit_tui stage1_commands False]
  show ?thesis by (simp add: key_ok_def edit_key_def)
qed

definition wit_ticks :: "tick list" where
  "wit_ticks = [Key (Key_Char e_acute) False True, Key Key_Left False True, Key Key_Delete False True, No_event,
     Key (Key_Char ''c'') True True, No_event]"

definition no_term_faults :: term_faults where
  "no_term_faults = \<lparr>raw_fault = None, screen_fault = None, backend_fault = None, unraw_fault = False, leave_fault = None\<rparr>"



theorem first_run_shows_zero_cached_witness:
  "footer_schemas (launch_status wit_tools (\<lambda>v. if v = ''USERPROFILE'' then Some [''nobody''] else None) None wit_disk) = ''0 cached''"
  by (rule first_run_shows_zero_cached [where home_path = "[''nobody'']"])
    (simp_all add: wit_tools_def wit_disk_def path_exists_def)

end
