(* ===== verification/Notify.thy ===== *)
theory Notify
  imports Schema_Fetcher Audit_Scrubber
begin

text \<open>
  \<open>libs/notify/src\<close>: events and their canonical builders, the notifier contract, the log, in-memory and Slack
  notifiers and the fan-out. An HTTP call, the JSON writer and the float formats are parameters. The
  lemmas show that the fan-out reaches every child and what it reports, and what Slack is sent.
\<close>

section \<open>Events\<close>

datatype severity = Sev_Info | Sev_Action | Sev_Success | Sev_Warn | Sev_Error

fun slack_color :: "severity \<Rightarrow> string" where
  "slack_color Sev_Info = ''#94A3B8''"
| "slack_color Sev_Action = ''#F7931E''"
| "slack_color Sev_Success = ''#22C55E''"
| "slack_color Sev_Warn = ''#FBBF24''"
| "slack_color Sev_Error = ''#EF4444''"

fun emoji :: "severity \<Rightarrow> string" where
  "emoji Sev_Info = '':information_source:''"
| "emoji Sev_Action = '':eyes:''"
| "emoji Sev_Success = '':white_check_mark:''"
| "emoji Sev_Warn = '':warning:''"
| "emoji Sev_Error = '':x:''"

text \<open>A time stamp counts nanoseconds since the epoch.\<close>

record notification_event =
  ev_run_id :: uuid
  ev_severity :: severity
  ev_title :: string
  ev_body :: string
  ev_timestamp :: int
  ev_fields :: "(string \<times> string) list"

definition event_new :: "int \<Rightarrow> uuid \<Rightarrow> severity \<Rightarrow> string \<Rightarrow> string \<Rightarrow> notification_event" where
  "event_new now run_id sev title body =
     \<lparr>ev_run_id = run_id, ev_severity = sev, ev_title = title, ev_body = body, ev_timestamp = now, ev_fields = []\<rparr>"

definition with_field :: "string \<Rightarrow> string \<Rightarrow> notification_event \<Rightarrow> notification_event" where
  "with_field k v e = e\<lparr>ev_fields := ev_fields e @ [(k, v)]\<rparr>"

definition migration_started :: "int \<Rightarrow> uuid \<Rightarrow> string \<Rightarrow> string \<Rightarrow> nat \<Rightarrow> notification_event" where
  "migration_started now run_id from_cloud to_cloud n =
     with_field ''resources'' (nat_str n) (with_field ''target'' to_cloud (with_field ''source'' from_cloud
       (event_new now run_id Sev_Info ''Migration started''
         (''Starting migration: '' @ from_cloud @ '' '' @ [CHR 0xE2, CHR 0x86, CHR 0x92] @ '' '' @ to_cloud
            @ '' ('' @ nat_str n @ '' resources)''))))"

definition migration_completed :: "int \<Rightarrow> uuid \<Rightarrow> nat \<Rightarrow> u64 \<Rightarrow> notification_event" where
  "migration_completed now run_id n seconds =
     with_field ''duration_s'' (nat_str (unat seconds)) (with_field ''resources'' (nat_str n)
       (event_new now run_id Sev_Success ''Migration completed''
         (''Migrated '' @ nat_str n @ '' resources in '' @ nat_str (unat seconds) @ ''s'')))"

definition migration_failed :: "int \<Rightarrow> uuid \<Rightarrow> string \<Rightarrow> string \<Rightarrow> notification_event" where
  "migration_failed now run_id phase why =
     with_field ''reason'' why (with_field ''phase'' phase
       (event_new now run_id Sev_Error ''Migration failed''
         (''Phase '' @ [CHR 0x27] @ phase @ [CHR 0x27] @ '' failed: '' @ why)))"

definition approval_required :: "int \<Rightarrow> uuid \<Rightarrow> nat \<Rightarrow> string \<Rightarrow> notification_event" where
  "approval_required now run_id n summary_text =
     with_field ''pending'' (nat_str n)
       (event_new now run_id Sev_Action ''Approval required''
         (nat_str n @ '' tool call(s) need approval: '' @ summary_text))"

text \<open>The formats \<open>{:.2}\<close> and \<open>{:+.1}\<close>.\<close>

record float_formats =
  two_decimals :: "f64 \<Rightarrow> string"
  signed_one_decimal :: "f64 \<Rightarrow> string"

definition cost_alert :: "float_formats \<Rightarrow> int \<Rightarrow> uuid \<Rightarrow> f64 \<Rightarrow> f64 \<Rightarrow> f64 \<Rightarrow> notification_event" where
  "cost_alert ff now run_id target_usd actual_usd delta_pct =
     with_field ''delta_pct'' (signed_one_decimal ff delta_pct)
       (with_field ''actual_usd'' (two_decimals ff actual_usd) (with_field ''target_usd'' (two_decimals ff target_usd)
         (event_new now run_id Sev_Warn ''Cost target exceeded''
           (''Target $'' @ two_decimals ff target_usd @ ''/mo, actual $'' @ two_decimals ff actual_usd
              @ ''/mo ('' @ signed_one_decimal ff delta_pct @ ''%)''))))"

definition recovery_exhausted :: "int \<Rightarrow> uuid \<Rightarrow> nat \<Rightarrow> nat \<Rightarrow> notification_event" where
  "recovery_exhausted now run_id iterations unresolved =
     with_field ''unresolved_errors'' (nat_str unresolved) (with_field ''iterations'' (nat_str iterations)
       (event_new now run_id Sev_Error ''Recovery agent exhausted''
         (''Recovery hit '' @ nat_str iterations @ '' iterations with '' @ nat_str unresolved
            @ '' validator error(s) unresolved'')))"

section \<open>Notifiers\<close>

datatype notify_error = Network string | EndpointError "16 word" string | Serialization string | InvalidConfig string

type_synonym 'w notifier = "notification_event \<Rightarrow> ('w, notify_error, unit) act"

text \<open>\<open>MultiNotifier\<close>: the flags are whether a child has succeeded, and the last error.\<close>

type_synonym 'w multi_notifier = "'w notifier list"

definition multi_new :: "'w multi_notifier" where
  "multi_new = []"

definition multi_with :: "'w notifier \<Rightarrow> 'w multi_notifier \<Rightarrow> 'w multi_notifier" where
  "multi_with c cs = cs @ [c]"

fun fan_out :: "'w notifier list \<Rightarrow> notification_event \<Rightarrow> bool \<times> notify_error option \<Rightarrow> 'w
    \<Rightarrow> (bool \<times> notify_error option) \<times> 'w" where
  "fan_out [] event (succeeded, last_err) w = ((succeeded, last_err), w)"
| "fan_out (c # cs) event (succeeded, last_err) w =
     (case c event w of
        (Inr _, w') \<Rightarrow> fan_out cs event (True, last_err) w'
      | (Inl e, w') \<Rightarrow> fan_out cs event (succeeded, Some e) w')"

definition multi_notify :: "'w multi_notifier \<Rightarrow> 'w notifier" where
  "multi_notify children event w =
     (if children = [] then (Inr (), w)
      else case fan_out children event (False, None) w of
        ((succeeded, last_err), w') \<Rightarrow>
          (if succeeded then Inr ()
           else Inl (case last_err of Some e \<Rightarrow> e | None \<Rightarrow> EndpointError 0 ''all child notifiers failed''), w'))"

text \<open>\<open>LogNotifier\<close>: one line at a level that follows the severity.\<close>

datatype log_level = Level_Info | Level_Warn | Level_Error

fun level_of :: "severity \<Rightarrow> log_level" where
  "level_of Sev_Info = Level_Info"
| "level_of Sev_Action = Level_Warn"
| "level_of Sev_Success = Level_Info"
| "level_of Sev_Warn = Level_Warn"
| "level_of Sev_Error = Level_Error"

definition log_line :: "(uuid \<Rightarrow> string) \<Rightarrow> notification_event \<Rightarrow> string" where
  "log_line show_id event =
     (let fields = (if ev_fields event = [] then []
           else '' ['' @ str_join '' '' (map (\<lambda>(k, v). k @ ''='' @ v) (ev_fields event)) @ '']'') in
      emoji (ev_severity event) @ '' '' @ ev_title event @ '' ('' @ show_id (ev_run_id event) @ '')''
        @ fields @ '': '' @ ev_body event)"

definition log_notify :: "(uuid \<Rightarrow> string) \<Rightarrow> (log_level \<Rightarrow> string \<Rightarrow> 'w \<Rightarrow> 'w) \<Rightarrow> 'w notifier" where
  "log_notify show_id trace event w = (Inr (), trace (level_of (ev_severity event)) (log_line show_id event) w)"

text \<open>\<open>StubNotifier\<close>.\<close>

record stub_notifier =
  captured :: "notification_event list"
  fail_next :: bool

definition stub_notifier_new :: stub_notifier where
  "stub_notifier_new = \<lparr>captured = [], fail_next = False\<rparr>"

definition snapshot :: "stub_notifier \<Rightarrow> notification_event list" where
  "snapshot s = captured s"

definition clear :: "stub_notifier \<Rightarrow> stub_notifier" where
  "clear s = s\<lparr>captured := []\<rparr>"

definition arm_failure :: "stub_notifier \<Rightarrow> stub_notifier" where
  "arm_failure s = s\<lparr>fail_next := True\<rparr>"

definition stub_notify :: "stub_notifier notifier" where
  "stub_notify event s =
     (if fail_next s then (Inl (EndpointError 500 ''stub failure armed''), s\<lparr>fail_next := False\<rparr>)
      else (Inr (), s\<lparr>captured := captured s @ [event]\<rparr>))"

section \<open>Slack\<close>

record slack_config =
  webhook_url :: string
  username :: "string option"
  icon_emoji :: "string option"
  sl_channel :: "string option"
  timeout_nanos :: nat

definition slack_config_new :: "string \<Rightarrow> slack_config" where
  "slack_config_new url =
     \<lparr>webhook_url = url, username = None, icon_emoji = None, sl_channel = None, timeout_nanos = 5 * 10 ^ 9\<rparr>"

definition with_username :: "string \<Rightarrow> slack_config \<Rightarrow> slack_config" where
  "with_username name c = c\<lparr>username := Some name\<rparr>"

definition with_icon_emoji :: "string \<Rightarrow> slack_config \<Rightarrow> slack_config" where
  "with_icon_emoji e c = c\<lparr>icon_emoji := Some e\<rparr>"

definition with_channel :: "string \<Rightarrow> slack_config \<Rightarrow> slack_config" where
  "with_channel ch c = c\<lparr>sl_channel := Some ch\<rparr>"

definition with_slack_timeout :: "nat \<Rightarrow> slack_config \<Rightarrow> slack_config" where
  "with_slack_timeout ns c = c\<lparr>timeout_nanos := ns\<rparr>"

definition first_n_chars :: "string \<Rightarrow> nat \<Rightarrow> string" where
  "first_n_chars s n = (if n < length (char_starts s) then take (char_starts s ! n) s else s)"

definition slack_hosts :: string where
  "slack_hosts = ''https://hooks.slack.com/''"

text \<open>What a notifier needs: the client builder, the JSON writer and the POST request.\<close>

record slack_request =
  rq_url :: string
  rq_headers :: "(string \<times> string) list"
  rq_body :: string
  rq_timeout :: nat

record slack_response =
  rp_status :: "16 word"
  rp_body :: "string option"

record 'w slack_env =
  build_client :: "nat \<Rightarrow> string option"
  json_writer :: "json \<Rightarrow> string + string"
  post :: "slack_request \<Rightarrow> ('w, string, slack_response) act"

definition slack_new :: "'w slack_env \<Rightarrow> slack_config \<Rightarrow> notify_error + slack_config" where
  "slack_new env config =
     (if \<not> starts_with slack_hosts (webhook_url config) then
        Inl (InvalidConfig (''Slack webhook URL must start with https://hooks.slack.com/ (got: ''
               @ first_n_chars (webhook_url config) 30 @ '')''))
      else case build_client env (timeout_nanos config) of
        Some e \<Rightarrow> Inl (Network e)
      | None \<Rightarrow> Inr config)"

definition from_webhook :: "'w slack_env \<Rightarrow> string \<Rightarrow> notify_error + slack_config" where
  "from_webhook env url = slack_new env (slack_config_new url)"

record slack_field =
  sf_title :: string
  sf_value :: string
  sf_short :: bool

record slack_attachment =
  sa_color :: string
  sa_title :: string
  sa_text :: string
  sa_fields :: "slack_field list"
  sa_footer :: string
  sa_ts :: int

record slack_payload =
  sp_text :: string
  sp_username :: "string option"
  sp_icon_emoji :: "string option"
  sp_channel :: "string option"
  sp_attachments :: "slack_attachment list"

definition build_payload :: "slack_config \<Rightarrow> notification_event \<Rightarrow> slack_payload" where
  "build_payload config event =
     \<lparr>sp_text = emoji (ev_severity event) @ '' '' @ ev_title event,
      sp_username = username config, sp_icon_emoji = icon_emoji config, sp_channel = sl_channel config,
      sp_attachments =
        [\<lparr>sa_color = slack_color (ev_severity event), sa_title = ev_title event, sa_text = ev_body event,
          sa_fields = map (\<lambda>(k, v). \<lparr>sf_title = k, sf_value = v, sf_short = (length v \<le> 32)\<rparr>) (ev_fields event),
          sa_footer = ''terrashift'', sa_ts = ev_timestamp event div 10 ^ 9\<rparr>]\<rparr>"

text \<open>\<open>Serialize\<close>: the fields in order, an absent option left out.\<close>

definition json_int :: "int \<Rightarrow> json" where
  "json_int i = JNumber (if 0 \<le> i then PosInt (of_int i) else NegInt (of_int i))"

definition optional_member :: "string \<Rightarrow> string option \<Rightarrow> (string \<times> json) list" where
  "optional_member k v = (case v of None \<Rightarrow> [] | Some s \<Rightarrow> [(k, JString s)])"

definition field_json :: "slack_field \<Rightarrow> json" where
  "field_json f = JObject [(''title'', JString (sf_title f)), (''value'', JString (sf_value f)), (''short'', JBool (sf_short f))]"

definition attachment_json :: "slack_attachment \<Rightarrow> json" where
  "attachment_json a = JObject
     [(''color'', JString (sa_color a)), (''title'', JString (sa_title a)), (''text'', JString (sa_text a)),
      (''fields'', JArray (map field_json (sa_fields a))), (''footer'', JString (sa_footer a)), (''ts'', json_int (sa_ts a))]"

definition payload_json :: "slack_payload \<Rightarrow> json" where
  "payload_json p = JObject
     ([(''text'', JString (sp_text p))] @ optional_member ''username'' (sp_username p)
      @ optional_member ''icon_emoji'' (sp_icon_emoji p) @ optional_member ''channel'' (sp_channel p)
      @ [(''attachments'', JArray (map attachment_json (sp_attachments p)))])"

definition slack_notify :: "'w slack_env \<Rightarrow> slack_config \<Rightarrow> 'w notifier" where
  "slack_notify env config event w =
     (case json_writer env (payload_json (build_payload config event)) of
        Inl e \<Rightarrow> (Inl (Serialization e), w)
      | Inr body \<Rightarrow>
          (case post env \<lparr>rq_url = webhook_url config, rq_headers = [(''Content-Type'', ''application/json'')],
                 rq_body = body, rq_timeout = timeout_nanos config\<rparr> w of
             (Inl e, w') \<Rightarrow> (Inl (Network e), w')
           | (Inr resp, w') \<Rightarrow>
               (if 200 \<le> rp_status resp \<and> rp_status resp < 300 then Inr ()
                else Inl (EndpointError (rp_status resp)
                       (first_n_chars (case rp_body resp of Some b \<Rightarrow> b | None \<Rightarrow> []) 200)), w')))"

section \<open>The notifier contract\<close>

text \<open>The results of the children in order, and the world after them.\<close>

fun child_results :: "'w notifier list \<Rightarrow> notification_event \<Rightarrow> 'w \<Rightarrow> (notify_error + unit) list \<times> 'w" where
  "child_results [] event w = ([], w)"
| "child_results (c # cs) event w =
     (case c event w of (r, w') \<Rightarrow> (case child_results cs event w' of (rs, w'') \<Rightarrow> (r # rs, w'')))"

text \<open>A notifier whose world shows what was delivered: a success appends the event, a failure nothing.\<close>

locale delivering =
  fixes send :: "'w notifier" and delivered :: "'w \<Rightarrow> notification_event list"
  assumes sent: "send e w = (Inr (), w') \<Longrightarrow> delivered w' = delivered w @ [e]"
    and lost: "send e w = (Inl err, w') \<Longrightarrow> delivered w' = delivered w"
begin

lemma send_delivers: "delivered (snd (send e w)) = delivered w @ (if fst (send e w) = Inr () then [e] else [])"
proof (cases "send e w")
  case (Pair r w')
  then show ?thesis using sent [of e w w'] lost [of e w _ w'] by (cases r) auto
qed

text \<open>Clones of one notifier share its world: the event is delivered once per clone that succeeded.\<close>

lemma clones_deliver:
  "child_results (replicate k send) e w = (rs, w') \<Longrightarrow>
     delivered w' = delivered w @ replicate (length (filter ((=) (Inr ())) rs)) e"
proof (induction k arbitrary: w rs)
  case (Suc k)
  obtain r w1 where one: "send e w = (r, w1)" by force
  then obtain rs1 where rest: "child_results (replicate k send) e w1 = (rs1, w')" "rs = r # rs1"
    using Suc.prems by (auto split: prod.splits)
  with Suc.IH [OF rest(1)] send_delivers [of e w] one show ?case by (cases r) auto
qed simp

end

interpretation stub: delivering stub_notify captured
  by unfold_locales (auto simp: stub_notify_def split: if_splits)

definition summary_of :: "(notify_error + unit) list \<Rightarrow> notify_error + unit" where
  "summary_of rs = (if rs = [] \<or> Inr () \<in> set rs then Inr () else last rs)"

lemma fan_out_results:
  assumes "child_results cs event w = (rs, w')"
  shows "\<exists>last_err'. fan_out cs event (ok, last_err) w = ((ok \<or> Inr () \<in> set rs, last_err'), w')
    \<and> (Inr () \<notin> set rs \<longrightarrow> (if rs = [] then last_err' = last_err else Inl (the last_err') = last rs \<and> last_err' \<noteq> None))"
  using assms
proof (induction cs arbitrary: ok last_err w rs)
  case (Cons c cs)
  obtain r w1 where one: "c event w = (r, w1)" by force
  obtain rs1 where rest: "child_results cs event w1 = (rs1, w')" and rs: "rs = r # rs1"
    using Cons.prems one by (auto split: prod.splits)
  show ?case
  proof (cases r)
    case (Inl e)
    from Cons.IH [OF rest, of ok "Some e"] show ?thesis by (cases "rs1 = []") (auto simp: one Inl rs)
  next
    case (Inr u)
    from Cons.IH [OF rest, of True last_err] show ?thesis by (auto simp: one Inr rs)
  qed
qed auto

lemma multi_notify_results:
  assumes "child_results cs event w = (rs, w')"
  shows "multi_notify cs event w = (summary_of rs, w')"
proof (cases cs)
  case Nil
  with assms show ?thesis by (simp add: multi_notify_def summary_of_def)
next
  case (Cons c cs')
  then have ne: "rs \<noteq> []" using assms by (auto split: prod.splits)
  from fan_out_results [OF assms, of False None] obtain last_err where
    "fan_out cs event (False, None) w = ((Inr () \<in> set rs, last_err), w')"
    "Inr () \<notin> set rs \<longrightarrow> Inl (the last_err) = last rs \<and> last_err \<noteq> None" using ne by auto
  then show ?thesis using Cons ne by (auto simp: multi_notify_def summary_of_def)
qed

lemma cloned_stubs_capture:
  "snapshot (snd (multi_notify (replicate k stub_notify) e s)) = snapshot s
     @ replicate (length (filter ((=) (Inr ())) (fst (child_results (replicate k stub_notify) e s)))) e"
proof -
  obtain rs s' where run: "child_results (replicate k stub_notify) e s = (rs, s')" by force
  with stub.clones_deliver [OF run] multi_notify_results [OF run] show ?thesis by (simp add: snapshot_def)
qed

section \<open>Excerpts\<close>

lemma first_n_chars_bounded: "length (char_starts (first_n_chars s n)) \<le> n"
proof (cases "n < length (char_starts s)")
  case True
  define i where "i = char_starts s ! n"
  have srt: "sorted_wrt (<) (char_starts s)" unfolding char_starts_def by (rule sorted_wrt_filter) simp
  have i: "i < length s" using nth_mem [OF True] unfolding i_def by (simp add: char_starts_def)
  have "set (char_starts (take i s)) \<subseteq> set (take n (char_starts s))"
  proof
    fix j assume "j \<in> set (char_starts (take i s))"
    then have j: "j < i" "j \<in> set (char_starts s)" using i by (auto simp: char_starts_def)
    then obtain k where k: "k < length (char_starts s)" "char_starts s ! k = j" by (auto simp: in_set_conv_nth)
    have "k < n"
    proof (rule ccontr)
      assume "\<not> k < n"
      then consider "k = n" | "n < k" by linarith
      then have "i \<le> j" using k sorted_wrt_nth_less [OF srt, of n k] unfolding i_def by cases auto
      with j show False by simp
    qed
    with k True show "j \<in> set (take n (char_starts s))" by (auto simp: in_set_conv_nth)
  qed
  then have "card (set (char_starts (take i s))) \<le> card (set (take n (char_starts s)))"
    by (intro card_mono) simp_all
  moreover have "distinct (char_starts (take i s))" by (simp add: char_starts_def)
  ultimately have "length (char_starts (take i s)) \<le> n"
    using card_length [of "take n (char_starts s)"] by (simp add: distinct_card)
  with True show ?thesis by (simp add: first_n_chars_def i_def)
qed (simp add: first_n_chars_def)

section \<open>Properties\<close>

text \<open>The fan-out reaches every child, in the order of registration, whatever the ones before it
  returned; it succeeds when there is no child or some child succeeded, and otherwise returns the
  error of the last child.\<close>

theorem fan_out_reaches_every_child:
  "multi_notify cs event w =
     (summary_of (fst (child_results cs event w)), snd (child_results cs event w))"
  by (rule multi_notify_results) simp

text \<open>A Slack notifier that could be built posts only to hooks.slack.com; it reports success exactly for a
  2xx answer, and the excerpt it keeps of an error answer has at most 200 characters.\<close>

theorem slack_error_bounded:
  assumes "slack_new env config = Inr notifier" "slack_notify env notifier event w = (Inl (EndpointError st excerpt), w')"
  shows "starts_with slack_hosts (webhook_url notifier) \<and> \<not> (200 \<le> st \<and> st < 300) \<and> length (char_starts excerpt) \<le> 200"
proof -
  have "starts_with slack_hosts (webhook_url notifier)"
    using assms(1) by (auto simp: slack_new_def split: if_splits option.splits)
  moreover have "\<not> (200 \<le> st \<and> st < 300) \<and> length (char_starts excerpt) \<le> 200"
    using assms(2) by (auto simp: slack_notify_def first_n_chars_bounded split: sum.splits prod.splits if_splits)
  ultimately show ?thesis by blast
qed

text \<open>The text of an event goes to Slack as it is: a body in which the audit scrubber finds an AWS access
  key is the text of the attachment.\<close>

theorem slack_sends_secrets:
  assumes "length key = 16" "list_all is_digit_or_upper key" "delimited uw before after"
    and "ev_body event = before @ (''AKIA'' @ key) @ after"
  shows "scan uw ''body'' (ev_body event) \<noteq> None
    \<and> map sa_text (sp_attachments (build_payload config event)) = [ev_body event]"
  using aws_key_scanned [OF assms(1-3)] assms(4) by (simp add: build_payload_def)

text \<open>Without an override the payload names no user and no icon: Slack shows the defaults of the webhook,
  not Terrashift.\<close>

theorem default_payload_names_nobody:
  assumes "from_webhook env url = Inr config"
  shows "\<exists>members. payload_json (build_payload config event) = JObject members
    \<and> map fst members = [''text'', ''attachments'']"
proof -
  have "config = slack_config_new url"
    using assms by (auto simp: from_webhook_def slack_new_def split: if_splits option.splits)
  then show ?thesis by (simp add: slack_config_new_def build_payload_def payload_json_def optional_member_def)
qed

section \<open>Witnesses\<close>

definition wit_event :: notification_event where
  "wit_event = migration_failed 0 1 ''plan'' ''no schema''"

definition wit_slack :: "nat slack_env" where
  "wit_slack = \<lparr>build_client = (\<lambda>_. None), json_writer = (\<lambda>_. Inr ''{}''),
     post = (\<lambda>rq n. (Inr \<lparr>rp_status = 404, rp_body = Some ''no''\<rparr>, Suc n))\<rparr>"

lemma wit_slack_new: "from_webhook wit_slack (slack_hosts @ ''x'') = Inr (slack_config_new (slack_hosts @ ''x''))"
  by (simp add: from_webhook_def slack_new_def slack_config_new_def wit_slack_def)

theorem slack_error_bounded_witness:
  "\<exists>excerpt. slack_notify wit_slack (slack_config_new (slack_hosts @ ''x'')) wit_event 0 = (Inl (EndpointError 404 excerpt), 1)
     \<and> length (char_starts excerpt) \<le> 200"
proof -
  have run: "slack_notify wit_slack (slack_config_new (slack_hosts @ ''x'')) wit_event 0
      = (Inl (EndpointError 404 (first_n_chars ''no'' 200)), 1)"
    by (simp add: slack_notify_def wit_slack_def)
  from slack_error_bounded [OF wit_slack_new [unfolded from_webhook_def] this] run show ?thesis by blast
qed

theorem slack_sends_secrets_witness:
  "scan (\<lambda>_. False) ''body'' '' AKIA0123456789ABCDEF'' \<noteq> None"
  using slack_sends_secrets [of "''0123456789ABCDEF''" "\<lambda>_. False" "'' ''" "[]"
      "event_new 0 1 Sev_Error ''t'' '' AKIA0123456789ABCDEF''" "slack_config_new []"]
  by (simp add: event_new_def is_digit_or_upper_def is_ascii_uppercase_def is_ascii_digit_def less_eq_char_def delimited_def
      is_word_char_def char_before_def char_after_def is_ascii_alphanumeric_def is_continuation_byte_def)

theorem default_payload_names_nobody_witness:
  "\<exists>members. payload_json (build_payload (slack_config_new (slack_hosts @ ''x'')) wit_event) = JObject members
    \<and> map fst members = [''text'', ''attachments'']"
  by (rule default_payload_names_nobody [OF wit_slack_new])

end
