(* ===== verification/Registry_Client.thy ===== *)
theory Registry_Client
  imports Schema_Fetcher
begin

text \<open>
  \<open>libs/knowledge/src/registry_client.rs\<close>, the HTTPS client of the Terraform Registry. The transport and the JSON
  readers are parameters; the lemmas give the results for every kind of answer.
\<close>

type_synonym u16 = "16 word"

definition REGISTRY_BASE :: string where
  "REGISTRY_BASE = ''https://registry.terraform.io/v1/providers''"

record provider_metadata =
  pm_id :: string
  pm_namespace :: string
  pm_name :: string
  pm_version :: string
  pm_source :: "string option"
  pm_description :: "string option"

record provider_platform =
  pp_os :: string
  pp_arch :: string

record provider_version_entry =
  pe_version :: string
  pe_protocols :: "string list"
  pe_platforms :: "provider_platform list"

record provider_versions =
  pv_id :: string
  pv_versions :: "provider_version_entry list"

text \<open>The transport: whether a client can be built, a GET with its status and body, the text of an error status.\<close>

record 'w registry_http =
  client_fault :: "string option"
  http_get :: "string \<Rightarrow> ('w, string, u16 \<times> string) act"
  status_error :: "u16 \<Rightarrow> string"
  metadata_of_json :: "string \<Rightarrow> string + provider_metadata"
  versions_of_json :: "string \<Rightarrow> string + provider_versions"

record registry_client =
  base_url :: string

definition registry_client_new :: "'w registry_http \<Rightarrow> registry_error + registry_client" where
  "registry_client_new h =
     (case client_fault h of Some e \<Rightarrow> Inl (Registry_Http e) | None \<Rightarrow> Inr \<lparr>base_url = REGISTRY_BASE\<rparr>)"

definition with_base_url :: "string \<Rightarrow> registry_client \<Rightarrow> registry_client" where
  "with_base_url url c = c\<lparr>base_url := url\<rparr>"

text \<open>\<open>error_for_status\<close> refuses the client and server errors.\<close>

definition is_error_status :: "u16 \<Rightarrow> bool" where
  "is_error_status st \<longleftrightarrow> 400 \<le> st \<and> st < 600"

definition get_provider ::
  "'w registry_http \<Rightarrow> registry_client \<Rightarrow> string \<Rightarrow> string \<Rightarrow> ('w, registry_error, provider_metadata) act"
where
  "get_provider h c namespace name w =
     (case http_get h (base_url c @ ''/'' @ namespace @ ''/'' @ name) w of
        (Inl e, w') \<Rightarrow> (Inl (Registry_Http e), w')
      | (Inr (st, body), w') \<Rightarrow>
          ((if st = 404 then Inl (Registry_NotFound namespace name)
            else if is_error_status st then Inl (Registry_Http (status_error h st))
            else case metadata_of_json h body of Inl e \<Rightarrow> Inl (Registry_Http e) | Inr m \<Rightarrow> Inr m), w'))"

definition registry_versions ::
  "'w registry_http \<Rightarrow> registry_client \<Rightarrow> string \<Rightarrow> string \<Rightarrow> ('w, registry_error, provider_versions) act"
where
  "registry_versions h c namespace name w =
     (case http_get h (base_url c @ ''/'' @ namespace @ ''/'' @ name @ ''/versions'') w of
        (Inl e, w') \<Rightarrow> (Inl (Registry_Http e), w')
      | (Inr (st, body), w') \<Rightarrow>
          ((if st = 404 then Inl (Registry_NotFound namespace name)
            else if is_error_status st then Inl (Registry_Http (status_error h st))
            else case versions_of_json h body of Inl e \<Rightarrow> Inl (Registry_Http e) | Inr v \<Rightarrow> Inr v), w'))"

text \<open>A registry whose answers do not depend on when it is asked.\<close>

definition steady_registry :: "'w registry_http \<Rightarrow> bool" where
  "steady_registry h \<longleftrightarrow> (\<forall>url w w'. fst (http_get h url w) = fst (http_get h url w'))"

lemma registry_versions_steady:
  assumes "steady_registry h"
  shows "fst (registry_versions h c ns n w) = fst (registry_versions h c ns n w')"
proof -
  let ?url = "base_url c @ ''/'' @ ns @ ''/'' @ n @ ''/versions''"
  obtain r w1 w2 where "http_get h ?url w = (r, w1)" "http_get h ?url w' = (r, w2)"
    using assms by (metis prod.collapse steady_registry_def)
  then show ?thesis by (simp add: registry_versions_def split: sum.split)
qed

end
