(* ===== verification/Xtask.thy ===== *)
theory Xtask
  imports Registry_Client Eval Schema_Cache "HOL-Library.Product_Lexorder"
begin

text \<open>
  \<open>src/xtask/src\<close>, the build-time task runner: \<open>resolve-latest\<close> moves the pins of the seed manifest to the
  newest stable versions, \<open>capture-schemas\<close> fetches the pinned schemas, \<open>capture-eval-schemas\<close>,
  \<open>verify-eval-schemas\<close> and \<open>refresh-eval-schemas\<close> keep the schema cache of the golden fixtures. Semantic
  versions, TOML, JSON, zstd and SHA-256 are parameters. The lemmas show that a captured cache passes
  its audit and the check every fixture makes, and that \<open>resolve-latest\<close> is idempotent.
\<close>

section \<open>The workbench\<close>

record seed_pin =
  pin_provider :: string
  pin_version :: string
  pin_source :: string

record ('v, 'w) workbench =
  semver_parse :: "string \<Rightarrow> 'v option"
  semver_stable :: "'v \<Rightarrow> bool"
  semver_le :: "'v \<Rightarrow> 'v \<Rightarrow> bool"
  semver_text :: "'v \<Rightarrow> string"
  pins_of_toml :: "string \<Rightarrow> string + seed_pin list"
  wb_http :: "'w registry_http"
  wb_io :: io
  unreadable :: "path \<Rightarrow> bool"
  wb_host :: "'w terraform_host"
  wb_eval :: eval_env
  json_parse :: "string \<Rightarrow> string + json"
  json_pretty :: "json \<Rightarrow> string option"
  schema_bytes :: "provider_schema \<Rightarrow> string option"
  schema_pretty :: "provider_schema \<Rightarrow> string option"
  zstd_encode :: "string \<Rightarrow> string option"
  sha256_of :: "string \<Rightarrow> string"
  rfc3339_now :: "'w \<Rightarrow> string"
  terraform_says :: "'w \<Rightarrow> (bool \<times> string) option"

record 'w bench =
  bn_disk :: fs
  bn_world :: 'w

datatype xtask_error =
    Pins_missing path
  | Unreadable path
  | Unparsable path string
  | Invalid_source string
  | Client_build registry_error
  | Versions_failed string string registry_error
  | Unwritable path
  | No_terraform registry_error
  | Fetch_failed string string registry_error
  | Not_a_directory path
  | Discovery eval_error
  | Mkdir_failed path
  | Serialise_failed
  | Zstd_failed
  | No_entries path
  | No_schema_id
  | No_sha256 string
  | Audit_failed nat nat
  | Pins_failed nat

definition put_bytes :: "io \<Rightarrow> path \<Rightarrow> string \<Rightarrow> (fs, xtask_error, unit) act" where
  "put_bytes io p c s =
     (if dirs s p then (Inl (Unwritable p), s)
      else case write_fault io p of
        Some left \<Rightarrow> (Inl (Unwritable p), s\<lparr>files := (files s)(p := left)\<rparr>)
      | None \<Rightarrow> (Inr (), s\<lparr>files := (files s)(p \<mapsto> c)\<rparr>))"

definition make_dirs :: "io \<Rightarrow> path \<Rightarrow> (fs, xtask_error, unit) act" where
  "make_dirs io d s = (if mkdir_fault io d then (Inl (Mkdir_failed d), s) else (Inr (), create_dir_all d s))"

definition bench_disk :: "(fs, xtask_error, 'a) act \<Rightarrow> ('w bench, xtask_error, 'a) act" where
  "bench_disk m b = (case m (bn_disk b) of (r, s) \<Rightarrow> (r, b\<lparr>bn_disk := s\<rparr>))"

definition bench_world :: "('w, 'e, 'a) act \<Rightarrow> ('w bench, 'e, 'a) act" where
  "bench_world m b = (case m (bn_world b) of (r, w) \<Rightarrow> (r, b\<lparr>bn_world := w\<rparr>))"

section \<open>\<open>resolve-latest\<close>\<close>

definition parse_source :: "string \<Rightarrow> xtask_error + string \<times> string" where
  "parse_source src = (case split_once CHR ''/'' src of None \<Rightarrow> Inl (Invalid_source src) | Some p \<Rightarrow> Inr p)"

text \<open>\<open>Iterator::max\<close> keeps the last of the largest elements.\<close>

definition highest_stable :: "('v, 'w) workbench \<Rightarrow> provider_version_entry list \<Rightarrow> 'v option" where
  "highest_stable wb vs =
     fold (\<lambda>v best. case best of None \<Rightarrow> Some v | Some b \<Rightarrow> if semver_le wb b v then Some v else Some b)
       (filter (semver_stable wb) (List.map_filter (\<lambda>e. semver_parse wb (pe_version e)) vs)) None"

definition new_version :: "('v, 'w) workbench \<Rightarrow> seed_pin \<Rightarrow> provider_versions \<Rightarrow> string" where
  "new_version wb pin vs =
     (case highest_stable wb (pv_versions vs) of Some v \<Rightarrow> semver_text wb v | None \<Rightarrow> pin_version pin)"

definition resolve_pin ::
  "('v, 'w) workbench \<Rightarrow> registry_client \<Rightarrow> seed_pin \<Rightarrow> ('w, xtask_error, seed_pin \<times> string) act"
where
  "resolve_pin wb c pin w =
     (case parse_source (pin_source pin) of
        Inl e \<Rightarrow> (Inl e, w)
      | Inr (namespace, name) \<Rightarrow>
          (case registry_versions (wb_http wb) c namespace name w of
             (Inl e, w') \<Rightarrow> (Inl (Versions_failed namespace name e), w')
           | (Inr vs, w') \<Rightarrow> (Inr (pin, new_version wb pin vs), w')))"

fun resolve_pins ::
  "('v, 'w) workbench \<Rightarrow> registry_client \<Rightarrow> seed_pin list \<Rightarrow> ('w, xtask_error, (seed_pin \<times> string) list) act"
where
  "resolve_pins wb c [] = retA []"
| "resolve_pins wb c (p # ps) =
     bindA (resolve_pin wb c p) (\<lambda>r. bindA (resolve_pins wb c ps) (\<lambda>rs. retA (r # rs)))"

definition manifest_preamble :: string where
  "manifest_preamble =
     ''# Build-time provider pins. `cargo xtask capture-schemas` reads this file'' @ nl
     @ ''# and produces `libs/knowledge/seed/<provider>/<version>/schema.json` per'' @ nl
     @ ''# pin via `terraform providers schema -json`.'' @ nl
     @ ''#'' @ nl
     @ ''# These versions ship with `cargo build --release`. Operators override'' @ nl
     @ ''# them per-profile via `[profiles.<name>.schemas.pinned]` in their'' @ nl
     @ ''# `~/.terrashift/profile.toml`.'' @ nl
     @ ''#'' @ nl
     @ ''# Auto-refreshed weekly by `.github/workflows/weekly-bundle-refresh.yml`'' @ nl
     @ ''# (calls `cargo xtask resolve-latest` then opens a PR if anything moved).'' @ nl
     @ ''#'' @ nl
     @ ''# Pattern: RFC schema-source-migration '' @ [CHR 0xC2, CHR 0xA7] @ ''4.6.'' @ nl
     @ ''# Constitution: Article VI (every pin is a concrete version, never '' @ quoted ''latest'' @ '');'' @ nl
     @ ''#               resolved at build time, frozen in the binary.'' @ nl @ nl"

definition pin_block :: "seed_pin \<Rightarrow> string \<Rightarrow> string" where
  "pin_block pin v =
     ''[[pin]]'' @ nl
     @ ''provider = '' @ quoted (pin_provider pin) @ nl
     @ ''version  = '' @ quoted v @ nl
     @ ''source   = '' @ quoted (pin_source pin) @ nl @ nl"

definition render_manifest :: "(seed_pin \<times> string) list \<Rightarrow> string" where
  "render_manifest resolved = manifest_preamble @ concat (map (\<lambda>(pin, v). pin_block pin v) resolved)"

datatype resolve_end = No_pins | All_current | Check_only | Rewritten

definition default_pins_path :: path where
  "default_pins_path = [''libs'', ''knowledge'', ''seed'', ''manifest.toml'']"

definition pins_path :: "path option \<Rightarrow> path" where
  "pins_path manifest_arg = (case manifest_arg of Some p \<Rightarrow> p | None \<Rightarrow> default_pins_path)"

definition load_pins :: "('v, 'w) workbench \<Rightarrow> path \<Rightarrow> fs \<Rightarrow> xtask_error + seed_pin list" where
  "load_pins wb p s =
     (if \<not> is_file s p then Inl (Pins_missing p)
      else if unreadable wb p then Inl (Unreadable p)
      else case read_to_string s p of
        None \<Rightarrow> Inl (Unreadable p)
      | Some t \<Rightarrow> (case pins_of_toml wb t of Inl e \<Rightarrow> Inl (Unparsable p e) | Inr pins \<Rightarrow> Inr pins))"

definition resolve_latest ::
  "('v, 'w) workbench \<Rightarrow> path option \<Rightarrow> bool \<Rightarrow> ('w bench, xtask_error, resolve_end) act"
where
  "resolve_latest wb manifest_arg check b =
     (let p = pins_path manifest_arg in
      case load_pins wb p (bn_disk b) of
        Inl e \<Rightarrow> (Inl e, b)
      | Inr pins \<Rightarrow>
          (if pins = [] then (Inr No_pins, b)
           else case registry_client_new (wb_http wb) of
             Inl e \<Rightarrow> (Inl (Client_build e), b)
           | Inr c \<Rightarrow>
               bindA (bench_world (resolve_pins wb c pins)) (\<lambda>resolved.
                 if \<forall>(pin, v)\<in>set resolved. v = pin_version pin then retA All_current
                 else if check then retA Check_only
                 else bindA (bench_disk (put_bytes (wb_io wb) p (render_manifest resolved))) (\<lambda>_. retA Rewritten)) b))"

section \<open>\<open>capture-schemas\<close>\<close>

text \<open>One pin: a failed fetch is counted and the next pin is tried; a failed write ends the command.\<close>

definition capture_pin ::
  "('v, 'w) workbench \<Rightarrow> fetcher \<Rightarrow> path \<Rightarrow> seed_pin \<Rightarrow> ('w bench, xtask_error, bool) act"
where
  "capture_pin wb f seed_root pin b =
     (case parse_source (pin_source pin) of
        Inl e \<Rightarrow> (Inl e, b)
      | Inr (namespace, name) \<Rightarrow>
          (case cli_fetch (wb_host wb) f namespace name (pin_version pin) (bn_world b) of
             (Inl _, w) \<Rightarrow> (Inr False, b\<lparr>bn_world := w\<rparr>)
           | (Inr schema, w) \<Rightarrow>
               (let dir = join_text_path (join_text_path seed_root (pin_provider pin)) (pin_version pin) in
                bindA (bench_disk (make_dirs (wb_io wb) dir)) (\<lambda>_.
                  case schema_pretty wb schema of
                    None \<Rightarrow> throwA Serialise_failed
                  | Some json \<Rightarrow>
                      bindA (bench_disk (put_bytes (wb_io wb) (dir @ [''schema.json'']) json)) (\<lambda>_. retA True))
                  (b\<lparr>bn_world := w\<rparr>))))"

fun capture_pins ::
  "('v, 'w) workbench \<Rightarrow> fetcher \<Rightarrow> path \<Rightarrow> seed_pin list \<Rightarrow> nat \<times> nat \<Rightarrow> ('w bench, xtask_error, nat \<times> nat) act"
where
  "capture_pins wb f seed_root [] (ok, failed) = retA (ok, failed)"
| "capture_pins wb f seed_root (p # ps) (ok, failed) =
     bindA (capture_pin wb f seed_root p) (\<lambda>stored.
       capture_pins wb f seed_root ps (if stored then (ok + 1, failed) else (ok, failed + 1)))"

record capture_args =
  ca_manifest :: "path option"
  ca_seed_root :: "path option"
  ca_plugin_cache :: "path option"

definition capture_schemas :: "('v, 'w) workbench \<Rightarrow> capture_args \<Rightarrow> ('w bench, xtask_error, unit) act" where
  "capture_schemas wb args b =
     (let p = pins_path (ca_manifest args);
          seed_root = (case ca_seed_root args of Some r \<Rightarrow> r | None \<Rightarrow> [''libs'', ''knowledge'', ''seed'']);
          plugin_cache = (case ca_plugin_cache args of Some c \<Rightarrow> c
                          | None \<Rightarrow> [''target'', ''build-schemas'', ''plugin-cache'']) in
      case load_pins wb p (bn_disk b) of
        Inl e \<Rightarrow> (Inl e, b)
      | Inr pins \<Rightarrow>
          (if pins = [] then (Inr (), b)
           else
             let f = with_plugin_cache_dir plugin_cache fetcher_new in
             bindA (bench_disk (make_dirs (wb_io wb) plugin_cache)) (\<lambda>_.
             bindA (map_errA No_terraform (bench_world (fetcher_check_available (wb_host wb) f))) (\<lambda>_.
             bindA (capture_pins wb f seed_root pins (0, 0)) (\<lambda>(ok, failed).
               if 0 < failed then throwA (Pins_failed failed) else retA ()))) b))"

section \<open>\<open>capture-eval-schemas\<close>\<close>

record cache_entry =
  ce_schema_id :: string
  ce_provider :: string
  ce_version :: string
  ce_sha256 :: string
  ce_size_bytes :: nat
  ce_uncompressed_size_bytes :: nat

record cache_manifest =
  cm_schema_version :: u32
  cm_captured_at :: string
  cm_terraform_version :: string
  cm_entries :: "cache_entry list"

text \<open>\<open>Serialize\<close>, the fields in order.\<close>

definition json_nat :: "nat \<Rightarrow> json" where
  "json_nat n = JNumber (PosInt (of_nat n))"

definition cache_entry_json :: "cache_entry \<Rightarrow> json" where
  "cache_entry_json e = JObject
     [(''schema_id'', JString (ce_schema_id e)), (''provider'', JString (ce_provider e)),
      (''version'', JString (ce_version e)), (''sha256'', JString (ce_sha256 e)),
      (''size_bytes'', json_nat (ce_size_bytes e)),
      (''uncompressed_size_bytes'', json_nat (ce_uncompressed_size_bytes e))]"

definition cache_manifest_json :: "cache_manifest \<Rightarrow> json" where
  "cache_manifest_json m = JObject
     [(''schema_version'', json_nat (unat (cm_schema_version m))), (''captured_at'', JString (cm_captured_at m)),
      (''terraform_version'', JString (cm_terraform_version m)), (''entries'', JArray (map cache_entry_json (cm_entries m)))]"

definition bytes_hex :: "('v, 'w) workbench \<Rightarrow> string \<Rightarrow> string" where
  "bytes_hex wb bytes = hex_lower (sha256_of wb bytes)"

definition eval_cache_file :: "path \<Rightarrow> string \<Rightarrow> path" where
  "eval_cache_file cache_dir sid = join_text_path cache_dir (sid @ ''.json.zst'')"

text \<open>The union of what the fixtures require, as the \<open>BTreeSet\<close> iterates it.\<close>

definition required_pairs :: "golden_migration list \<Rightarrow> (string \<times> string) list" where
  "required_pairs goldens =
     sort (remdups (concat (map (\<lambda>g. map (\<lambda>r. (rs_provider r, rs_version r)) (required_schemas (gd_manifest g))) goldens)))"

definition tool_version :: "('v, 'w) workbench \<Rightarrow> 'w \<Rightarrow> string" where
  "tool_version wb w =
     (case (case terraform_says wb w of
              None \<Rightarrow> None
            | Some (success, out) \<Rightarrow>
                (if \<not> success then None
                 else case first_line (utf8_lossy out) of
                   None \<Rightarrow> None
                 | Some l \<Rightarrow> map_option str_trim (strip_prefix ''Terraform v'' l))) of
        Some v \<Rightarrow> v | None \<Rightarrow> ''unknown'')"

definition capture_eval_schema ::
  "('v, 'w) workbench \<Rightarrow> string \<Rightarrow> path \<Rightarrow> string \<times> string \<Rightarrow> ('w bench, xtask_error, cache_entry) act"
where
  "capture_eval_schema wb namespace cache_dir = (\<lambda>(p, v).
     bindA (map_errA (Fetch_failed p v) (bench_world (cli_fetch (wb_host wb) fetcher_new namespace p v))) (\<lambda>schema.
       case schema_bytes wb schema of
         None \<Rightarrow> throwA Serialise_failed
       | Some json \<Rightarrow>
           (case zstd_encode wb json of
              None \<Rightarrow> throwA Zstd_failed
            | Some compressed \<Rightarrow>
                (let sid = p @ ''@'' @ v in
                 bindA (bench_disk (put_bytes (wb_io wb) (eval_cache_file cache_dir sid) compressed)) (\<lambda>_.
                   retA \<lparr>ce_schema_id = sid, ce_provider = p, ce_version = v, ce_sha256 = bytes_hex wb compressed,
                         ce_size_bytes = length compressed, ce_uncompressed_size_bytes = length json\<rparr>)))))"

fun capture_each ::
  "('v, 'w) workbench \<Rightarrow> string \<Rightarrow> path \<Rightarrow> (string \<times> string) list \<Rightarrow> ('w bench, xtask_error, cache_entry list) act"
where
  "capture_each wb namespace cache_dir [] = retA []"
| "capture_each wb namespace cache_dir (r # rs) =
     bindA (capture_eval_schema wb namespace cache_dir r) (\<lambda>e.
     bindA (capture_each wb namespace cache_dir rs) (\<lambda>es. retA (e # es)))"

record eval_args =
  ea_suite_root :: "path option"
  ea_namespace :: string
  ea_dry_run :: bool

definition suite_of :: "path option \<Rightarrow> path" where
  "suite_of r = (case r of Some p \<Rightarrow> p | None \<Rightarrow> [''terrashift-evals''])"

datatype capture_end = Nothing_required | Dry_run "(string \<times> string) list" | Captured cache_manifest

definition save_eval_manifest :: "('v, 'w) workbench \<Rightarrow> path \<Rightarrow> cache_manifest \<Rightarrow> ('w bench, xtask_error, unit) act" where
  "save_eval_manifest wb cache_dir m =
     (case json_pretty wb (cache_manifest_json m) of
        None \<Rightarrow> throwA Serialise_failed
      | Some t \<Rightarrow> bench_disk (put_bytes (wb_io wb) (cache_dir @ [''manifest.json'']) t))"

definition capture_eval_schemas :: "('v, 'w) workbench \<Rightarrow> eval_args \<Rightarrow> ('w bench, xtask_error, capture_end) act" where
  "capture_eval_schemas wb args b =
     (let root = suite_of (ea_suite_root args); cache_dir = root @ [''.schema-cache''] in
      if \<not> dirs (bn_disk b) root then (Inl (Not_a_directory root), b)
      else case discover_suite (wb_eval wb) (bn_disk b) root of
        Inl e \<Rightarrow> (Inl (Discovery e), b)
      | Inr goldens \<Rightarrow>
          (let required = required_pairs goldens in
           if required = [] then (Inr Nothing_required, b)
           else bindA (bench_disk (make_dirs (wb_io wb) cache_dir)) (\<lambda>_.
             if ea_dry_run args then retA (Dry_run required)
             else bindA (map_errA No_terraform (bench_world (fetcher_check_available (wb_host wb) fetcher_new))) (\<lambda>_ b2.
               bindA (capture_each wb (ea_namespace args) cache_dir required) (\<lambda>es b3.
                 let m = \<lparr>cm_schema_version = 1, cm_captured_at = rfc3339_now wb (bn_world b3),
                          cm_terraform_version = tool_version wb (bn_world b2), cm_entries = es\<rparr> in
                 bindA (save_eval_manifest wb cache_dir m) (\<lambda>_. retA (Captured m)) b3) b2)) b))"

section \<open>\<open>verify-eval-schemas\<close>\<close>

fun json_as_array :: "json \<Rightarrow> json list option" where
  "json_as_array (JArray xs) = Some xs"
| "json_as_array _ = None"

definition text_member :: "string \<Rightarrow> json \<Rightarrow> string option" where
  "text_member k j = (case json_get j k of None \<Rightarrow> None | Some v \<Rightarrow> json_as_str v)"

fun audit_entries :: "('v, 'w) workbench \<Rightarrow> path \<Rightarrow> fs \<Rightarrow> json list \<Rightarrow> nat \<times> nat \<Rightarrow> xtask_error + nat \<times> nat" where
  "audit_entries wb cache_dir s [] counts = Inr counts"
| "audit_entries wb cache_dir s (e # es) (drift, missing) =
     (case text_member ''schema_id'' e of
        None \<Rightarrow> Inl No_schema_id
      | Some sid \<Rightarrow>
          (case text_member ''sha256'' e of
             None \<Rightarrow> Inl (No_sha256 sid)
           | Some expected \<Rightarrow>
               (let f = eval_cache_file cache_dir sid in
                if unreadable wb f then Inl (Unreadable f)
                else case files s f of
                  Some bytes \<Rightarrow>
                    audit_entries wb cache_dir s es (if bytes_hex wb bytes = expected then (drift, missing) else (drift + 1, missing))
                | None \<Rightarrow>
                    (if path_exists s f then Inl (Unreadable f)
                     else audit_entries wb cache_dir s es (drift, missing + 1)))))"

definition verify_eval_schemas :: "('v, 'w) workbench \<Rightarrow> path option \<Rightarrow> fs \<Rightarrow> xtask_error + unit" where
  "verify_eval_schemas wb root_arg s =
     (let cache_dir = suite_of root_arg @ [''.schema-cache'']; p = cache_dir @ [''manifest.json''] in
      if \<not> dirs s cache_dir then Inr ()
      else if \<not> is_file s p then Inr ()
      else if unreadable wb p then Inl (Unreadable p)
      else case read_to_string s p of
        None \<Rightarrow> Inl (Unreadable p)
      | Some t \<Rightarrow>
          (case json_parse wb t of
             Inl e \<Rightarrow> Inl (Unparsable p e)
           | Inr j \<Rightarrow>
               (case (case json_get j ''entries'' of None \<Rightarrow> None | Some v \<Rightarrow> json_as_array v) of
                  None \<Rightarrow> Inl (No_entries p)
                | Some es \<Rightarrow>
                    (case audit_entries wb cache_dir s es (0, 0) of
                       Inl e \<Rightarrow> Inl e
                     | Inr (drift, missing) \<Rightarrow>
                         if drift = 0 \<and> missing = 0 then Inr () else Inl (Audit_failed drift missing)))))"

section \<open>\<open>refresh-eval-schemas\<close>\<close>

record refresh_args =
  ra_suite_root :: "path option"
  ra_namespace :: string
  ra_check :: bool

text \<open>A cached pin is behind when the newest stable version is strictly larger.\<close>

definition has_newer :: "('v, 'w) workbench \<Rightarrow> string \<Rightarrow> provider_versions \<Rightarrow> bool" where
  "has_newer wb cached vs =
     (case (semver_parse wb cached, highest_stable wb (pv_versions vs)) of
        (Some c, Some latest) \<Rightarrow> \<not> semver_le wb latest c
      | _ \<Rightarrow> False)"

fun count_newer ::
  "('v, 'w) workbench \<Rightarrow> registry_client \<Rightarrow> string \<Rightarrow> (string \<times> string) list \<Rightarrow> 'w \<Rightarrow> nat \<times> 'w"
where
  "count_newer wb c namespace [] w = (0, w)"
| "count_newer wb c namespace ((p, v) # es) w =
     (case registry_versions (wb_http wb) c namespace p w of
        (Inl _, w') \<Rightarrow> count_newer wb c namespace es w'
      | (Inr vs, w') \<Rightarrow>
          (case count_newer wb c namespace es w' of
             (n, w'') \<Rightarrow> ((if has_newer wb v vs then Suc n else n), w'')))"

definition entry_pair :: "json \<Rightarrow> (string \<times> string) option" where
  "entry_pair e = (case (text_member ''provider'' e, text_member ''version'' e) of
     (Some p, Some v) \<Rightarrow> Some (p, v) | _ \<Rightarrow> None)"

definition manifest_pairs :: "json \<Rightarrow> (string \<times> string) list option" where
  "manifest_pairs j =
     (case (case json_get j ''entries'' of None \<Rightarrow> None | Some v \<Rightarrow> json_as_array v) of
        None \<Rightarrow> None
      | Some es \<Rightarrow> (if \<forall>e\<in>set es. entry_pair e \<noteq> None then Some (map (\<lambda>e. the (entry_pair e)) es) else None))"

datatype refresh_end = No_manifest | Up_to_date | Reported nat | Recaptured nat capture_end

definition refresh_eval_schemas :: "('v, 'w) workbench \<Rightarrow> refresh_args \<Rightarrow> ('w bench, xtask_error, refresh_end) act" where
  "refresh_eval_schemas wb args b =
     (let root = suite_of (ra_suite_root args); p = root @ [''.schema-cache'', ''manifest.json''] in
      if \<not> is_file (bn_disk b) p then (Inr No_manifest, b)
      else if unreadable wb p then (Inl (Unreadable p), b)
      else case read_to_string (bn_disk b) p of
        None \<Rightarrow> (Inl (Unreadable p), b)
      | Some t \<Rightarrow>
          (case json_parse wb t of
             Inl e \<Rightarrow> (Inl (Unparsable p e), b)
           | Inr j \<Rightarrow>
               (case manifest_pairs j of
                  None \<Rightarrow> (Inl (Unparsable p []), b)
                | Some pairs \<Rightarrow>
                    (case registry_client_new (wb_http wb) of
                       Inl e \<Rightarrow> (Inl (Client_build e), b)
                     | Inr c \<Rightarrow>
                         (case count_newer wb c (ra_namespace args) pairs (bn_world b) of
                            (n, w) \<Rightarrow>
                              (let b1 = b\<lparr>bn_world := w\<rparr> in
                               if n = 0 then (Inr Up_to_date, b1)
                               else if ra_check args then (Inr (Reported n), b1)
                               else bindA (capture_eval_schemas wb \<lparr>ea_suite_root = Some root,
                                        ea_namespace = ra_namespace args, ea_dry_run = False\<rparr>)
                                      (\<lambda>r. retA (Recaptured n r)) b1))))))"

section \<open>The runner\<close>

datatype xtask_command =
    CaptureSchemas capture_args
  | CaptureEvalSchemas eval_args
  | VerifyEvalSchemas "path option"
  | RefreshEvalSchemas refresh_args
  | ResolveLatest "path option" bool

definition xtask_run :: "('v, 'w) workbench \<Rightarrow> xtask_command \<Rightarrow> ('w bench, xtask_error, unit) act" where
  "xtask_run wb cmd =
     (case cmd of
        CaptureSchemas args \<Rightarrow> capture_schemas wb args
      | CaptureEvalSchemas args \<Rightarrow> bindA (capture_eval_schemas wb args) (\<lambda>_. retA ())
      | VerifyEvalSchemas root \<Rightarrow> (\<lambda>b. (verify_eval_schemas wb root (bn_disk b), b))
      | RefreshEvalSchemas args \<Rightarrow> bindA (refresh_eval_schemas wb args) (\<lambda>_. retA ())
      | ResolveLatest manifest_arg check \<Rightarrow> bindA (resolve_latest wb manifest_arg check) (\<lambda>_. retA ()))"

section \<open>What a write leaves\<close>

lemma put_bytes_Inr:
  "put_bytes io p c s = (Inr u, s') \<longleftrightarrow> \<not> dirs s p \<and> write_fault io p = None \<and> s' = s\<lparr>files := (files s)(p \<mapsto> c)\<rparr>"
  by (auto simp: put_bytes_def split: option.splits)

lemma make_dirs_Inr: "make_dirs io d s = (Inr u, s') \<longleftrightarrow> \<not> mkdir_fault io d \<and> s' = create_dir_all d s"
  by (auto simp: make_dirs_def)

lemma bench_disk_Inr:
  "bench_disk m b = (Inr x, b') \<longleftrightarrow> (\<exists>s. m (bn_disk b) = (Inr x, s) \<and> b' = b\<lparr>bn_disk := s\<rparr>)"
  by (auto simp: bench_disk_def split: prod.splits)

lemma bench_world_Inr:
  "bench_world m b = (Inr x, b') \<longleftrightarrow> (\<exists>w. m (bn_world b) = (Inr x, w) \<and> b' = b\<lparr>bn_world := w\<rparr>)"
  by (auto simp: bench_world_def split: prod.splits)

lemma bench_world_disk: "bn_disk (snd (bench_world m b)) = bn_disk b"
  by (auto simp: bench_world_def split: prod.splits)

lemma map_errA_Inr: "map_errA f m w = (Inr x, w') \<longleftrightarrow> m w = (Inr x, w')"
  by (auto simp: map_errA_def split: prod.splits sum.splits)

lemmas bench_results = put_bytes_Inr make_dirs_Inr bench_disk_Inr bench_world_Inr map_errA_Inr bindA_eq_Inr

section \<open>The audit of the fixture cache\<close>

definition entry_present :: "('v, 'w) workbench \<Rightarrow> path \<Rightarrow> fs \<Rightarrow> cache_entry \<Rightarrow> bool" where
  "entry_present wb cache_dir s e \<longleftrightarrow>
     (\<exists>z. files s (eval_cache_file cache_dir (ce_schema_id e)) = Some z \<and> bytes_hex wb z = ce_sha256 e)"

text \<open>Serde writes a manifest that it reads back.\<close>

definition manifests_read_back :: "('v, 'w) workbench \<Rightarrow> bool" where
  "manifests_read_back wb \<longleftrightarrow>
     (\<forall>m t. json_pretty wb (cache_manifest_json m) = Some t \<longrightarrow> valid_utf8 t \<and> json_parse wb t = Inr (cache_manifest_json m))"

lemma entry_members [simp]:
  "text_member ''schema_id'' (cache_entry_json e) = Some (ce_schema_id e)"
  "text_member ''sha256'' (cache_entry_json e) = Some (ce_sha256 e)"
  "text_member ''provider'' (cache_entry_json e) = Some (ce_provider e)"
  "text_member ''version'' (cache_entry_json e) = Some (ce_version e)"
  by (simp_all add: text_member_def cache_entry_json_def)

lemma manifest_entries [simp]: "json_get (cache_manifest_json m) ''entries'' = Some (JArray (map cache_entry_json (cm_entries m)))"
  by (simp add: cache_manifest_json_def)

text \<open>The two counters: the files whose digest differs, and the files that are not there.\<close>

lemma audit_counts:
  assumes "\<forall>p. \<not> unreadable wb p" "\<forall>e\<in>set es. \<not> dirs s (eval_cache_file cache_dir (ce_schema_id e))"
  shows "audit_entries wb cache_dir s (map cache_entry_json es) (d, n) = Inr
    (d + length (filter (\<lambda>e. case files s (eval_cache_file cache_dir (ce_schema_id e)) of
        Some z \<Rightarrow> bytes_hex wb z \<noteq> ce_sha256 e | None \<Rightarrow> False) es),
     n + length (filter (\<lambda>e. files s (eval_cache_file cache_dir (ce_schema_id e)) = None) es))"
  using assms
proof (induction es arbitrary: d n)
  case (Cons e es)
  then show ?case
    by (cases "files s (eval_cache_file cache_dir (ce_schema_id e))") (auto simp: path_exists_def Let_def)
qed simp

lemma audit_clean_iff:
  assumes "\<forall>p. \<not> unreadable wb p" "\<forall>e\<in>set es. \<not> dirs s (eval_cache_file cache_dir (ce_schema_id e))"
  shows "audit_entries wb cache_dir s (map cache_entry_json es) (0, 0) = Inr (0, 0) \<longleftrightarrow>
    (\<forall>e\<in>set es. entry_present wb cache_dir s e)"
  unfolding audit_counts [OF assms]
  by (auto simp: filter_empty_conv entry_present_def split: option.splits)

lemma verify_saved:
  assumes "\<forall>p. \<not> unreadable wb p" "manifests_read_back wb"
    and "dirs s (suite_of r @ [''.schema-cache''])"
    and "files s (suite_of r @ [''.schema-cache'', ''manifest.json'']) = Some t"
    and "json_pretty wb (cache_manifest_json m) = Some t"
    and "\<forall>e\<in>set (cm_entries m). \<not> dirs s (eval_cache_file (suite_of r @ [''.schema-cache'']) (ce_schema_id e))"
  shows "verify_eval_schemas wb r s = Inr () \<longleftrightarrow>
    (\<forall>e\<in>set (cm_entries m). entry_present wb (suite_of r @ [''.schema-cache'']) s e)"
proof -
  have rd: "read_to_string s (suite_of r @ [''.schema-cache'', ''manifest.json'']) = Some t"
    "json_parse wb t = Inr (cache_manifest_json m)"
    using assms(2,4,5) by (auto simp: manifests_read_back_def read_to_string_def)
  show ?thesis
    using assms(1,3,4) audit_clean_iff [OF assms(1,6)] audit_counts [OF assms(1,6), of 0 0]
    by (auto simp: verify_eval_schemas_def Let_def rd is_file_def)
qed

section \<open>A captured cache passes its audit\<close>

definition pair_file :: "path \<Rightarrow> string \<times> string \<Rightarrow> path" where
  "pair_file cache_dir = (\<lambda>(p, v). eval_cache_file cache_dir (p @ ''@'' @ v))"

lemma capture_eval_schema_stores:
  assumes "capture_eval_schema wb ns cache_dir pv b = (Inr e, b')"
  shows "(ce_provider e, ce_version e) = pv \<and> ce_schema_id e = fst pv @ ''@'' @ snd pv
    \<and> \<not> dirs (bn_disk b) (pair_file cache_dir pv)
    \<and> (\<exists>z. bn_disk b' = (bn_disk b)\<lparr>files := (files (bn_disk b))(pair_file cache_dir pv \<mapsto> z)\<rparr> \<and> bytes_hex wb z = ce_sha256 e)"
proof (cases pv)
  case (Pair p v)
  obtain schema b1 where f: "bench_world (cli_fetch (wb_host wb) fetcher_new ns p v) b = (Inr schema, b1)"
    using assms by (auto simp: capture_eval_schema_def Pair bindA_eq_Inr map_errA_Inr)
  obtain json z where j: "schema_bytes wb schema = Some json" "zstd_encode wb json = Some z"
    using assms f by (cases "schema_bytes wb schema"; cases "zstd_encode wb (the (schema_bytes wb schema))")
      (auto simp: capture_eval_schema_def Pair bindA_eq_Inr map_errA_Inr)
  have "bn_disk b1 = bn_disk b" using f bench_world_disk by (metis snd_conv)
  with assms f j show ?thesis by (auto simp: capture_eval_schema_def bench_results pair_file_def Let_def Pair)
qed

lemma capture_each_stores:
  assumes "capture_each wb ns cache_dir rs b = (Inr es, b')" "distinct (map (pair_file cache_dir) rs)"
  shows "map (\<lambda>e. (ce_provider e, ce_version e)) es = rs
    \<and> (\<forall>e\<in>set es. ce_schema_id e = ce_provider e @ ''@'' @ ce_version e \<and> entry_present wb cache_dir (bn_disk b') e)
    \<and> dirs (bn_disk b') = dirs (bn_disk b) \<and> (\<forall>r\<in>set rs. \<not> dirs (bn_disk b) (pair_file cache_dir r))
    \<and> (\<forall>q. q \<notin> pair_file cache_dir ` set rs \<longrightarrow> files (bn_disk b') q = files (bn_disk b) q)"
  using assms
proof (induction rs arbitrary: b es)
  case (Cons r rs)
  from Cons.prems(1) obtain e es' b1 where one: "capture_eval_schema wb ns cache_dir r b = (Inr e, b1)"
    and rest: "capture_each wb ns cache_dir rs b1 = (Inr es', b')" and es: "es = e # es'"
    by (auto simp: bindA_eq_Inr)
  obtain z where z: "bn_disk b1 = (bn_disk b)\<lparr>files := (files (bn_disk b))(pair_file cache_dir r \<mapsto> z)\<rparr>"
      "bytes_hex wb z = ce_sha256 e" "(ce_provider e, ce_version e) = r" "ce_schema_id e = fst r @ ''@'' @ snd r"
      "\<not> dirs (bn_disk b) (pair_file cache_dir r)"
    using capture_eval_schema_stores [OF one] by blast
  have IH: "map (\<lambda>e. (ce_provider e, ce_version e)) es' = rs"
    "\<forall>e\<in>set es'. ce_schema_id e = ce_provider e @ ''@'' @ ce_version e \<and> entry_present wb cache_dir (bn_disk b') e"
    "dirs (bn_disk b') = dirs (bn_disk b1)" "\<forall>r\<in>set rs. \<not> dirs (bn_disk b1) (pair_file cache_dir r)"
    "\<forall>q. q \<notin> pair_file cache_dir ` set rs \<longrightarrow> files (bn_disk b') q = files (bn_disk b1) q"
    using Cons.IH [OF rest] Cons.prems(2) by auto
  have "files (bn_disk b') (pair_file cache_dir r) = Some z"
    using IH(5) Cons.prems(2) z(1) by auto
  then have "entry_present wb cache_dir (bn_disk b') e"
    using z(2-4) by (auto simp: entry_present_def pair_file_def split: prod.splits)
  then show ?case using IH z es by auto
qed simp

text \<open>A pin whose texts cannot be confused inside a file name.\<close>

definition plain_pair :: "string \<times> string \<Rightarrow> bool" where
  "plain_pair = (\<lambda>(p, v). CHR ''@'' \<notin> set p \<and> CHR ''/'' \<notin> set p \<and> CHR ''/'' \<notin> set v)"

lemma split_on_absent: "c \<notin> set t \<Longrightarrow> split_on c t = [t]"
  by (induction t) (auto split: list.splits)

lemma pair_file_plain:
  assumes "plain_pair (p, v)"
  shows "pair_file d (p, v) = d @ [p @ ''@'' @ v @ ''.json.zst'']"
proof -
  let ?t = "p @ ''@'' @ v @ ''.json.zst''"
  have no: "CHR ''/'' \<notin> set ?t" using assms by (auto simp: plain_pair_def)
  then have "\<not> starts_with ''/'' ?t" unfolding starts_with_def by (cases ?t) (simp_all del: append.simps, metis list.set_intros(1))
  moreover have "?t \<noteq> ''.''"
  proof
    assume "?t = ''.''"
    then have "length ?t = 1" by simp
    then show False by simp
  qed
  ultimately show ?thesis
    using split_on_absent [OF no] by (simp add: pair_file_def eval_cache_file_def join_text_path_def Let_def)
qed

lemma pair_file_manifest:
  assumes "plain_pair pv"
  shows "pair_file d pv \<noteq> d @ [''manifest.json'']"
proof -
  have "x @ ''.json.zst'' \<noteq> ''manifest.json''" for x
    by (rule notI, drule arg_cong [where f = last]) simp
  from this [of "fst pv @ ''@'' @ snd pv"] show ?thesis
    using assms pair_file_plain [of "fst pv" "snd pv" d] by simp
qed

lemma plain_pair_file_inj:
  assumes "plain_pair a" "plain_pair b" "pair_file d a = pair_file d b"
  shows "a = b"
proof -
  obtain p v where a: "a = (p, v)" by fastforce
  obtain q u where b: "b = (q, u)" by fastforce
  have "p @ CHR ''@'' # v = q @ CHR ''@'' # u"
    using assms pair_file_plain [of p v d] pair_file_plain [of q u d] by (simp add: a b)
  then have "split_once CHR ''@'' (q @ CHR ''@'' # u) = Some (p, v)"
    using assms(1) by (simp add: split_once_Some a plain_pair_def)
  moreover have "split_once CHR ''@'' (q @ CHR ''@'' # u) = Some (q, u)"
    using assms(2) by (simp add: split_once_Some b plain_pair_def)
  ultimately show ?thesis by (simp add: a b)
qed

lemma captured_steps:
  assumes "capture_eval_schemas wb args b = (Inr (Captured m), b')"
  defines "cd \<equiv> suite_of (ea_suite_root args) @ [''.schema-cache'']"
  obtains goldens b1 b3 json_text where
    "discover_suite (wb_eval wb) (bn_disk b) (suite_of (ea_suite_root args)) = Inr goldens"
    "bn_disk b1 = create_dir_all cd (bn_disk b)"
    "capture_each wb (ea_namespace args) cd (required_pairs goldens) b1 = (Inr (cm_entries m), b3)"
    "json_pretty wb (cache_manifest_json m) = Some json_text"
    "bn_disk b' = (bn_disk b3)\<lparr>files := (files (bn_disk b3))(cd @ [''manifest.json''] \<mapsto> json_text)\<rparr>"
proof -
  let ?root = "suite_of (ea_suite_root args)"
  have root: "dirs (bn_disk b) ?root"
    using assms(1) by (rule contrapos_pp) (simp add: capture_eval_schemas_def Let_def)
  obtain goldens where g: "discover_suite (wb_eval wb) (bn_disk b) ?root = Inr goldens"
    using assms(1) root by (cases "discover_suite (wb_eval wb) (bn_disk b) ?root") (auto simp: capture_eval_schemas_def Let_def)
  have some: "required_pairs goldens \<noteq> []" "\<not> ea_dry_run args"
    using assms(1) root g by (auto simp: capture_eval_schemas_def Let_def bindA_eq_Inr split: if_splits)
  obtain b1 es b3 tool where s:
      "map_errA No_terraform (bench_world (fetcher_check_available (wb_host wb) fetcher_new))
         (b\<lparr>bn_disk := create_dir_all cd (bn_disk b)\<rparr>) = (Inr tool, b1)"
      "capture_each wb (ea_namespace args) cd (required_pairs goldens) b1 = (Inr es, b3)"
      "save_eval_manifest wb cd m b3 = (Inr (), b')" "es = cm_entries m"
    using assms(1) root g some
    by (auto simp: capture_eval_schemas_def Let_def bindA_eq_Inr bench_disk_Inr make_dirs_Inr cd_def)
  have "bn_disk b1 = create_dir_all cd (bn_disk b)" using s(1) by (auto simp: map_errA_Inr bench_world_Inr)
  moreover obtain t where "json_pretty wb (cache_manifest_json m) = Some t"
      "bn_disk b' = (bn_disk b3)\<lparr>files := (files (bn_disk b3))(cd @ [''manifest.json''] \<mapsto> t)\<rparr>"
    using s(3) by (cases "json_pretty wb (cache_manifest_json m)") (auto simp: save_eval_manifest_def bench_results)
  ultimately show thesis using that [OF g] s by simp
qed

lemma discovered_roots:
  assumes "discover_suite env s root = Inr goldens" "g \<in> set goldens"
  shows "butlast (gd_root g) = root"
proof -
  have "load_all env s ps = Inr gs \<Longrightarrow> map gd_root gs = ps" for ps gs
    by (induction ps arbitrary: gs) (auto simp: load_golden_def Let_def split: if_splits sum.splits option.splits)
  then obtain names where "map gd_root goldens = map (\<lambda>name. root @ [name]) names"
    using assms(1) by (fastforce simp: discover_suite_def split: if_splits option.splits)
  then have "gd_root g \<in> (\<lambda>name. root @ [name]) ` set names"
    using assms(2) by (metis image_eqI set_map)
  then show ?thesis by auto
qed

lemma check_each_schema_Inr:
  "check_each_schema s root d reqs = Inr () \<longleftrightarrow>
     (\<forall>r\<in>set reqs. path_exists s (pair_file d (rs_provider r, rs_version r)))"
  by (induction reqs) (auto simp: pair_file_def eval_cache_file_def schema_id_def)

lemma required_pairs_set:
  "set (required_pairs goldens) =
     (\<Union>g\<in>set goldens. (\<lambda>r. (rs_provider r, rs_version r)) ` set (required_schemas (gd_manifest g)))"
  "distinct (required_pairs goldens)"
  by (auto simp: required_pairs_def)

text \<open>
  C28. Capture and audit of the fixture schema cache (roundtrip): when \<open>capture-eval-schemas\<close> succeeds,
  \<open>verify-eval-schemas\<close> on what it left finds no drift and no missing file, and every fixture of the suite
  finds the schemas it requires.
\<close>

theorem captured_cache_verifies:
  assumes "capture_eval_schemas wb args b = (Inr (Captured m), b')"
    and "discover_suite (wb_eval wb) (bn_disk b) (suite_of (ea_suite_root args)) = Inr goldens"
    and "manifests_read_back wb" "\<forall>p. \<not> unreadable wb p" "\<forall>pv\<in>set (required_pairs goldens). plain_pair pv"
  shows "verify_eval_schemas wb (ea_suite_root args) (bn_disk b') = Inr ()
    \<and> (\<forall>g\<in>set goldens. check_required_schemas (bn_disk b') g = Inr ())"
proof -
  let ?cd = "suite_of (ea_suite_root args) @ [''.schema-cache'']" and ?rs = "required_pairs goldens"
  obtain b1 b3 t where s: "bn_disk b1 = create_dir_all ?cd (bn_disk b)"
      "capture_each wb (ea_namespace args) ?cd ?rs b1 = (Inr (cm_entries m), b3)"
      "json_pretty wb (cache_manifest_json m) = Some t"
      "bn_disk b' = (bn_disk b3)\<lparr>files := (files (bn_disk b3))(?cd @ [''manifest.json''] \<mapsto> t)\<rparr>"
    using captured_steps [OF assms(1)] assms(2) by (metis sum.inject(2))
  have "distinct (map (pair_file ?cd) ?rs)"
    using assms(5) plain_pair_file_inj by (simp add: distinct_map inj_on_def required_pairs_set(2))
  note st = capture_each_stores [OF s(2) this]
  have pairs: "(ce_provider e, ce_version e) \<in> set ?rs" if "e \<in> set (cm_entries m)" for e
    using st that by (metis (mono_tags, lifting) image_eqI set_map)
  have named: "eval_cache_file ?cd (ce_schema_id e) = pair_file ?cd (ce_provider e, ce_version e)" if "e \<in> set (cm_entries m)" for e
    using st that by (simp add: pair_file_def)
  have stored: "entry_present wb ?cd (bn_disk b') e" if "e \<in> set (cm_entries m)" for e
    using st that named [OF that] pair_file_manifest [of _ ?cd] pairs [OF that] assms(5) by (auto simp: entry_present_def s(4))
  have "verify_eval_schemas wb (ea_suite_root args) (bn_disk b') = Inr ()"
    using verify_saved [OF assms(4,3) _ _ s(3), of "bn_disk b'" "ea_suite_root args"] stored st pairs named
    by (auto simp: s(1,4) create_dir_all_def)
  moreover have "check_required_schemas (bn_disk b') g = Inr ()" if g: "g \<in> set goldens" for g
  proof -
    have "path_exists (bn_disk b') (pair_file ?cd pv)" if "pv \<in> set ?rs" for pv
    proof -
      have "pv \<in> set (map (\<lambda>e. (ce_provider e, ce_version e)) (cm_entries m))" using st that by metis
      then obtain e where e: "e \<in> set (cm_entries m)" "pv = (ce_provider e, ce_version e)" by auto
      show ?thesis using stored [OF e(1)] named [OF e(1)] e(2) by (auto simp: entry_present_def path_exists_def)
    qed
    then show ?thesis
      using g by (auto simp: check_required_schemas_def check_each_schema_Inr discovered_roots [OF assms(2) g] required_pairs_set)
  qed
  ultimately show ?thesis by blast
qed

section \<open>The newest stable versions\<close>

definition stable_versions :: "('v, 'w) workbench \<Rightarrow> provider_version_entry list \<Rightarrow> 'v list" where
  "stable_versions wb vs = filter (semver_stable wb) (List.map_filter (\<lambda>e. semver_parse wb (pe_version e)) vs)"

definition semver_ordered :: "('v, 'w) workbench \<Rightarrow> bool" where
  "semver_ordered wb \<longleftrightarrow>
     (\<forall>a b. semver_le wb a b \<or> semver_le wb b a) \<and> (\<forall>a b c. semver_le wb a b \<longrightarrow> semver_le wb b c \<longrightarrow> semver_le wb a c)"

lemma fold_max:
  assumes tot: "\<And>a b. le a b \<or> le b a" and tr: "\<And>a b c. le a b \<Longrightarrow> le b c \<Longrightarrow> le a c"
  shows "\<exists>m. fold (\<lambda>v best. case best of None \<Rightarrow> Some v | Some b \<Rightarrow> if le b v then Some v else Some b) xs (Some x) = Some m
    \<and> m \<in> insert x (set xs) \<and> le x m \<and> (\<forall>u\<in>set xs. le u m)"
proof (induction xs arbitrary: x)
  case (Cons y ys)
  show ?case
  proof (cases "le x y")
    case True
    with Cons.IH [of y] show ?thesis using tr by auto
  next
    case False
    with tot have "le y x" by blast
    with False Cons.IH [of x] show ?thesis using tr by auto
  qed
qed (use tot in auto)

lemma highest_stable_newest:
  assumes "semver_ordered wb"
  shows "case highest_stable wb vs of
      None \<Rightarrow> stable_versions wb vs = []
    | Some m \<Rightarrow> m \<in> set (stable_versions wb vs) \<and> (\<forall>u\<in>set (stable_versions wb vs). semver_le wb u m)"
proof (cases "stable_versions wb vs")
  case Nil
  then show ?thesis by (simp add: highest_stable_def stable_versions_def)
next
  case (Cons x xs)
  have tot: "semver_le wb a b \<or> semver_le wb b a" for a b using assms by (simp add: semver_ordered_def)
  have tr: "semver_le wb a b \<Longrightarrow> semver_le wb b c \<Longrightarrow> semver_le wb a c" for a b c
    using assms unfolding semver_ordered_def by metis
  obtain m where m: "fold (\<lambda>v best. case best of None \<Rightarrow> Some v | Some b \<Rightarrow> if semver_le wb b v then Some v else Some b) xs (Some x)
      = Some m" "m \<in> insert x (set xs)" "semver_le wb x m" "\<forall>u\<in>set xs. semver_le wb u m"
    using fold_max [of "semver_le wb", OF tot] tr by blast
  moreover have "highest_stable wb vs = Some m"
    unfolding highest_stable_def stable_versions_def [symmetric] Cons using m(1) by simp
  ultimately show ?thesis using Cons by simp
qed

lemma new_version_kept: "new_version wb (pin\<lparr>pin_version := new_version wb pin vs\<rparr>) vs = new_version wb pin vs"
  by (simp add: new_version_def split: option.splits)

lemma resolve_pin_answer:
  "resolve_pin wb c pin w = (Inr (p', v), w') \<longleftrightarrow>
     (\<exists>ns n vs. parse_source (pin_source pin) = Inr (ns, n) \<and> registry_versions (wb_http wb) c ns n w = (Inr vs, w')
        \<and> p' = pin \<and> v = new_version wb pin vs)"
  by (auto simp: resolve_pin_def split: sum.splits prod.splits)

lemma resolve_pin_again:
  assumes "steady_registry (wb_http wb)" "resolve_pin wb c pin w = (Inr (p', v), w')"
  shows "p' = pin \<and> (\<exists>w3. resolve_pin wb c (pin\<lparr>pin_version := v\<rparr>) w2 = (Inr (pin\<lparr>pin_version := v\<rparr>, v), w3))"
proof -
  obtain ns n vs where a: "parse_source (pin_source pin) = Inr (ns, n)"
    "registry_versions (wb_http wb) c ns n w = (Inr vs, w')" "p' = pin" "v = new_version wb pin vs"
    using assms(2) by (auto simp: resolve_pin_answer)
  obtain w3 where "registry_versions (wb_http wb) c ns n w2 = (Inr vs, w3)"
    using registry_versions_steady [OF assms(1), of c ns n w w2] a(2) by (metis fst_conv prod.collapse)
  with a show ?thesis by (auto simp: resolve_pin_answer new_version_kept)
qed

lemma resolve_pins_again:
  assumes "steady_registry (wb_http wb)" "resolve_pins wb c pins w = (Inr rs, w')"
  shows "map fst rs = pins
    \<and> (\<exists>w3. resolve_pins wb c (map (\<lambda>(p, v). p\<lparr>pin_version := v\<rparr>) rs) w2 = (Inr (map (\<lambda>(p, v). (p\<lparr>pin_version := v\<rparr>, v)) rs), w3))"
  using assms(2)
proof (induction pins arbitrary: w rs w2)
  case (Cons pin pins)
  from Cons.prems obtain p' v w1 rs' where one: "resolve_pin wb c pin w = (Inr (p', v), w1)"
    and rest: "resolve_pins wb c pins w1 = (Inr rs', w')" and rs: "rs = (p', v) # rs'"
    by (auto simp: bindA_eq_Inr)
  obtain w3 where now: "p' = pin" "resolve_pin wb c (pin\<lparr>pin_version := v\<rparr>) w2 = (Inr (pin\<lparr>pin_version := v\<rparr>, v), w3)"
    using resolve_pin_again [OF assms(1) one] by blast
  obtain w4 where "map fst rs' = pins"
    "resolve_pins wb c (map (\<lambda>(p, v). p\<lparr>pin_version := v\<rparr>) rs') w3 = (Inr (map (\<lambda>(p, v). (p\<lparr>pin_version := v\<rparr>, v)) rs'), w4)"
    using Cons.IH [OF rest] by blast
  then show ?case by (simp add: rs now)
qed simp

text \<open>The strings that TOML keeps between quotes as they are, and that the template therefore writes back.\<close>

definition toml_plain :: "string \<Rightarrow> bool" where
  "toml_plain s \<longleftrightarrow> (\<forall>c\<in>set s. in_range 0x20 0x7E c \<and> c \<noteq> CHR 0x22 \<and> c \<noteq> CHR 0x5C)"

definition toml_reads_back :: "('v, 'w) workbench \<Rightarrow> seed_pin list \<Rightarrow> bool" where
  "toml_reads_back wb pins \<longleftrightarrow>
     (\<forall>rs. map fst rs = pins \<longrightarrow> (\<forall>(pin, v)\<in>set rs. toml_plain (pin_provider pin) \<and> toml_plain v \<and> toml_plain (pin_source pin)) \<longrightarrow>
        pins_of_toml wb (render_manifest rs) = Inr (map (\<lambda>(pin, v). pin\<lparr>pin_version := v\<rparr>) rs))"

lemma toml_plain_utf8: "toml_plain s \<Longrightarrow> valid_utf8 s"
proof (rule ascii_utf8)
  have "in_range 0x20 0x7E c \<Longrightarrow> in_range 0 0x7F c" for c by (simp add: in_range_def)
  then show "toml_plain s \<Longrightarrow> list_all (in_range 0 0x7F) s" unfolding toml_plain_def list_all_iff by blast
qed

lemma section_sign_utf8: "valid_utf8 [CHR 0xC2, CHR 0xA7]"
  by code_simp

lemma preamble_utf8: "valid_utf8 manifest_preamble"
  unfolding manifest_preamble_def quoted_def nl_def
  by (intro valid_utf8_append section_sign_utf8; rule ascii_utf8; simp add: in_range_def)

lemma resolved_plain:
  assumes "resolve_pins wb c pins w = (Inr resolved, w')" "\<And>v. toml_plain (semver_text wb v)"
    and "\<forall>pin\<in>set pins. toml_plain (pin_provider pin) \<and> toml_plain (pin_version pin) \<and> toml_plain (pin_source pin)"
  shows "\<forall>(p, v)\<in>set resolved. toml_plain (pin_provider p) \<and> toml_plain v \<and> toml_plain (pin_source p)"
  using assms(1,3)
proof (induction pins arbitrary: w resolved)
  case (Cons pin pins)
  from Cons.prems(1) obtain p' v w1 rs where one: "resolve_pin wb c pin w = (Inr (p', v), w1)"
    and rest: "resolve_pins wb c pins w1 = (Inr rs, w')" and rs: "resolved = (p', v) # rs"
    by (auto simp: bindA_eq_Inr)
  have "p' = pin" "toml_plain v"
    using one assms(2) Cons.prems(2) by (auto simp: resolve_pin_answer new_version_def split: option.splits)
  then show ?case using Cons.IH [OF rest] Cons.prems(2) rs by simp
qed simp

lemma render_manifest_utf8:
  assumes "\<forall>(pin, v)\<in>set rs. toml_plain (pin_provider pin) \<and> toml_plain v \<and> toml_plain (pin_source pin)"
  shows "valid_utf8 (render_manifest rs)"
proof -
  have lit: "valid_utf8 ''[[pin]]''" "valid_utf8 ''provider = ''" "valid_utf8 ''version  = ''" "valid_utf8 ''source   = ''"
    "valid_utf8 nl" "valid_utf8 [CHR 0x22]" by code_simp+
  have q: "valid_utf8 s \<Longrightarrow> valid_utf8 (quoted s)" for s
    using valid_utf8_append [OF lit(6) valid_utf8_append [OF _ lit(6)]] by (simp add: quoted_def)
  have row: "valid_utf8 (pin_block pin v)"
    if "toml_plain (pin_provider pin)" "toml_plain v" "toml_plain (pin_source pin)" for pin v
    unfolding pin_block_def by (intro valid_utf8_append lit q toml_plain_utf8 that)
  have "valid_utf8 (concat (map (\<lambda>(pin, v). pin_block pin v) rs))"
    using assms by (induction rs) (auto intro!: valid_utf8_append row)
  then show ?thesis unfolding render_manifest_def by (intro valid_utf8_append preamble_utf8)
qed

text \<open>What a run that rewrites the manifest did, and what the other runs leave alone.\<close>

lemma resolve_rewritten:
  assumes "resolve_latest wb arg check b = (Inr Rewritten, b')"
  obtains pins c resolved w where
    "load_pins wb (pins_path arg) (bn_disk b) = Inr pins" "pins \<noteq> []" "registry_client_new (wb_http wb) = Inr c"
    "resolve_pins wb c pins (bn_world b) = (Inr resolved, w)" "\<not> check"
    "\<not> dirs (bn_disk b) (pins_path arg)"
    "b' = \<lparr>bn_disk = (bn_disk b)\<lparr>files := (files (bn_disk b))(pins_path arg \<mapsto> render_manifest resolved)\<rparr>, bn_world = w\<rparr>"
proof -
  obtain pins where l: "load_pins wb (pins_path arg) (bn_disk b) = Inr pins" "pins \<noteq> []"
    using assms by (auto simp: resolve_latest_def Let_def split: sum.splits if_splits)
  obtain c where c: "registry_client_new (wb_http wb) = Inr c"
    using assms l by (auto simp: resolve_latest_def Let_def split: sum.splits)
  from assms l c show thesis
    by (auto simp: resolve_latest_def Let_def bench_results split: if_splits intro!: that [OF l c])
qed

lemma resolve_keeps_disk:
  assumes "resolve_latest wb arg check b = (r, b')" "r \<noteq> Inr Rewritten" "write_fault (wb_io wb) (pins_path arg) = None"
  shows "bn_disk b' = bn_disk b"
proof -
  have disk: "bench_world (resolve_pins wb c pins) b = (x, b1) \<Longrightarrow> bn_disk b1 = bn_disk b" for c pins x b1
    using bench_world_disk by (metis snd_conv)
  show ?thesis
    using assms
    by (auto simp: resolve_latest_def Let_def bindA_def bench_disk_def put_bytes_def retA_def disk
        split: sum.splits if_splits prod.splits)
qed

text \<open>
  C40. \<open>resolve-latest\<close> is idempotent: once it has rewritten the manifest, a second run against a registry that
  has not moved finds every pin current and writes nothing.
\<close>

theorem resolve_latest_idempotent:
  assumes "resolve_latest wb arg False b = (Inr Rewritten, b')"
    and "load_pins wb (pins_path arg) (bn_disk b) = Inr pins"
    and "steady_registry (wb_http wb)" "toml_reads_back wb pins" "\<And>v. toml_plain (semver_text wb v)"
    and "\<forall>pin\<in>set pins. toml_plain (pin_provider pin) \<and> toml_plain (pin_version pin) \<and> toml_plain (pin_source pin)"
  shows "\<exists>w. resolve_latest wb arg check b' = (Inr All_current, b'\<lparr>bn_world := w\<rparr>)"
proof -
  obtain c resolved w where s: "pins \<noteq> []" "registry_client_new (wb_http wb) = Inr c"
      "resolve_pins wb c pins (bn_world b) = (Inr resolved, w)"
      "b' = \<lparr>bn_disk = (bn_disk b)\<lparr>files := (files (bn_disk b))(pins_path arg \<mapsto> render_manifest resolved)\<rparr>, bn_world = w\<rparr>"
    using resolve_rewritten [OF assms(1)] assms(2) by (metis sum.inject(2))
  let ?now = "map (\<lambda>(p, v). p\<lparr>pin_version := v\<rparr>) resolved"
  obtain w3 where again: "map fst resolved = pins"
      "resolve_pins wb c ?now w = (Inr (map (\<lambda>(p, v). (p\<lparr>pin_version := v\<rparr>, v)) resolved), w3)"
    using resolve_pins_again [OF assms(3) s(3), of w] by blast
  have plain: "\<forall>(p, v)\<in>set resolved. toml_plain (pin_provider p) \<and> toml_plain v \<and> toml_plain (pin_source p)"
    using resolved_plain [OF s(3) assms(5,6)] .
  have "resolved \<noteq> []" using s(1) again(1) by auto
  then have "load_pins wb (pins_path arg) (bn_disk b') = Inr ?now"
    using assms(2,4) plain render_manifest_utf8 [OF plain] again(1)
    by (auto simp: load_pins_def s(4) is_file_def read_to_string_def toml_reads_back_def split: if_splits)
  then show ?thesis
    using s(2) again(2) \<open>resolved \<noteq> []\<close>
    by (auto simp: resolve_latest_def Let_def s(4) bindA_def bench_world_def retA_def)
qed

definition moved_to_newest :: "('v, 'w) workbench \<Rightarrow> registry_client \<Rightarrow> seed_pin \<Rightarrow> seed_pin \<times> string \<Rightarrow> bool" where
  "moved_to_newest wb c pin r \<longleftrightarrow> fst r = pin \<and>
     (\<exists>ns n vs w. parse_source (pin_source pin) = Inr (ns, n) \<and> fst (registry_versions (wb_http wb) c ns n w) = Inr vs
        \<and> (if stable_versions wb (pv_versions vs) = [] then snd r = pin_version pin
           else \<exists>m\<in>set (stable_versions wb (pv_versions vs)).
             snd r = semver_text wb m \<and> (\<forall>u\<in>set (stable_versions wb (pv_versions vs)). semver_le wb u m)))"

lemma resolve_pin_newest:
  assumes "semver_ordered wb" "resolve_pin wb c pin w = (Inr r, w')"
  shows "moved_to_newest wb c pin r"
proof -
  obtain ns n vs where a: "parse_source (pin_source pin) = Inr (ns, n)"
    "registry_versions (wb_http wb) c ns n w = (Inr vs, w')" "r = (pin, new_version wb pin vs)"
    using assms(2) by (cases r) (auto simp: resolve_pin_answer)
  have "fst (registry_versions (wb_http wb) c ns n w) = Inr vs" by (simp add: a(2))
  with a(1,3) highest_stable_newest [OF assms(1), of "pv_versions vs"] show ?thesis
    unfolding moved_to_newest_def new_version_def by (cases "highest_stable wb (pv_versions vs)") fastforce+
qed

lemma resolve_pins_newest:
  assumes "semver_ordered wb" "resolve_pins wb c pins w = (Inr rs, w')"
  shows "list_all2 (moved_to_newest wb c) pins rs"
  using assms(2)
  by (induction pins arbitrary: w rs) (auto simp: bindA_eq_Inr dest: resolve_pin_newest [OF assms(1)])

text \<open>
  C40. What \<open>resolve-latest\<close> writes: one block per pin of the old manifest, in its order, with the version
  replaced by the largest stable version the registry lists for the source of the pin, or kept when it
  lists none. It writes only when some version changed and never in check mode.
\<close>

theorem resolve_latest_writes_newest:
  assumes "resolve_latest wb arg check b = (Inr Rewritten, b')" "semver_ordered wb"
  shows "\<exists>pins c resolved. load_pins wb (pins_path arg) (bn_disk b) = Inr pins \<and> list_all2 (moved_to_newest wb c) pins resolved
    \<and> \<not> check \<and> files (bn_disk b') = (files (bn_disk b))(pins_path arg \<mapsto> render_manifest resolved)"
proof -
  obtain pins c resolved w where "load_pins wb (pins_path arg) (bn_disk b) = Inr pins" "\<not> check"
      "resolve_pins wb c pins (bn_world b) = (Inr resolved, w)"
      "b' = \<lparr>bn_disk = (bn_disk b)\<lparr>files := (files (bn_disk b))(pins_path arg \<mapsto> render_manifest resolved)\<rparr>, bn_world = w\<rparr>"
    using resolve_rewritten [OF assms(1)] by metis
  then show ?thesis using resolve_pins_newest [OF assms(2)] by fastforce
qed

section \<open>The seed schemas\<close>

definition seed_file :: "path \<Rightarrow> seed_pin \<Rightarrow> path" where
  "seed_file seed_root pin = join_text_path (join_text_path seed_root (pin_provider pin)) (pin_version pin) @ [''schema.json'']"

lemma capture_pin_stored:
  assumes "capture_pin wb f seed_root pin b = (Inr stored, b')"
  shows "(stored \<longrightarrow> is_file (bn_disk b') (seed_file seed_root pin))
    \<and> (\<forall>p. is_file (bn_disk b) p \<longrightarrow> is_file (bn_disk b') p)"
  using assms
  by (auto simp: capture_pin_def Let_def bench_results is_file_def seed_file_def create_dir_all_def
      split: sum.splits prod.splits option.splits)

lemma capture_pins_stored:
  assumes "capture_pins wb f seed_root pins (ok, failed) b = (Inr (ok', failed'), b')"
  shows "ok' + failed' = ok + failed + length pins \<and> failed \<le> failed'
    \<and> (failed' = failed \<longrightarrow> (\<forall>pin\<in>set pins. is_file (bn_disk b') (seed_file seed_root pin)))
    \<and> (\<forall>p. is_file (bn_disk b) p \<longrightarrow> is_file (bn_disk b') p)"
  using assms
proof (induction pins arbitrary: ok failed b)
  case (Cons pin pins)
  from Cons.prems obtain stored b1 where one: "capture_pin wb f seed_root pin b = (Inr stored, b1)"
    and rest: "capture_pins wb f seed_root pins (if stored then (ok + 1, failed) else (ok, failed + 1)) b1 = (Inr (ok', failed'), b')"
    by (auto simp: bindA_eq_Inr)
  note one = capture_pin_stored [OF one]
  show ?case
  proof (cases stored)
    case True
    with Cons.IH [of "ok + 1" failed b1] rest one show ?thesis by auto
  next
    case False
    with Cons.IH [of ok "failed + 1" b1] rest one show ?thesis by auto
  qed
qed simp

text \<open>
  C40. A successful \<open>capture-schemas\<close> leaves a schema file for every pin of the seed manifest, and keeps every
  file there was.
\<close>

theorem captured_seed_is_complete:
  assumes "capture_schemas wb args b = (Inr (), b')" "load_pins wb (pins_path (ca_manifest args)) (bn_disk b) = Inr pins"
    and "ca_seed_root args = Some seed_root"
  shows "(\<forall>pin\<in>set pins. is_file (bn_disk b') (seed_file seed_root pin))
    \<and> (\<forall>p. is_file (bn_disk b) p \<longrightarrow> is_file (bn_disk b') p)"
proof (cases "pins = []")
  case False
  obtain cache where run: "bindA (bench_disk (make_dirs (wb_io wb) cache)) (\<lambda>_.
      bindA (map_errA No_terraform (bench_world (fetcher_check_available (wb_host wb) (with_plugin_cache_dir cache fetcher_new)))) (\<lambda>_.
      bindA (capture_pins wb (with_plugin_cache_dir cache fetcher_new) seed_root pins (0, 0)) (\<lambda>(ok, failed).
        if 0 < failed then throwA (Pins_failed failed) else retA ()))) b = (Inr (), b')"
    using assms False by (simp add: capture_schemas_def Let_def)
  let ?b0 = "b\<lparr>bn_disk := create_dir_all cache (bn_disk b)\<rparr>"
  obtain tool w ok failed where s: "failed = 0"
      "capture_pins wb (with_plugin_cache_dir cache fetcher_new) seed_root pins (0, 0) (?b0\<lparr>bn_world := w\<rparr>) = (Inr (ok, failed), b')"
    using run by (clarsimp simp: bench_results split: if_splits)
  have "is_file (bn_disk b) p \<Longrightarrow> is_file (bn_disk (?b0\<lparr>bn_world := w\<rparr>)) p" for p
    by (simp add: is_file_def create_dir_all_def)
  with capture_pins_stored [OF s(2)] s(1) show ?thesis by auto
qed (use assms in \<open>simp add: capture_schemas_def\<close>)

section \<open>Witnesses\<close>

text \<open>A suite of one fixture that requires one schema, a tool that prints it, and a registry with one answer.\<close>

definition wit_bench :: "nat bench" where
  "wit_bench = \<lparr>bn_disk = \<lparr>files = [[''suite'', ''a'', ''manifest.toml''] \<mapsto> [], [''suite'', ''a'', ''source.tf''] \<mapsto> [],
       [''suite'', ''a'', ''mapping_plan.json''] \<mapsto> [], [''pins''] \<mapsto> ''old''],
       dirs = (\<lambda>p. p \<in> {[], [''suite''], [''suite'', ''a''], [''suite'', ''a'', ''expected'']})\<rparr>, bn_world = 0\<rparr>"

definition wit_fixture :: golden_manifest where
  "wit_fixture = \<lparr>gm_name = ''a'', gm_description = [], gm_source_provider = ''google'', gm_target_provider = ''aws'',
     token_cost_ceiling_micros = 0, articles = [],
     required_schemas = [\<lparr>rs_provider = ''aws'', rs_version = ''5.30.0''\<rparr>]\<rparr>"

definition wit_cache :: cache_manifest where
  "wit_cache = \<lparr>cm_schema_version = 1, cm_captured_at = ''now'', cm_terraform_version = ''1.7.5'',
     cm_entries = [\<lparr>ce_schema_id = ''aws@5.30.0'', ce_provider = ''aws'', ce_version = ''5.30.0'', ce_sha256 = ''6162'',
       ce_size_bytes = 2, ce_uncompressed_size_bytes = 2\<rparr>]\<rparr>"

definition wit_pin :: "string \<Rightarrow> seed_pin" where
  "wit_pin v = \<lparr>pin_provider = ''aws'', pin_version = v, pin_source = ''hashicorp/aws''\<rparr>"

definition wit_before_version :: string where
  "wit_before_version = manifest_preamble @ ''[[pin]]'' @ nl @ ''provider = '' @ quoted ''aws'' @ nl @ ''version  = '' @ [CHR 0x22]"

definition wit_versions :: provider_versions where
  "wit_versions = \<lparr>pv_id = [], pv_versions = map (\<lambda>v. \<lparr>pe_version = v, pe_protocols = [], pe_platforms = []\<rparr>) [''1'', ''3'', ''2'']\<rparr>"

definition wit_workbench :: "(nat, nat) workbench" where
  "wit_workbench =
     \<lparr>semver_parse = map_of [(''1'', 1), (''2'', 2), (''3'', 3)], semver_stable = (\<lambda>n. n < 3), semver_le = (\<le>),
      semver_text = (\<lambda>n. if n = 1 then ''1'' else ''2''),
      pins_of_toml = (\<lambda>t. if t = ''old'' then Inr [wit_pin ''1'']
        else Inr [wit_pin (takeWhile (\<lambda>c. c \<noteq> CHR 0x22) (drop (length wit_before_version) t))]),
      wb_http = \<lparr>client_fault = None, http_get = (\<lambda>_. retA (200, [])), status_error = (\<lambda>_. []),
        metadata_of_json = (\<lambda>_. Inl []), versions_of_json = (\<lambda>_. Inr wit_versions)\<rparr>,
      wb_io = wit_io, unreadable = (\<lambda>_. False), wb_host = wit_host,
      wb_eval = \<lparr>read_dir = (\<lambda>_ _. Some [(''a'', Some Is_dir)]), manifest_of_toml = (\<lambda>_. Inr wit_fixture),
        golden_plan_of_json = (\<lambda>_. Inr (wit_gen_plan [])), diff_lines = (\<lambda>_ _. []), eval_temp_dir = (\<lambda>_. None),
        elapsed_millis = (\<lambda>_. 0), eval_io = wit_io, eval_hcl = wit_hcl\<rparr>,
      json_parse = (\<lambda>_. Inr (cache_manifest_json wit_cache)),
      json_pretty = (\<lambda>j. if j = cache_manifest_json wit_cache then Some ''m'' else None),
      schema_bytes = (\<lambda>_. Some ''ab''), schema_pretty = (\<lambda>_. Some ''ab''), zstd_encode = Some, sha256_of = (\<lambda>s. s),
      rfc3339_now = (\<lambda>_. ''now''), terraform_says = (\<lambda>_. Some (True, ''Terraform v1.7.5''))\<rparr>"

definition wit_golden_a :: golden_migration where
  "wit_golden_a = \<lparr>gd_root = [''suite'', ''a''], gd_manifest = wit_fixture, source_tf = [''suite'', ''a'', ''source.tf''],
     gd_plan = wit_gen_plan [], expected_target_dir = [''suite'', ''a'', ''expected'']\<rparr>"

lemma wit_discovered: "discover_suite (wb_eval wit_workbench) (bn_disk wit_bench) [''suite''] = Inr [wit_golden_a]"
proof -
  have "utf8_lossy ''a'' = ''a''" by code_simp
  then show ?thesis
    by (simp add: discover_suite_def wit_workbench_def wit_bench_def load_golden_def Let_def is_file_def read_to_string_def
        wit_golden_a_def starts_with_def)
qed

lemma wit_bench_parts:
  "dirs (bn_disk wit_bench) p \<longleftrightarrow> p \<in> {[], [''suite''], [''suite'', ''a''], [''suite'', ''a'', ''expected'']}"
  "bn_world wit_bench = 0" "required_pairs [wit_golden_a] = [(''aws'', ''5.30.0'')]"
  "wb_host wit_workbench = wit_host" "wb_io wit_workbench = wit_io"
  "write_fault wit_io q = None" "\<not> mkdir_fault wit_io q"
  by (simp_all add: wit_bench_def required_pairs_def wit_golden_a_def wit_fixture_def wit_workbench_def wit_io_def)

lemma wit_tool_version: "tool_version wit_workbench n = ''1.7.5''"
proof -
  have "str_trim ''1.7.5'' = ''1.7.5''" "utf8_lossy ''Terraform v1.7.5'' = ''Terraform v1.7.5''" by code_simp+
  then show ?thesis
    by (simp add: tool_version_def wit_workbench_def first_line_def strip_prefix_def strip_suffix_def starts_with_def)
qed

lemma utf8_m: "valid_utf8 ''m''" by code_simp

theorem captured_cache_verifies_witness:
  "\<exists>b'. capture_eval_schemas wit_workbench \<lparr>ea_suite_root = Some [''suite''], ea_namespace = ''hashicorp'', ea_dry_run = False\<rparr>
       wit_bench = (Inr (Captured wit_cache), b')
     \<and> verify_eval_schemas wit_workbench (Some [''suite'']) (bn_disk b') = Inr ()
     \<and> check_required_schemas (bn_disk b') wit_golden_a = Inr ()"
proof -
  let ?args = "\<lparr>ea_suite_root = Some [''suite''], ea_namespace = ''hashicorp'', ea_dry_run = False\<rparr>"
  obtain x where fetched: "cli_fetch wit_host fetcher_new ''hashicorp'' ''aws'' ''5.30.0'' 0 = (Inr x, 0)"
    using wit_fetched by blast
  have hex: "bytes_hex wit_workbench ''ab'' = ''6162''" unfolding bytes_hex_def wit_workbench_def by code_simp
  have tools: "schema_bytes wit_workbench y = Some ''ab''" "zstd_encode wit_workbench z = Some z"
    "rfc3339_now wit_workbench w = ''now''" "json_pretty wit_workbench (cache_manifest_json wit_cache) = Some ''m''" for y z w
    by (simp_all add: wit_workbench_def)
  have at: "eval_cache_file [''suite'', ''.schema-cache''] ''aws@5.30.0'' = [''suite'', ''.schema-cache'', ''aws@5.30.0.json.zst'']"
    by code_simp
  obtain b' where run: "capture_eval_schemas wit_workbench ?args wit_bench = (Inr (Captured wit_cache), b')"
    by (simp add: capture_eval_schemas_def suite_of_def Let_def wit_discovered wit_bench_parts bench_disk_def make_dirs_def
        map_errA_def bench_world_def bindA_def capture_eval_schema_def fetched tools put_bytes_def
        save_eval_manifest_def wit_tool_version hex at create_dir_all_def flip: wit_cache_def [unfolded numeral_2_eq_2])
  have disc: "discover_suite (wb_eval wit_workbench) (bn_disk wit_bench) (suite_of (ea_suite_root ?args)) = Inr [wit_golden_a]"
    by (simp add: suite_of_def wit_discovered)
  have "manifests_read_back wit_workbench" "\<forall>p. \<not> unreadable wit_workbench p"
    by (simp_all add: manifests_read_back_def wit_workbench_def utf8_m)
  moreover have "\<forall>pv\<in>set (required_pairs [wit_golden_a]). plain_pair pv" by (simp add: wit_bench_parts plain_pair_def)
  ultimately show ?thesis using captured_cache_verifies [OF run disc] run by auto
qed


lemma wit_load: "pins_path (Some [''pins'']) = [''pins'']" "load_pins wit_workbench [''pins''] (bn_disk wit_bench) = Inr [wit_pin ''1'']"
proof -
  have "valid_utf8 ''old''" by code_simp
  then show "load_pins wit_workbench [''pins''] (bn_disk wit_bench) = Inr [wit_pin ''1'']"
    by (simp add: load_pins_def is_file_def read_to_string_def wit_bench_def wit_workbench_def)
qed (simp add: pins_path_def)

lemma wit_client: "registry_client_new (wb_http wit_workbench) = Inr \<lparr>base_url = REGISTRY_BASE\<rparr>"
  "steady_registry (wb_http wit_workbench)" "registry_versions (wb_http wit_workbench) c ns n w = (Inr wit_versions, w)"
  by (simp_all add: registry_client_new_def wit_workbench_def steady_registry_def registry_versions_def is_error_status_def)

lemma wit_stable: "stable_versions wit_workbench (pv_versions wit_versions) = [1, 2]"
  by (simp add: stable_versions_def wit_versions_def wit_workbench_def List.map_filter_def)

lemma wit_highest: "highest_stable wit_workbench (pv_versions wit_versions) = Some 2"
  by (simp add: highest_stable_def wit_versions_def wit_workbench_def List.map_filter_def)

lemma wit_resolved:
  "resolve_latest wit_workbench (Some [''pins'']) False wit_bench =
     (Inr Rewritten, wit_bench\<lparr>bn_disk := (bn_disk wit_bench)\<lparr>files := (files (bn_disk wit_bench))([''pins''] \<mapsto>
        render_manifest [(wit_pin ''1'', ''2'')])\<rparr>\<rparr>)"
proof -
  have "resolve_pins wit_workbench c [wit_pin ''1''] w = (Inr [(wit_pin ''1'', ''2'')], w)" for c w
  proof -
    have "parse_source ''hashicorp/aws'' = Inr (''hashicorp'', ''aws'')" by code_simp
    moreover have "semver_text wit_workbench 2 = ''2''" by (simp add: wit_workbench_def)
    ultimately show ?thesis
      by (simp add: resolve_pin_def wit_pin_def wit_client new_version_def wit_highest)
  qed
  moreover have "pin_version (wit_pin ''1'') = ''1''" by (simp add: wit_pin_def)
  ultimately show ?thesis
    by (simp add: resolve_latest_def Let_def wit_client bench_world_def bench_disk_def bindA_def put_bytes_def wit_bench_parts wit_load)
qed

lemma wit_reads_back: "toml_reads_back wit_workbench [wit_pin ''1'']"
  unfolding toml_reads_back_def
proof (intro allI impI)
  fix rs :: "(seed_pin \<times> string) list"
  assume "map fst rs = [wit_pin ''1'']"
    and plain: "\<forall>(pin, v)\<in>set rs. toml_plain (pin_provider pin) \<and> toml_plain v \<and> toml_plain (pin_source pin)"
  then obtain v where rs: "rs = [(wit_pin ''1'', v)]" by (cases rs) auto
  have r: "render_manifest rs = wit_before_version @ v @ CHR 0x22 # nl @ ''source   = '' @ quoted ''hashicorp/aws'' @ nl @ nl"
    by (simp add: rs render_manifest_def pin_block_def wit_pin_def wit_before_version_def quoted_def)
  then have "length (render_manifest rs) > length ''old''"
    by (simp add: wit_before_version_def)
  then have "render_manifest rs \<noteq> ''old''" by auto
  moreover have "\<forall>c\<in>set v. c \<noteq> CHR 0x22" using plain by (simp add: rs toml_plain_def)
  then have "takeWhile (\<lambda>c. c \<noteq> CHR 0x22) (drop (length wit_before_version) (render_manifest rs)) = v"
    by (simp add: r takeWhile_append2)
  ultimately show "pins_of_toml wit_workbench (render_manifest rs) = Inr (map (\<lambda>(pin, v). pin\<lparr>pin_version := v\<rparr>) rs)"
    by (simp add: wit_workbench_def rs wit_pin_def)
qed

theorem resolve_latest_idempotent_witness:
  "\<exists>b' w. resolve_latest wit_workbench (Some [''pins'']) False wit_bench = (Inr Rewritten, b')
     \<and> resolve_latest wit_workbench (Some [''pins'']) False b' = (Inr All_current, b'\<lparr>bn_world := w\<rparr>)"
proof -
  have "toml_plain ''1''" "toml_plain ''2''" "toml_plain ''aws''" "toml_plain ''hashicorp/aws''"
    by (simp_all add: toml_plain_def in_range_def)
  moreover from this have "toml_plain (semver_text wit_workbench v)" for v by (simp add: wit_workbench_def)
  ultimately show ?thesis
    using resolve_latest_idempotent [OF wit_resolved _ wit_client(2), of "[wit_pin ''1'']" False] wit_load wit_reads_back wit_resolved
    by (auto simp: wit_pin_def)
qed

theorem resolve_latest_writes_newest_witness:
  "\<exists>pins c resolved. list_all2 (moved_to_newest wit_workbench c) pins resolved
     \<and> load_pins wit_workbench [''pins''] (bn_disk wit_bench) = Inr pins"
  using resolve_latest_writes_newest [OF wit_resolved] wit_load
  by (force simp: semver_ordered_def wit_workbench_def)

theorem captured_seed_is_complete_witness:
  "\<exists>b'. capture_schemas wit_workbench \<lparr>ca_manifest = Some [''pins''], ca_seed_root = Some [''seed''], ca_plugin_cache = Some [''cache'']\<rparr>
       wit_bench = (Inr (), b') \<and> is_file (bn_disk b') (seed_file [''seed''] (wit_pin ''1''))"
proof -
  let ?args = "\<lparr>ca_manifest = Some [''pins''], ca_seed_root = Some [''seed''], ca_plugin_cache = Some [''cache'']\<rparr>"
  have src: "parse_source (pin_source (wit_pin ''1'')) = Inr (''hashicorp'', ''aws'')"
    "pin_provider (wit_pin ''1'') = ''aws''" "pin_version (wit_pin ''1'') = ''1''"
    "join_text_path (join_text_path [''seed''] ''aws'') ''1'' = [''seed'', ''aws'', ''1'']"
    by code_simp+
  obtain x where fetched: "cli_fetch wit_host (with_plugin_cache_dir [''cache''] fetcher_new) ''hashicorp'' ''aws'' ''1'' 0 = (Inr x, 0)"
    by (simp add: cli_fetch_def in_tempdir_def wit_host_def map_errA_def bindA_def run_tool_def convert_output_def
        provider_key_def Let_def)
  have avail: "fetcher_check_available wit_host (with_plugin_cache_dir [''cache''] fetcher_new) 0 = (Inr [], 0)"
    by (simp add: fetcher_check_available_def wit_host_def with_plugin_cache_dir_def utf8_lossy.simps)
  have pretty: "schema_pretty wit_workbench x = Some ''ab''" by (simp add: wit_workbench_def)
  obtain b' where "capture_schemas wit_workbench ?args wit_bench = (Inr (), b')"
    by (simp add: capture_schemas_def Let_def wit_load wit_bench_parts bench_disk_def make_dirs_def map_errA_def bench_world_def
        bindA_def avail capture_pin_def src fetched pretty put_bytes_def create_dir_all_def)
  then show ?thesis using captured_seed_is_complete [of wit_workbench ?args wit_bench b' "[wit_pin ''1'']" "[''seed'']"] wit_load by auto
qed

end
