(* ===== verification/Agent_Smoke.thy ===== *)
theory Agent_Smoke
  imports Llm_Router
begin

text \<open>
  \<open>cli/examples/agent_smoke.rs\<close>: the smallest program that puts the profile, the resolver, the real
  client, the JSON adapter and the agent loop together, with a tool that echoes and a hook that records.
  The lemmas say what a recorded run looks like, for any environment whose only observer is that hook:
  a trace of complete turns when it returns, a prefix of one when it fails.
\<close>

section \<open>The recording hook\<close>

text \<open>The world of a run: the log behind the mutex of the hook, and everything else.\<close>

record 'w recorded =
  rec_log :: "string list"
  rest :: 'w

definition on_rest :: "('w, 'e, 'a) act \<Rightarrow> ('w recorded, 'e, 'a) act" where
  "on_rest m s = (case m (rest s) of (r, w) \<Rightarrow> (r, s\<lparr>rest := w\<rparr>))"

definition push_line :: "string \<Rightarrow> ('w recorded, 'e, unit) act" where
  "push_line l s = (Inr (), s\<lparr>rec_log := rec_log s @ [l]\<rparr>)"

definition recording_hook :: "(uuid \<Rightarrow> string) \<Rightarrow> 'w recorded agent_hook" where
  "recording_hook show_uuid =
     \<lparr>before_inference = (\<lambda>ctx ms. push_line (''[before_inference] run='' @ show_uuid (ctx_run_id ctx)
        @ '' messages='' @ nat_str (length ms))),
      after_inference = (\<lambda>ctx ms. push_line ''[after_inference]''),
      before_tool_execution = (\<lambda>ctx tc ms. push_line (''[before_tool] id='' @ tc_id tc @ '' name='' @ tc_name tc)),
      after_tool_execution = (\<lambda>ctx tc ms. push_line (''[after_tool] id='' @ tc_id tc @ '' name='' @ tc_name tc)),
      on_error = (\<lambda>ctx err ms. retA ())\<rparr>"

section \<open>The tool\<close>

definition echo_text :: "json \<Rightarrow> string" where
  "echo_text arguments =
     (case (case json_get arguments ''text'' of None \<Rightarrow> None | Some v \<Rightarrow> json_as_str v) of
        Some t \<Rightarrow> t
      | None \<Rightarrow> ''<missing '' @ [CHR 0x27] @ ''text'' @ [CHR 0x27] @ '' argument>'')"

definition echo_execute :: "'w tool_executor" where
  "echo_execute ctx tc = retA (Completed (''echoed: '' @ echo_text (tc_arguments tc)) False)"

definition echo_tool :: agent_tool_def where
  "echo_tool =
     \<lparr>td_name = ''echo'',
      td_description = ''Echoes its '' @ [CHR 0x27] @ ''text'' @ [CHR 0x27] @ '' argument back as the tool result'',
      td_schema = JObject
        [(''properties'', JObject [(''text'', JObject [(''type'', JString ''string'')])]),
         (''required'', JArray [JString ''text'']), (''type'', JString ''object'')]\<rparr>"

section \<open>The program\<close>

record ('w, 's) smoke_host =
  sm_sdk :: "('w, 's) sdk"
  sm_toml :: toml_reader
  sm_serde :: serde
  sm_show_error :: "'s \<Rightarrow> string"
  sm_show_uuid :: "uuid \<Rightarrow> string"
  sm_uuids :: "uuid \<times> uuid"
  sm_path_of :: "string \<Rightarrow> string list"
  sm_read :: "string list \<Rightarrow> string + string"
  sm_sleep :: "u64 \<Rightarrow> 'w \<Rightarrow> 'w"
  sm_now :: "'w \<Rightarrow> int"
  sm_rfc2822 :: "string \<Rightarrow> int option"
  sm_powi :: "f64 \<Rightarrow> nat \<Rightarrow> f64"

datatype 's smoke_error =
    Smoke_home
  | Smoke_read "string list" string
  | Smoke_profile "'s ai_error"
  | Smoke_resolve "'s ai_error"
  | Smoke_client "'s ai_error"
  | Smoke_kernel agent_error

text \<open>The arguments after the program's name.\<close>

definition smoke_message :: "string list \<Rightarrow> string" where
  "smoke_message args =
     (case dropWhile (\<lambda>a. a \<noteq> ''--message'') args of
        _ # m # _ \<Rightarrow> m
      | _ \<Rightarrow> ''Use the echo tool to say hi, then finish.'')"

definition dirs_home :: "('w, 's) smoke_host \<Rightarrow> 'w \<Rightarrow> 's smoke_error + string list" where
  "dirs_home h w =
     (case env_var (sm_sdk h) w ''USERPROFILE'' of
        Some p \<Rightarrow> Inr (sm_path_of h p)
      | None \<Rightarrow>
          (case env_var (sm_sdk h) w ''HOME'' of Some p \<Rightarrow> Inr (sm_path_of h p) | None \<Rightarrow> Inl Smoke_home))"

definition smoke_profile_path :: "('w, 's) smoke_host \<Rightarrow> 'w \<Rightarrow> 's smoke_error + string list" where
  "smoke_profile_path h w =
     (case env_var (sm_sdk h) w ''TERRASHIFT_PROFILE'' of
        Some custom \<Rightarrow> Inr (sm_path_of h custom)
      | None \<Rightarrow> bindE (dirs_home h w) (\<lambda>home. Inr (home @ [''.terrashift'', ''profile.toml''])))"

definition smoke_config :: agent_loop_config where
  "smoke_config = agent_loop_config_default\<lparr>max_turns := 3, approval_policy := AcceptAll\<rparr>"

definition smoke_messages :: "string \<Rightarrow> agent_message list" where
  "smoke_messages user_message =
     [msg_system (''You are a Terrashift smoke-test agent. Use tools when asked. ''
        @ ''Reply only as a JSON object per the schema.''), msg_user user_message]"

definition smoke_env :: "('w, 's) smoke_host \<Rightarrow> ('w, 's) llm_client \<Rightarrow> 'w recorded env" where
  "smoke_env h client =
     \<lparr>is_cancelled = (\<lambda>_. False), reduce = passthrough_reduce, compact = passthrough_compact,
      hooks = [recording_hook (sm_show_uuid h)],
      generate_turn = (\<lambda>ctx ms tools. on_rest (json_generate_turn (sm_serde h) (sm_show_error h) client Eco ctx ms tools)),
      execute_tool_call = echo_execute,
      sleep = (\<lambda>d s. s\<lparr>rest := sm_sleep h d (rest s)\<rparr>), utc_now = (\<lambda>s. sm_now h (rest s)),
      parse_from_rfc2822 = sm_rfc2822 h, powi_f64 = sm_powi h\<rparr>"

definition smoke_client :: "('w, 's) smoke_host \<Rightarrow> 'w \<Rightarrow> 's smoke_error + ('w, 's) llm_client" where
  "smoke_client h w =
     bindE (smoke_profile_path h w) (\<lambda>p.
     bindE (case sm_read h p of Inl e \<Rightarrow> Inl (Smoke_read p e) | Inr t \<Rightarrow> Inr t) (\<lambda>toml_str.
     bindE (case from_toml (sm_toml h) toml_str of Inl e \<Rightarrow> Inl (Smoke_profile e) | Inr pf \<Rightarrow> Inr pf) (\<lambda>pf.
     bindE (case resolve_for_tier pf None None Eco of Inl e \<Rightarrow> Inl (Smoke_resolve e) | Inr m \<Rightarrow> Inr m) (\<lambda>resolved.
       case real_client_new (sm_sdk h) resolved of Inl e \<Rightarrow> Inl (Smoke_client e) | Inr c \<Rightarrow> Inr c))))"

text \<open>The result is what the program prints: the terminal state of the loop and the lines of the hook.\<close>

definition smoke_main ::
  "('w, 's) smoke_host \<Rightarrow> string list \<Rightarrow> 'w \<Rightarrow> ('s smoke_error + agent_loop_result \<times> string list) \<times> 'w"
where
  "smoke_main h args w =
     (case smoke_client h w of
        Inl e \<Rightarrow> (Inl e, w)
      | Inr client \<Rightarrow>
          (case run_agent (smoke_env h client) smoke_config
             \<lparr>ctx_run_id = fst (sm_uuids h), ctx_session_id = snd (sm_uuids h)\<rparr>
             (smoke_messages (smoke_message args)) [echo_tool] \<lparr>rec_log = [], rest = w\<rparr> of
             (Inl e, s) \<Rightarrow> (Inl (Smoke_kernel e), rest s)
           | (Inr res, s) \<Rightarrow> (Inr (res, rec_log s), rest s)))"

section \<open>What a run records\<close>

datatype lifecycle_event =
    Ev_infer uuid nat
  | Ev_inferred
  | Ev_tool string string
  | Ev_tooled string string

fun show_event :: "(uuid \<Rightarrow> string) \<Rightarrow> lifecycle_event \<Rightarrow> string" where
  "show_event su (Ev_infer run n) = ''[before_inference] run='' @ su run @ '' messages='' @ nat_str n"
| "show_event su Ev_inferred = ''[after_inference]''"
| "show_event su (Ev_tool i n) = ''[before_tool] id='' @ i @ '' name='' @ n"
| "show_event su (Ev_tooled i n) = ''[after_tool] id='' @ i @ '' name='' @ n"

text \<open>\<open>m\<close> appends the lines of events that satisfy \<open>P\<close> of its result, or \<open>Q\<close> when it fails.\<close>

definition emits ::
  "(uuid \<Rightarrow> string) \<Rightarrow> ('w recorded, 'e, 'a) act \<Rightarrow> ('a \<Rightarrow> lifecycle_event list \<Rightarrow> bool)
     \<Rightarrow> (lifecycle_event list \<Rightarrow> bool) \<Rightarrow> bool"
where
  "emits su m P Q \<longleftrightarrow>
     (\<forall>s r s'. m s = (r, s') \<longrightarrow>
        (\<exists>es. rec_log s' = rec_log s @ map (show_event su) es \<and> (case r of Inr x \<Rightarrow> P x es | Inl _ \<Rightarrow> Q es)))"

definition silent :: "(uuid \<Rightarrow> string) \<Rightarrow> ('w recorded, 'e, 'a) act \<Rightarrow> bool" where
  "silent su m \<longleftrightarrow> emits su m (\<lambda>x es. es = []) (\<lambda>es. es = [])"

lemma emits_bind:
  assumes "emits su m P Q" "\<And>x a. P x a \<Longrightarrow> emits su (k x) (P' x) (Q' x)"
    and "\<And>es. Q es \<Longrightarrow> Q2 es" "\<And>x a b. P x a \<Longrightarrow> Q' x b \<Longrightarrow> Q2 (a @ b)"
    and "\<And>x y a b. P x a \<Longrightarrow> P' x y b \<Longrightarrow> P2 y (a @ b)"
  shows "emits su (bindA m k) P2 Q2"
  unfolding emits_def
proof (intro allI impI)
  fix s r s'
  assume run: "bindA m k s = (r, s')"
  obtain r1 s1 where m: "m s = (r1, s1)" by force
  then obtain a where a: "rec_log s1 = rec_log s @ map (show_event su) a" "case r1 of Inr x \<Rightarrow> P x a | Inl _ \<Rightarrow> Q a"
    using assms(1) unfolding emits_def by blast
  show "\<exists>es. rec_log s' = rec_log s @ map (show_event su) es \<and> (case r of Inr x \<Rightarrow> P2 x es | Inl _ \<Rightarrow> Q2 es)"
  proof (cases r1)
    case (Inl e)
    with run m a assms(3) show ?thesis by (intro exI [of _ a]) auto
  next
    case (Inr x)
    with a have P: "P x a" by simp
    from Inr run m have "k x s1 = (r, s')" by simp
    then obtain b where b: "rec_log s' = rec_log s1 @ map (show_event su) b" "case r of Inr y \<Rightarrow> P' x y b | Inl _ \<Rightarrow> Q' x b"
      using assms(2) [OF P] unfolding emits_def by blast
    with a(1) P assms(4,5) show ?thesis
      by (intro exI [of _ "a @ b"]) (auto split: sum.splits)
  qed
qed

lemma emits_weaken: "emits su m P Q \<Longrightarrow> (\<And>x es. P x es \<Longrightarrow> P2 x es) \<Longrightarrow> (\<And>es. Q es \<Longrightarrow> Q2 es) \<Longrightarrow> emits su m P2 Q2"
  unfolding emits_def by (elim all_forward imp_forward ex_forward conj_forward) (auto split: sum.splits)

lemma emits_ret: "P x [] \<Longrightarrow> emits su (retA x) P Q"
  by (simp add: emits_def)

lemma emits_throw: "Q [] \<Longrightarrow> emits su (throwA e) P Q"
  by (simp add: emits_def)

lemma emits_guard: "Q [] \<Longrightarrow> emits su m P Q \<Longrightarrow> emits su (\<lambda>s. if b s then (Inl e, s) else m s) P Q"
  by (auto simp: emits_def split: if_splits)

lemma emits_silent: "silent su m \<Longrightarrow> (\<And>x. P x []) \<Longrightarrow> Q [] \<Longrightarrow> emits su m P Q"
  unfolding silent_def by (erule emits_weaken) auto

lemma silent_bind: "silent su m \<Longrightarrow> (\<And>x. silent su (k x)) \<Longrightarrow> silent su (bindA m k)"
  unfolding silent_def
  by (rule emits_bind [where P = "\<lambda>x es. es = []" and Q = "\<lambda>es. es = []" and P' = "\<lambda>x y es. es = []" and Q' = "\<lambda>x es. es = []"]) auto

lemma silent_ret [simp]: "silent su (retA x)" "silent su (throwA e)"
  by (simp_all add: silent_def emits_def)

lemma silent_on_rest [simp]: "silent su (on_rest m)"
  by (auto simp: silent_def emits_def on_rest_def split: prod.splits sum.splits)

lemma hook_emits:
  assumes "hooks env = [recording_hook su]"
  shows "emits su (forA (\<lambda>h. before_inference h ctx ms) (hooks env)) (\<lambda>_ es. es = [Ev_infer (ctx_run_id ctx) (length ms)]) (\<lambda>_. False)"
    "emits su (forA (\<lambda>h. after_inference h ctx ms) (hooks env)) (\<lambda>_ es. es = [Ev_inferred]) (\<lambda>_. False)"
    "emits su (forA (\<lambda>h. before_tool_execution h ctx tc ms) (hooks env)) (\<lambda>_ es. es = [Ev_tool (tc_id tc) (tc_name tc)]) (\<lambda>_. False)"
    "emits su (forA (\<lambda>h. after_tool_execution h ctx tc ms) (hooks env)) (\<lambda>_ es. es = [Ev_tooled (tc_id tc) (tc_name tc)]) (\<lambda>_. False)"
  by (auto simp: assms emits_def recording_hook_def push_line_def bindA_def)

section \<open>The trace of a run\<close>

definition tool_events :: "proposed_tool_call \<Rightarrow> lifecycle_event list" where
  "tool_events tc = [Ev_tool (tc_id tc) (tc_name tc), Ev_tooled (tc_id tc) (tc_name tc)]"

text \<open>A turn is the number of messages the model saw and the calls that were answered.\<close>

definition turn_events :: "uuid \<Rightarrow> nat \<times> proposed_tool_call list \<Rightarrow> lifecycle_event list" where
  "turn_events run = (\<lambda>(n, calls). Ev_infer run n # Ev_inferred # concat (map tool_events calls))"

definition turns_full :: "nat list \<Rightarrow> agent_loop_result \<Rightarrow> (nat \<times> proposed_tool_call list) list \<Rightarrow> bool" where
  "turns_full turns res tr \<longleftrightarrow> length tr \<le> length turns \<and> (\<forall>t\<in>set (butlast tr). snd t \<noteq> []) \<and>
     (if reason res = MaxTurnsReached then length tr = length turns \<and> (\<forall>t\<in>set tr. snd t \<noteq> [])
      else tr \<noteq> [] \<and> snd (last tr) = [] \<and> turns_executed res = turns ! (length tr - 1))"

locale recorded_run =
  fixes env :: "'w recorded env" and su :: "uuid \<Rightarrow> string"
  assumes one_hook: "hooks env = [recording_hook su]"
    and silent_turn: "silent su (generate_turn env ctx ms tools)"
    and silent_compact: "silent su (compact env pms)"
    and silent_tool: "silent su (execute_tool_call env ctx tc)"
    and silent_sleep: "rec_log (sleep env d s) = rec_log s"
begin

lemma silent_attempts: "silent su (llm_attempts env ctx ms tools cfg k e)"
proof -
  have "rec_log (snd (llm_attempts env ctx ms tools cfg k e s)) = rec_log s" for s
  proof (induction k arbitrary: e s)
    case (Suc k)
    obtain r s1 where g: "generate_turn env ctx ms tools s = (r, s1)" by force
    then have "rec_log s1 = rec_log s"
      using silent_turn [of ctx ms tools] unfolding silent_def emits_def by (fastforce split: sum.splits)
    with g Suc.IH silent_sleep show ?case by (cases r) (simp_all add: Let_def)
  qed simp
  then show ?thesis
    by (auto simp: silent_def emits_def split: sum.split) (metis snd_conv)+
qed

lemma silent_content: "silent su (tool_result_content env ctx tc d)"
  by (auto simp: tool_result_content_def intro!: silent_bind silent_tool split: tool_decision.split tool_execution_result.split)

lemma dispatch_emits:
  "emits su (dispatch_call env ctx snap r ms)
     (\<lambda>_ es. es = tool_events (r_tool_call r)) (\<lambda>es. prefix es (tool_events (r_tool_call r)))"
proof -
  let ?tc = "r_tool_call r"
  have after: "emits su (bindA (forA (\<lambda>h. after_tool_execution h ctx ?tc snap) (hooks env)) (\<lambda>_. retA (ms @ [msg_tool_result (tc_id ?tc) c])))
      (\<lambda>_ es. es = [Ev_tooled (tc_id ?tc) (tc_name ?tc)]) (\<lambda>es. es = [])" for c
    by (rule emits_bind [OF hook_emits(4) [OF one_hook] emits_ret [where P = "\<lambda>_ es. es = []" and Q = "\<lambda>_. False"]]) auto
  have mid: "emits su (bindA (tool_result_content env ctx ?tc (r_decision r)) (\<lambda>c.
      bindA (forA (\<lambda>h. after_tool_execution h ctx ?tc snap) (hooks env)) (\<lambda>_. retA (ms @ [msg_tool_result (tc_id ?tc) c]))))
      (\<lambda>_ es. es = [Ev_tooled (tc_id ?tc) (tc_name ?tc)]) (\<lambda>es. es = [])"
    by (rule emits_bind [OF silent_content [unfolded silent_def] after]) auto
  show ?thesis
    unfolding dispatch_call_def [abs_def] Let_def
    by (rule emits_guard, simp, rule emits_bind [OF hook_emits(3) [OF one_hook] mid]) (auto simp: tool_events_def)
qed

lemma drain_emits:
  "\<forall>tc\<in>set calls. call_action policy tc \<noteq> Ask \<Longrightarrow>
   emits su (drain_queue env ctx snap (map (\<lambda>tc. (tc, policy_decision policy tc)) calls) ms)
     (\<lambda>_ es. es = concat (map tool_events calls)) (\<lambda>es. prefix es (concat (map tool_events calls)))"
proof (induction calls arbitrary: ms)
  case Nil
  show ?case by (simp add: emits_def)
next
  case (Cons tc calls)
  obtain d where d: "policy_decision policy tc = Some d"
    using Cons.prems policy_decision_None [of policy tc] by (metis list.set_intros(1) not_None_eq)
  have rec: "emits su (drain_queue env ctx snap (map (\<lambda>tc. (tc, policy_decision policy tc)) calls) x)
      (\<lambda>_ es. es = concat (map tool_events calls)) (\<lambda>es. prefix es (concat (map tool_events calls)))" for x
    using Cons by simp
  have "emits su (bindA (dispatch_call env ctx snap \<lparr>r_tool_call = tc, r_decision = d\<rparr> ms)
      (drain_queue env ctx snap (map (\<lambda>tc. (tc, policy_decision policy tc)) calls)))
      (\<lambda>_ es. es = concat (map tool_events (tc # calls))) (\<lambda>es. prefix es (concat (map tool_events (tc # calls))))"
    by (rule emits_bind [OF dispatch_emits rec]) auto
  then show ?case using d by (simp add: emits_def)
qed

lemma after_outcome_emits:
  "emits su (after_outcome env config ctx turn ms snap n outcome)
     (\<lambda>stop es. \<exists>calls. es = concat (map tool_events calls)
        \<and> (case stop of Finish res \<Rightarrow> calls = [] \<and> reason res \<noteq> MaxTurnsReached \<and> turns_executed res = turn
           | Next_turn _ _ \<Rightarrow> calls \<noteq> []))
     (\<lambda>es. \<exists>calls. prefix es (concat (map tool_events calls)))"
proof -
  let ?calls = "out_proposed_tool_calls outcome"
  have "emits su (bindA (drain_queue env ctx snap (map (\<lambda>tc. (tc, policy_decision (approval_policy config) tc)) ?calls) ms')
      (\<lambda>m. retA (Next_turn m n)))
      (\<lambda>stop es. \<exists>calls. es = concat (map tool_events calls)
        \<and> (case stop of Finish res \<Rightarrow> calls = [] \<and> reason res \<noteq> MaxTurnsReached \<and> turns_executed res = turn
           | Next_turn _ _ \<Rightarrow> calls \<noteq> []))
     (\<lambda>es. \<exists>calls. prefix es (concat (map tool_events calls)))"
    if "?calls \<noteq> []" "\<forall>tc\<in>set ?calls. call_action (approval_policy config) tc \<noteq> Ask" for ms'
    by (rule emits_bind [OF drain_emits [OF that(2)] emits_ret [where P = "\<lambda>y es. es = [] \<and> (\<exists>m. y = Next_turn m n)" and Q = "\<lambda>_. False"]])
      (use that(1) in \<open>auto intro: exI [of _ ?calls]\<close>)
  then show ?thesis
    by (auto simp: after_outcome_def Let_def drain_new intro!: emits_ret emits_throw split: option.split)
qed

lemma compact_silent: "silent su (compact_if_over env config n ms)"
  by (auto simp: compact_if_over_def run_compactor_def intro!: silent_bind silent_compact)

lemma run_turn_emits:
  "emits su (run_turn env config ctx tools turn ms n)
     (\<lambda>stop es. \<exists>t. es = turn_events (ctx_run_id ctx) t
        \<and> (case stop of Finish res \<Rightarrow> snd t = [] \<and> reason res \<noteq> MaxTurnsReached \<and> turns_executed res = turn
           | Next_turn _ _ \<Rightarrow> snd t \<noteq> []))
     (\<lambda>es. \<exists>t. prefix es (turn_events (ctx_run_id ctx) t))"
proof -
  have llm: "silent su (call_llm_with_retry env ctx m tools (retry config))" for m
    by (simp add: call_llm_with_retry_def silent_attempts)
  have tail: "emits su (bindA (forA (\<lambda>h. after_inference h ctx snap) (hooks env)) (\<lambda>_. after_outcome env config ctx turn m snap k outcome))
      (\<lambda>stop es. \<exists>calls. es = Ev_inferred # concat (map tool_events calls)
        \<and> (case stop of Finish res \<Rightarrow> calls = [] \<and> reason res \<noteq> MaxTurnsReached \<and> turns_executed res = turn
           | Next_turn _ _ \<Rightarrow> calls \<noteq> []))
      (\<lambda>es. \<exists>calls. prefix es (Ev_inferred # concat (map tool_events calls)))" for m snap k outcome
    by (rule emits_bind [OF hook_emits(2) [OF one_hook] after_outcome_emits]) auto
  have inner: "emits su (bindA (call_llm_with_retry env ctx m tools (retry config)) (\<lambda>outcome.
      bindA (forA (\<lambda>h. after_inference h ctx snap) (hooks env)) (\<lambda>_.
        after_outcome env config ctx turn m snap (k outcome) outcome)))
      (\<lambda>stop es. \<exists>calls. es = Ev_inferred # concat (map tool_events calls)
        \<and> (case stop of Finish res \<Rightarrow> calls = [] \<and> reason res \<noteq> MaxTurnsReached \<and> turns_executed res = turn
           | Next_turn _ _ \<Rightarrow> calls \<noteq> []))
      (\<lambda>es. \<exists>calls. prefix es (Ev_inferred # concat (map tool_events calls)))" for m snap k
    by (rule emits_bind [OF llm [unfolded silent_def] tail]) auto
  have hook: "emits su (bindA (forA (\<lambda>h. before_inference h ctx (map project m)) (hooks env)) (\<lambda>_.
      bindA (call_llm_with_retry env ctx m tools (retry config)) (\<lambda>outcome.
      bindA (forA (\<lambda>h. after_inference h ctx (map project m)) (hooks env)) (\<lambda>_.
        after_outcome env config ctx turn m (map project m) (k outcome) outcome))))
      (\<lambda>stop es. \<exists>t. es = turn_events (ctx_run_id ctx) t
        \<and> (case stop of Finish res \<Rightarrow> snd t = [] \<and> reason res \<noteq> MaxTurnsReached \<and> turns_executed res = turn
           | Next_turn _ _ \<Rightarrow> snd t \<noteq> []))
      (\<lambda>es. \<exists>t. prefix es (turn_events (ctx_run_id ctx) t))" for m k
    by (rule emits_bind [OF hook_emits(1) [OF one_hook] inner]) (auto simp: turn_events_def split: turn_end.splits)
  show ?thesis
    unfolding run_turn_def [abs_def] Let_def
    by (rule emits_guard, simp, rule emits_bind [OF compact_silent [unfolded silent_def] hook]) auto
qed

lemma run_turns_emits:
  "emits su (run_turns env config ctx tools turns ms n)
     (\<lambda>res es. \<exists>tr. es = concat (map (turn_events (ctx_run_id ctx)) tr) \<and> turns_full turns res tr)
     (\<lambda>es. \<exists>tr. length tr \<le> length turns \<and> prefix es (concat (map (turn_events (ctx_run_id ctx)) tr)))"
proof (induction turns arbitrary: ms n)
  case Nil
  show ?case by (auto simp: emits_def turns_full_def max_turns_result_def)
next
  case (Cons turn turns)
  let ?ev = "turn_events (ctx_run_id ctx)"
  have next_step: "emits su (case stop of Finish result \<Rightarrow> retA result
        | Next_turn ms' n' \<Rightarrow> run_turns env config ctx tools turns ms' n')
      (\<lambda>res es. \<exists>tr. es = concat (map ?ev tr) \<and>
         (case stop of Finish result \<Rightarrow> res = result \<and> tr = [] | Next_turn _ _ \<Rightarrow> turns_full turns res tr))
      (\<lambda>es. \<exists>tr. length tr \<le> length turns \<and> prefix es (concat (map ?ev tr)))" for stop
    using Cons.IH by (cases stop) (auto intro: emits_ret)
  show ?case
    unfolding run_turns.simps
  proof (rule emits_bind [OF run_turn_emits next_step])
    fix es assume "\<exists>t. prefix es (?ev t)"
    then obtain t where "prefix es (?ev t)" ..
    then show "\<exists>tr. length tr \<le> length (turn # turns) \<and> prefix es (concat (map ?ev tr))"
      by (intro exI [of _ "[t]"]) simp
  next
    fix stop a b
    assume "\<exists>t. a = ?ev t \<and> (case stop of Finish res \<Rightarrow> snd t = [] \<and> reason res \<noteq> MaxTurnsReached \<and> turns_executed res = turn
           | Next_turn _ _ \<Rightarrow> snd t \<noteq> [])"
      and "\<exists>tr. length tr \<le> length turns \<and> prefix b (concat (map ?ev tr))"
    then obtain t tr where "a = ?ev t" "length tr \<le> length turns" "prefix b (concat (map ?ev tr))" by auto
    then show "\<exists>tr. length tr \<le> length (turn # turns) \<and> prefix (a @ b) (concat (map ?ev tr))"
      by (intro exI [of _ "t # tr"]) simp
  next
    fix stop res a b
    assume "\<exists>t. a = ?ev t \<and> (case stop of Finish res \<Rightarrow> snd t = [] \<and> reason res \<noteq> MaxTurnsReached \<and> turns_executed res = turn
           | Next_turn _ _ \<Rightarrow> snd t \<noteq> [])"
      and "\<exists>tr. b = concat (map ?ev tr) \<and>
         (case stop of Finish result \<Rightarrow> res = result \<and> tr = [] | Next_turn _ _ \<Rightarrow> turns_full turns res tr)"
    then obtain t tr where tr: "a = ?ev t" "b = concat (map ?ev tr)"
      and t: "case stop of Finish res \<Rightarrow> snd t = [] \<and> reason res \<noteq> MaxTurnsReached \<and> turns_executed res = turn
           | Next_turn _ _ \<Rightarrow> snd t \<noteq> []"
      and full: "case stop of Finish result \<Rightarrow> res = result \<and> tr = [] | Next_turn _ _ \<Rightarrow> turns_full turns res tr"
      by blast
    have "turns_full (turn # turns) res (t # tr)"
      using t full by (cases stop) (auto simp: turns_full_def nth_Cons' split: if_splits)
    with tr have "a = ?ev t" "b = concat (map ?ev tr)" "turns_full (turn # turns) res (t # tr)" by auto
    then show "\<exists>tr. a @ b = concat (map ?ev tr) \<and> turns_full (turn # turns) res tr"
      by (intro exI [of _ "t # tr"]) simp
  qed
qed

lemma run_agent_trace:
  assumes "run_agent env config ctx ms tools s = (r, s')"
  shows "\<exists>es. rec_log s' = rec_log s @ map (show_event su) es \<and>
    (\<exists>tr. length tr \<le> max_turns config \<and>
       (case r of
          Inl _ \<Rightarrow> prefix es (concat (map (turn_events (ctx_run_id ctx)) tr))
        | Inr res \<Rightarrow> es = concat (map (turn_events (ctx_run_id ctx)) tr) \<and> length tr = turns_executed res
            \<and> (\<forall>t\<in>set (butlast tr). snd t \<noteq> []) \<and> (snd (last tr) = [] \<longleftrightarrow> reason res \<noteq> MaxTurnsReached)))"
proof (cases "max_turns config = 0")
  case True
  with assms show ?thesis by (auto simp: run_agent_def intro!: exI [of _ "[]"])
next
  case False
  let ?turns = "[1 ..< Suc (max_turns config)]" and ?ev = "turn_events (ctx_run_id ctx)"
  have run: "run_turns env config ctx tools ?turns ms 0 s = (r, s')" using assms False by (simp add: run_agent_def)
  then obtain es where es: "rec_log s' = rec_log s @ map (show_event su) es"
    "case r of Inr res \<Rightarrow> \<exists>tr. es = concat (map ?ev tr) \<and> turns_full ?turns res tr
      | Inl _ \<Rightarrow> \<exists>tr. length tr \<le> length ?turns \<and> prefix es (concat (map ?ev tr))"
    using run_turns_emits unfolding emits_def by blast
  show ?thesis
  proof (cases r)
    case (Inl e)
    with es(2) obtain tr where "length tr \<le> max_turns config" "prefix es (concat (map ?ev tr))"
      by (auto simp del: upt_Suc)
    with es(1) Inl show ?thesis by auto
  next
    case (Inr res)
    with es obtain tr where tr: "es = concat (map ?ev tr)" "turns_full ?turns res tr" by auto
    have "reason res = MaxTurnsReached \<longrightarrow> turns_executed res = max_turns config"
      using run_turns_result [OF run [unfolded Inr]] False by (simp add: result_shape_def del: upt_Suc)
    with tr(2) False have "length tr \<le> max_turns config" "length tr = turns_executed res"
      "\<forall>t\<in>set (butlast tr). snd t \<noteq> []" "snd (last tr) = [] \<longleftrightarrow> reason res \<noteq> MaxTurnsReached"
      by (cases tr rule: rev_cases; auto simp: turns_full_def nth_append simp del: upt_Suc split: if_splits)+
    with es(1) tr(1) Inr show ?thesis by (intro exI [of _ es] conjI exI [of _ tr]) simp_all
  qed
qed

end

text \<open>Under \<open>AcceptAll\<close> no call waits for the user.\<close>

lemma accept_all_never_waits:
  assumes "approval_policy config = AcceptAll"
    and "run_turns env config ctx tools turns ms n s = (Inr res, s')"
  shows "reason res \<noteq> WaitingForApproval"
  using assms(2)
proof (induction turns arbitrary: ms n s)
  case Nil
  then show ?case by (auto simp: max_turns_result_def)
next
  case (Cons turn turns)
  have "reason r \<noteq> WaitingForApproval" if "run_turn env config ctx tools turn ms n s = (Inr (Finish r), s1)" for r s1
    using that by (auto simp: run_turn_def after_outcome_def Let_def bindA_eq_Inr assms(1) call_action_def split: if_splits option.splits)
  moreover obtain stop s1 where "run_turn env config ctx tools turn ms n s = (Inr stop, s1)"
    and "(case stop of Finish result \<Rightarrow> retA result | Next_turn ms' n' \<Rightarrow> run_turns env config ctx tools turns ms' n') s1 = (Inr res, s')"
    using Cons.prems by (auto simp: bindA_eq_Inr)
  ultimately show ?case using Cons.IH by (cases stop) auto
qed

interpretation smoke: recorded_run "smoke_env h client" "sm_show_uuid h" for h :: "('w, 's) smoke_host" and client
proof
  show "silent (sm_show_uuid h) (compact (smoke_env h client) pms)" for pms
    by (simp add: smoke_env_def passthrough_compact_def Let_def)
  show "silent (sm_show_uuid h) (execute_tool_call (smoke_env h client) ctx tc)" for ctx tc
    by (simp add: smoke_env_def echo_execute_def)
qed (simp_all add: smoke_env_def)

section \<open>Properties\<close>

text \<open>
  C24. What the smoke test prints. When it succeeds, the lines of the hook are the rendering of one to three
  turns, each an inference with its end followed by a begun and an ended call for every call of the turn, in
  order; every turn but the last has calls; the last has none exactly when the run ended with a final answer,
  and otherwise the budget of three turns is used up. No call is left pending.
\<close>

theorem smoke_prints_its_turns:
  assumes "smoke_main h args w = (Inr (res, lines), w')"
  shows "\<exists>tr. lines = map (show_event (sm_show_uuid h)) (concat (map (turn_events (fst (sm_uuids h))) tr))
    \<and> length tr = turns_executed res \<and> 1 \<le> length tr \<and> length tr \<le> 3 \<and> pending_tool_calls res = []
    \<and> (\<forall>t\<in>set (butlast tr). snd t \<noteq> [])
    \<and> (reason res = FinalAnswerReached \<and> snd (last tr) = []
       \<or> reason res = MaxTurnsReached \<and> snd (last tr) \<noteq> [] \<and> length tr = 3)"
proof -
  let ?ctx = "\<lparr>ctx_run_id = fst (sm_uuids h), ctx_session_id = snd (sm_uuids h)\<rparr>"
  obtain client s where run: "run_agent (smoke_env h client) smoke_config ?ctx (smoke_messages (smoke_message args)) [echo_tool]
      \<lparr>rec_log = [], rest = w\<rparr> = (Inr res, s)" and lines: "lines = rec_log s"
    using assms by (auto simp: smoke_main_def split: sum.splits prod.splits)
  have cfg: "max_turns smoke_config = 3" "approval_policy smoke_config = AcceptAll"
    by (simp_all add: smoke_config_def)
  have turns: "run_turns (smoke_env h client) smoke_config ?ctx [echo_tool] [1 ..< Suc 3] (smoke_messages (smoke_message args)) 0
      \<lparr>rec_log = [], rest = w\<rparr> = (Inr res, s)" using run cfg(1) by (simp add: run_agent_def del: upt_Suc)
  have shape: "result_shape smoke_config res" using run_turns_result [OF turns] cfg(1) by simp
  have "reason res \<noteq> WaitingForApproval" by (rule accept_all_never_waits [OF cfg(2) turns])
  with shape have "reason res = FinalAnswerReached \<or> reason res = MaxTurnsReached"
    "pending_tool_calls res = []" "1 \<le> turns_executed res" "reason res = MaxTurnsReached \<longrightarrow> turns_executed res = 3"
    using cfg(1) by (cases "reason res"; simp add: result_shape_def)+
  with smoke.run_agent_trace [OF run] lines cfg(1) show ?thesis by auto
qed

section \<open>Witnesses\<close>

text \<open>A host whose world counts completions: the first asks for the tool, the second answers.\<close>

definition wit_smoke_provider :: provider_config where
  "wit_smoke_provider = \<lparr>pc_type = ''openai-compatible'', api_endpoint = ''e'', api_key_env = ''K''\<rparr>"

definition wit_smoke_profile :: profile where
  "wit_smoke_profile = \<lparr>pf_model = None, pf_tiers = \<lparr>tier_eco = ''p/m'', tier_smart = None\<rparr>,
     pf_providers = [(''p'', wit_smoke_provider)],
     pf_schemas = \<lparr>pinned_schemas = [], auto_update = Off, auto_update_window = OffHours\<rparr>\<rparr>"

definition wit_smoke_host :: "(nat, string) smoke_host" where
  "wit_smoke_host =
     \<lparr>sm_sdk = \<lparr>env_var = (\<lambda>_ _. Some ''x''), with_config = (\<lambda>_ _. None),
        sdk_generate = (\<lambda>_ _ _ _ _ w. (Inr (if w = 0 then ''call'' else ''{}''), Suc w)), elapsed_millis = (\<lambda>_ _. 0)\<rparr>,
      sm_toml = \<lparr>toml_bundle = (\<lambda>_. None), toml_profile = (\<lambda>_. Inr wit_smoke_profile)\<rparr>,
      sm_serde = wit_serde\<lparr>reply_of_json := (\<lambda>s. Inr \<lparr>thinking = None, reply_final_text = Some ''ok'',
        reply_tool_calls = (if s = ''call'' then [\<lparr>jtc_id = ''a'', jtc_name = ''echo'', jtc_arguments = JNull\<rparr>] else [])\<rparr>)\<rparr>,
      sm_show_error = (\<lambda>s. s), sm_show_uuid = (\<lambda>_. ''u''), sm_uuids = (1, 2), sm_path_of = (\<lambda>s. [s]),
      sm_read = (\<lambda>_. Inr []), sm_sleep = (\<lambda>_ w. w), sm_now = (\<lambda>_. 0), sm_rfc2822 = (\<lambda>_. None), sm_powi = (\<lambda>x n. x)\<rparr>"

definition wit_smoke_call :: proposed_tool_call where
  "wit_smoke_call = \<lparr>tc_id = ''a'', tc_name = ''echo'', tc_arguments = JNull, tc_metadata = None\<rparr>"

definition wit_smoke_model :: resolved_model where
  "wit_smoke_model = \<lparr>rs_provider_key = ''p'', rs_model_id = ''m'', rs_provider_type = ''openai-compatible'',
     rs_api_endpoint = ''e'', rs_api_key_env = ''K'', rs_tier = Eco\<rparr>"

lemma wit_smoke_client: "smoke_client wit_smoke_host 0 = Inr (openai_complete (sm_sdk wit_smoke_host) wit_smoke_model)"
proof -
  have "split_once (CHR ''/'') ''p/m'' = Some (''p'', ''m'')" by code_simp
  then have "(resolve_for_tier wit_smoke_profile None None Eco :: string ai_error + resolved_model) = Inr wit_smoke_model"
    by (simp add: resolve_for_tier_def wit_smoke_profile_def split_model_id_def wit_smoke_provider_def wit_smoke_model_def)
  then show ?thesis
    by (simp add: smoke_client_def smoke_profile_path_def wit_smoke_host_def from_toml_def real_client_new_def build_provider_def)
      (simp add: wit_smoke_model_def)
qed

lemma wit_smoke_turn:
  "generate_turn (smoke_env wit_smoke_host (openai_complete (sm_sdk wit_smoke_host) wit_smoke_model)) ctx ms tools s =
     (Inr \<lparr>out_final_text = Some ''ok'', out_proposed_tool_calls = (if rest s = 0 then [wit_smoke_call] else []),
       usage_input_tokens = 0, usage_output_tokens = 0\<rparr>, s\<lparr>rest := Suc (rest s)\<rparr>)"
proof -
  have t: "str_trim ''{}'' = ''{}''" "str_trim ''call'' = ''call''"
    by (simp_all add: str_trim_fixed unspaced_def white_space_chars starts_with_def)
  have f: "\<not> starts_with ''```'' ''{}''" "\<not> starts_with ''```'' ''call''" by (simp_all add: starts_with_def)
  have "build_json_prompt js ms tools \<noteq> []" for js by (simp add: build_json_prompt_def writeln_def)
  then show ?thesis
    by (simp add: smoke_env_def json_generate_turn_def on_rest_def openai_complete_def read_api_key_def bindA_def map_errA_def
        wit_smoke_host_def parse_json_response_def strip_fences_plain [OF t(1) f(1)] strip_fences_plain [OF t(2) f(2)]
        proposed_call_def wit_smoke_call_def)
qed

theorem smoke_prints_its_turns_witness:
  "\<exists>res lines tr. smoke_main wit_smoke_host [] 0 = (Inr (res, lines), 2)
     \<and> lines = map (show_event (\<lambda>_. ''u'')) (concat (map (turn_events 1) tr)) \<and> length tr = 2"
proof -
  let ?env = "smoke_env wit_smoke_host (openai_complete (sm_sdk wit_smoke_host) wit_smoke_model)"
  obtain lines where run: "smoke_main wit_smoke_host [] 0 =
      (Inr (\<lparr>reason = FinalAnswerReached, final_text = ''ok'', turns_executed = 2, pending_tool_calls = []\<rparr>, lines), 2)"
  proof -
    have cfg: "max_turns smoke_config = 3" "approval_policy smoke_config = AcceptAll" "max_attempts (retry smoke_config) = 4"
      "compaction_threshold_tokens smoke_config = 70000"
      by (simp_all add: smoke_config_def agent_loop_config_default_def retry_config_default_def)
    have env: "hooks ?env = [recording_hook (sm_show_uuid wit_smoke_host)]" "is_cancelled ?env s = False"
      "reduce ?env = passthrough_reduce" "execute_tool_call ?env = echo_execute" for s
      by (simp_all add: smoke_env_def)
    have "[1 ..< Suc 3] = [1, 2, 3]" by (simp add: upt_rec)
    then show thesis
      using that
      by (simp add: smoke_main_def wit_smoke_client run_agent_def cfg env run_turn_def compact_if_over_def run_reducer_def
          passthrough_reduce_def call_llm_ok wit_smoke_turn recording_hook_def push_line_def after_outcome_def Let_def
          bindA_def drain_new dispatch_call_def tool_result_content_def echo_execute_def wit_smoke_call_def
          policy_decision_def call_action_def initial_state_def saturating_add64_def)
  qed
  show ?thesis using smoke_prints_its_turns [OF run] run by (auto simp: wit_smoke_host_def)
qed

end
