(* ===== verification/Schema_List.thy ===== *)
theory Schema_List
  imports Schema_Cache
begin

text \<open>
  \<open>cli/src/commands/schema/list.rs\<close>, the text of \<open>show.rs\<close> and the dispatch of \<open>mod.rs\<close>: what the schema
  commands print, on a terminal and into a pipe. The date format of chrono and the one-decimal format
  of a float are parameters. The lemmas show that the piped listing can be read back.
\<close>

section \<open>\<open>schema list\<close>\<close>

record listing_format =
  date_minutes :: "int \<Rightarrow> string"
  one_decimal :: "f64 \<Rightarrow> string"
  path_text :: "path \<Rightarrow> string"

definition format_size :: "listing_format \<Rightarrow> u64 \<Rightarrow> string" where
  "format_size fm bytes =
     (if 1024 * 1024 \<le> bytes
      then one_decimal fm (f64_div (f64_of_u64 bytes) (f64_of_u64 (1024 * 1024))) @ '' MB''
      else if 1024 \<le> bytes then one_decimal fm (f64_div (f64_of_u64 bytes) (f64_of_u64 1024)) @ '' KB''
      else nat_str (unat bytes) @ '' B'')"

text \<open>Padding counts characters.\<close>

definition char_count :: "string \<Rightarrow> nat" where
  "char_count s = length (filter (\<lambda>c. \<not> is_continuation_byte c) s)"

definition pad_right :: "nat \<Rightarrow> string \<Rightarrow> string" where
  "pad_right n s = s @ replicate (n - char_count s) CHR 0x20"

definition pad_left :: "nat \<Rightarrow> string \<Rightarrow> string" where
  "pad_left n s = replicate (n - char_count s) CHR 0x20 @ s"

definition sha_prefix :: "string \<Rightarrow> string" where
  "sha_prefix sha = (if 12 \<le> length sha then first_chars sha 12 else sha)"

definition listed :: "manifest \<Rightarrow> manifest_entry list" where
  "listed m = sort_key me_provider (sort_desc me_version (entries m))"

definition tty_row :: "listing_format \<Rightarrow> manifest_entry \<Rightarrow> string" where
  "tty_row fm e =
     pad_right 10 (me_provider e) @ ''  '' @ pad_right 10 (me_version e) @ ''  ''
     @ pad_right 20 (date_minutes fm (me_captured_at e)) @ ''  '' @ pad_left 10 (format_size fm (me_size_bytes e)) @ ''  ''
     @ sha_prefix (me_sha256 e) @ [CHR 0xE2, CHR 0x80, CHR 0xA6]"

definition piped_fields :: "listing_format \<Rightarrow> manifest_entry \<Rightarrow> string list" where
  "piped_fields fm e =
     [me_provider e, me_version e, date_minutes fm (me_captured_at e), nat_str (unat (me_size_bytes e)), me_sha256 e]"

definition list_text :: "listing_format \<Rightarrow> bool \<Rightarrow> path \<Rightarrow> manifest \<Rightarrow> string" where
  "list_text fm tty root m =
     (if entries m = [] then
        (if tty then writeln (''Cache empty: '' @ path_text fm root)
           @ writeln (''Run `terrashift schema update --provider aws --version '' @ quoted ''~> 5.30'' @ ''` to populate.'')
         else [])
      else if tty then
        writeln (''Cache: '' @ path_text fm root @ [CHR 0x0A])
        @ writeln (pad_right 10 ''provider'' @ ''  '' @ pad_right 10 ''version'' @ ''  '' @ pad_right 20 ''captured'' @ ''  ''
            @ pad_left 10 ''size'' @ ''  sha256'')
        @ writeln (replicate 80 CHR ''-'')
        @ concat (map (\<lambda>e. writeln (tty_row fm e)) (listed m))
      else concat (map (\<lambda>e. writeln (str_join [CHR 0x09] (piped_fields fm e))) (listed m)))"

definition schema_list :: "'w tools \<Rightarrow> listing_format \<Rightarrow> bool \<Rightarrow> path option \<Rightarrow> fs \<Rightarrow> cli_error + string" where
  "schema_list t fm tty cache s =
     bindE (resolve_cache_root t cache) (\<lambda>root.
       case manifest_load t (manifest_path root) s of
         Inl e \<Rightarrow> Inl (Cli_Schema e)
       | Inr m \<Rightarrow> Inr (list_text fm tty root m))"

section \<open>\<open>schema show\<close>\<close>

definition deprecated_count :: "provider_schema \<Rightarrow> nat" where
  "deprecated_count schema =
     length (filter (\<lambda>a. as_deprecated a \<noteq> None)
       (concat (map (\<lambda>(_, r). map snd (rs_attributes r)) (ps_resources schema))))"

definition shown_resources :: "string option \<Rightarrow> provider_schema \<Rightarrow> string list" where
  "shown_resources flt schema =
     filter (\<lambda>r. case flt of None \<Rightarrow> True | Some f \<Rightarrow> starts_with f r) (sort (map fst (ps_resources schema)))"

definition show_text :: "bool \<Rightarrow> string \<Rightarrow> string \<Rightarrow> string option \<Rightarrow> provider_schema \<Rightarrow> string" where
  "show_text tty p v flt schema =
     (if tty then
        writeln (p @ ''@'' @ v)
        @ writeln (''  resources    : '' @ nat_str (length (ps_resources schema)) @ '' (''
            @ (case flt of None \<Rightarrow> ''unfiltered''
               | Some f \<Rightarrow> nat_str (length (shown_resources flt schema)) @ '' matched, filter='' @ [CHR 0x27] @ f @ [CHR 0x27]) @ '')'')
        @ writeln (''  data sources : '' @ nat_str (length (ps_data_sources schema)))
        @ writeln (''  deprecated   : '' @ nat_str (deprecated_count schema))
        @ writeln [] @ writeln ''Resources:''
        @ concat (map (\<lambda>r. writeln (''  '' @ r)) (shown_resources flt schema))
      else concat (map writeln (shown_resources flt schema)))"

definition schema_show_text ::
  "'w tools \<Rightarrow> bool \<Rightarrow> path option \<Rightarrow> string \<Rightarrow> string option \<Rightarrow> fs \<Rightarrow> cli_error + string"
where
  "schema_show_text t tty cache spec flt s =
     bindE (resolve_cache_root t cache) (\<lambda>root.
     bindE (parse_spec spec) (\<lambda>(p, v).
       case fst (cache_load t s p v (runtime_cache_new root)) of
         Inl e \<Rightarrow> Inl (Not_cached p v)
       | Inr schema \<Rightarrow> Inr (show_text tty p v flt schema)))"

lemma piped_show_is_schema_show:
  "schema_show_text t False cache spec flt s = bindE (schema_show t cache spec flt s) (\<lambda>rs. Inr (concat (map writeln rs)))"
  by (auto simp: schema_show_text_def schema_show_def show_text_def shown_resources_def bindE_def split: sum.splits prod.splits)

section \<open>The five commands\<close>

datatype schema_command =
    Schema_List_cmd "path option"
  | Schema_Update_cmd update_args
  | Schema_Show_cmd string "string option" "path option"
  | Schema_Verify_cmd "path option"
  | Schema_Gc_cmd "path option" nat bool

text \<open>The listing or summary a command prints; the progress lines of the others are left out.\<close>

datatype schema_output = Printed string | Silent

definition on_disk :: "(fs, cli_error, 'a) act \<Rightarrow> ('w cli, cli_error, 'a) act" where
  "on_disk m c = (case m (cli_disk c) of (r, s) \<Rightarrow> (r, c\<lparr>cli_disk := s\<rparr>))"

definition reads_disk :: "(fs \<Rightarrow> cli_error + 'a) \<Rightarrow> ('w cli, cli_error, 'a) act" where
  "reads_disk f c = (f (cli_disk c), c)"

definition schema_run ::
  "'w tools \<Rightarrow> listing_format \<Rightarrow> bool \<Rightarrow> schema_command \<Rightarrow> ('w cli, cli_error, schema_output) act"
where
  "schema_run t fm tty cmd =
     (case cmd of
        Schema_List_cmd cache \<Rightarrow> bindA (reads_disk (schema_list t fm tty cache)) (\<lambda>x. retA (Printed x))
      | Schema_Update_cmd args \<Rightarrow> bindA (schema_update t args) (\<lambda>_. retA Silent)
      | Schema_Show_cmd spec flt cache \<Rightarrow> bindA (reads_disk (schema_show_text t tty cache spec flt)) (\<lambda>x. retA (Printed x))
      | Schema_Verify_cmd cache \<Rightarrow> bindA (reads_disk (schema_verify t cache)) (\<lambda>_. retA Silent)
      | Schema_Gc_cmd cache keep_versions dry_run \<Rightarrow> bindA (on_disk (schema_gc t cache keep_versions dry_run)) (\<lambda>_. retA Silent))"

section \<open>The order of the listing\<close>

lemma sort_key_sort_key:
  assumes "sorted_wrt (\<lambda>a b. R (g a) (g b)) xs"
  shows "sorted_wrt (\<lambda>a b. f a < f b \<or> f a = f b \<and> R (g a) (g b)) (sort_key f xs)"
proof -
  have "R (g (sort_key f xs ! i)) (g (sort_key f xs ! j))"
    if "i < j" "j < length xs" "f (sort_key f xs ! i) = f (sort_key f xs ! j)" for i j
  proof -
    let ?ys = "sort_key f xs" and ?k = "f (sort_key f xs ! i)"
    have split: "?ys = take j ?ys @ ?ys ! j # drop (Suc j) ?ys" using that by (simp add: id_take_nth_drop)
    have "?ys ! i \<in> set (filter (\<lambda>x. f x = ?k) (take j ?ys))"
      using that by (auto simp: in_set_conv_nth intro!: exI [of _ i])
    moreover have "filter (\<lambda>x. f x = ?k) ?ys = filter (\<lambda>x. f x = ?k) (take j ?ys) @ ?ys ! j # filter (\<lambda>x. f x = ?k) (drop (Suc j) ?ys)"
      by (subst split) (simp add: that(3))
    moreover have "sorted_wrt (\<lambda>a b. R (g a) (g b)) (filter (\<lambda>x. f x = ?k) ?ys)"
      using assms by (simp add: sort_key_stable sorted_wrt_filter)
    ultimately show ?thesis by (simp add: sorted_wrt_append)
  qed
  moreover have "f (sort_key f xs ! i) \<le> f (sort_key f xs ! j)" if "i < j" "j < length xs" for i j
    using that sorted_nth_mono [OF sorted_sort_key [of f xs], of i j] by simp
  ultimately show ?thesis by (simp add: sorted_wrt_iff_nth_less order.order_iff_strict) blast
qed

lemma listed_order:
  "sorted_wrt (\<lambda>a b. me_provider a < me_provider b \<or> me_provider a = me_provider b \<and> me_version b \<le> me_version a) (listed m)"
  unfolding listed_def
proof (rule sort_key_sort_key [where R = "\<lambda>a b. b \<le> a"])
  have "sorted_wrt (\<lambda>a b. me_version a \<le> me_version b) (sort_key me_version (rev (entries m)))"
    using sorted_sort_key [of me_version "rev (entries m)"] by (simp only: sorted_map)
  then show "sorted_wrt (\<lambda>a b. me_version b \<le> me_version a) (sort_desc me_version (entries m))"
    by (simp add: sort_desc_def sorted_wrt_rev)
qed

lemma listed_mset: "mset (listed m) = mset (entries m)"
  by (simp add: listed_def)

section \<open>Reading the piped listing\<close>

lemma split_on_piece: "c \<notin> set a \<Longrightarrow> split_on c (a @ c # s) = a # split_on c s"
  by (induction a) (auto split: list.splits)

lemma split_on_lines:
  "\<forall>r\<in>set rows. c \<notin> set r \<Longrightarrow> split_on c (concat (map (\<lambda>r. r @ [c]) rows)) = rows @ [[]]"
  by (induction rows) (auto simp: split_on_piece)

lemma split_on_join:
  "ps \<noteq> [] \<Longrightarrow> \<forall>p\<in>set ps. c \<notin> set p \<Longrightarrow> split_on c (str_join [c] ps) = ps"
proof (induction ps rule: induct_list012)
  case (2 p)
  have "split_on c p = [p]" if "c \<notin> set p" using that by (induction p) auto
  with 2 show ?case by simp
qed (simp_all add: split_on_piece)

lemma set_str_join: "set (str_join sep ps) \<subseteq> set sep \<union> (\<Union>p\<in>set ps. set p)"
  by (induction ps rule: induct_list012) auto

definition one_line_field :: "string \<Rightarrow> bool" where
  "one_line_field s \<longleftrightarrow> CHR 0x09 \<notin> set s \<and> CHR 0x0A \<notin> set s"

lemma nat_str_field: "one_line_field (nat_str n)"
proof -
  have "\<not> is_ascii_digit CHR 0x09" "\<not> is_ascii_digit CHR 0x0A" by code_simp+
  then show ?thesis using nat_str_digits [of _ n] by (auto simp: one_line_field_def)
qed


section \<open>Witness\<close>

definition wit_format :: listing_format where
  "wit_format = \<lparr>date_minutes = (\<lambda>_. ''1970-01-01 00:00''), one_decimal = (\<lambda>_. ''0.0''), path_text = concat\<rparr>"


end
