(* ===== verification/Embedding.thy ===== *)
theory Embedding
  imports Knowledge
begin

text \<open>
  \<open>StubEmbeddingService\<close> of \<open>libs/knowledge/src/embedding.rs\<close>, the embedding model the CLI runs with: a
  character histogram, a length bucket, a pattern of hash bits, scaled to length one. The arithmetic of
  \<open>f32\<close> and the hash of the standard library are parameters, as in the retrieval layer. The lemmas show
  for which dimensions it returns, and that the stores never see a vector of another length.
\<close>

section \<open>Characters\<close>

fun scalar_value :: "nat list \<Rightarrow> nat" where
  "scalar_value [a] = a"
| "scalar_value [a, b] = a mod 32 * 64 + b mod 64"
| "scalar_value [a, b, c] = a mod 16 * 4096 + b mod 64 * 64 + c mod 64"
| "scalar_value [a, b, c, d] = a mod 8 * 262144 + b mod 64 * 4096 + c mod 64 * 64 + d mod 64"
| "scalar_value _ = 0"

definition utf8_len :: "nat \<Rightarrow> nat" where
  "utf8_len a = (if a < 128 then 1 else if a < 224 then 2 else if a < 240 then 3 else 4)"

function scalar_values :: "nat list \<Rightarrow> nat list" where
  "scalar_values bs =
     (case bs of [] \<Rightarrow> []
      | a # _ \<Rightarrow> scalar_value (take (utf8_len a) bs) # scalar_values (drop (utf8_len a) bs))"
  by pat_completeness auto
termination
  by (relation "measure length") (auto simp: utf8_len_def)

declare scalar_values.simps [simp del]

section \<open>The vector of a text\<close>

record embedding_unit = fpu +
  f32_add :: "f32 \<Rightarrow> f32 \<Rightarrow> f32"
  f32_div :: "f32 \<Rightarrow> f32 \<Rightarrow> f32"
  f32_sqrt :: "f32 \<Rightarrow> f32"
  default_hash :: "string \<Rightarrow> u64"

definition f32_one :: f32 where "f32_one = 0x3F800000"

definition f32_tenth :: f32 where "f32_tenth = 0x3DCCCCCD"

definition DEFAULT_EMBEDDING_DIM :: nat where
  "DEFAULT_EMBEDDING_DIM = 1024"

record stub_embedding =
  se_dim :: nat

definition stub_embedding_new :: stub_embedding where
  "stub_embedding_new = \<lparr>se_dim = DEFAULT_EMBEDDING_DIM\<rparr>"

definition with_dimension :: "nat \<Rightarrow> stub_embedding" where
  "with_dimension dim = \<lparr>se_dim = dim\<rparr>"

definition histogram :: "embedding_unit \<Rightarrow> nat \<Rightarrow> string \<Rightarrow> f32 list \<Rightarrow> f32 list" where
  "histogram fu buckets text v =
     fold (\<lambda>c v. let i = c mod buckets in v[i := f32_add fu (v ! i) f32_one]) (scalar_values (map of_char text)) v"

definition add_hash_bits :: "embedding_unit \<Rightarrow> u64 \<Rightarrow> f32 list \<Rightarrow> f32 list" where
  "add_hash_bits fu h v =
     map (\<lambda>(i, slot). f32_add fu slot (f32_mul fu (if bit h (i mod 64) then f32_one else 0) f32_tenth)) (List.enumerate 0 v)"

definition normalised :: "embedding_unit \<Rightarrow> f32 list \<Rightarrow> f32 list" where
  "normalised fu v =
     (let norm = f32_sqrt fu (f32_sum fu (map (\<lambda>x. f32_mul fu x x) v)) in
      if f32_less 0 norm then map (\<lambda>x. f32_div fu x norm) v else v)"

text \<open>\<open>None\<close> is the panic of the remainder by zero: a text with a character and no bucket to put it in.\<close>

definition embed_one :: "embedding_unit \<Rightarrow> stub_embedding \<Rightarrow> string \<Rightarrow> f32 list option" where
  "embed_one fu e text =
     (let dim = se_dim e; buckets = min dim 256 in
      if buckets = 0 \<and> text \<noteq> [] then None
      else
        let v = histogram fu buckets text (replicate dim 0);
            v = (if 256 < dim then v[length text mod (dim - 256) + 256 := f32_one] else v)
        in Some (normalised fu (add_hash_bits fu (default_hash fu text) v)))"

definition stub_embed_batch :: "embedding_unit \<Rightarrow> stub_embedding \<Rightarrow> string list \<Rightarrow> f32 list list option" where
  "stub_embed_batch fu e texts = those (map (embed_one fu e) texts)"

section \<open>The dimension of every vector\<close>

lemma length_histogram [simp]: "length (histogram fu buckets text v) = length v"
proof -
  have "length (fold (\<lambda>c v. let i = c mod buckets in v[i := f32_add fu (v ! i) f32_one]) cs v) = length v" for cs
    by (induction cs arbitrary: v) (simp_all add: Let_def)
  then show ?thesis by (simp add: histogram_def)
qed

lemma embed_one_None: "embed_one fu e s = None \<longleftrightarrow> se_dim e = 0 \<and> s \<noteq> []"
  by (auto simp: embed_one_def Let_def min_def)

lemma embed_one_length: "embed_one fu e s = Some v \<Longrightarrow> length v = se_dim e"
  by (auto simp: embed_one_def Let_def normalised_def add_hash_bits_def split: if_splits)

lemma embed_one_defined: "0 < se_dim e \<Longrightarrow> \<exists>v. embed_one fu e s = Some v \<and> length v = se_dim e"
  using embed_one_None [of fu e s] embed_one_length [of fu e s] by (cases "embed_one fu e s") auto

lemma stub_embed_batch_defined:
  assumes "0 < se_dim e"
  shows "stub_embed_batch fu e texts = Some (map (\<lambda>t. the (embed_one fu e t)) texts)"
proof (induction texts)
  case (Cons t texts)
  with embed_one_defined [OF assms, of fu t] show ?case by (auto simp: stub_embed_batch_def)
qed (simp add: stub_embed_batch_def)

section \<open>The service the CLI builds\<close>

text \<open>Used with a positive dimension, for which a batch always returns.\<close>

definition stub_services ::
  "embedding_unit \<Rightarrow> stub_embedding
     \<Rightarrow> (string \<Rightarrow> string \<Rightarrow> string \<Rightarrow> ('w, registry_error, provider_schema) act) \<Rightarrow> 'w services"
where
  "stub_services fu e fetch =
     \<lparr>embed_batch = (\<lambda>texts. retA (the (stub_embed_batch fu e texts))),
      fetch_registry = fetch, float_unit = fpu.truncate fu\<rparr>"

lemma stub_embeds:
  assumes "0 < se_dim e"
  shows "\<exists>v. embed (stub_services fu e fetch) s w = (Inr v, w) \<and> length v = se_dim e"
  using embed_one_defined [OF assms, of fu s]
  by (auto simp: embed_def stub_services_def stub_embed_batch_defined [OF assms] bindA_def)

lemma schema_rows_vectors: "r \<in> set (schema_rows schema vecs) \<Longrightarrow> vr_embedding r \<in> set vecs"
  by (auto simp: schema_rows_def Let_def in_set_zip)

lemma stub_index_succeeds:
  assumes "0 < se_dim e" "vs_dim (vectors k) = se_dim e"
  shows "fst (index_schema (stub_services fu e fetch) schema k) = Inr (length (ps_resources schema))"
proof (cases "ps_resources schema = []")
  case True
  then show ?thesis by (simp add: index_schema_def bindA_def store_schema_def split: prod.split)
next
  case False
  let ?vecs = "map (\<lambda>t. the (embed_one fu e t)) (map embedding_text (ps_resources schema))"
  have vecs: "length v = se_dim e" if v: "v \<in> set ?vecs" for v
  proof -
    obtain s where "v = the (embed_one fu e s)" using v by auto
    with embed_one_defined [OF assms(1), of fu s] show ?thesis by auto
  qed
  have none: "find (\<lambda>r. length (vr_embedding r) \<noteq> vs_dim (vectors k)) (schema_rows schema ?vecs) = None"
    using assms(2) vecs [OF schema_rows_vectors] by (simp only: find_None_iff) blast
  obtain st' where "upsert (schema_rows schema ?vecs) (vectors k) = Inr st'"
    unfolding upsert_def none by simp
  with False show ?thesis
    by (simp add: index_schema_def stub_services_def stub_embed_batch_defined [OF assms(1)] map_errA_def on_world_def
        bindA_def store_schema_def upsert_rows_def Let_def split: prod.split)
qed

text \<open>
  C40. The retrieval the CLI assembles cannot fail: with the stub embedding and a vector store of the same positive
  dimension, after any sequence of syncs, seedings, first launches and queries, whatever the registry answers,
  seeding a schema stores a vector for each of its resource types and every query returns matches.
\<close>

theorem stub_retrieval_succeeds:
  assumes "0 < se_dim e"
  shows "let svc = stub_services fu e fetch;
      k = fold (run_op svc) ops \<lparr>schemas = st, vectors = vector_store_new (se_dim e), world = w\<rparr> in
    fst (seed_provider svc schema k) = Inr (length (ps_resources schema))
    \<and> (\<exists>ms. fst (find_similar_resources svc query top_k k) = Inr ms \<and> length ms \<le> top_k)"
proof -
  let ?svc = "stub_services fu e fetch"
  let ?k = "fold (run_op ?svc) ops \<lparr>schemas = st, vectors = vector_store_new (se_dim e), world = w\<rparr>"
  have agree: "stores_agree (se_dim e) ?k" by (rule stores_agree_reachable)
  then have dim: "vs_dim (vectors ?k) = se_dim e" by (simp add: stores_agree_def)
  obtain v where v: "embed ?svc query (world ?k) = (Inr v, world ?k)" "length v = se_dim e"
    using stub_embeds [OF assms, of fu fetch query "world ?k"] by blast
  obtain hits where hits: "vector_search (float_unit ?svc) v top_k (vectors ?k) = Inr hits"
    using v(2) dim by (simp add: vector_search_def)
  have "fst (find_similar_resources ?svc query top_k ?k) = resolve_hits (schemas ?k) hits"
    using v hits by (simp add: find_similar_resources_def map_errA_def bindA_def on_world_def)
  moreover have "\<nexists>err. resolve_hits st hs = Inl err \<and> (\<nexists>e'. err = Schema e')" for st hs
    by (induction hs) (auto simp: Let_def split: sum.splits option.splits)
  ultimately have "\<exists>ms. fst (find_similar_resources ?svc query top_k ?k) = Inr ms \<and> length ms \<le> top_k"
    using retrieval_sound [OF agree, where svc = ?svc and query = query and top_k = top_k] by (cases "resolve_hits (schemas ?k) hits") auto
  then show ?thesis using stub_index_succeeds [OF assms dim] by (simp add: Let_def seed_provider_def)
qed

text \<open>Arithmetic that keeps its first operand.\<close>

definition wit_unit :: embedding_unit where
  "wit_unit = \<lparr>f32_mul = (\<lambda>x _. x), f32_sum = (\<lambda>_. f32_one), f32_add = (\<lambda>x _. x), f32_div = (\<lambda>x _. x), f32_sqrt = (\<lambda>x. x),
     default_hash = (\<lambda>_. 5)\<rparr>"

theorem stub_retrieval_succeeds_witness:
  "let svc = stub_services wit_unit (with_dimension 384) (\<lambda>_ _ _. throwA (Registry_Http []));
      k = fold (run_op svc) [Op_sync ''hashicorp'' ''aws'' ''1'', Op_find ''vpc'' 3]
        \<lparr>schemas = schemas wit_knowledge, vectors = vector_store_new (se_dim (with_dimension 384)), world = 0\<rparr> in
    fst (seed_provider svc (wit_provider_schema [''a'', ''b'']) k) = Inr (length (ps_resources (wit_provider_schema [''a'', ''b''])))
    \<and> (\<exists>ms. fst (find_similar_resources svc ''subnet'' 5 k) = Inr ms \<and> length ms \<le> 5)"
  by (rule stub_retrieval_succeeds) (simp add: with_dimension_def)

end
