(* ===== verification/Cli_Entry.thy ===== *)
theory Cli_Entry
  imports Migrate_Examples Tui Schema_List
begin

text \<open>
  \<open>cli/src/main.rs\<close> and \<open>cli/src/commands/schema/install_hint.rs\<close>: the commands of the binary on one
  machine, the interface it starts without a command, the exit status and what is printed on an error; and
  the provider types of \<open>libs/ai/src/providers\<close> that are not wired yet. Argument parsing is not modelled:
  a command arrives as a value. The lemmas show which commands write nothing.
\<close>

section \<open>The install hint\<close>

text \<open>The targets the conditional compilation tells apart.\<close>

datatype target_os = Macos | Linux | Windows | Other_os

definition brew_hint :: string where
  "brew_hint = writeln [] @ writeln ''  macOS (Homebrew):'' @ writeln ''    brew tap hashicorp/tap''
     @ writeln ''    brew install hashicorp/tap/terraform''"

definition apt_hint :: string where
  "apt_hint = writeln [] @ writeln ''  Debian/Ubuntu:''
     @ writeln (''    wget -O- https://apt.releases.hashicorp.com/gpg | '' @ [CHR 0x5C])
     @ writeln ''      sudo gpg --dearmor -o /usr/share/keyrings/hashicorp-archive-keyring.gpg''
     @ writeln (''    echo '' @ [CHR 0x22] @ ''deb [arch=$(dpkg --print-architecture) signed-by=/usr/share/keyrings/hashicorp-archive-keyring.gpg] '' @ [CHR 0x5C])
     @ writeln (''      https://apt.releases.hashicorp.com $(lsb_release -cs) main'' @ [CHR 0x22] @ '' | '' @ [CHR 0x5C])
     @ writeln ''      sudo tee /etc/apt/sources.list.d/hashicorp.list''
     @ writeln ''    sudo apt update && sudo apt install terraform''"

definition choco_hint :: string where
  "choco_hint = writeln [] @ writeln ''  Windows (Chocolatey):'' @ writeln ''    choco install terraform''
     @ writeln [] @ writeln ''  Windows (winget):'' @ writeln ''    winget install --id Hashicorp.Terraform''"

definition install_hint :: "target_os \<Rightarrow> string" where
  "install_hint tos =
     writeln ''hint: install terraform >= 1.0''
     @ (case tos of Macos \<Rightarrow> brew_hint | Linux \<Rightarrow> apt_hint | Windows \<Rightarrow> choco_hint | Other_os \<Rightarrow> [])
     @ writeln [] @ writeln ''  Or download a release binary:''
     @ writeln ''    https://developer.hashicorp.com/terraform/install''
     @ writeln [] @ ''After install, re-run `terrashift schema update`.''"

text \<open>What \<open>schema update\<close> writes to the error stream when \<open>terraform\<close> cannot be run.\<close>

definition terraform_unavailable_text :: "target_os \<Rightarrow> string \<Rightarrow> string" where
  "terraform_unavailable_text tos why =
     writeln (''error: terraform CLI unavailable: '' @ why) @ writeln [] @ writeln (install_hint tos)"

section \<open>Providers that are declared and not wired\<close>

definition anthropic_complete :: "('w, 's) llm_client" where
  "anthropic_complete t prompt = throwA (UnsupportedProviderType ''anthropic'')"

definition gemini_complete :: "('w, 's) llm_client" where
  "gemini_complete t prompt = throwA (UnsupportedProviderType ''gemini'')"

definition bedrock_complete :: "('w, 's) llm_client" where
  "bedrock_complete t prompt = throwA (UnsupportedProviderType ''bedrock'')"

definition stub_provider :: "string \<Rightarrow> ('w, 's) llm_client option" where
  "stub_provider = [''anthropic'' \<mapsto> anthropic_complete, ''gemini'' \<mapsto> gemini_complete, ''bedrock'' \<mapsto> bedrock_complete]"

text \<open>\<open>build_provider\<close> answers at once what the stub would answer at the first call.\<close>

lemma fail_fast_is_the_stubs_answer:
  assumes "stub_provider (rs_provider_type m) = Some c"
  shows "build_provider sdk m = Inl e \<longleftrightarrow> c t prompt w = (Inl e, w)"
  using assms
  by (auto simp: stub_provider_def build_provider_def anthropic_complete_def gemini_complete_def bedrock_complete_def
      throwA_def split: if_splits)

section \<open>The commands of the binary\<close>

datatype terrashift_command =
    Version
  | Migrate_cmd migrate_args
  | Schema_cmd schema_command
  | Scan_cmd string

datatype 's run_error =
    Migrate_failed "'s migrate_error"
  | Schema_failed cli_error
  | Scan_failed scanner_error
  | Tui_failed string

datatype run_output =
    Version_text string
  | Migrate_ended migrate_end
  | Schema_text schema_output
  | Scan_text string
  | Tui_ended session_end

text \<open>
  What the binary finds: what the migration and the schema commands use of it, the interface's view of the
  machine, the keys that are pressed, the path given with \<open>--profile\<close>, and the two version numbers the
  build fixes. The conversion of an error into the texts of its chain is \<open>anyhow\<close>'s.
\<close>

record ('w, 's, 'x) installation =
  for_migrate :: "('w, 's, 'x) surroundings"
  for_schemas :: "'w tools"
  listing :: listing_format
  stdout_is_tty :: bool
  for_tui :: "'x tui_env"
  tui_faults :: term_faults
  tui_ticks :: "tick list"
  profile_arg :: "path option"
  pkg_version :: string
  pkg_rust_version :: string
  error_chain :: "'s run_error \<Rightarrow> string list"

record 'w host =
  machine_of :: "'w cli"
  terminal_of :: terminal

definition print_version :: "('w, 's, 'x) installation \<Rightarrow> string" where
  "print_version ins =
     writeln (''terrashift '' @ pkg_version ins) @ writeln (''rust       '' @ pkg_rust_version ins)"

definition run_migrate_cmd :: "('w, 's, 'x) installation \<Rightarrow> migrate_args \<Rightarrow> ('w host, 's run_error, run_output) act" where
  "run_migrate_cmd ins args h =
     (let c = machine_of h in
      case migrate (for_migrate ins) (profile_arg ins) args \<lparr>disk = cli_disk c, around = cli_world c\<rparr> of
        (r, s) \<Rightarrow>
          ((case r of Inl e \<Rightarrow> Inl (Migrate_failed e) | Inr x \<Rightarrow> Inr (Migrate_ended x)),
           h\<lparr>machine_of := c\<lparr>cli_disk := disk s, cli_world := around s\<rparr>\<rparr>))"

definition run_schema_cmd :: "('w, 's, 'x) installation \<Rightarrow> schema_command \<Rightarrow> ('w host, 's run_error, run_output) act" where
  "run_schema_cmd ins cmd h =
     (case schema_run (for_schemas ins) (listing ins) (stdout_is_tty ins) cmd (machine_of h) of
        (r, c) \<Rightarrow>
          ((case r of Inl e \<Rightarrow> Inl (Schema_failed e) | Inr x \<Rightarrow> Inr (Schema_text x)), h\<lparr>machine_of := c\<rparr>))"

definition seen_by_tui :: "('w, 's, 'x) installation \<Rightarrow> 'w host \<Rightarrow> 'x tui_env" where
  "seen_by_tui ins h = (for_tui ins)\<lparr>te_disk := cli_disk (machine_of h)\<rparr>"

definition run_scan_cmd :: "('w, 's, 'x) installation \<Rightarrow> string \<Rightarrow> ('w host, 's run_error, run_output) act" where
  "run_scan_cmd ins dir h =
     ((case cli_scan (seen_by_tui ins h) dir of Inl e \<Rightarrow> Inl (Scan_failed e) | Inr x \<Rightarrow> Inr (Scan_text x)), h)"

text \<open>A profile path that cannot be found out is left out of the status line.\<close>

definition launch_tui :: "('w, 's, 'x) installation \<Rightarrow> ('w host, 's run_error, run_output) act" where
  "launch_tui ins h =
     (let c = machine_of h; sr = for_migrate ins;
          found = (case fst (resolve_profile_path sr (profile_arg ins) \<lparr>disk = cli_disk c, around = cli_world c\<rparr>) of
                     Inl e \<Rightarrow> None | Inr p \<Rightarrow> Some p);
          status = launch_status (for_schemas ins) (\<lambda>v. map_option (path_of sr) (var_os sr (cli_world c) v)) found (cli_disk c)
      in case start_tui (seen_by_tui ins h) (tui_faults ins) (tui_ticks ins) status (terminal_of h) of
           (r, tm) \<Rightarrow>
             ((case r of Io_failed e \<Rightarrow> Inl (Tui_failed e) | _ \<Rightarrow> Inr (Tui_ended r)), h\<lparr>terminal_of := tm\<rparr>))"

fun run :: "('w, 's, 'x) installation \<Rightarrow> terrashift_command option \<Rightarrow> ('w host, 's run_error, run_output) act" where
  "run ins (Some Version) = retA (Version_text (print_version ins))"
| "run ins (Some (Migrate_cmd args)) = run_migrate_cmd ins args"
| "run ins (Some (Schema_cmd cmd)) = run_schema_cmd ins cmd"
| "run ins (Some (Scan_cmd dir)) = run_scan_cmd ins dir"
| "run ins None = launch_tui ins"

text \<open>The status is \<open>None\<close> while the interface waits for a key; a panic of the main thread ends with 101.\<close>

definition error_text :: "string list \<Rightarrow> string" where
  "error_text chain =
     (case chain of
        [] \<Rightarrow> []
      | e # causes \<Rightarrow> writeln (''error: '' @ e) @ concat (map (\<lambda>c. writeln (''  caused by: '' @ c)) causes))"

definition exit_code :: "'s run_error + run_output \<Rightarrow> nat option" where
  "exit_code r =
     (case r of
        Inl e \<Rightarrow> Some 1
      | Inr (Tui_ended Panicked) \<Rightarrow> Some 101
      | Inr (Tui_ended Running) \<Rightarrow> None
      | Inr out \<Rightarrow> Some 0)"

definition terrashift ::
  "('w, 's, 'x) installation \<Rightarrow> terrashift_command option \<Rightarrow> 'w host \<Rightarrow> (nat option \<times> string) \<times> 'w host"
where
  "terrashift ins cmd h =
     (case run ins cmd h of
        (r, h') \<Rightarrow> ((exit_code r, case r of Inl e \<Rightarrow> error_text (error_chain ins e) | Inr out \<Rightarrow> []), h'))"

section \<open>A dry run writes nothing\<close>

lemma bindA_keeps:
  assumes "\<And>s. f (snd (m s)) = f s" "\<And>x s. f (snd (k x s)) = f s"
  shows "f (snd (bindA m k s)) = f s"
  using assms by (simp add: bindA_def split: prod.splits sum.splits) (metis snd_conv)

lemma repair_plan_disk: "disk (snd (repair_plan sr llm t k ver p s)) = disk s"
  by (simp add: repair_plan_def Let_def split: sum.splits prod.splits)

lemma gate_disk: "disk (snd (article_iii_gate sr llm t k tp p s)) = disk s"
  unfolding article_iii_gate_def
  by (auto simp: retA_def repair_plan_disk split: option.splits intro!: bindA_keeps)

lemma dry_migrate_plan_disk:
  assumes "dry_run args"
  shows "disk (snd (migrate_plan sr llm t args k n p s)) = disk s"
  using assms gate_disk [of sr llm t k "to_provider args" p s]
  by (auto simp: migrate_plan_def split: prod.splits sum.splits)

lemma dry_migrate_disk:
  assumes "dry_run args"
  shows "disk (snd (migrate sr profile_file args s)) = disk s"
  unfolding migrate_def
  by (intro bindA_keeps)
    (auto simp: resolve_profile_path_def load_profile_def build_knowledge_service_def scan_source_def map_source_def
      retA_def dry_migrate_plan_disk [OF assms] split: prod.splits sum.splits option.splits intro!: bindA_keeps)

section \<open>The commands that only read\<close>

text \<open>The commands that are documented as listings, checks and previews; and the interface.\<close>

fun read_only :: "terrashift_command option \<Rightarrow> bool" where
  "read_only (Some (Migrate_cmd args)) = dry_run args"
| "read_only (Some (Schema_cmd (Schema_Update_cmd args))) = False"
| "read_only (Some (Schema_cmd (Schema_Gc_cmd cache n dry))) = dry"
| "read_only cmd = True"

lemma schema_gc_dry: "snd (schema_gc t cache n True s) = s"
  by (simp add: schema_gc_def split: sum.splits)

lemma schema_run_keeps:
  assumes "read_only (Some (Schema_cmd cmd))"
  shows "snd (schema_run t fm tty cmd c) = c"
proof -
  have "snd (Schema_List.on_disk (schema_gc t cache n True) c) = c" for cache n
    using schema_gc_dry [of t cache n "cli_disk c"] by (auto simp: Schema_List.on_disk_def split: prod.splits)
  with assms show ?thesis
    by (cases cmd) (auto simp: schema_run_def bindA_def retA_def reads_disk_def split: sum.splits prod.splits,
        (metis snd_conv)+)
qed

lemma run_keeps:
  assumes "read_only cmd"
  shows "cli_disk (machine_of (snd (run ins cmd h))) = cli_disk (machine_of h)"
    and "cli_audit (machine_of (snd (run ins cmd h))) = cli_audit (machine_of h)"
proof -
  have mig: "cli_disk (machine_of (snd (run_migrate_cmd ins args h))) = cli_disk (machine_of h)"
      "cli_audit (machine_of (snd (run_migrate_cmd ins args h))) = cli_audit (machine_of h)"
    if "dry_run args" for args
    using dry_migrate_disk [OF that, of "for_migrate ins" "profile_arg ins"
        "\<lparr>disk = cli_disk (machine_of h), around = cli_world (machine_of h)\<rparr>"]
    by (auto simp: run_migrate_cmd_def Let_def split: prod.splits)
  have sch: "machine_of (snd (run_schema_cmd ins c h)) = machine_of h" if "read_only (Some (Schema_cmd c))" for c
    using schema_run_keeps [OF that, of "for_schemas ins" "listing ins" "stdout_is_tty ins" "machine_of h"]
    by (auto simp: run_schema_cmd_def split: prod.splits)
  have tui: "machine_of (snd (launch_tui ins h)) = machine_of h"
    by (simp add: launch_tui_def Let_def split: prod.splits)
  have scan: "snd (run_scan_cmd ins dir h) = h" for dir by (simp add: run_scan_cmd_def)
  show "cli_disk (machine_of (snd (run ins cmd h))) = cli_disk (machine_of h)"
      "cli_audit (machine_of (snd (run ins cmd h))) = cli_audit (machine_of h)"
    using assms mig sch tui scan by (cases "(ins, cmd)" rule: run.cases; force simp: retA_def)+
qed

text \<open>C29. The commands that are listings, checks and previews (\<open>version\<close>, \<open>scan\<close>, \<open>schema list\<close>, \<open>show\<close> and
  \<open>verify\<close>, \<open>schema gc --dry-run\<close>, \<open>migrate --dry-run\<close>) and the interface leave every file and the audit
  log as they are, whatever the machine holds and however they end.\<close>

theorem reading_commands_write_nothing:
  assumes "read_only cmd" "terrashift ins cmd h = ((code, err), h')"
  shows "cli_disk (machine_of h') = cli_disk (machine_of h) \<and> cli_audit (machine_of h') = cli_audit (machine_of h)"
proof -
  have "h' = snd (run ins cmd h)" using assms(2) by (auto simp: terrashift_def split: prod.splits)
  then show ?thesis by (simp add: run_keeps [OF assms(1)])
qed

section \<open>Witness\<close>

definition wit_installation :: "(nat, string, unit) installation" where
  "wit_installation = \<lparr>for_migrate = ex_surroundings, for_schemas = wit_tools, listing = wit_format, stdout_is_tty = True,
     for_tui = \<lparr>te_disk = wit_disk, te_path_of = (\<lambda>s. [s]), te_reader = wit_reader, te_tree = (\<lambda>_. None), te_show_error = (\<lambda>_. [])\<rparr>, tui_faults = no_term_faults, tui_ticks = [], profile_arg = None, pkg_version = ''0.1.0'',
     pkg_rust_version = ''1.80'', error_chain = (\<lambda>_. [''failed''])\<rparr>"

definition wit_console :: "nat host" where
  "wit_console = \<lparr>machine_of = wit_cli\<lparr>cli_disk := wit_disk\<rparr>,
     terminal_of = \<lparr>raw_mode = False, alternate_screen = False, mouse_capture = False\<rparr>\<rparr>"

theorem reading_commands_write_nothing_witness:
  "\<exists>code err h'. terrashift wit_installation (Some (Migrate_cmd (ex_args\<lparr>dry_run := True\<rparr>))) wit_console = ((code, err), h')
     \<and> cli_disk (machine_of h') = wit_disk"
proof -
  let ?cmd = "Some (Migrate_cmd (ex_args\<lparr>dry_run := True\<rparr>))"
  obtain code err h' where "terrashift wit_installation ?cmd wit_console = ((code, err), h')"
    by (metis surj_pair)
  with reading_commands_write_nothing [of ?cmd] show ?thesis by (fastforce simp: wit_console_def)
qed

end
