(* ===== verification/Spec2Isabelle.thy ===== *)
theory Spec2Isabelle
  imports Agent_Loop Shell_Policy Audit_Store Validator Generator Optimizer Migrate_Examples Schema_Cache Creds Eval_Gate Tui Notify
    Xtask Agent_Smoke Schema_List Embedding Cli_Entry
begin

text \<open>
  Terrashift migrates Terraform configurations from one cloud provider to another. This development models
  the Rust workspace under \<open>src/\<close>: the command line binary (\<open>src/cli\<close>), the terminal interface
  (\<open>src/tui\<close>), the libraries (\<open>src/libs\<close>) and the task runner of the build (\<open>src/xtask\<close>).

  \<^bold>\<open>The program.\<close> \<open>terrashift migrate\<close> is a pipeline. The scanner reads the \<open>.tf\<close> files of an estate
  into an inventory; the mapper asks a language model, with schema context retrieved by the knowledge
  service, for a mapping plan and rejects one it cannot support; the validator compares the plan with
  the pinned provider schema; the recovery agent, which runs the agent kernel with two editing tools,
  repairs a rejected plan; what is still rejected is skipped; the generator renders the rest as HCL and
  moves what it replaces to a backup. Around it stand the executor, which lets a shell line run only if a
  parser finds every command of it and a policy allows each of them; the audit log with its hash chain; the
  credential broker; the cost optimizer, the recovery agent's twin; the schema cache with its commands; the
  notifiers; the golden-file harness with its token-cost gate; and the interface.

  \<^bold>\<open>Conventions.\<close> A Rust \<open>String\<close> is its UTF-8 bytes, a \<open>string\<close> of HOL, and indexing that
  would panic off a character boundary returns an option. A struct is a record, an enum a datatype with
  the source's constructors. A fallible function returns a sum, \<open>Inl\<close> the error; a fallible call that
  changes state is an \<open>act\<close>, a function from a state to a result and the next state, composed with \<open>bindA\<close>
  as the source uses \<open>?\<close>. Unsigned and signed integers are words of their width, with the source's saturating,
  wrapping or checked operation written out; lengths and counts that index a vector are \<open>nat\<close>. A \<open>BTreeMap\<close>
  is a sorted association list, an insertion-ordered map a list, a \<open>HashMap\<close> whose order is never seen a
  function to options. \<open>f64\<close> values are IEEE-754 bit patterns on which comparison, the four operations and
  the casts are computed (\<open>Float64\<close>); \<open>f32\<close> arithmetic, which the sources use for vectors only, is a parameter.
  Async code runs its awaits in order; where two tasks can interleave (the audit store), the interleaving
  is a relation of its own.

  \<^bold>\<open>Theories and sources\<close>, paths below \<open>src/libs\<close> unless they say otherwise.

  \<^item> \<open>Prelude\<close>: \<open>act\<close>, byte strings, ordered maps, words; the collections \<open>act_simps\<close> and \<open>act_rules\<close>; the
    locale \<open>keyed_table\<close> of a list updated by key. \<open>File_System\<close>: files, directories and injected faults.
    \<open>Float64\<close>, \<open>Float_Rounding\<close>: \<open>f64\<close> and the monotonicity of its rounding.
  \<^item> \<open>Agent_Types\<close>, \<open>Approval\<close>, \<open>Retry\<close>, \<open>Agent_Loop\<close>: \<open>agent-core/src\<close>. The messages and results; the
    approval machine of a turn, the retry delay, and \<open>run_agent\<close> over an environment \<open>env\<close> of trait objects.
    Shown: only approved calls reach the executor, every decision has an authorised source, calls are
    dispatched in the proposed order and an answered turn drains, the calls of the model are bounded, a
    completed turn leaves a well-formed thread. The locale \<open>dispatch_queue\<close> is what the loop needs of the
    machine; \<open>approvals\<close> interprets it.
  \<^item> \<open>Shell_Parse\<close>, \<open>Shell_Policy\<close>: \<open>shell-tool-approvals/src\<close> and \<open>engine/src/executor\<close>. The two work lists
    find exactly the commands of a line and of its nested scripts; verdicts form a \<open>linorder\<close> whose
    maximum decides; a destructive line is never run.
  \<^item> \<open>Audit_Scrubber\<close>, \<open>Audit_Store\<close>: \<open>audit/src\<close>. An exported log verifies, the chain head commits to
    the whole log, an entry with a raw key is refused; reopening a store breaks the chain of an
    earlier run, and so do overlapping appends.
  \<^item> \<open>Schema_Store\<close>, \<open>Knowledge\<close>, \<open>Embedding\<close>, \<open>Schema_Fetcher\<close>, \<open>Registry_Client\<close>: \<open>knowledge/src\<close>. The pinned
    schemas (locale \<open>schema_store\<close>, interpretation \<open>local_store\<close>), the vectors (\<open>vector_rows\<close>), the retrieval
    over both, which never dangles, the stub embedding, and the two fetchers.
  \<^item> \<open>Schema_Cache\<close>, \<open>Schema_List\<close>: \<open>knowledge/src/manifest.rs\<close>, \<open>cache.rs\<close> and
    \<open>src/cli/src/commands/schema\<close>. After any updates and collections \<open>verify\<close> passes; the in-memory cache is
    transparent; a piped listing reads back.
  \<^item> \<open>Scanner\<close>, \<open>Mapper\<close>, \<open>Validator\<close>: \<open>engine/src/scanner\<close>, \<open>mapper\<close>, \<open>validator\<close>. The inventory is exact
    and complete, a mapped plan is supported, the validator's findings are characterised one by one.
  \<^item> \<open>Refinement\<close>, \<open>Recovery\<close>, \<open>Optimizer\<close>: \<open>engine/src/recovery\<close> and \<open>cost_optimizer\<close>. Both loops interpret the
    locale \<open>refinement_loop\<close>; their terminal outcomes say what they claim of the returned plan, and a repair
    never adds a resource.
  \<^item> \<open>Templates\<close>, \<open>Generator\<close>: \<open>engine/src/generator\<close>. A block is faithful to its resource, a run rolled back
    restores the files, the order of the resources does not matter.
  \<^item> \<open>Llm_Router\<close>, \<open>Agent_Smoke\<close>: \<open>ai/src\<close> and \<open>src/cli/examples/agent_smoke.rs\<close>. Profile, resolver, clients,
    the JSON adapter; the locale \<open>recorded_run\<close> (interpretation \<open>smoke\<close>) describes a recorded run of the kernel.
  \<^item> \<open>Migrate\<close>, \<open>Migrate_Examples\<close>: \<open>src/cli/src/commands/migrate.rs\<close> and \<open>util.rs\<close>. What the output files hold,
    and that every migrated resource conforms to the schema.
  \<^item> \<open>Creds\<close>, \<open>Notify\<close>, \<open>Eval\<close>, \<open>Eval_Gate\<close>: \<open>creds/src\<close> (locale \<open>credential_broker\<close>), \<open>notify/src\<close> (locale
    \<open>delivering\<close>), \<open>eval/src\<close>. Substitution puts each secret exactly where its reference stood; every child
    notifier is reached; a fixture passes exactly when the expected text is generated; the gate's
    decision equals the one over exact rationals.
  \<^item> \<open>Tui_Input\<close>, \<open>Tui\<close>, \<open>Cli_Entry\<close>: \<open>src/tui/src\<close> and \<open>src/cli/src/main.rs\<close>. The line editor refines a pair of
    character lists, no key makes it panic, the terminal is given back; the commands that only read
    write nothing.
  \<^item> \<open>Xtask\<close>: \<open>src/xtask/src\<close>. A captured cache passes its audit; \<open>resolve-latest\<close> is idempotent.

  \<^bold>\<open>Termination and bounds.\<close> Every operation is total, and computes once its parameters do. Loops over data are structural or have a
  termination proof (the work lists of the shell parser by the size of what is left and the nesting depth the
  code itself limits). The loops the code bounds take that bound as their counter: \<open>max_turns\<close> and
  \<open>max_attempts\<close> in the kernel, the cycles of recovery and optimizer. Nothing is cut off by fuel the
  code does not have. The event loop of the interface runs over the finite list of events that
  arrive and is \<open>Running\<close> when none is left.

  \<^bold>\<open>Parameters.\<close> What is not in the repository is an argument of the definitions: the tree-sitter and \<open>hcl\<close>
  parsers and the HCL printer, JSON and TOML, SHA-256, Ed25519 and zstd, the vendors' SDKs and HTTP, the
  \<open>terraform\<close> process, the operating system's refusals, clocks, random ids, \<open>chrono\<close>'s dates, \<open>semver\<close>,
  \<open>f64::powi\<close>, \<open>f32\<close> arithmetic and float formatting. Hypotheses on them (a signature made with a key verifies
  under it, what a writer writes its reader reads) are named definitions such as \<open>crypto_ok\<close> and \<open>tools_ok\<close>,
  and each property that has one has a witness with the parameter instantiated.

  \<^bold>\<open>Not modelled.\<close> Argument parsing by clap, tracing, the tokio runtime and progress lines on the console; drawing by
  ratatui (the rows, window, cursor and footer it is given are modelled); the SQL table definitions and the opening
  of connection pools; derived formatting and serialisation; module lists and re-exports; the crates \<open>mcp\<close> and
  \<open>shared\<close> and the modules \<open>planner\<close> and \<open>verifier\<close>, which hold comments only; the tests. The rest of
  the implementation is covered: the lines no definition translates are comments, imports, derives, trait
  signatures, test modules and calls into the libraries named above.
\<close>

end
